(* ===== verification/Prelude.thy ===== *)
theory Prelude
  imports Main "HOL-Library.Word" "HOL-Library.Char_ord" "HOL-Library.List_Lexorder"
begin

text \<open>
  Shared vocabulary of the development: the Go types every component uses, errors as values of
  a sum type, the loops over a slice that stop at the first error, and the generic lemmas on
  lists that the component proofs rest on.

  Go strings are byte sequences and a \<^typ>\<open>char\<close> is a byte, so a Go \<^verbatim>\<open>string\<close> is a
  \<^typ>\<open>string\<close>. Both \<^verbatim>\<open>uint64\<close> and \<^verbatim>\<open>int64\<close> are 64-bit words: the code compares
  identifiers for equality, adds one to versions and converts between the two types, and the
  conversion keeps the bits.
\<close>

named_theorems res_simps \<open>equations of the error-stopping loops\<close>
named_theorems inv_intros \<open>invariants kept by the operations of a component\<close>

type_synonym uint64 = "64 word"
type_synonym int64 = "64 word"

text \<open>Signed 64-bit arithmetic on \<^verbatim>\<open>time.Duration\<close> and \<^verbatim>\<open>int64\<close> where it is written with integers.\<close>

definition wrap64 :: "int \<Rightarrow> int" where
  "wrap64 x = (x + 2 ^ 63) mod 2 ^ 64 - 2 ^ 63"

definition int64_range :: "int \<Rightarrow> bool" where
  "int64_range x \<longleftrightarrow> - (2 ^ 63) \<le> x \<and> x < 2 ^ 63"

lemma wrap64_id: "int64_range x \<Longrightarrow> wrap64 x = x"
  by (simp add: wrap64_def int64_range_def)

lemma wrap64_range: "int64_range (wrap64 x)"
  by (simp add: wrap64_def int64_range_def)

text \<open>A difference of times saturates (\<^verbatim>\<open>time.Time.Sub\<close>).\<close>

definition time_Sub :: "int \<Rightarrow> int \<Rightarrow> int" where
  "time_Sub t u = max (- (2 ^ 63)) (min (2 ^ 63 - 1) (t - u))"

text \<open>\<open>show_id\<close> is the decimal text of a 64-bit integer (\<^verbatim>\<open>strconv.FormatInt\<close>, \<^verbatim>\<open>fmt.Sprint\<close>).\<close>

fun nat_digits :: "nat \<Rightarrow> string" where
  "nat_digits n =
     (if n < 10 then [char_of (48 + n)] else nat_digits (n div 10) @ [char_of (48 + n mod 10)])"

declare nat_digits.simps [simp del]

definition show_id :: "int64 \<Rightarrow> string" where
  "show_id i = (if sint i < 0 then ''-'' @ nat_digits (nat (- sint i)) else nat_digits (nat (sint i)))"

text \<open>The status codes the program answers with.\<close>

datatype grpc_code =
    Unavailable | InvalidArgument | FailedPrecondition | Internal | Unauthenticated | PermissionDenied
  | NotFound | AlreadyExists | ResourceExhausted | DataLoss

section \<open>Errors as values\<close>

type_synonym ('e, 'a) res = "'e + 'a"

abbreviation Err :: "'e \<Rightarrow> ('e, 'a) res" where
  "Err \<equiv> Inl"

abbreviation Ok :: "'a \<Rightarrow> ('e, 'a) res" where
  "Ok \<equiv> Inr"

fun rbind :: "('e, 'a) res \<Rightarrow> ('a \<Rightarrow> ('e, 'b) res) \<Rightarrow> ('e, 'b) res" where
  "rbind (Inl e) f = Inl e"
| "rbind (Inr a) f = f a"

lemma rbind_eq_Ok: "rbind m f = Inr b \<longleftrightarrow> (\<exists>a. m = Inr a \<and> f a = Inr b)"
  by (cases m) auto

lemma rbind_eq_Err: "rbind m f = Inl e \<longleftrightarrow> m = Inl e \<or> (\<exists>a. m = Inr a \<and> f a = Inl e)"
  by (cases m) auto

text \<open>
  A loop \<^verbatim>\<open>for _, x := range xs { y, err := f(x); if err != nil { return err }; out = append(out, y) }\<close>.
\<close>

fun mapM :: "('a \<Rightarrow> ('e, 'b) res) \<Rightarrow> 'a list \<Rightarrow> ('e, 'b list) res" where
  "mapM f [] = Inr []"
| "mapM f (x # xs) =
     (case f x of Inl e \<Rightarrow> Inl e
      | Inr y \<Rightarrow> (case mapM f xs of Inl e \<Rightarrow> Inl e | Inr ys \<Rightarrow> Inr (y # ys)))"

text \<open>
  A loop over a slice that threads a state and stops at the first error.
\<close>

fun foldM :: "('a \<Rightarrow> 's \<Rightarrow> ('e, 's) res) \<Rightarrow> 'a list \<Rightarrow> 's \<Rightarrow> ('e, 's) res" where
  "foldM f [] s = Inr s"
| "foldM f (x # xs) s = (case f x s of Inl e \<Rightarrow> Inl e | Inr s' \<Rightarrow> foldM f xs s')"

lemma mapM_Ok_map: "(\<And>x. x \<in> set xs \<Longrightarrow> f x = Inr (g x)) \<Longrightarrow> mapM f xs = Inr (map g xs)"
  by (induction xs) auto

lemma mapM_Ok_length: "mapM f xs = Inr ys \<Longrightarrow> length ys = length xs"
  by (induction xs arbitrary: ys) (auto split: sum.splits)

lemma mapM_Ok_iff: "mapM f xs = Inr ys \<longleftrightarrow> list_all2 (\<lambda>x y. f x = Inr y) xs ys"
proof (induction xs arbitrary: ys)
  case Nil
  then show ?case by auto
next
  case (Cons x xs)
  show ?case
  proof (cases "mapM f xs")
    case (Inl e)
    then have "\<not> list_all2 (\<lambda>x y. f x = Inr y) xs zs" for zs
      using Cons.IH [of zs] by simp
    with Inl show ?thesis by (auto simp: list_all2_Cons1 split: sum.splits)
  next
    case (Inr us)
    then have "list_all2 (\<lambda>x y. f x = Inr y) xs zs \<longleftrightarrow> zs = us" for zs
      using Cons.IH [of zs] by auto
    with Inr show ?thesis by (auto simp: list_all2_Cons1 split: sum.splits)
  qed
qed

lemma mapM_Err_iff: "(\<exists>e. mapM f xs = Inl e) \<longleftrightarrow> (\<exists>x\<in>set xs. \<exists>e. f x = Inl e)"
  by (induction xs) (auto split: sum.splits)

lemma mapM_append [res_simps]:
  "mapM f (xs @ ys) = rbind (mapM f xs) (\<lambda>us. rbind (mapM f ys) (\<lambda>vs. Inr (us @ vs)))"
proof (induction xs)
  case Nil
  then show ?case by (cases "mapM f ys") auto
next
  case (Cons x xs)
  then show ?case
    by (cases "f x"; cases "mapM f xs"; cases "mapM f ys") auto
qed

lemma mapM_map: "mapM f (map g xs) = mapM (f \<circ> g) xs"
  by (induction xs) (auto split: sum.splits)

lemma foldM_append [res_simps]:
  "foldM f (xs @ ys) s = rbind (foldM f xs s) (foldM f ys)"
  by (induction xs arbitrary: s) (auto split: sum.splits)

lemma foldM_map: "foldM f (map g xs) s = foldM (f \<circ> g) xs s"
  by (induction xs arbitrary: s) (auto split: sum.splits)

text \<open>The loop rule: what every step keeps holds at the end, and a total step never fails.\<close>

lemma foldM_invariant:
  assumes "foldM f xs s = Inr s'" and "P s"
    and "\<And>x s s'. x \<in> set xs \<Longrightarrow> P s \<Longrightarrow> f x s = Inr s' \<Longrightarrow> P s'"
  shows "P s'"
  using assms
proof (induction xs arbitrary: s)
  case Nil
  then show ?case by simp
next
  case (Cons x xs)
  then obtain s1 where s1: "f x s = Inr s1" "foldM f xs s1 = Inr s'"
    by (auto split: sum.splits)
  with Cons.prems have "P s1" by auto
  with s1(2) show ?case by (rule Cons.IH) (use Cons.prems(3) in auto)
qed

lemma foldM_total:
  assumes "P s" and "\<And>x s. x \<in> set xs \<Longrightarrow> P s \<Longrightarrow> \<exists>s'. f x s = Inr s' \<and> P s'"
  shows "\<exists>s'. foldM f xs s = Inr s' \<and> P s'"
  using assms
proof (induction xs arbitrary: s)
  case Nil
  then show ?case by auto
next
  case (Cons x xs)
  then obtain s1 where "f x s = Inr s1" "P s1" by (meson list.set_intros(1))
  with Cons show ?case by (auto intro: Cons.IH)
qed

lemma foldM_pure: "foldM (\<lambda>x s. Inr (g x s)) xs s = Inr (fold g xs s)"
  by (induction xs arbitrary: s) auto

section \<open>Slices and strings\<close>

text \<open>
  The \<^verbatim>\<open>seen\<close> idiom: keep the first occurrence of every element, in order
  (\<^const>\<open>remdups\<close> keeps the last one).
\<close>

fun dedup_acc :: "'a list \<Rightarrow> 'a list \<Rightarrow> 'a list" where
  "dedup_acc seen [] = []"
| "dedup_acc seen (x # xs) =
     (if x \<in> set seen then dedup_acc seen xs else x # dedup_acc (x # seen) xs)"

definition dedup :: "'a list \<Rightarrow> 'a list" where
  "dedup xs = dedup_acc [] xs"

lemma set_dedup_acc: "set (dedup_acc seen xs) = set xs - set seen"
  by (induction seen xs rule: dedup_acc.induct) auto

lemma distinct_dedup_acc: "distinct (dedup_acc seen xs)"
  by (induction seen xs rule: dedup_acc.induct) (auto simp: set_dedup_acc)

lemma set_dedup [simp]: "set (dedup xs) = set xs"
  by (simp add: dedup_def set_dedup_acc)

lemma distinct_dedup [simp]: "distinct (dedup xs)"
  by (simp add: dedup_def distinct_dedup_acc)

definition hasPrefix :: "string \<Rightarrow> string \<Rightarrow> bool" where
  "hasPrefix s p \<longleftrightarrow> take (length p) s = p"

definition trimPrefix :: "string \<Rightarrow> string \<Rightarrow> string" where
  "trimPrefix s p = (if hasPrefix s p then drop (length p) s else s)"

fun joinStrings :: "string \<Rightarrow> string list \<Rightarrow> string" where
  "joinStrings sep [] = []"
| "joinStrings sep [s] = s"
| "joinStrings sep (s # ss) = s @ sep @ joinStrings sep ss"

lemma hasPrefix_append [simp]: "hasPrefix (p @ s) p"
  by (simp add: hasPrefix_def)

lemma hasPrefix_iff: "hasPrefix s p \<longleftrightarrow> (\<exists>t. s = p @ t)"
  by (metis append_eq_conv_conj append_take_drop_id hasPrefix_def)

lemma trimPrefix_append [simp]: "trimPrefix (p @ s) p = s"
  by (simp add: trimPrefix_def)

text \<open>
  Removing the first element that satisfies a predicate, as the loops with \<^verbatim>\<open>break\<close> do.
\<close>

fun remove_first :: "('a \<Rightarrow> bool) \<Rightarrow> 'a list \<Rightarrow> 'a list" where
  "remove_first P [] = []"
| "remove_first P (x # xs) = (if P x then xs else x # remove_first P xs)"

lemma remove_first_none: "(\<And>x. x \<in> set xs \<Longrightarrow> \<not> P x) \<Longrightarrow> remove_first P xs = xs"
  by (induction xs) auto

lemma remove_first_filter:
  "(\<And>x y. x \<in> set xs \<Longrightarrow> y \<in> set xs \<Longrightarrow> P x \<Longrightarrow> P y \<Longrightarrow> f x = f y) \<Longrightarrow> distinct (map f xs) \<Longrightarrow>
   remove_first P xs = filter (\<lambda>x. \<not> P x) xs"
proof (induction xs)
  case Nil
  then show ?case by simp
next
  case (Cons x xs)
  show ?case
  proof (cases "P x")
    case True
    have "\<not> P y" if "y \<in> set xs" for y
    proof
      assume "P y"
      with True that Cons.prems(1) have "f x = f y" by simp
      with that Cons.prems(2) show False by (auto simp: image_iff)
    qed
    then have "filter (\<lambda>x. \<not> P x) xs = xs" by (simp add: filter_id_conv)
    with True show ?thesis by simp
  next
    case False
    have "remove_first P xs = filter (\<lambda>x. \<not> P x) xs"
    proof (rule Cons.IH)
      fix x y assume "x \<in> set xs" "y \<in> set xs" "P x" "P y"
      with Cons.prems(1) show "f x = f y" by simp
    next
      from Cons.prems(2) show "distinct (map f xs)" by simp
    qed
    with False show ?thesis by simp
  qed
qed

lemma remove_first_map: "remove_first P (map f xs) = map f (remove_first (P \<circ> f) xs)"
  by (induction xs) auto

lemma filter_remove_first_commute:
  "(\<And>x. P x \<Longrightarrow> Q x) \<Longrightarrow> filter Q (remove_first P xs) = remove_first P (filter Q xs)"
  by (induction xs) auto

lemma remove_first_cong:
  "xs = ys \<Longrightarrow> (\<And>x. x \<in> set ys \<Longrightarrow> P x = Q x) \<Longrightarrow> remove_first P xs = remove_first Q ys"
proof (induction ys arbitrary: xs)
  case Nil
  then show ?case by simp
next
  case (Cons y ys)
  then show ?case by auto
qed

lemma set_remove_first_subset: "set (remove_first P xs) \<subseteq> set xs"
  by (induction xs) auto

text \<open>Dropping a trailing run of elements, and restoring it by padding.\<close>

lemma dropWhile_rev_pad:
  "rev (dropWhile (\<lambda>x. x = d) (rev xs)) @
     replicate (length xs - length (dropWhile (\<lambda>x. x = d) (rev xs))) d = xs"
proof (induction xs rule: rev_induct)
  case Nil
  then show ?case by simp
next
  case (snoc x xs)
  have le: "length (dropWhile (\<lambda>x. x = d) (rev xs)) \<le> length xs"
    by (metis length_dropWhile_le length_rev)
  show ?case
  proof (cases "x = d")
    case True
    have "replicate (Suc (length xs) - length (dropWhile (\<lambda>x. x = d) (rev xs))) d
        = replicate (length xs - length (dropWhile (\<lambda>x. x = d) (rev xs))) d @ [d]"
      using le by (simp add: Suc_diff_le replicate_append_same)
    with True snoc show ?thesis by (simp flip: append_assoc)
  next
    case False
    then show ?thesis by simp
  qed
qed

end
