(* ===== verification/Lru_Cache.thy ===== *)
theory Lru_Cache
  imports Prelude
begin

text \<open>
  The bounded decision cache of the sidecar (\<^verbatim>\<open>internal/sidecar/kernel/cache.go\<close>): a doubly
  linked list of entries in order of use and a map from keys to list elements. The list is the
  sequence of element addresses, front first, and \<open>elems\<close> holds the entry at an address, so that
  the map and the list share elements as in the code. The abstract specification is an
  association list in order of use; the lemmas show that the pointer structure implements it,
  keeps its invariant, and meets the contract of the enforcer's cache interface, stated as the
  locale \<open>decision_cache\<close>.
\<close>

section \<open>The program\<close>

record cache_entry =
  ce_key :: string
  ce_val :: bool

record bounded_cache =
  capacity :: int
  ll :: "nat list"
  elems :: "nat \<Rightarrow> cache_entry"
  items :: "string \<rightharpoonup> nat"
  next_addr :: nat

datatype cache_error = ErrNoSuchKey

definition newBoundedCache :: "int \<Rightarrow> bounded_cache" where
  "newBoundedCache cap =
     \<lparr>capacity = (if cap \<le> 0 then 1 else cap), ll = [],
      elems = (\<lambda>_. \<lparr>ce_key = '''', ce_val = False\<rparr>), items = Map.empty, next_addr = 0\<rparr>"

definition moveToFront :: "nat \<Rightarrow> nat list \<Rightarrow> nat list" where
  "moveToFront el xs = el # filter (\<lambda>e. e \<noteq> el) xs"

definition cache_Set :: "bounded_cache \<Rightarrow> string \<Rightarrow> bool \<Rightarrow> bounded_cache" where
  "cache_Set c key value =
     (case items c key of
        Some el \<Rightarrow>
          c\<lparr>elems := (elems c)(el := (elems c el)\<lparr>ce_val := value\<rparr>), ll := moveToFront el (ll c)\<rparr>
      | None \<Rightarrow>
          (let el = next_addr c;
               c1 = c\<lparr>next_addr := Suc el,
                      elems := (elems c)(el := \<lparr>ce_key = key, ce_val = value\<rparr>),
                      ll := el # ll c,
                      items := (items c)(key \<mapsto> el)\<rparr>
           in if int (length (ll c1)) > capacity c1 then
                (let oldest = last (ll c1)
                 in c1\<lparr>ll := filter (\<lambda>e. e \<noteq> oldest) (ll c1),
                       items := (items c1)(ce_key (elems c1 oldest) := None)\<rparr>)
              else c1))"

definition cache_Get :: "bounded_cache \<Rightarrow> string \<Rightarrow> (cache_error, bool) res \<times> bounded_cache" where
  "cache_Get c key =
     (case items c key of
        None \<Rightarrow> (Inl ErrNoSuchKey, c)
      | Some el \<Rightarrow> (Inr (ce_val (elems c el)), c\<lparr>ll := moveToFront el (ll c)\<rparr>))"

definition cache_Delete :: "bounded_cache \<Rightarrow> string \<Rightarrow> (cache_error, unit) res \<times> bounded_cache" where
  "cache_Delete c key =
     (case items c key of
        None \<Rightarrow> (Inl ErrNoSuchKey, c)
      | Some el \<Rightarrow>
          (Inr (), c\<lparr>ll := filter (\<lambda>e. e \<noteq> el) (ll c), items := (items c)(key := None)\<rparr>))"

definition cache_Clear :: "bounded_cache \<Rightarrow> bounded_cache" where
  "cache_Clear c = c\<lparr>ll := [], items := Map.empty\<rparr>"

section \<open>Abstract specification: an association list in order of use\<close>

type_synonym lru = "(string \<times> bool) list"

definition entry_of :: "cache_entry \<Rightarrow> string \<times> bool" where
  "entry_of e = (ce_key e, ce_val e)"

definition abs_cache :: "bounded_cache \<Rightarrow> lru" where
  "abs_cache c = map (\<lambda>el. entry_of (elems c el)) (ll c)"

definition lru_drop :: "string \<Rightarrow> lru \<Rightarrow> lru" where
  "lru_drop key xs = filter (\<lambda>p. fst p \<noteq> key) xs"

definition lru_set :: "int \<Rightarrow> string \<Rightarrow> bool \<Rightarrow> lru \<Rightarrow> lru" where
  "lru_set cap key value xs =
     (if map_of xs key = None then
        (if int (Suc (length xs)) > cap then butlast ((key, value) # xs) else (key, value) # xs)
      else (key, value) # lru_drop key xs)"

definition lru_touch :: "string \<Rightarrow> lru \<Rightarrow> lru" where
  "lru_touch key xs =
     (case map_of xs key of None \<Rightarrow> xs | Some v \<Rightarrow> (key, v) # lru_drop key xs)"

text \<open>
  The invariant: addresses are used once and below the allocation mark, keys are distinct, the
  map sends exactly the keys of the list to their elements, and the length is within capacity.
\<close>

definition cache_inv :: "bounded_cache \<Rightarrow> bool" where
  "cache_inv c \<longleftrightarrow>
     distinct (ll c) \<and>
     (\<forall>el \<in> set (ll c). el < next_addr c) \<and>
     (\<forall>k el. items c k = Some el \<longleftrightarrow> el \<in> set (ll c) \<and> ce_key (elems c el) = k) \<and>
     int (length (ll c)) \<le> capacity c \<and> 0 < capacity c"

section \<open>Refinement\<close>

lemma cache_inv_items:
  "cache_inv c \<Longrightarrow> items c k = Some el \<longleftrightarrow> el \<in> set (ll c) \<and> ce_key (elems c el) = k"
  by (simp add: cache_inv_def)

lemma cache_inv_key_inj:
  assumes "cache_inv c" "a \<in> set (ll c)" "b \<in> set (ll c)" "ce_key (elems c a) = ce_key (elems c b)"
  shows "a = b"
proof -
  have "items c (ce_key (elems c a)) = Some a"
    using assms by (simp add: cache_inv_items)
  moreover have "items c (ce_key (elems c a)) = Some b"
    using assms by (simp add: cache_inv_items)
  ultimately show ?thesis by simp
qed

lemma distinct_abs_cache: "cache_inv c \<Longrightarrow> distinct (map fst (abs_cache c))"
proof -
  assume inv: "cache_inv c"
  then have "inj_on (\<lambda>el. ce_key (elems c el)) (set (ll c))"
    by (auto simp: inj_on_def dest: cache_inv_key_inj)
  with inv show ?thesis
    by (simp add: abs_cache_def comp_def entry_of_def distinct_map cache_inv_def)
qed

lemma map_of_abs_cache:
  assumes "cache_inv c"
  shows "map_of (abs_cache c) k = map_option (\<lambda>el. ce_val (elems c el)) (items c k)"
proof (cases "items c k")
  case None
  then have "\<forall>e \<in> set (ll c). ce_key (elems c e) \<noteq> k"
    using cache_inv_items [OF assms, of k] by simp
  then have "k \<notin> fst ` set (abs_cache c)"
    by (auto simp: abs_cache_def entry_of_def)
  with None show ?thesis by (simp add: map_of_eq_None_iff)
next
  case (Some el)
  then have "(k, ce_val (elems c el)) \<in> set (abs_cache c)"
    using assms by (force simp: cache_inv_items abs_cache_def entry_of_def image_iff)
  with Some assms show ?thesis
    by (simp add: distinct_abs_cache)
qed

lemma lru_drop_abs:
  assumes "cache_inv c" "items c key = Some el"
  shows "lru_drop key (abs_cache c) =
     map (\<lambda>e. entry_of (elems c e)) (filter (\<lambda>e. e \<noteq> el) (ll c))"
proof -
  have "ce_key (elems c e) \<noteq> key \<longleftrightarrow> e \<noteq> el" if "e \<in> set (ll c)" for e
    using assms that cache_inv_items [of c key] cache_inv_key_inj [of c e el] by auto
  then have "filter (\<lambda>e. ce_key (elems c e) \<noteq> key) (ll c) = filter (\<lambda>e. e \<noteq> el) (ll c)"
    by (rule filter_cong [OF refl])
  then show ?thesis
    by (simp add: lru_drop_def abs_cache_def filter_map comp_def entry_of_def)
qed

lemma cache_inv_moveToFront:
  assumes "cache_inv c" "items c key = Some el"
  shows "cache_inv (c\<lparr>elems := (elems c)(el := (elems c el)\<lparr>ce_val := v\<rparr>), ll := moveToFront el (ll c)\<rparr>)"
proof -
  have el: "el \<in> set (ll c)" using assms by (simp add: cache_inv_items)
  have s: "set (moveToFront el (ll c)) = set (ll c)"
    using el by (auto simp: moveToFront_def)
  have "length (filter (\<lambda>e. e \<noteq> el) (ll c)) < length (ll c)"
    using el by (rule length_filter_less) simp
  then have "length (moveToFront el (ll c)) \<le> length (ll c)"
    by (simp add: moveToFront_def)
  moreover have "distinct (moveToFront el (ll c))"
    using assms(1) by (simp add: moveToFront_def cache_inv_def)
  ultimately show ?thesis
    using assms(1) s by (auto simp: cache_inv_def)
qed

lemma elems_update_id: "(elems c)(el := (elems c el)\<lparr>ce_val := ce_val (elems c el)\<rparr>) = elems c"
  by simp

lemma cache_Set_hit:
  assumes "cache_inv c" "items c key = Some el"
  shows "cache_inv (cache_Set c key v)"
    and "abs_cache (cache_Set c key v) = lru_set (capacity c) key v (abs_cache c)"
proof -
  show "cache_inv (cache_Set c key v)"
    using assms cache_inv_moveToFront [OF assms, of v] by (simp add: cache_Set_def)
  have k: "ce_key (elems c el) = key" using assms by (simp add: cache_inv_items)
  have "map (\<lambda>e. entry_of (((elems c)(el := (elems c el)\<lparr>ce_val := v\<rparr>)) e))
          (filter (\<lambda>e. e \<noteq> el) (ll c)) = lru_drop key (abs_cache c)"
    unfolding lru_drop_abs [OF assms] by (rule map_cong) auto
  then show "abs_cache (cache_Set c key v) = lru_set (capacity c) key v (abs_cache c)"
    using assms k by (simp add: cache_Set_def moveToFront_def lru_set_def map_of_abs_cache)
      (simp add: abs_cache_def [of "c\<lparr>elems := _, ll := _\<rparr>"] entry_of_def)
qed

text \<open>The state after a miss has allocated the new element, before the eviction.\<close>

definition cache_push :: "bounded_cache \<Rightarrow> string \<Rightarrow> bool \<Rightarrow> bounded_cache" where
  "cache_push c key v =
     c\<lparr>next_addr := Suc (next_addr c),
       elems := (elems c)(next_addr c := \<lparr>ce_key = key, ce_val = v\<rparr>),
       ll := next_addr c # ll c,
       items := (items c)(key \<mapsto> next_addr c)\<rparr>"

lemma abs_cache_push:
  "cache_inv c \<Longrightarrow> abs_cache (cache_push c key v) = (key, v) # abs_cache c"
  by (auto simp: cache_push_def abs_cache_def entry_of_def cache_inv_def)

lemma cache_push_items:
  assumes "cache_inv c" "items c key = None"
  shows "items (cache_push c key v) k = Some el \<longleftrightarrow>
    el \<in> set (ll (cache_push c key v)) \<and> ce_key (elems (cache_push c key v) el) = k"
proof -
  have "next_addr c \<notin> set (ll c)" using assms by (auto simp: cache_inv_def)
  moreover have "ce_key (elems c e) \<noteq> key" if "e \<in> set (ll c)" for e
    using assms that cache_inv_items [of c key e] by auto
  ultimately show ?thesis
    using assms(1) by (auto simp: cache_push_def cache_inv_items)
qed

lemma cache_push_distinct: "cache_inv c \<Longrightarrow> distinct (ll (cache_push c key v))"
  by (auto simp: cache_push_def cache_inv_def)

lemma filter_neq_last: "distinct xs \<Longrightarrow> xs \<noteq> [] \<Longrightarrow> filter (\<lambda>e. e \<noteq> last xs) xs = butlast xs"
proof -
  assume "distinct xs" "xs \<noteq> []"
  then obtain ys y where "xs = ys @ [y]" "y \<notin> set ys" by (cases xs rule: rev_cases) auto
  moreover from this have "filter (\<lambda>e. e \<noteq> y) ys = ys" by (auto simp: filter_id_conv)
  ultimately show ?thesis by simp
qed

lemma cache_Set_miss:
  assumes inv: "cache_inv c" and miss: "items c key = None"
  shows "cache_inv (cache_Set c key v)"
    and "abs_cache (cache_Set c key v) = lru_set (capacity c) key v (abs_cache c)"
proof -
  let ?p = "cache_push c key v"
  let ?o = "last (ll ?p)"
  let ?e = "?p\<lparr>ll := filter (\<lambda>e. e \<noteq> ?o) (ll ?p), items := (items ?p)(ce_key (elems ?p ?o) := None)\<rparr>"
  have set_eq: "cache_Set c key v =
      (if int (Suc (length (ll c))) > capacity c then ?e else ?p)"
    using miss by (simp add: cache_Set_def cache_push_def Let_def)
  have ne: "ll ?p \<noteq> []" by (simp add: cache_push_def)
  have bl: "filter (\<lambda>e. e \<noteq> ?o) (ll ?p) = butlast (ll ?p)"
    using cache_push_distinct [OF inv] ne by (rule filter_neq_last)
  have below: "\<forall>el \<in> set (ll ?p). el < next_addr ?p"
    using inv by (auto simp: cache_push_def cache_inv_def)
  have cap: "capacity ?p = capacity c" by (simp add: cache_push_def)
  have "cache_inv ?p" if "int (Suc (length (ll c))) \<le> capacity c"
    using that inv cache_push_items [OF inv miss] cache_push_distinct [OF inv] below cap
    by (auto simp: cache_inv_def cache_push_def)
  moreover have "cache_inv ?e"
  proof -
    have "ce_key (elems ?p a) \<noteq> ce_key (elems ?p ?o)" if "a \<in> set (ll ?p)" "a \<noteq> ?o" for a
      using cache_push_items [OF inv miss, of v "ce_key (elems ?p ?o)" a]
        cache_push_items [OF inv miss, of v "ce_key (elems ?p ?o)" ?o] that ne by auto
    then have it: "items ?e k = Some el \<longleftrightarrow> el \<in> set (ll ?e) \<and> ce_key (elems ?e el) = k" for k el
      using cache_push_items [OF inv miss, of v k el]
        cache_push_items [OF inv miss, of v k ?o] ne by auto
    have "length (ll ?e) = length (ll c)" by (simp add: bl) (simp add: cache_push_def)
    with it show ?thesis
      using inv below cache_push_distinct [OF inv] cap by (auto simp: cache_inv_def)
  qed
  ultimately show "cache_inv (cache_Set c key v)"
    using set_eq by (auto simp: not_less)
  have "abs_cache ?e = butlast ((key, v) # abs_cache c)"
    using bl abs_cache_push [OF inv, of key v] by (simp add: abs_cache_def map_butlast)
  then have "abs_cache (cache_Set c key v) =
      (if int (Suc (length (ll c))) > capacity c then butlast ((key, v) # abs_cache c)
       else (key, v) # abs_cache c)"
    using set_eq abs_cache_push [OF inv, of key v] by simp
  moreover have "length (abs_cache c) = length (ll c)" by (simp add: abs_cache_def)
  moreover have "map_of (abs_cache c) key = None" using inv miss by (simp add: map_of_abs_cache)
  ultimately show "abs_cache (cache_Set c key v) = lru_set (capacity c) key v (abs_cache c)"
    by (simp add: lru_set_def)
qed

lemma cache_Set_refines:
  assumes "cache_inv c"
  shows "cache_inv (cache_Set c key v)"
    and "abs_cache (cache_Set c key v) = lru_set (capacity c) key v (abs_cache c)"
  using cache_Set_hit [OF assms] cache_Set_miss [OF assms] by (cases "items c key"; auto)+

lemma cache_Get_refines:
  assumes "cache_inv c"
  shows "cache_inv (snd (cache_Get c key))"
    and "abs_cache (snd (cache_Get c key)) = lru_touch key (abs_cache c)"
    and "fst (cache_Get c key) =
      (case map_of (abs_cache c) key of None \<Rightarrow> Inl ErrNoSuchKey | Some v \<Rightarrow> Inr v)"
proof -
  show "cache_inv (snd (cache_Get c key))"
  proof (cases "items c key")
    case None
    with assms show ?thesis by (simp add: cache_Get_def)
  next
    case (Some el)
    with cache_inv_moveToFront [OF assms Some, of "ce_val (elems c el)"] show ?thesis
      by (simp add: cache_Get_def elems_update_id)
  qed
  show "abs_cache (snd (cache_Get c key)) = lru_touch key (abs_cache c)"
  proof (cases "items c key")
    case None
    with assms show ?thesis by (simp add: cache_Get_def lru_touch_def map_of_abs_cache)
  next
    case (Some el)
    then have "ce_key (elems c el) = key" using assms by (simp add: cache_inv_items)
    with Some assms show ?thesis
      using lru_drop_abs [OF assms Some]
      by (simp add: cache_Get_def lru_touch_def map_of_abs_cache)
        (simp add: abs_cache_def moveToFront_def entry_of_def)
  qed
  show "fst (cache_Get c key) =
      (case map_of (abs_cache c) key of None \<Rightarrow> Inl ErrNoSuchKey | Some v \<Rightarrow> Inr v)"
    using assms by (cases "items c key") (simp_all add: cache_Get_def map_of_abs_cache)
qed

lemma cache_Delete_refines:
  assumes "cache_inv c"
  shows "cache_inv (snd (cache_Delete c key))"
    and "abs_cache (snd (cache_Delete c key)) = lru_drop key (abs_cache c)"
proof -
  show "cache_inv (snd (cache_Delete c key))"
  proof (cases "items c key")
    case None
    with assms show ?thesis by (simp add: cache_Delete_def)
  next
    case (Some el)
    then have "ce_key (elems c e) \<noteq> key" if "e \<in> set (ll c)" "e \<noteq> el" for e
      using assms that cache_inv_items [of c key e] by auto
    moreover have "int (length (filter (\<lambda>e. e \<noteq> el) (ll c))) \<le> capacity c"
    proof (rule order_trans)
      show "int (length (filter (\<lambda>e. e \<noteq> el) (ll c))) \<le> int (length (ll c))" by simp
      show "int (length (ll c)) \<le> capacity c" using assms by (simp add: cache_inv_def)
    qed
    ultimately have "cache_inv (c\<lparr>ll := filter (\<lambda>e. e \<noteq> el) (ll c), items := (items c)(key := None)\<rparr>)"
      using assms Some cache_inv_items [OF assms, of key el] by (auto simp: cache_inv_def)
    with Some show ?thesis by (simp add: cache_Delete_def)
  qed
  show "abs_cache (snd (cache_Delete c key)) = lru_drop key (abs_cache c)"
  proof (cases "items c key")
    case None
    then have "ce_key (elems c e) \<noteq> key" if "e \<in> set (ll c)" for e
      using assms that cache_inv_items [of c key e] by auto
    with None show ?thesis
      by (auto simp: cache_Delete_def lru_drop_def abs_cache_def filter_id_conv entry_of_def)
  next
    case (Some el)
    with lru_drop_abs [OF assms Some] show ?thesis
      by (simp add: cache_Delete_def) (simp add: abs_cache_def)
  qed
qed

lemma cache_new_inv: "cache_inv (newBoundedCache cap)"
  by (simp add: cache_inv_def newBoundedCache_def)

lemma cache_Clear_inv: "cache_inv c \<Longrightarrow> cache_inv (cache_Clear c)"
  by (simp add: cache_inv_def cache_Clear_def)

lemma capacity_cache_Set [simp]: "capacity (cache_Set c key v) = capacity c"
  by (simp add: cache_Set_def Let_def split: option.splits)

lemmas cache_invs [inv_intros] =
  cache_new_inv cache_Clear_inv cache_Set_refines(1) cache_Get_refines(1) cache_Delete_refines(1)

section \<open>The contract of a decision cache\<close>

text \<open>
  The cache interface of the enforcer. A cache is observed through \<open>look\<close>; an entry may vanish
  at any \<^verbatim>\<open>Set\<close> of another key, but what a cache returns is what was last set.
\<close>

record 'c cache_ops =
  c_Get :: "'c \<Rightarrow> string \<Rightarrow> (cache_error, bool) res \<times> 'c"
  c_Set :: "'c \<Rightarrow> string \<Rightarrow> bool \<Rightarrow> 'c"
  c_Delete :: "'c \<Rightarrow> string \<Rightarrow> (cache_error, unit) res \<times> 'c"
  c_Clear :: "'c \<Rightarrow> 'c"

definition boundedCache_ops :: "bounded_cache cache_ops" where
  "boundedCache_ops =
     \<lparr>c_Get = cache_Get, c_Set = cache_Set, c_Delete = cache_Delete, c_Clear = cache_Clear\<rparr>"

definition cache_look :: "bounded_cache \<Rightarrow> string \<Rightarrow> bool option" where
  "cache_look c k = map_option (\<lambda>el. ce_val (elems c el)) (items c k)"

text \<open>
  The metrics decorator (\<^verbatim>\<open>internal/obs/cache.go\<close>) wraps any cache and counts hits and misses.
\<close>

record 'c metrics_cache =
  mc_inner :: 'c
  mc_hits :: nat
  mc_misses :: nat

definition metricsCache_Get ::
    "'c cache_ops \<Rightarrow> 'c metrics_cache \<Rightarrow> string \<Rightarrow> (cache_error, bool) res \<times> 'c metrics_cache" where
  "metricsCache_Get ops c key =
     (case c_Get ops (mc_inner c) key of
        (Inl e, i) \<Rightarrow> (Inl e, c\<lparr>mc_inner := i, mc_misses := Suc (mc_misses c)\<rparr>)
      | (Inr v, i) \<Rightarrow> (Inr v, c\<lparr>mc_inner := i, mc_hits := Suc (mc_hits c)\<rparr>))"

definition metricsCache_ops :: "'c cache_ops \<Rightarrow> 'c metrics_cache cache_ops" where
  "metricsCache_ops ops =
     \<lparr>c_Get = metricsCache_Get ops,
      c_Set = (\<lambda>c k v. c\<lparr>mc_inner := c_Set ops (mc_inner c) k v\<rparr>),
      c_Delete = (\<lambda>c k. case c_Delete ops (mc_inner c) k of (r, i) \<Rightarrow> (r, c\<lparr>mc_inner := i\<rparr>)),
      c_Clear = (\<lambda>c. c\<lparr>mc_inner := c_Clear ops (mc_inner c)\<rparr>)\<rparr>"

lemma metricsCache_ops_simps [simp]:
  "fst (c_Get (metricsCache_ops ops) c k) = fst (c_Get ops (mc_inner c) k)"
  "mc_inner (snd (c_Get (metricsCache_ops ops) c k)) = snd (c_Get ops (mc_inner c) k)"
  "mc_inner (c_Set (metricsCache_ops ops) c k v) = c_Set ops (mc_inner c) k v"
  "mc_inner (snd (c_Delete (metricsCache_ops ops) c k)) = snd (c_Delete ops (mc_inner c) k)"
  "mc_inner (c_Clear (metricsCache_ops ops) c) = c_Clear ops (mc_inner c)"
  by (simp_all add: metricsCache_ops_def metricsCache_Get_def split: prod.splits sum.splits)

locale decision_cache =
  fixes ops :: "'c cache_ops"
    and look :: "'c \<Rightarrow> string \<Rightarrow> bool option"
    and inv :: "'c \<Rightarrow> bool"
  assumes get_val: "inv c \<Longrightarrow>
      fst (c_Get ops c k) = (case look c k of None \<Rightarrow> Inl ErrNoSuchKey | Some v \<Rightarrow> Inr v)"
    and get_look: "inv c \<Longrightarrow> look (snd (c_Get ops c k)) = look c"
    and set_same: "inv c \<Longrightarrow> look (c_Set ops c k v) k = Some v"
    and set_other: "inv c \<Longrightarrow> k' \<noteq> k \<Longrightarrow> look (c_Set ops c k v) k' = Some b \<Longrightarrow> look c k' = Some b"
    and delete_look: "inv c \<Longrightarrow> look (snd (c_Delete ops c k)) = (look c)(k := None)"
    and clear_look: "inv c \<Longrightarrow> look (c_Clear ops c) = Map.empty"
    and get_inv: "inv c \<Longrightarrow> inv (snd (c_Get ops c k))"
    and set_inv: "inv c \<Longrightarrow> inv (c_Set ops c k v)"
    and delete_inv: "inv c \<Longrightarrow> inv (snd (c_Delete ops c k))"
    and clear_inv: "inv c \<Longrightarrow> inv (c_Clear ops c)"
begin

text \<open>
  A cache is coherent with a decision function when every entry is that function's decision.
  Storing decisions of the function keeps it so, and clearing makes it so for any function:
  that is what invalidating the whole cache after a policy change achieves.
\<close>

definition coherent :: "(string \<Rightarrow> bool) \<Rightarrow> 'c \<Rightarrow> bool" where
  "coherent f c \<longleftrightarrow> (\<forall>k v. look c k = Some v \<longrightarrow> v = f k)"

lemma coherent_get:
  "inv c \<Longrightarrow> coherent f c \<Longrightarrow> fst (c_Get ops c k) = Inr v \<Longrightarrow> v = f k"
  by (auto simp: coherent_def get_val split: option.splits)

lemma coherent_step:
  assumes "inv c" "coherent f c"
  shows "coherent f (snd (c_Get ops c k))" "coherent f (c_Set ops c k (f k))"
    "coherent f (snd (c_Delete ops c k))"
proof -
  show "coherent f (snd (c_Get ops c k))" "coherent f (snd (c_Delete ops c k))"
    using assms by (simp_all add: coherent_def get_look delete_look)
  show "coherent f (c_Set ops c k (f k))"
    unfolding coherent_def
  proof (intro allI impI)
    fix k' v assume v: "look (c_Set ops c k (f k)) k' = Some v"
    show "v = f k'"
    proof (cases "k' = k")
      case True
      with v assms set_same show ?thesis by simp
    next
      case False
      with v assms set_other show ?thesis by (simp add: coherent_def)
    qed
  qed
qed

lemma coherent_clear: "inv c \<Longrightarrow> coherent g (c_Clear ops c)"
  by (simp add: coherent_def clear_look)

text \<open>The decorator meets the same contract as the cache it wraps.\<close>

lemma metrics_decision_cache:
  "decision_cache (metricsCache_ops ops) (\<lambda>c. look (mc_inner c)) (\<lambda>c. inv (mc_inner c))"
  by unfold_locales
    (auto simp: get_val get_look set_same delete_look clear_look
      intro: get_inv set_inv delete_inv clear_inv dest: set_other)

end

lemma lru_set_look:
  assumes "int (length xs) \<le> cap" "0 < cap" "distinct (map fst xs)"
  shows "map_of (lru_set cap k v xs) k = Some v"
    and "k' \<noteq> k \<Longrightarrow> map_of (lru_set cap k v xs) k' = Some b \<Longrightarrow> map_of xs k' = Some b"
proof -
  have "xs \<noteq> []" if "int (Suc (length xs)) > cap" using that assms(2) by auto
  then show "map_of (lru_set cap k v xs) k = Some v"
    by (simp add: lru_set_def)
  assume k': "k' \<noteq> k" and b: "map_of (lru_set cap k v xs) k' = Some b"
  have "(k', b) \<in> set (lru_set cap k v xs)" using b by (rule map_of_SomeD)
  with k' have "(k', b) \<in> set xs"
    by (auto simp: lru_set_def lru_drop_def split: if_splits dest: in_set_butlastD)
  with assms(3) show "map_of xs k' = Some b" by simp
qed

lemma cache_look_abs: "cache_inv c \<Longrightarrow> cache_look c = map_of (abs_cache c)"
  by (simp add: cache_look_def map_of_abs_cache fun_eq_iff)

lemma lru_drop_look: "map_of (lru_drop k xs) = (map_of xs)(k := None)"
  by (induction xs) (auto simp: lru_drop_def fun_eq_iff)

lemma lru_touch_look: "map_of (lru_touch k xs) = map_of xs"
  by (auto simp: lru_touch_def lru_drop_look fun_eq_iff split: option.splits)

interpretation bounded: decision_cache boundedCache_ops cache_look cache_inv
proof unfold_locales
  fix c k v k' b
  assume inv: "cache_inv c"
  have len: "int (length (abs_cache c)) \<le> capacity c" "0 < capacity c"
    using inv by (simp_all add: cache_inv_def abs_cache_def)
  show "fst (c_Get boundedCache_ops c k) =
      (case cache_look c k of None \<Rightarrow> Inl ErrNoSuchKey | Some v \<Rightarrow> Inr v)"
    using inv by (simp add: boundedCache_ops_def cache_Get_refines cache_look_abs)
  show "cache_look (snd (c_Get boundedCache_ops c k)) = cache_look c"
    using inv by (simp add: boundedCache_ops_def cache_Get_refines cache_look_abs lru_touch_look)
  show "cache_look (c_Set boundedCache_ops c k v) k = Some v"
    using inv len by (simp add: boundedCache_ops_def cache_Set_refines cache_look_abs lru_set_look
        distinct_abs_cache)
  show "cache_look c k' = Some b"
    if "k' \<noteq> k" "cache_look (c_Set boundedCache_ops c k v) k' = Some b"
    using inv len that lru_set_look(2) [OF len distinct_abs_cache [OF inv], of k' k v b]
    by (simp add: boundedCache_ops_def cache_Set_refines cache_look_abs)
  show "cache_look (snd (c_Delete boundedCache_ops c k)) = (cache_look c)(k := None)"
    using inv by (simp add: boundedCache_ops_def cache_Delete_refines cache_look_abs lru_drop_look)
  show "cache_look (c_Clear boundedCache_ops c) = Map.empty"
    by (simp add: boundedCache_ops_def cache_Clear_def cache_look_def fun_eq_iff)
qed (auto simp: boundedCache_ops_def intro: inv_intros)

interpretation metered: decision_cache "metricsCache_ops boundedCache_ops"
    "\<lambda>c. cache_look (mc_inner c)" "\<lambda>c. cache_inv (mc_inner c)"
  by (rule bounded.metrics_decision_cache)

section \<open>Runs of the cache\<close>

datatype cache_cmd = CmdGet string | CmdSet string bool | CmdDelete string | CmdClear

fun cache_step :: "bounded_cache \<Rightarrow> cache_cmd \<Rightarrow> bounded_cache" where
  "cache_step c (CmdGet k) = snd (cache_Get c k)"
| "cache_step c (CmdSet k v) = cache_Set c k v"
| "cache_step c (CmdDelete k) = snd (cache_Delete c k)"
| "cache_step c CmdClear = cache_Clear c"

fun lru_step :: "int \<Rightarrow> lru \<Rightarrow> cache_cmd \<Rightarrow> lru" where
  "lru_step cap xs (CmdGet k) = lru_touch k xs"
| "lru_step cap xs (CmdSet k v) = lru_set cap k v xs"
| "lru_step cap xs (CmdDelete k) = lru_drop k xs"
| "lru_step cap xs CmdClear = []"

lemma cache_step_refines:
  assumes "cache_inv c"
  shows "cache_inv (cache_step c cmd)"
    and "abs_cache (cache_step c cmd) = lru_step (capacity c) (abs_cache c) cmd"
    and "capacity (cache_step c cmd) = capacity c"
  using assms cache_Get_refines [OF assms] cache_Set_refines [OF assms]
    cache_Delete_refines [OF assms] cache_Clear_inv [OF assms]
  by (cases cmd; simp add: cache_Clear_def abs_cache_def cache_Get_def cache_Delete_def
      split: option.splits)+

lemma cache_run_refines:
  assumes "cache_inv c"
  shows "cache_inv (foldl cache_step c cmds) \<and>
    abs_cache (foldl cache_step c cmds) = foldl (lru_step (capacity c)) (abs_cache c) cmds \<and>
    capacity (foldl cache_step c cmds) = capacity c"
  using assms
proof (induction cmds arbitrary: c)
  case Nil
  then show ?case by simp
next
  case (Cons cmd cmds)
  then show ?case using Cons.IH [of "cache_step c cmd"] cache_step_refines by simp
qed

text \<open>
  C2. After any sequence of operations on a fresh cache of the requested capacity (at least
  one), the pointer structure holds exactly the entries of the least-recently-used
  specification, never more than its capacity of them, and a \<^verbatim>\<open>Get\<close> answers from them.
\<close>

theorem boundedCache_is_lru:
  fixes cap :: int and cmds :: "cache_cmd list"
  defines "c \<equiv> foldl cache_step (newBoundedCache cap) cmds"
    and "xs \<equiv> foldl (lru_step (max 1 cap)) [] cmds"
  shows "abs_cache c = xs \<and> int (length xs) \<le> max 1 cap \<and> distinct (map fst xs) \<and>
    fst (cache_Get c k) = (case map_of xs k of None \<Rightarrow> Inl ErrNoSuchKey | Some v \<Rightarrow> Inr v)"
proof -
  have cap: "capacity (newBoundedCache cap) = max 1 cap" "abs_cache (newBoundedCache cap) = []"
    by (auto simp: newBoundedCache_def abs_cache_def)
  note r = cache_run_refines [OF cache_new_inv [of cap], of cmds, unfolded cap, folded c_def xs_def]
  then have inv: "cache_inv c" and abs: "abs_cache c = xs" and "capacity c = max 1 cap" by auto
  then have "int (length xs) \<le> max 1 cap" by (auto simp: cache_inv_def abs_cache_def)
  with inv abs show ?thesis
    using distinct_abs_cache [OF inv] cache_Get_refines(3) [OF inv, of k] by simp
qed

end
