(* ===== verification/Rules.thy ===== *)
theory Rules
  imports Prelude
begin

text \<open>
  The policy data that travels from the control plane to a sidecar, and the three
  representations it has on the way: the control plane's domain types
  (\<^verbatim>\<open>internal/controlplane/types.go\<close>), the messages of the sync protocol
  (\<^verbatim>\<open>gen/sydom/sync/v1\<close>), and the kernel's types (\<^verbatim>\<open>internal/sidecar/kernel/types.go\<close>).
  \<^verbatim>\<open>translate.go\<close> of the control plane writes messages, \<^verbatim>\<open>translate.go\<close> of the sync client
  reads them. The lemmas show that reading what was written gives the data back, and that
  every malformed message is an error.
\<close>

section \<open>Control plane types\<close>

text \<open>
  One \<^verbatim>\<open>casbin_rule\<close> row. The Go array \<^verbatim>\<open>[6]string\<close> is six fields; both the control plane
  and the kernel declare this struct.
\<close>

record rule =
  Ptype :: string
  V0 :: string
  V1 :: string
  V2 :: string
  V3 :: string
  V4 :: string
  V5 :: string

definition V :: "rule \<Rightarrow> string list" where
  "V r = [V0 r, V1 r, V2 r, V3 r, V4 r, V5 r]"

datatype change_op = ChangeAdd | ChangeUpdate | ChangeRemove

definition EffectAllow :: string where
  "EffectAllow = ''allow''"

definition EffectDeny :: string where
  "EffectDeny = ''deny''"

record data_policy =
  dp_ID :: int64
  dp_SubjectType :: string
  dp_SubjectID :: string
  dp_Resource :: string
  dp_Condition :: string
  dp_Effect :: string
  dp_Description :: string

record data_policy_change =
  dc_Op :: change_op
  dc_Policy :: data_policy

record delta =
  d_AppID :: int64
  d_Version :: int64
  d_RuleAdds :: "rule list"
  d_RuleRemoves :: "rule list"
  d_DataChanges :: "data_policy_change list"

text \<open>The two kinds of rows.\<close>

definition p_row :: "string \<Rightarrow> string \<Rightarrow> string \<Rightarrow> string \<Rightarrow> string \<Rightarrow> rule" where
  "p_row sub d obj act eft =
     \<lparr>Ptype = ''p'', V0 = sub, V1 = d, V2 = obj, V3 = act, V4 = eft, V5 = ''''\<rparr>"

definition g_row :: "string \<Rightarrow> string \<Rightarrow> string \<Rightarrow> rule" where
  "g_row u r d = \<lparr>Ptype = ''g'', V0 = u, V1 = r, V2 = d, V3 = '''', V4 = '''', V5 = ''''\<rparr>"

section \<open>Kernel types\<close>

record kdata_policy =
  kdp_ID :: uint64
  kdp_SubjectType :: string
  kdp_SubjectID :: string
  kdp_Resource :: string
  kdp_Condition :: string
  kdp_Effect :: string

record policy_change =
  pc_Op :: change_op
  pc_Rule :: rule
  pc_OldRule :: rule

record kdata_policy_change =
  kdc_Op :: change_op
  kdc_Policy :: kdata_policy

record kdelta =
  kd_Version :: uint64
  kd_PolicyChanges :: "policy_change list"
  kd_DataChanges :: "kdata_policy_change list"

record snapshot =
  s_Version :: uint64
  s_Rules :: "rule list"
  s_DataPolicies :: "kdata_policy list"

text \<open>\<^verbatim>\<open>values\<close>: the loop that steps back over trailing empty strings, then copies the prefix.\<close>

fun trimmed_len :: "string list \<Rightarrow> nat \<Rightarrow> nat" where
  "trimmed_len vs 0 = 0"
| "trimmed_len vs (Suc n) = (if vs ! n = '''' then trimmed_len vs n else Suc n)"

definition rule_values :: "rule \<Rightarrow> string list" where
  "rule_values r = take (trimmed_len (V r) (length (V r))) (V r)"

definition domainValue :: "rule \<Rightarrow> string" where
  "domainValue r =
     (if Ptype r = ''p'' then V1 r
      else if Ptype r = ''g'' then V2 r
      else '''')"

section \<open>Messages of the sync protocol\<close>

text \<open>
  Message fields of a Go message are pointers: an absent submessage is \<^const>\<open>None\<close>, and the
  generated getters read zero values through it.
\<close>

record proto_rule =
  pr_Ptype :: string
  pr_Values :: "string list"

datatype proto_op = CHANGE_OP_UNSPECIFIED | CHANGE_OP_ADD | CHANGE_OP_UPDATE | CHANGE_OP_REMOVE

record proto_policy_change =
  ppc_Op :: proto_op
  ppc_Rule :: "proto_rule option"
  ppc_OldRule :: "proto_rule option"

record proto_data_policy =
  pdp_Id :: uint64
  pdp_SubjectType :: string
  pdp_SubjectId :: string
  pdp_Resource :: string
  pdp_Condition :: string
  pdp_Effect :: string

record proto_data_change =
  pdc_Op :: proto_op
  pdc_Policy :: "proto_data_policy option"

record proto_delta =
  pd_Version :: uint64
  pd_PolicyChanges :: "proto_policy_change list"
  pd_DataChanges :: "proto_data_change list"

record proto_snapshot =
  ps_Version :: uint64
  ps_Rules :: "proto_rule list"
  ps_DataPolicies :: "proto_data_policy list"

section \<open>Writing messages: the control plane's translate package\<close>

definition ruleToProto :: "rule \<Rightarrow> proto_rule" where
  "ruleToProto r =
     \<lparr>pr_Ptype = Ptype r, pr_Values = take (trimmed_len (V r) (length (V r))) (V r)\<rparr>"

definition dataPolicyToProto :: "data_policy \<Rightarrow> proto_data_policy" where
  "dataPolicyToProto p =
     \<lparr>pdp_Id = dp_ID p, pdp_SubjectType = dp_SubjectType p, pdp_SubjectId = dp_SubjectID p,
      pdp_Resource = dp_Resource p, pdp_Condition = dp_Condition p, pdp_Effect = dp_Effect p\<rparr>"

fun opToProto :: "change_op \<Rightarrow> proto_op" where
  "opToProto ChangeAdd = CHANGE_OP_ADD"
| "opToProto ChangeUpdate = CHANGE_OP_UPDATE"
| "opToProto ChangeRemove = CHANGE_OP_REMOVE"

definition DeltaToProto :: "delta \<Rightarrow> proto_delta" where
  "DeltaToProto d =
     \<lparr>pd_Version = d_Version d,
      pd_PolicyChanges =
        map (\<lambda>r. \<lparr>ppc_Op = CHANGE_OP_ADD, ppc_Rule = Some (ruleToProto r), ppc_OldRule = None\<rparr>)
          (d_RuleAdds d) @
        map (\<lambda>r. \<lparr>ppc_Op = CHANGE_OP_REMOVE, ppc_Rule = None, ppc_OldRule = Some (ruleToProto r)\<rparr>)
          (d_RuleRemoves d),
      pd_DataChanges =
        map (\<lambda>c. \<lparr>pdc_Op = opToProto (dc_Op c), pdc_Policy = Some (dataPolicyToProto (dc_Policy c))\<rparr>)
          (d_DataChanges d)\<rparr>"

definition RulesToProto :: "rule list \<Rightarrow> proto_rule list" where
  "RulesToProto rules = map ruleToProto rules"

definition DataPoliciesToProto :: "data_policy list \<Rightarrow> proto_data_policy list" where
  "DataPoliciesToProto dps = map dataPolicyToProto dps"

section \<open>Reading messages: the sync client's translate file\<close>

datatype translate_error = TooManyValues nat | UnknownChangeOp

definition zero_rule :: rule where
  "zero_rule = \<lparr>Ptype = '''', V0 = '''', V1 = '''', V2 = '''', V3 = '''', V4 = '''', V5 = ''''\<rparr>"

definition zero_kdata_policy :: kdata_policy where
  "zero_kdata_policy =
     \<lparr>kdp_ID = 0, kdp_SubjectType = '''', kdp_SubjectID = '''', kdp_Resource = '''',
      kdp_Condition = '''', kdp_Effect = ''''\<rparr>"

text \<open>The array element \<^verbatim>\<open>r.V[i]\<close> after \<^verbatim>\<open>copy(r.V[:], vals)\<close>.\<close>

definition copied :: "string list \<Rightarrow> nat \<Rightarrow> string" where
  "copied vals i = (if i < length vals then vals ! i else '''')"

fun ruleFromProto :: "proto_rule option \<Rightarrow> (translate_error, rule) res" where
  "ruleFromProto None = Inr zero_rule"
| "ruleFromProto (Some pr) =
     (if length (pr_Values pr) > 6 then Inl (TooManyValues (length (pr_Values pr)))
      else Inr \<lparr>Ptype = pr_Ptype pr,
                V0 = copied (pr_Values pr) 0, V1 = copied (pr_Values pr) 1,
                V2 = copied (pr_Values pr) 2, V3 = copied (pr_Values pr) 3,
                V4 = copied (pr_Values pr) 4, V5 = copied (pr_Values pr) 5\<rparr>)"

fun opFromProto :: "proto_op \<Rightarrow> (translate_error, change_op) res" where
  "opFromProto CHANGE_OP_ADD = Inr ChangeAdd"
| "opFromProto CHANGE_OP_REMOVE = Inr ChangeRemove"
| "opFromProto CHANGE_OP_UPDATE = Inr ChangeUpdate"
| "opFromProto CHANGE_OP_UNSPECIFIED = Inl UnknownChangeOp"

definition policyChangeFromProto :: "proto_policy_change \<Rightarrow> (translate_error, policy_change) res" where
  "policyChangeFromProto pc =
     rbind (opFromProto (ppc_Op pc)) (\<lambda>op.
       case op of
         ChangeAdd \<Rightarrow>
           rbind (ruleFromProto (ppc_Rule pc)) (\<lambda>r.
             Inr \<lparr>pc_Op = op, pc_Rule = r, pc_OldRule = zero_rule\<rparr>)
       | ChangeRemove \<Rightarrow>
           rbind (ruleFromProto (ppc_OldRule pc)) (\<lambda>r.
             Inr \<lparr>pc_Op = op, pc_Rule = r, pc_OldRule = zero_rule\<rparr>)
       | ChangeUpdate \<Rightarrow>
           rbind (ruleFromProto (ppc_Rule pc)) (\<lambda>r.
           rbind (ruleFromProto (ppc_OldRule pc)) (\<lambda>r'.
             Inr \<lparr>pc_Op = op, pc_Rule = r, pc_OldRule = r'\<rparr>)))"

fun dataPolicyFromProto :: "proto_data_policy option \<Rightarrow> kdata_policy" where
  "dataPolicyFromProto None = zero_kdata_policy"
| "dataPolicyFromProto (Some dp) =
     \<lparr>kdp_ID = pdp_Id dp, kdp_SubjectType = pdp_SubjectType dp, kdp_SubjectID = pdp_SubjectId dp,
      kdp_Resource = pdp_Resource dp, kdp_Condition = pdp_Condition dp, kdp_Effect = pdp_Effect dp\<rparr>"

definition dataPolicyChangeFromProto ::
    "proto_data_change \<Rightarrow> (translate_error, kdata_policy_change) res" where
  "dataPolicyChangeFromProto dc =
     rbind (opFromProto (pdc_Op dc)) (\<lambda>op.
       Inr \<lparr>kdc_Op = op, kdc_Policy = dataPolicyFromProto (pdc_Policy dc)\<rparr>)"

definition snapshotFromProto :: "proto_snapshot \<Rightarrow> (translate_error, snapshot) res" where
  "snapshotFromProto s =
     rbind (mapM (\<lambda>pr. ruleFromProto (Some pr)) (ps_Rules s)) (\<lambda>rules.
       Inr \<lparr>s_Version = ps_Version s, s_Rules = rules,
            s_DataPolicies = map (\<lambda>dp. dataPolicyFromProto (Some dp)) (ps_DataPolicies s)\<rparr>)"

definition deltaFromProto :: "proto_delta \<Rightarrow> (translate_error, kdelta) res" where
  "deltaFromProto d =
     rbind (mapM policyChangeFromProto (pd_PolicyChanges d)) (\<lambda>pcs.
     rbind (mapM dataPolicyChangeFromProto (pd_DataChanges d)) (\<lambda>dcs.
       Inr \<lparr>kd_Version = pd_Version d, kd_PolicyChanges = pcs, kd_DataChanges = dcs\<rparr>))"

section \<open>What the translation keeps\<close>

text \<open>What a control plane value looks like to the kernel.\<close>

definition toKernel :: "data_policy \<Rightarrow> kdata_policy" where
  "toKernel p =
     \<lparr>kdp_ID = dp_ID p, kdp_SubjectType = dp_SubjectType p, kdp_SubjectID = dp_SubjectID p,
      kdp_Resource = dp_Resource p, kdp_Condition = dp_Condition p, kdp_Effect = dp_Effect p\<rparr>"

definition kernel_changes :: "delta \<Rightarrow> policy_change list" where
  "kernel_changes d =
     map (\<lambda>r. \<lparr>pc_Op = ChangeAdd, pc_Rule = r, pc_OldRule = zero_rule\<rparr>) (d_RuleAdds d) @
     map (\<lambda>r. \<lparr>pc_Op = ChangeRemove, pc_Rule = r, pc_OldRule = zero_rule\<rparr>) (d_RuleRemoves d)"

lemma trimmed_len_le: "trimmed_len vs n \<le> n"
  by (induction n) auto

lemma trimmed_len_empty: "trimmed_len vs n \<le> i \<Longrightarrow> i < n \<Longrightarrow> vs ! i = ''''"
  by (induction n) (auto simp: less_Suc_eq split: if_splits)

lemma copied_trimmed: "i < length vs \<Longrightarrow> copied (take (trimmed_len vs (length vs)) vs) i = vs ! i"
  using trimmed_len_empty [of vs "length vs" i] trimmed_len_le [of vs "length vs"]
  by (auto simp: copied_def)

lemma length_V [simp]: "length (V r) = 6"
  by (simp add: V_def)

lemma V_nth [simp]:
  "V r ! 0 = V0 r" "V r ! Suc 0 = V1 r" "V r ! 2 = V2 r" "V r ! 3 = V3 r" "V r ! 4 = V4 r" "V r ! 5 = V5 r"
  by (simp_all add: V_def eval_nat_numeral)

lemma length_values_le: "length (rule_values r) \<le> 6"
  by (simp add: rule_values_def)

lemma ruleFromProto_ruleToProto [simp]: "ruleFromProto (Some (ruleToProto r)) = Inr r"
proof -
  have c: "copied (take (trimmed_len (V r) 6) (V r)) i = V r ! i" if "i < 6" for i
    using copied_trimmed [of i "V r"] that by simp
  show ?thesis
    using c [of 0] c [of 1] c [of 2] c [of 3] c [of 4] c [of 5]
    by (simp add: ruleToProto_def)
qed

declare ruleFromProto.simps(2) [simp del] and dataPolicyFromProto.simps(2) [simp del]

lemma ruleToProto_values: "pr_Values (ruleToProto r) = rule_values r"
  by (simp add: ruleToProto_def rule_values_def)

text \<open>Trimming is injective on rows of the same kind: a row is determined by its values.\<close>

lemma values_inject: "Ptype r = Ptype r' \<Longrightarrow> rule_values r = rule_values r' \<longleftrightarrow> r = r'"
proof
  assume "Ptype r = Ptype r'" "rule_values r = rule_values r'"
  then have "ruleToProto r = ruleToProto r'"
    by (simp add: ruleToProto_def rule_values_def)
  then have "ruleFromProto (Some (ruleToProto r)) = ruleFromProto (Some (ruleToProto r'))"
    by simp
  then show "r = r'"
    by (simp only: ruleFromProto_ruleToProto sum.inject)
qed simp

lemma opFromProto_opToProto [simp]: "opFromProto (opToProto op) = Inr op"
  by (cases op) auto

lemma dataPolicyFromProto_dataPolicyToProto [simp]:
  "dataPolicyFromProto (Some (dataPolicyToProto p)) = toKernel p"
  by (simp add: dataPolicyToProto_def toKernel_def dataPolicyFromProto.simps)

lemma ruleFromProto_error_iff:
  "(\<exists>e. ruleFromProto pr = Inl e) \<longleftrightarrow> (\<exists>m. pr = Some m \<and> 6 < length (pr_Values m))"
  by (cases pr) (auto simp: ruleFromProto.simps)

lemma deltaFromProto_DeltaToProto:
  "deltaFromProto (DeltaToProto d) =
     Inr \<lparr>kd_Version = d_Version d,
          kd_PolicyChanges = kernel_changes d,
          kd_DataChanges =
            map (\<lambda>c. \<lparr>kdc_Op = dc_Op c, kdc_Policy = toKernel (dc_Policy c)\<rparr>) (d_DataChanges d)\<rparr>"
proof -
  have adds: "mapM policyChangeFromProto
      (map (\<lambda>r. \<lparr>ppc_Op = CHANGE_OP_ADD, ppc_Rule = Some (ruleToProto r), ppc_OldRule = None\<rparr>) rs) =
      Inr (map (\<lambda>r. \<lparr>pc_Op = ChangeAdd, pc_Rule = r, pc_OldRule = zero_rule\<rparr>) rs)" for rs
    unfolding mapM_map by (rule mapM_Ok_map) (simp add: policyChangeFromProto_def)
  have removes: "mapM policyChangeFromProto
      (map (\<lambda>r. \<lparr>ppc_Op = CHANGE_OP_REMOVE, ppc_Rule = None, ppc_OldRule = Some (ruleToProto r)\<rparr>) rs) =
      Inr (map (\<lambda>r. \<lparr>pc_Op = ChangeRemove, pc_Rule = r, pc_OldRule = zero_rule\<rparr>) rs)" for rs
    unfolding mapM_map by (rule mapM_Ok_map) (simp add: policyChangeFromProto_def)
  have data: "mapM dataPolicyChangeFromProto
      (map (\<lambda>c. \<lparr>pdc_Op = opToProto (dc_Op c), pdc_Policy = Some (dataPolicyToProto (dc_Policy c))\<rparr>) cs) =
      Inr (map (\<lambda>c. \<lparr>kdc_Op = dc_Op c, kdc_Policy = toKernel (dc_Policy c)\<rparr>) cs)" for cs
    unfolding mapM_map by (rule mapM_Ok_map) (simp add: dataPolicyChangeFromProto_def)
  show ?thesis
    by (simp add: deltaFromProto_def DeltaToProto_def kernel_changes_def res_simps adds removes data)
qed

text \<open>
  C1. Whatever the control plane's writing side puts on the wire for a committed delta, the
  sidecar's reading side accepts, and it reads exactly the added and removed rows and the
  data changes of that delta, under the same version number.
\<close>

theorem delta_wire_roundtrip:
  "deltaFromProto (DeltaToProto d) =
     Inr \<lparr>kd_Version = d_Version d,
          kd_PolicyChanges = kernel_changes d,
          kd_DataChanges =
            map (\<lambda>c. \<lparr>kdc_Op = dc_Op c, kdc_Policy = toKernel (dc_Policy c)\<rparr>) (d_DataChanges d)\<rparr>"
  by (rule deltaFromProto_DeltaToProto)

lemma snapshot_wire_roundtrip:
  "snapshotFromProto
     \<lparr>ps_Version = v, ps_Rules = RulesToProto rules, ps_DataPolicies = DataPoliciesToProto dps\<rparr> =
   Inr \<lparr>s_Version = v, s_Rules = rules, s_DataPolicies = map toKernel dps\<rparr>"
  by (simp add: snapshotFromProto_def RulesToProto_def DataPoliciesToProto_def mapM_map comp_def
      mapM_Ok_map [of rules "\<lambda>r. Inr r" "\<lambda>r. r"])

end
