(* ===== verification/Store.thy ===== *)
theory Store
  imports Rules
begin

text \<open>
  The control plane's tables and the statements the program runs on them
  (\<^verbatim>\<open>internal/controlplane/store\<close>: \<^verbatim>\<open>store.go\<close>, \<^verbatim>\<open>source.go\<close>, \<^verbatim>\<open>batch.go\<close>, \<^verbatim>\<open>read.go\<close>, and the schema of
  \<^verbatim>\<open>db/migrations\<close>). A table is a list of rows; every statement checks the constraints of the
  schema that it can violate (primary and unique keys, the composite foreign keys, the check on
  \<^verbatim>\<open>effect\<close>) and fails with the database's error. What PostgreSQL decides by itself is the
  record \<open>pg\<close>: the identity values it hands out and the normal form of a JSONB text. Lengths of
  \<^verbatim>\<open>VARCHAR\<close> columns and the time stamps are left out.
\<close>

section \<open>Tables\<close>

record application =
  ap_domain :: string
  ap_current_version :: int64

record role_row =
  rl_id :: int64
  rl_app :: int64
  rl_code :: string
  rl_name :: string
  rl_description :: string
  rl_source :: string

record permission_row =
  pm_id :: int64
  pm_app :: int64
  pm_code :: string
  pm_resource :: string
  pm_action :: string
  pm_type :: string
  pm_name :: string
  pm_description :: string
  pm_source :: string

record grant_row =
  rp_app :: int64
  rp_role :: int64
  rp_permission :: int64
  rp_eft :: string

record inheritance_row =
  ri_app :: int64
  ri_parent :: int64
  ri_child :: int64

record binding_row =
  ub_app :: int64
  ub_user :: string
  ub_role :: int64

record data_policy_row =
  dr_app :: int64
  dr_policy :: data_policy
  dr_source :: string
  dr_version :: int64

record casbin_row =
  cr_app :: int64
  cr_rule :: rule
  cr_version :: int64

record audit_row =
  au_app :: int64
  au_operator :: string
  au_action :: string
  au_entityType :: string
  au_entityID :: string
  au_adds :: "rule list"
  au_removes :: "rule list"
  au_data :: "data_policy_change list"
  au_version :: int64

record outbox_row =
  ob_app :: int64
  ob_version :: int64
  ob_delta :: proto_delta
  ob_published :: bool

record db =
  applications :: "int64 \<rightharpoonup> application"
  roles :: "role_row list"
  permissions :: "permission_row list"
  role_permissions :: "grant_row list"
  role_inheritances :: "inheritance_row list"
  user_role_bindings :: "binding_row list"
  data_policies :: "data_policy_row list"
  casbin_rules :: "casbin_row list"
  audit_log :: "audit_row list"
  policy_outbox :: "outbox_row list"

text \<open>The choices of the database server.\<close>

record pg =
  pg_jsonb :: "string \<Rightarrow> string option"
  pg_role_id :: "db \<Rightarrow> int64"
  pg_permission_id :: "db \<Rightarrow> int64"
  pg_data_policy_id :: "db \<Rightarrow> int64"

datatype db_error =
    UniqueViolation
  | ForeignKeyViolation
  | CheckViolation
  | InvalidJson
  | NoRows
  | StoreNotFound
  | NotDeleted
  | ErrCycle
  | Undeclared
  | SinkFailed
  | TxFailed
  | RowGone
  | KeyCollision
  | StalePlan
  | ImportConflict

section \<open>Rules, versions, audit\<close>

definition ReadAppRules :: "db \<Rightarrow> int64 \<Rightarrow> rule list" where
  "ReadAppRules db app = map cr_rule (filter (\<lambda>r. cr_app r = app) (casbin_rules db))"

definition delete_rule :: "int64 \<Rightarrow> rule \<Rightarrow> db \<Rightarrow> db" where
  "delete_rule app r db =
     db\<lparr>casbin_rules := filter (\<lambda>c. \<not> (cr_app c = app \<and> cr_rule c = r)) (casbin_rules db)\<rparr>"

definition insert_rule :: "int64 \<Rightarrow> int64 \<Rightarrow> rule \<Rightarrow> db \<Rightarrow> (db_error, db) res" where
  "insert_rule app v r db =
     (if \<exists>c \<in> set (casbin_rules db). cr_app c = app \<and> cr_rule c = r then Inl UniqueViolation
      else Inr (db\<lparr>casbin_rules := casbin_rules db @ [\<lparr>cr_app = app, cr_rule = r, cr_version = v\<rparr>]\<rparr>))"

definition ApplyDiff ::
    "int64 \<Rightarrow> rule list \<Rightarrow> rule list \<Rightarrow> int64 \<Rightarrow> db \<Rightarrow> (db_error, db) res" where
  "ApplyDiff app adds removes v db = foldM (insert_rule app v) adds (fold (delete_rule app) removes db)"

definition LockAppVersion :: "db \<Rightarrow> int64 \<Rightarrow> (db_error, int64) res" where
  "LockAppVersion db app =
     (case applications db app of None \<Rightarrow> Inl NoRows | Some a \<Rightarrow> Inr (ap_current_version a))"

definition BumpAppVersion :: "int64 \<Rightarrow> int64 \<Rightarrow> db \<Rightarrow> db" where
  "BumpAppVersion app v db =
     (case applications db app of
        None \<Rightarrow> db
      | Some a \<Rightarrow> db\<lparr>applications := (applications db)(app \<mapsto> a\<lparr>ap_current_version := v\<rparr>)\<rparr>)"

definition InsertAudit ::
    "int64 \<Rightarrow> string \<Rightarrow> string \<Rightarrow> string \<Rightarrow> string \<Rightarrow> rule list \<Rightarrow> rule list \<Rightarrow> data_policy_change list \<Rightarrow>
     int64 \<Rightarrow> db \<Rightarrow> db" where
  "InsertAudit app operator action entityType entityID adds removes changes v db =
     db\<lparr>audit_log := audit_log db @
       [\<lparr>au_app = app, au_operator = operator, au_action = action, au_entityType = entityType,
         au_entityID = entityID, au_adds = adds, au_removes = removes, au_data = changes, au_version = v\<rparr>]\<rparr>"

definition ReadCurrentVersion :: "db \<Rightarrow> int64 \<Rightarrow> (db_error, int64) res" where
  "ReadCurrentVersion db app =
     (case applications db app of None \<Rightarrow> Inl NoRows | Some a \<Rightarrow> Inr (ap_current_version a))"

definition ReadAppDataPolicies :: "db \<Rightarrow> int64 \<Rightarrow> data_policy list" where
  "ReadAppDataPolicies db app = map dr_policy (filter (\<lambda>r. dr_app r = app) (data_policies db))"

section \<open>Roles\<close>

text \<open>The key of a row's foreign key: a role or a permission of the same application.\<close>

definition has_role_id :: "db \<Rightarrow> int64 \<Rightarrow> int64 \<Rightarrow> bool" where
  "has_role_id db app i \<longleftrightarrow> (\<exists>r \<in> set (roles db). rl_app r = app \<and> rl_id r = i)"

definition has_permission_id :: "db \<Rightarrow> int64 \<Rightarrow> int64 \<Rightarrow> bool" where
  "has_permission_id db app i \<longleftrightarrow> (\<exists>p \<in> set (permissions db). pm_app p = app \<and> pm_id p = i)"

definition role_code_taken :: "db \<Rightarrow> int64 \<Rightarrow> string \<Rightarrow> bool" where
  "role_code_taken db app cd \<longleftrightarrow> (\<exists>r \<in> set (roles db). rl_app r = app \<and> rl_code r = cd)"

text \<open>
  \<^verbatim>\<open>INSERT INTO role\<close> with its constraints: the application exists, the code is new within it,
  the identity value is new.
\<close>

definition insert_role_row ::
    "pg \<Rightarrow> int64 \<Rightarrow> string \<Rightarrow> string \<Rightarrow> string \<Rightarrow> db \<Rightarrow> (db_error, int64 \<times> db) res" where
  "insert_role_row pg app cd name source db =
     (let i = pg_role_id pg db
      in if role_code_taken db app cd \<or> (\<exists>r \<in> set (roles db). rl_id r = i) then Inl UniqueViolation
         else if applications db app = None then Inl ForeignKeyViolation
         else Inr (i, db\<lparr>roles := roles db @
                [\<lparr>rl_id = i, rl_app = app, rl_code = cd, rl_name = name, rl_description = '''',
                  rl_source = source\<rparr>]\<rparr>))"

definition InsertRole :: "pg \<Rightarrow> int64 \<Rightarrow> string \<Rightarrow> string \<Rightarrow> db \<Rightarrow> (db_error, int64 \<times> db) res" where
  "InsertRole pg app cd name db = insert_role_row pg app cd name ''manual'' db"

definition InsertRoleWithSource ::
    "pg \<Rightarrow> int64 \<Rightarrow> string \<Rightarrow> string \<Rightarrow> string \<Rightarrow> db \<Rightarrow> (db_error, int64 \<times> db) res" where
  "InsertRoleWithSource pg app cd name source db = insert_role_row pg app cd name source db"

text \<open>\<^verbatim>\<open>DELETE FROM role\<close> is refused while a row of another table still refers to a deleted role.\<close>

definition role_referenced :: "db \<Rightarrow> (role_row \<Rightarrow> bool) \<Rightarrow> bool" where
  "role_referenced db P \<longleftrightarrow>
     (\<exists>r \<in> set (roles db). P r \<and>
        ((\<exists>g \<in> set (role_permissions db). rp_app g = rl_app r \<and> rp_role g = rl_id r) \<or>
         (\<exists>g \<in> set (role_inheritances db). ri_app g = rl_app r \<and> (ri_parent g = rl_id r \<or> ri_child g = rl_id r)) \<or>
         (\<exists>g \<in> set (user_role_bindings db). ub_app g = rl_app r \<and> ub_role g = rl_id r)))"

definition delete_roles :: "int64 \<Rightarrow> int64 list \<Rightarrow> db \<Rightarrow> (db_error, nat \<times> db) res" where
  "delete_roles app ids db =
     (let db1 = db\<lparr>role_permissions :=
              filter (\<lambda>g. \<not> (rp_app g = app \<and> rp_role g \<in> set ids)) (role_permissions db)\<rparr>;
          db2 = db1\<lparr>role_inheritances :=
              filter (\<lambda>g. \<not> (ri_app g = app \<and> (ri_parent g \<in> set ids \<or> ri_child g \<in> set ids)))
                (role_inheritances db1)\<rparr>;
          db3 = db2\<lparr>user_role_bindings :=
              filter (\<lambda>g. \<not> (ub_app g = app \<and> ub_role g \<in> set ids)) (user_role_bindings db2)\<rparr>
      in if role_referenced db3 (\<lambda>r. rl_app r = app \<and> rl_id r \<in> set ids) then Inl ForeignKeyViolation
         else Inr (length (filter (\<lambda>r. rl_app r = app \<and> rl_id r \<in> set ids) (roles db3)),
                   db3\<lparr>roles := filter (\<lambda>r. \<not> (rl_app r = app \<and> rl_id r \<in> set ids)) (roles db3)\<rparr>))"

definition Store_DeleteRole :: "int64 \<Rightarrow> int64 \<Rightarrow> db \<Rightarrow> (db_error, db) res" where
  "Store_DeleteRole app roleID db =
     (case delete_roles app [roleID] db of Inl e \<Rightarrow> Inl e | Inr (_, db') \<Rightarrow> Inr db')"

definition DeleteRolesBatch :: "int64 \<Rightarrow> int64 list \<Rightarrow> db \<Rightarrow> (db_error, nat \<times> db) res" where
  "DeleteRolesBatch app ids db = (if ids = [] then Inr (0, db) else delete_roles app ids db)"

definition UpsertTemplateRole ::
    "pg \<Rightarrow> int64 \<Rightarrow> string \<Rightarrow> string \<Rightarrow> db \<Rightarrow> (db_error, int64 \<times> bool \<times> db) res" where
  "UpsertTemplateRole pg app cd name db =
     (case filter (\<lambda>r. rl_app r = app \<and> rl_code r = cd) (roles db) of
        r # _ \<Rightarrow> Inr (rl_id r, False, db)
      | [] \<Rightarrow>
          (case insert_role_row pg app cd name ''manual'' db of
             Inl e \<Rightarrow> Inl e
           | Inr (i, db') \<Rightarrow> Inr (i, True, db')))"

definition UpdateRoleMeta :: "int64 \<Rightarrow> int64 \<Rightarrow> string \<Rightarrow> string \<Rightarrow> db \<Rightarrow> db" where
  "UpdateRoleMeta app roleID name description db =
     db\<lparr>roles := map (\<lambda>r. if rl_app r = app \<and> rl_id r = roleID
                        then r\<lparr>rl_name := name, rl_description := description\<rparr> else r) (roles db)\<rparr>"

definition AdoptRoleSource :: "int64 \<Rightarrow> int64 \<Rightarrow> db \<Rightarrow> db" where
  "AdoptRoleSource app roleID db =
     db\<lparr>roles := map (\<lambda>r. if rl_app r = app \<and> rl_id r = roleID \<and> rl_source r = ''manual''
                        then r\<lparr>rl_source := ''iac''\<rparr> else r) (roles db)\<rparr>"

definition RoleHasUserBindings :: "db \<Rightarrow> int64 \<Rightarrow> int64 \<Rightarrow> bool" where
  "RoleHasUserBindings db app roleID \<longleftrightarrow>
     (\<exists>b \<in> set (user_role_bindings db). ub_app b = app \<and> ub_role b = roleID)"

section \<open>Permission points\<close>

text \<open>
  \<^verbatim>\<open>INSERT INTO permission ... ON CONFLICT (app_id, code) DO UPDATE\<close>: the new row, or the
  existing row of that code as \<open>upd\<close> changes it. \<open>when\<close> is the \<^verbatim>\<open>WHERE\<close> of the update; where it
  is false no row is returned.
\<close>

definition upsert_permission_row ::
    "pg \<Rightarrow> permission_row \<Rightarrow> (permission_row \<Rightarrow> bool) \<Rightarrow> (permission_row \<Rightarrow> permission_row) \<Rightarrow> db \<Rightarrow>
     (db_error, int64 option \<times> db) res" where
  "upsert_permission_row pg new when upd db =
     (let same = (\<lambda>p. pm_app p = pm_app new \<and> pm_code p = pm_code new)
      in case filter same (permissions db) of
           p # _ \<Rightarrow>
             if when p
             then Inr (Some (pm_id p),
                       db\<lparr>permissions := map (\<lambda>q. if same q then upd q else q) (permissions db)\<rparr>)
             else Inr (None, db)
         | [] \<Rightarrow>
             (let i = pg_permission_id pg db
              in if \<exists>q \<in> set (permissions db). pm_id q = i then Inl UniqueViolation
                 else if applications db (pm_app new) = None then Inl ForeignKeyViolation
                 else Inr (Some i, db\<lparr>permissions := permissions db @ [new\<lparr>pm_id := i\<rparr>]\<rparr>)))"

definition new_permission ::
    "int64 \<Rightarrow> string \<Rightarrow> string \<Rightarrow> string \<Rightarrow> string \<Rightarrow> string \<Rightarrow> string \<Rightarrow> string \<Rightarrow> permission_row" where
  "new_permission app cd resource action ptype name description source =
     \<lparr>pm_id = 0, pm_app = app, pm_code = cd, pm_resource = resource, pm_action = action, pm_type = ptype,
      pm_name = name, pm_description = description, pm_source = source\<rparr>"

definition Store_UpsertPermission ::
    "pg \<Rightarrow> int64 \<Rightarrow> string \<Rightarrow> string \<Rightarrow> string \<Rightarrow> string \<Rightarrow> string \<Rightarrow> db \<Rightarrow> (db_error, int64 \<times> db) res" where
  "Store_UpsertPermission pg app cd resource action ptype name db =
     (case upsert_permission_row pg (new_permission app cd resource action ptype name '''' ''manual'')
             (\<lambda>_. True)
             (\<lambda>p. p\<lparr>pm_resource := resource, pm_action := action, pm_type := ptype, pm_name := name\<rparr>) db of
        Inl e \<Rightarrow> Inl e
      | Inr (None, db') \<Rightarrow> Inl NoRows
      | Inr (Some i, db') \<Rightarrow> Inr (i, db'))"

definition UpsertPermissionWithSource ::
    "pg \<Rightarrow> int64 \<Rightarrow> string \<Rightarrow> string \<Rightarrow> string \<Rightarrow> string \<Rightarrow> string \<Rightarrow> string \<Rightarrow> string \<Rightarrow> db \<Rightarrow>
     (db_error, int64 \<times> db) res" where
  "UpsertPermissionWithSource pg app cd resource action ptype name description source db =
     (case upsert_permission_row pg (new_permission app cd resource action ptype name description source)
             (\<lambda>_. True)
             (\<lambda>p. p\<lparr>pm_resource := resource, pm_action := action, pm_type := ptype, pm_name := name,
                    pm_description := description, pm_source := source\<rparr>) db of
        Inl e \<Rightarrow> Inl e
      | Inr (None, db') \<Rightarrow> Inl NoRows
      | Inr (Some i, db') \<Rightarrow> Inr (i, db'))"

definition UpsertAutoPermission ::
    "pg \<Rightarrow> int64 \<Rightarrow> string \<Rightarrow> string \<Rightarrow> string \<Rightarrow> string \<Rightarrow> string \<Rightarrow> string \<Rightarrow> db \<Rightarrow> (db_error, bool \<times> db) res" where
  "UpsertAutoPermission pg app cd resource action ptype name description db =
     (case upsert_permission_row pg (new_permission app cd resource action ptype name description ''auto'')
             (\<lambda>p. pm_source p = ''auto'')
             (\<lambda>p. p\<lparr>pm_resource := resource, pm_action := action, pm_type := ptype, pm_name := name,
                    pm_description := description\<rparr>) db of
        Inl e \<Rightarrow> Inl e
      | Inr (i, db') \<Rightarrow> Inr (i \<noteq> None, db'))"

definition PermissionIDsByCode :: "db \<Rightarrow> int64 \<Rightarrow> string list \<Rightarrow> string \<Rightarrow> int64 option" where
  "PermissionIDsByCode db app codes =
     map_of (map (\<lambda>p. (pm_code p, pm_id p))
       (filter (\<lambda>p. pm_app p = app \<and> pm_code p \<in> set codes) (permissions db)))"

definition AdoptPermissionSource :: "int64 \<Rightarrow> string \<Rightarrow> db \<Rightarrow> db" where
  "AdoptPermissionSource app cd db =
     db\<lparr>permissions := map (\<lambda>p. if pm_app p = app \<and> pm_code p = cd \<and> pm_source p = ''manual''
                              then p\<lparr>pm_source := ''iac''\<rparr> else p) (permissions db)\<rparr>"

definition permission_granted :: "db \<Rightarrow> permission_row \<Rightarrow> bool" where
  "permission_granted db p \<longleftrightarrow>
     (\<exists>g \<in> set (role_permissions db). rp_app g = pm_app p \<and> rp_permission g = pm_id p)"

definition DeletePermission :: "int64 \<Rightarrow> string \<Rightarrow> db \<Rightarrow> (db_error, db) res" where
  "DeletePermission app cd db =
     (let goes = (\<lambda>p. pm_app p = app \<and> pm_code p = cd \<and> \<not> permission_granted db p)
      in if filter goes (permissions db) = [] then Inl NotDeleted
         else Inr (db\<lparr>permissions := filter (\<lambda>p. \<not> goes p) (permissions db)\<rparr>))"

section \<open>Grants, inheritance, bindings\<close>

definition InsertRolePermission ::
    "int64 \<Rightarrow> int64 \<Rightarrow> int64 \<Rightarrow> string \<Rightarrow> db \<Rightarrow> (db_error, db) res" where
  "InsertRolePermission app roleID permID eft db =
     (if \<exists>g \<in> set (role_permissions db). rp_app g = app \<and> rp_role g = roleID \<and> rp_permission g = permID
      then Inr db
      else if \<not> has_role_id db app roleID \<or> \<not> has_permission_id db app permID then Inl ForeignKeyViolation
      else Inr (db\<lparr>role_permissions := role_permissions db @
             [\<lparr>rp_app = app, rp_role = roleID, rp_permission = permID, rp_eft = eft\<rparr>]\<rparr>))"

definition DeleteRolePermissionsBatch :: "int64 \<Rightarrow> (int64 \<times> int64) list \<Rightarrow> db \<Rightarrow> nat \<times> db" where
  "DeleteRolePermissionsBatch app pairs db =
     (let goes = (\<lambda>g. rp_app g = app \<and> (rp_role g, rp_permission g) \<in> set pairs)
      in (length (filter goes (role_permissions db)),
          db\<lparr>role_permissions := filter (\<lambda>g. \<not> goes g) (role_permissions db)\<rparr>))"

definition DeleteRolePermission :: "int64 \<Rightarrow> int64 \<Rightarrow> int64 \<Rightarrow> db \<Rightarrow> db" where
  "DeleteRolePermission app roleID permID db =
     db\<lparr>role_permissions :=
       filter (\<lambda>g. \<not> (rp_app g = app \<and> rp_role g = roleID \<and> rp_permission g = permID)) (role_permissions db)\<rparr>"

definition InsertRoleInheritance :: "int64 \<Rightarrow> int64 \<Rightarrow> int64 \<Rightarrow> db \<Rightarrow> (db_error, db) res" where
  "InsertRoleInheritance app childID parentID db =
     (if \<exists>g \<in> set (role_inheritances db). ri_app g = app \<and> ri_parent g = parentID \<and> ri_child g = childID
      then Inr db
      else if \<not> has_role_id db app parentID \<or> \<not> has_role_id db app childID then Inl ForeignKeyViolation
      else Inr (db\<lparr>role_inheritances := role_inheritances db @
             [\<lparr>ri_app = app, ri_parent = parentID, ri_child = childID\<rparr>]\<rparr>))"

definition DeleteRoleInheritance :: "int64 \<Rightarrow> int64 \<Rightarrow> int64 \<Rightarrow> db \<Rightarrow> db" where
  "DeleteRoleInheritance app childID parentID db =
     db\<lparr>role_inheritances :=
       filter (\<lambda>g. \<not> (ri_app g = app \<and> ri_parent g = parentID \<and> ri_child g = childID)) (role_inheritances db)\<rparr>"

definition DeleteRoleInheritancesBatch :: "int64 \<Rightarrow> (int64 \<times> int64) list \<Rightarrow> db \<Rightarrow> nat \<times> db" where
  "DeleteRoleInheritancesBatch app pairs db =
     (let goes = (\<lambda>g. ri_app g = app \<and> (ri_child g, ri_parent g) \<in> set pairs)
      in (length (filter goes (role_inheritances db)),
          db\<lparr>role_inheritances := filter (\<lambda>g. \<not> goes g) (role_inheritances db)\<rparr>))"

definition InsertUserRoleBinding :: "int64 \<Rightarrow> string \<Rightarrow> int64 \<Rightarrow> db \<Rightarrow> (db_error, db) res" where
  "InsertUserRoleBinding app userID roleID db =
     (if \<exists>b \<in> set (user_role_bindings db). ub_app b = app \<and> ub_user b = userID \<and> ub_role b = roleID
      then Inr db
      else if \<not> has_role_id db app roleID then Inl ForeignKeyViolation
      else Inr (db\<lparr>user_role_bindings := user_role_bindings db @
             [\<lparr>ub_app = app, ub_user = userID, ub_role = roleID\<rparr>]\<rparr>))"

definition DeleteUserRoleBinding :: "int64 \<Rightarrow> string \<Rightarrow> int64 \<Rightarrow> db \<Rightarrow> db" where
  "DeleteUserRoleBinding app userID roleID db =
     db\<lparr>user_role_bindings :=
       filter (\<lambda>b. \<not> (ub_app b = app \<and> ub_user b = userID \<and> ub_role b = roleID)) (user_role_bindings db)\<rparr>"

definition DeleteUserRoleBindingsBatch :: "int64 \<Rightarrow> (string \<times> int64) list \<Rightarrow> db \<Rightarrow> nat \<times> db" where
  "DeleteUserRoleBindingsBatch app pairs db =
     (let goes = (\<lambda>b. ub_app b = app \<and> (ub_user b, ub_role b) \<in> set pairs)
      in (length (filter goes (user_role_bindings db)),
          db\<lparr>user_role_bindings := filter (\<lambda>b. \<not> goes b) (user_role_bindings db)\<rparr>))"

section \<open>Data policies\<close>

definition effect_or_allow :: "string \<Rightarrow> string" where
  "effect_or_allow e = (if e = '''' then EffectAllow else e)"

text \<open>Both upserts of a data policy: a new row if the identifier is zero, else an update of the row.\<close>

definition upsert_data_policy_row ::
    "pg \<Rightarrow> int64 \<Rightarrow> data_policy \<Rightarrow> (string \<Rightarrow> string) \<Rightarrow> int64 \<Rightarrow> db \<Rightarrow> (db_error, int64 \<times> bool \<times> db) res" where
  "upsert_data_policy_row pg app p source v db =
     (let eff = effect_or_allow (dp_Effect p)
      in case pg_jsonb pg (dp_Condition p) of
           None \<Rightarrow> Inl InvalidJson
         | Some cond \<Rightarrow>
             if dp_ID p = 0 then
               (let i = pg_data_policy_id pg db
                in if eff \<noteq> EffectAllow \<and> eff \<noteq> EffectDeny then Inl CheckViolation
                   else if \<exists>r \<in> set (data_policies db). dp_ID (dr_policy r) = i then Inl UniqueViolation
                   else if applications db app = None then Inl ForeignKeyViolation
                   else Inr (i, True, db\<lparr>data_policies := data_policies db @
                          [\<lparr>dr_app = app, dr_policy = p\<lparr>dp_ID := i, dp_Effect := eff, dp_Condition := cond\<rparr>,
                            dr_source = source ''manual'', dr_version = v\<rparr>]\<rparr>))
             else
               (let hit = (\<lambda>r. dr_app r = app \<and> dp_ID (dr_policy r) = dp_ID p)
                in if filter hit (data_policies db) = [] then Inl StoreNotFound
                   else if eff \<noteq> EffectAllow \<and> eff \<noteq> EffectDeny then Inl CheckViolation
                   else Inr (dp_ID p, False, db\<lparr>data_policies := map (\<lambda>r.
                          if hit r then r\<lparr>dr_policy := p\<lparr>dp_Effect := eff, dp_Condition := cond\<rparr>,
                                         dr_source := source (dr_source r), dr_version := v\<rparr> else r)
                          (data_policies db)\<rparr>)))"

definition Store_UpsertDataPolicy ::
    "pg \<Rightarrow> int64 \<Rightarrow> data_policy \<Rightarrow> int64 \<Rightarrow> db \<Rightarrow> (db_error, int64 \<times> bool \<times> db) res" where
  "Store_UpsertDataPolicy pg app p v db = upsert_data_policy_row pg app p (\<lambda>old. old) v db"

definition UpsertDataPolicyWithSource ::
    "pg \<Rightarrow> int64 \<Rightarrow> data_policy \<Rightarrow> string \<Rightarrow> int64 \<Rightarrow> db \<Rightarrow> (db_error, int64 \<times> bool \<times> db) res" where
  "UpsertDataPolicyWithSource pg app p source v db =
     (case upsert_data_policy_row pg app p (\<lambda>_. source) v db of
        Inl e \<Rightarrow> Inl (if e = StoreNotFound then RowGone else e)
      | Inr r \<Rightarrow> Inr r)"

definition DeleteDataPoliciesBatch :: "int64 \<Rightarrow> int64 list \<Rightarrow> db \<Rightarrow> int64 list \<times> db" where
  "DeleteDataPoliciesBatch app ids db =
     (let goes = (\<lambda>r. dr_app r = app \<and> dp_ID (dr_policy r) \<in> set ids)
      in (map (\<lambda>r. dp_ID (dr_policy r)) (filter goes (data_policies db)),
          db\<lparr>data_policies := filter (\<lambda>r. \<not> goes r) (data_policies db)\<rparr>))"

definition Store_DeleteDataPolicy :: "int64 \<Rightarrow> int64 \<Rightarrow> db \<Rightarrow> (db_error, db) res" where
  "Store_DeleteDataPolicy app i db =
     (let goes = (\<lambda>r. dr_app r = app \<and> dp_ID (dr_policy r) = i)
      in if filter goes (data_policies db) = [] then Inl StoreNotFound
         else Inr (db\<lparr>data_policies := filter (\<lambda>r. \<not> goes r) (data_policies db)\<rparr>))"

definition AdoptDataPolicySource :: "int64 \<Rightarrow> int64 \<Rightarrow> db \<Rightarrow> db" where
  "AdoptDataPolicySource app i db =
     db\<lparr>data_policies := map (\<lambda>r. if dr_app r = app \<and> dp_ID (dr_policy r) = i \<and> dr_source r = ''manual''
                                then r\<lparr>dr_source := ''iac''\<rparr> else r) (data_policies db)\<rparr>"

section \<open>Reads with the source of each row\<close>

text \<open>Codes are listed in the order of their bytes, the collation \<^verbatim>\<open>C\<close>.\<close>

definition ListAppPermissionsWithSource :: "db \<Rightarrow> int64 \<Rightarrow> permission_row list" where
  "ListAppPermissionsWithSource db app = sort_key pm_code (filter (\<lambda>p. pm_app p = app) (permissions db))"

definition ListAppRolesWithSource :: "db \<Rightarrow> int64 \<Rightarrow> role_row list" where
  "ListAppRolesWithSource db app = sort_key (\<lambda>r. sint (rl_id r)) (filter (\<lambda>r. rl_app r = app) (roles db))"

definition ListAppDataPoliciesWithSource :: "db \<Rightarrow> int64 \<Rightarrow> data_policy_row list" where
  "ListAppDataPoliciesWithSource db app =
     sort_key (\<lambda>r. sint (dp_ID (dr_policy r))) (filter (\<lambda>r. dr_app r = app) (data_policies db))"

definition RolePermissionCodes :: "db \<Rightarrow> int64 \<Rightarrow> int64 \<Rightarrow> string list" where
  "RolePermissionCodes db app roleID =
     sort (concat (map (\<lambda>g. map pm_code (filter (\<lambda>p. pm_id p = rp_permission g) (permissions db)))
       (filter (\<lambda>g. rp_app g = app \<and> rp_role g = roleID) (role_permissions db))))"

end
