(* ===== verification/Projection.thy ===== *)
theory Projection
  imports Store "HOL-Library.AList"
begin

text \<open>
  The projection of the business tables to policy rows (\<^verbatim>\<open>internal/controlplane/projection\<close>): the
  joins that compute an application's rows, the difference of two sets of rows by their encoded
  keys, and the search for cycles in the inheritance graph. The order in which a join returns
  rows and in which a Go map is walked is unspecified; here it is the order of the tables, and
  the lemmas speak of sets of rows only.
\<close>

section \<open>The program\<close>

definition project_p :: "db \<Rightarrow> int64 \<Rightarrow> rule list" where
  "project_p db app =
     [p_row (rl_code r) (ap_domain a) (pm_resource p) (pm_action p) (rp_eft rp).
       rp \<leftarrow> role_permissions db, rp_app rp = app,
       r \<leftarrow> roles db, rl_id r = rp_role rp,
       p \<leftarrow> permissions db, pm_id p = rp_permission rp,
       a \<leftarrow> (case applications db app of None \<Rightarrow> [] | Some a \<Rightarrow> [a])]"

definition project_g_user :: "db \<Rightarrow> int64 \<Rightarrow> rule list" where
  "project_g_user db app =
     [g_row (ub_user b) (rl_code r) (ap_domain a).
       b \<leftarrow> user_role_bindings db, ub_app b = app,
       r \<leftarrow> roles db, rl_id r = ub_role b,
       a \<leftarrow> (case applications db app of None \<Rightarrow> [] | Some a \<Rightarrow> [a])]"

definition project_g_inherit :: "db \<Rightarrow> int64 \<Rightarrow> rule list" where
  "project_g_inherit db app =
     [g_row (rl_code c) (rl_code p) (ap_domain a).
       i \<leftarrow> role_inheritances db, ri_app i = app,
       c \<leftarrow> roles db, rl_id c = ri_child i,
       p \<leftarrow> roles db, rl_id p = ri_parent i,
       a \<leftarrow> (case applications db app of None \<Rightarrow> [] | Some a \<Rightarrow> [a])]"

definition ProjectApp :: "db \<Rightarrow> int64 \<Rightarrow> rule list" where
  "ProjectApp db app = project_p db app @ project_g_user db app @ project_g_inherit db app"

definition key_sep :: char where
  "key_sep = CHR 0x1F"

definition ruleKey :: "rule \<Rightarrow> string" where
  "ruleKey r = Ptype r @ concat (map (\<lambda>v. key_sep # v) (V r))"

definition by_key :: "rule list \<Rightarrow> (string \<times> rule) list" where
  "by_key rules = fold (\<lambda>r m. AList.update (ruleKey r) r m) rules []"

definition Diff :: "rule list \<Rightarrow> rule list \<Rightarrow> rule list \<times> rule list" where
  "Diff current desired =
     (let cur = by_key current; des = by_key desired
      in (map snd (filter (\<lambda>(k, r). map_of cur k = None) des),
          map snd (filter (\<lambda>(k, r). map_of des k = None) cur)))"

text \<open>
  The depth-first search of \<^verbatim>\<open>CheckNoCycle\<close>, on a list of nodes still to try: it returns whether
  the target was met, and the visited nodes.
\<close>

definition adjacent :: "(int64 \<times> int64) list \<Rightarrow> int64 \<Rightarrow> int64 list" where
  "adjacent es n = map snd (filter (\<lambda>e. fst e = n) es)"

function dfs :: "(int64 \<times> int64) list \<Rightarrow> int64 \<Rightarrow> int64 list \<Rightarrow> int64 list \<Rightarrow> bool \<times> int64 list" where
  "dfs es target visited [] = (False, visited)"
| "dfs es target visited (n # ns) =
     (if n = target then (True, visited)
      else if n \<in> set visited then dfs es target visited ns
      else case dfs es target (n # visited) (adjacent es n) of
             (True, visited') \<Rightarrow> (True, visited')
           | (False, visited') \<Rightarrow> dfs es target visited' ns)"
  by pat_completeness auto

lemma dfs_visited_dom:
  "dfs_dom (es, target, visited, ns) \<Longrightarrow> set visited \<subseteq> set (snd (dfs es target visited ns))"
proof (induction rule: dfs.pinduct)
  case (1 es target visited)
  then show ?case by (simp add: dfs.psimps)
next
  case (2 es target visited n ns)
  obtain b visited' where run: "dfs es target (n # visited) (adjacent es n) = (b, visited')" by (metis surj_pair)
  show ?case
  proof (cases "n = target \<or> n \<in> set visited")
    case True
    with 2 show ?thesis by (auto simp: dfs.psimps)
  next
    case False
    then have "set (n # visited) \<subseteq> set visited'" using "2.IH"(2) run by auto
    moreover have "\<not> b \<Longrightarrow> set visited' \<subseteq> set (snd (dfs es target visited' ns))"
      using "2.IH"(3) [OF _ _ run [symmetric]] False by auto
    ultimately show ?thesis using 2(1) False run by (cases b) (auto simp: dfs.psimps)
  qed
qed

lemma unvisited_less:
  assumes "n \<notin> set visited"
  shows "card (fst ` set es - set (n # visited)) < card (fst ` set es - set visited) \<or>
    card (fst ` set es - set (n # visited)) \<le> card (fst ` set es - set visited) \<and> adjacent es n = []"
proof (cases "n \<in> fst ` set es")
  case True
  have "fst ` set es - set (n # visited) \<subset> fst ` set es - set visited" using True assms by auto
  then show ?thesis by (simp add: psubset_card_mono)
next
  case False
  then have "adjacent es n = []" by (force simp: adjacent_def filter_empty_conv)
  moreover have "card (fst ` set es - set (n # visited)) \<le> card (fst ` set es - set visited)"
    by (rule card_mono) auto
  ultimately show ?thesis by simp
qed

termination dfs
proof (relation "inv_image (less_than <*lex*> less_than)
    (\<lambda>(es, target, visited, ns). (card (fst ` set es - set visited), length ns))", goal_cases)
  case 1
  then show ?case by auto
next
  case (2 es target visited n ns)
  then show ?case by simp
next
  case (3 es target visited n ns)
  with unvisited_less [of n visited es] show ?case by fastforce
next
  case (4 es target visited n ns x visited')
  then have eq: "visited' = snd (dfs es target (n # visited) (adjacent es n))" by (metis snd_conv)
  have "set visited \<subseteq> set visited'"
    unfolding eq using dfs_visited_dom [of es target "n # visited" "adjacent es n"] 4 by auto
  then have "card (fst ` set es - set visited') \<le> card (fst ` set es - set visited)"
    by (intro card_mono) auto
  then show ?case by auto
qed

definition inheritance_edges :: "db \<Rightarrow> int64 \<Rightarrow> (int64 \<times> int64) list" where
  "inheritance_edges db app =
     map (\<lambda>i. (ri_child i, ri_parent i)) (filter (\<lambda>i. ri_app i = app) (role_inheritances db))"

definition CheckNoCycle :: "db \<Rightarrow> int64 \<Rightarrow> int64 \<Rightarrow> int64 \<Rightarrow> db_error option" where
  "CheckNoCycle db app childID parentID =
     (if childID = parentID then Some ErrCycle
      else if fst (dfs (inheritance_edges db app) childID [] [parentID]) then Some ErrCycle
      else None)"

section \<open>The search finds exactly the reachable target\<close>

lemma adjacent_iff: "m \<in> set (adjacent es n) \<longleftrightarrow> (n, m) \<in> set es"
  by (force simp: adjacent_def)

lemma dfs_sound: "fst (dfs es target visited ns) \<Longrightarrow> \<exists>n \<in> set ns. (n, target) \<in> (set es)\<^sup>*"
proof (induction es target visited ns rule: dfs.induct)
  case (1 es target visited)
  then show ?case by simp
next
  case (2 es target visited n ns)
  obtain b visited' where run: "dfs es target (n # visited) (adjacent es n) = (b, visited')" by (metis surj_pair)
  show ?case
  proof (cases "n = target \<or> n \<in> set visited")
    case True
    with 2 show ?thesis by (auto split: if_splits)
  next
    case False
    show ?thesis
    proof (cases b)
      case True
      then obtain m where "m \<in> set (adjacent es n)" "(m, target) \<in> (set es)\<^sup>*"
        using "2.IH"(2) False run by auto
      then show ?thesis by (auto simp: adjacent_iff intro: converse_rtrancl_into_rtrancl)
    next
      case b: False
      with False "2.prems" run have "fst (dfs es target visited' ns)" by simp
      then have "\<exists>n \<in> set ns. (n, target) \<in> (set es)\<^sup>*"
        using "2.IH"(3) [OF _ _ run [symmetric]] False b by blast
      then show ?thesis by auto
    qed
  qed
qed

text \<open>When the search fails, the visited nodes are closed under the edges from the new ones.\<close>

lemma dfs_closed:
  assumes "\<not> fst (dfs es target visited ns)" "target \<notin> set visited"
  shows "set visited \<union> set ns \<subseteq> set (snd (dfs es target visited ns)) \<and>
    target \<notin> set (snd (dfs es target visited ns)) \<and>
    (\<forall>n \<in> set (snd (dfs es target visited ns)) - set visited. set (adjacent es n) \<subseteq> set (snd (dfs es target visited ns)))"
  using assms
proof (induction es target visited ns rule: dfs.induct)
  case (1 es target visited)
  then show ?case by simp
next
  case (2 es target visited n ns)
  obtain b visited' where run: "dfs es target (n # visited) (adjacent es n) = (b, visited')" by (metis surj_pair)
  show ?case
  proof (cases "n = target \<or> n \<in> set visited")
    case True
    then have "n \<in> set visited" "n \<noteq> target" using "2.prems" by auto
    with "2.IH"(1) "2.prems" show ?thesis by fastforce
  next
    case False
    then have b: "\<not> b" using "2.prems"(1) run by (cases b) auto
    let ?out = "snd (dfs es target visited' ns)"
    have inner: "set (n # visited) \<union> set (adjacent es n) \<subseteq> set visited'" "target \<notin> set visited'"
        "\<forall>m \<in> set visited' - set (n # visited). set (adjacent es m) \<subseteq> set visited'"
      using "2.IH"(2) False run b "2.prems"(2) by auto
    have outer: "set visited' \<union> set ns \<subseteq> set ?out" "target \<notin> set ?out"
        "\<forall>m \<in> set ?out - set visited'. set (adjacent es m) \<subseteq> set ?out"
      using "2.IH"(3) [OF _ _ run [symmetric]] False run b "2.prems" inner(2) by auto
    have "set (adjacent es m) \<subseteq> set ?out" if "m \<in> set ?out - set visited" for m
      using that inner outer by (cases "m \<in> set visited'"; cases "m = n") auto
    moreover have "dfs es target visited (n # ns) = dfs es target visited' ns"
      using False run b by simp
    ultimately show ?thesis using inner outer by auto
  qed
qed

lemma dfs_complete:
  assumes "(p, target) \<in> (set es)\<^sup>*"
  shows "fst (dfs es target [] [p])"
proof (rule ccontr)
  assume fail: "\<not> fst (dfs es target [] [p])"
  let ?S = "set (snd (dfs es target [] [p]))"
  have closed: "p \<in> ?S" "target \<notin> ?S" "\<forall>n \<in> ?S. set (adjacent es n) \<subseteq> ?S"
    using dfs_closed [OF fail] by auto
  have "y \<in> ?S" if "(p, y) \<in> (set es)\<^sup>*" for y
    using that
  proof (induction rule: rtrancl_induct)
    case base
    show ?case by (rule closed(1))
  next
    case (step y z)
    then have "z \<in> set (adjacent es y)" by (simp add: adjacent_iff)
    with step closed(3) show ?case by blast
  qed
  with assms closed(2) show False by simp
qed

lemma CheckNoCycle_iff:
  "CheckNoCycle db app c p = None \<longleftrightarrow>
     c \<noteq> p \<and> (p, c) \<notin> (set (inheritance_edges db app))\<^sup>*"
  using dfs_sound [of "inheritance_edges db app" c "[]" "[p]"] dfs_complete [of p c "inheritance_edges db app"]
  by (auto simp: CheckNoCycle_def)

section \<open>Keys and differences\<close>

definition sep_free :: "rule \<Rightarrow> bool" where
  "sep_free r \<longleftrightarrow> (\<forall>s \<in> set (Ptype r # V r). key_sep \<notin> set s)"

lemma split_at_sep:
  assumes "a \<notin> set xs" "a \<notin> set ys"
  shows "xs @ a # us = ys @ a # vs \<longleftrightarrow> xs = ys \<and> us = vs"
  using assms
proof (induction xs arbitrary: ys)
  case Nil
  then show ?case by (cases ys) auto
next
  case (Cons x xs)
  then show ?case by (cases ys) auto
qed

lemma sep_join_inject:
  assumes "length xs = length ys" "\<forall>s \<in> set xs. a \<notin> set s" "\<forall>s \<in> set ys. a \<notin> set s" "a \<notin> set x" "a \<notin> set y"
  shows "x @ concat (map ((#) a) xs) = y @ concat (map ((#) a) ys) \<longleftrightarrow> x = y \<and> xs = ys"
  using assms
proof (induction xs ys arbitrary: x y rule: list_induct2)
  case Nil
  then show ?case by simp
next
  case (Cons u us v vs)
  then have "u @ concat (map ((#) a) us) = v @ concat (map ((#) a) vs) \<longleftrightarrow> u = v \<and> us = vs"
    by (intro Cons.IH) auto
  with Cons.prems show ?case by (simp add: split_at_sep)
qed

lemma rule_eqI: "Ptype r = Ptype r' \<Longrightarrow> V r = V r' \<Longrightarrow> r = (r' :: rule)"
  by (cases r; cases r') (simp add: V_def)

lemma ruleKey_inject: "sep_free r \<Longrightarrow> sep_free r' \<Longrightarrow> ruleKey r = ruleKey r' \<longleftrightarrow> r = r'"
  using sep_join_inject [of "V r" "V r'" key_sep "Ptype r" "Ptype r'"]
  by (auto simp: ruleKey_def sep_free_def intro: rule_eqI)

lemma by_key_snoc: "by_key (rs @ [r]) = AList.update (ruleKey r) r (by_key rs)"
  by (simp add: by_key_def)

lemma distinct_by_key: "distinct (map fst (by_key rs))"
  by (induction rs rule: rev_induct) (simp_all add: by_key_snoc distinct_update, simp add: by_key_def)

lemma by_key_keys: "fst ` set (by_key rs) = ruleKey ` set rs"
proof (induction rs rule: rev_induct)
  case (snoc r rs)
  have "fst ` set (AList.update k v al) = insert k (fst ` set al)" for k :: string and v :: rule and al
    using dom_update [of k v al] by simp
  with snoc show ?case by (simp add: by_key_snoc)
qed (simp add: by_key_def)

lemma by_key_pairs: "(k, r) \<in> set (by_key rs) \<Longrightarrow> k = ruleKey r \<and> r \<in> set rs"
proof (induction rs rule: rev_induct)
  case (snoc r' rs)
  have "set (AList.update k' v al) \<subseteq> insert (k', v) (set al)" for k' :: string and v :: rule and al
    by (induction al) auto
  with snoc show ?case by (auto simp: by_key_snoc)
qed (simp add: by_key_def)

lemma set_by_key:
  assumes "\<forall>r \<in> set rs. sep_free r"
  shows "set (by_key rs) = (\<lambda>r. (ruleKey r, r)) ` set rs"
proof
  show "set (by_key rs) \<subseteq> (\<lambda>r. (ruleKey r, r)) ` set rs" using by_key_pairs by fastforce
  show "(\<lambda>r. (ruleKey r, r)) ` set rs \<subseteq> set (by_key rs)"
  proof
    fix x assume "x \<in> (\<lambda>r. (ruleKey r, r)) ` set rs"
    then obtain r where r: "x = (ruleKey r, r)" "r \<in> set rs" by auto
    then have "ruleKey r \<in> fst ` set (by_key rs)" by (simp add: by_key_keys)
    then obtain r' where "(ruleKey r, r') \<in> set (by_key rs)" by force
    moreover from this have "r' \<in> set rs" "ruleKey r = ruleKey r'" using by_key_pairs by auto
    ultimately show "x \<in> set (by_key rs)" using assms r ruleKey_inject by auto
  qed
qed

lemma map_of_by_key_None: "map_of (by_key rs) k = None \<longleftrightarrow> k \<notin> ruleKey ` set rs"
  by (simp add: map_of_eq_None_iff by_key_keys)

lemma by_key_inj: "inj_on snd (set (by_key rs))"
  by (auto simp: inj_on_def dest!: by_key_pairs)

lemma distinct_by_key_filter: "distinct (map snd (filter P (by_key rs)))"
proof -
  have "distinct (by_key rs)" using distinct_by_key [of rs] distinct_map by blast
  then show ?thesis
    by (auto simp: distinct_map intro: inj_on_subset [OF by_key_inj])
qed

text \<open>On rows without the separator, the difference by keys is the difference of the sets.\<close>

lemma Diff_sets:
  assumes "\<forall>r \<in> set cur \<union> set des. sep_free r"
  shows "set (fst (Diff cur des)) = set des - set cur \<and> set (snd (Diff cur des)) = set cur - set des \<and>
    distinct (fst (Diff cur des)) \<and> distinct (snd (Diff cur des))"
proof -
  have part: "set (map snd (filter (\<lambda>(k, r). map_of (by_key bs) k = None) (by_key as))) = set as - set bs"
    if "\<forall>r \<in> set as \<union> set bs. sep_free r" for as bs
  proof -
    have "ruleKey r \<notin> ruleKey ` set bs \<longleftrightarrow> r \<notin> set bs" if "r \<in> set as" for r
      using \<open>\<forall>r \<in> set as \<union> set bs. sep_free r\<close> that ruleKey_inject by auto
    then show ?thesis using that by (auto simp: set_by_key map_of_by_key_None image_iff)
  qed
  show ?thesis
    using part [of des cur] part [of cur des] assms distinct_by_key_filter
    by (simp add: Diff_def Let_def Un_commute)
qed

section \<open>Properties\<close>

text \<open>
  In an acyclic inheritance graph the check accepts a new edge exactly if the graph stays
  acyclic with it; it always answers, on any graph.
\<close>

theorem cycle_check_exact:
  assumes "acyclic (set (inheritance_edges db app))"
  shows "CheckNoCycle db app childID parentID = None \<longleftrightarrow>
    acyclic (insert (childID, parentID) (set (inheritance_edges db app)))"
  using assms by (auto simp: CheckNoCycle_iff)

definition empty_db :: db where
  "empty_db = \<lparr>applications = Map.empty, roles = [], permissions = [], role_permissions = [],
     role_inheritances = [], user_role_bindings = [], data_policies = [], casbin_rules = [],
     audit_log = [], policy_outbox = []\<rparr>"

definition chain_db :: db where
  "chain_db = empty_db\<lparr>role_inheritances :=
     [\<lparr>ri_app = 1, ri_parent = 3, ri_child = 2\<rparr>, \<lparr>ri_app = 1, ri_parent = 4, ri_child = 3\<rparr>,
      \<lparr>ri_app = 9, ri_parent = 2, ri_child = 4\<rparr>]\<rparr>"

theorem cycle_check_exact_witness:
  "CheckNoCycle chain_db 1 4 2 = Some ErrCycle \<and> \<not> acyclic (insert (4, 2) (set (inheritance_edges chain_db 1))) \<and>
   CheckNoCycle chain_db 1 5 2 = None"
proof -
  have edges: "inheritance_edges chain_db 1 = [(2, 3), (3, 4)]" by code_simp
  have ac: "acyclic (set (inheritance_edges chain_db 1))"
    unfolding edges by (auto simp: rtrancl_insert acyclic_def [of "{}"])
  have "CheckNoCycle chain_db 1 4 2 = Some ErrCycle" "CheckNoCycle chain_db 1 5 2 = None" by code_simp+
  with cycle_check_exact [OF ac, of 4 2] show ?thesis by simp
qed

text \<open>
  On rows whose values do not contain the separator byte, the computed difference is the
  exact difference of the two sets of rows, without repetitions, whatever repetitions and order
  the lists have.
\<close>

theorem diff_exact:
  assumes "list_all sep_free current" and "list_all sep_free desired"
  shows "set (fst (Diff current desired)) = set desired - set current \<and>
    set (snd (Diff current desired)) = set current - set desired \<and>
    distinct (fst (Diff current desired)) \<and> distinct (snd (Diff current desired))"
  using Diff_sets [of current desired] assms by (auto simp: list_all_iff)

theorem diff_exact_witness:
  "set (fst (Diff [g_row ''a'' ''r'' ''d''] [g_row ''b'' ''r'' ''d'', g_row ''b'' ''r'' ''d''])) = {g_row ''b'' ''r'' ''d''}"
proof -
  have "list_all sep_free [g_row ''a'' ''r'' ''d'']" "list_all sep_free [g_row ''b'' ''r'' ''d'', g_row ''b'' ''r'' ''d'']"
    by code_simp+
  from diff_exact [OF this] show ?thesis by (simp add: g_row_def)
qed

text \<open>
  The separator is a legal byte of an identifier, and nothing rejects it: two bindings of
  different users to different roles then have the same key, and the difference contains only
  one of the two rows.
\<close>

theorem diff_loses_row_with_separator:
  "g_row (''a'' @ [key_sep] @ ''b'') ''c'' ''d'' \<noteq> g_row ''a'' (''b'' @ [key_sep] @ ''c'') ''d'' \<and>
   length (fst (Diff [] [g_row (''a'' @ [key_sep] @ ''b'') ''c'' ''d'',
                         g_row ''a'' (''b'' @ [key_sep] @ ''c'') ''d''])) = 1"
  by (intro conjI; code_simp)

end
