(* ===== verification/Manager.thy ===== *)
theory Manager
  imports Projection
begin

text \<open>
  The policy manager (\<^verbatim>\<open>internal/controlplane/policy\<close>: \<^verbatim>\<open>manager.go\<close>, \<^verbatim>\<open>bulk.go\<close>, \<^verbatim>\<open>errors.go\<close>), with the
  outbox sink: every write runs in one transaction that locks the application's version, changes
  the business tables, projects them again, and commits the difference under the next version
  together with an audit row and an outbox row. A transaction that fails leaves the database as
  it was; an operation returns its result together with the database after it.

  The parameters of a write are the database server (\<open>pg\<close>, theory \<open>Store\<close>) and \<open>env\<close>: whether
  the transaction can begin and commit, the operator, and the configured sink. The row lock
  makes the writes of one application a sequence; they are sequential steps here.
\<close>

section \<open>Errors\<close>

datatype policy_error =
    ErrInvalidInput
  | ErrConflict
  | ErrNotFound
  | ErrPrecondition
  | ErrImportInvalid
  | Unclassified db_error

fun classify :: "db_error \<Rightarrow> policy_error" where
  "classify ErrCycle = ErrPrecondition"
| "classify UniqueViolation = ErrConflict"
| "classify ForeignKeyViolation = ErrPrecondition"
| "classify StoreNotFound = ErrNotFound"
| "classify NoRows = ErrNotFound"
| "classify e = Unclassified e"

section \<open>The versioned write\<close>

text \<open>A sink that is configured persists the delta or fails.\<close>

datatype sink = NoSink | Outbox bool

record env =
  tx_begin :: bool
  tx_commit :: bool
  operator :: string
  delta_sink :: sink

record 'a write_op =
  action :: string
  entityType :: string
  entityID :: string
  preCheck :: "db \<Rightarrow> db_error option"
  mutate :: "db \<Rightarrow> (db_error, data_policy_change list \<times> 'a \<times> db) res"

definition sink_Persist :: "int64 \<Rightarrow> delta \<Rightarrow> db \<Rightarrow> db" where
  "sink_Persist app d db =
     db\<lparr>policy_outbox := policy_outbox db @
       [\<lparr>ob_app = app, ob_version = d_Version d, ob_delta = DeltaToProto d, ob_published = False\<rparr>]\<rparr>"

definition run_sink :: "sink \<Rightarrow> int64 \<Rightarrow> delta \<Rightarrow> db \<Rightarrow> (db_error, db) res" where
  "run_sink s app d db =
     (case s of
        NoSink \<Rightarrow> Inr db
      | Outbox ok \<Rightarrow> if ok then Inr (sink_Persist app d db) else Inl SinkFailed)"

type_synonym 'a written = "(policy_error, delta option \<times> 'a) res \<times> db"

definition runVersionedWrite :: "env \<Rightarrow> int64 \<Rightarrow> 'a write_op \<Rightarrow> db \<Rightarrow> 'a written" where
  "runVersionedWrite E app op db =
     (if \<not> tx_begin E then (Inl (Unclassified TxFailed), db)
      else case LockAppVersion db app of
        Inl e \<Rightarrow> (Inl (Unclassified e), db)
      | Inr cur \<Rightarrow>
          (case preCheck op db of
             Some e \<Rightarrow> (Inl (classify e), db)
           | None \<Rightarrow>
               (case mutate op db of
                  Inl e \<Rightarrow> (Inl (classify e), db)
                | Inr (dataChanges, x, db1) \<Rightarrow>
                    (case Diff (ReadAppRules db1 app) (ProjectApp db1 app) of
                       (adds, removes) \<Rightarrow>
                         if adds = [] \<and> removes = [] \<and> dataChanges = [] then
                           (if tx_commit E then (Inr (None, x), db1) else (Inl (Unclassified TxFailed), db))
                         else
                           (case ApplyDiff app adds removes (cur + 1) db1 of
                              Inl e \<Rightarrow> (Inl (Unclassified e), db)
                            | Inr db2 \<Rightarrow>
                                let db3 = BumpAppVersion app (cur + 1) db2;
                                    db4 = InsertAudit app (operator E) (action op) (entityType op) (entityID op)
                                            adds removes dataChanges (cur + 1) db3;
                                    d = \<lparr>d_AppID = app, d_Version = cur + 1, d_RuleAdds = adds,
                                         d_RuleRemoves = removes, d_DataChanges = dataChanges\<rparr>
                                in case run_sink (delta_sink E) app d db4 of
                                     Inl e \<Rightarrow> (Inl (Unclassified e), db)
                                   | Inr db5 \<Rightarrow>
                                       if tx_commit E then (Inr (Some d, x), db5)
                                       else (Inl (Unclassified TxFailed), db))))))"

record 'a write_op_data =
  wd_action :: string
  wd_entityType :: string
  wd_entityID :: string
  wd_apply :: "int64 \<Rightarrow> db \<Rightarrow> (db_error, data_policy_change list \<times> 'a \<times> db) res"

definition runVersionedWriteData :: "env \<Rightarrow> int64 \<Rightarrow> 'a write_op_data \<Rightarrow> db \<Rightarrow> 'a written" where
  "runVersionedWriteData E app op db =
     (if \<not> tx_begin E then (Inl (Unclassified TxFailed), db)
      else case LockAppVersion db app of
        Inl e \<Rightarrow> (Inl (Unclassified e), db)
      | Inr cur \<Rightarrow>
          (case wd_apply op (cur + 1) db of
             Inl e \<Rightarrow> (Inl (classify e), db)
           | Inr (changes, x, db1) \<Rightarrow>
               let db2 = BumpAppVersion app (cur + 1) db1;
                   db3 = InsertAudit app (operator E) (wd_action op) (wd_entityType op) (wd_entityID op)
                           [] [] changes (cur + 1) db2;
                   d = \<lparr>d_AppID = app, d_Version = cur + 1, d_RuleAdds = [], d_RuleRemoves = [],
                        d_DataChanges = changes\<rparr>
               in case run_sink (delta_sink E) app d db3 of
                    Inl e \<Rightarrow> (Inl (Unclassified e), db)
                  | Inr db4 \<Rightarrow>
                      if tx_commit E then (Inr (Some d, x), db4)
                      else (Inl (Unclassified TxFailed), db)))"

section \<open>The operations\<close>

definition no_check :: "db \<Rightarrow> db_error option" where
  "no_check db = None"

text \<open>A mutation that cannot fail, or that only returns the changed tables.\<close>

definition done_ok :: "db \<Rightarrow> (db_error, data_policy_change list \<times> unit \<times> db) res" where
  "done_ok db = Inr ([], (), db)"

definition done_res :: "(db_error, db) res \<Rightarrow> (db_error, data_policy_change list \<times> unit \<times> db) res" where
  "done_res r = (case r of Inl e \<Rightarrow> Inl e | Inr db \<Rightarrow> Inr ([], (), db))"

definition done_val :: "(db_error, 'a \<times> db) res \<Rightarrow> (db_error, data_policy_change list \<times> 'a \<times> db) res" where
  "done_val r = (case r of Inl e \<Rightarrow> Inl e | Inr (x, db) \<Rightarrow> Inr ([], x, db))"

definition GrantPermission :: "env \<Rightarrow> int64 \<Rightarrow> int64 \<Rightarrow> int64 \<Rightarrow> string \<Rightarrow> db \<Rightarrow> unit written" where
  "GrantPermission E app roleID permID eft =
     runVersionedWrite E app
       \<lparr>action = ''grant'', entityType = ''role_permission'',
        entityID = show_id roleID @ '':'' @ show_id permID, preCheck = no_check,
        mutate = (\<lambda>db. done_res (InsertRolePermission app roleID permID eft db))\<rparr>"

definition RevokePermission :: "env \<Rightarrow> int64 \<Rightarrow> int64 \<Rightarrow> int64 \<Rightarrow> db \<Rightarrow> unit written" where
  "RevokePermission E app roleID permID =
     runVersionedWrite E app
       \<lparr>action = ''revoke'', entityType = ''role_permission'',
        entityID = show_id roleID @ '':'' @ show_id permID, preCheck = no_check,
        mutate = (\<lambda>db. done_ok (DeleteRolePermission app roleID permID db))\<rparr>"

definition CreateRole :: "pg \<Rightarrow> env \<Rightarrow> int64 \<Rightarrow> string \<Rightarrow> string \<Rightarrow> db \<Rightarrow> int64 written" where
  "CreateRole pg E app cd name =
     runVersionedWrite E app
       \<lparr>action = ''create_role'', entityType = ''role'', entityID = cd, preCheck = no_check,
        mutate = (\<lambda>db. done_val (InsertRole pg app cd name db))\<rparr>"

text \<open>\<open>cd\<close> is the random code that \<^verbatim>\<open>generateRoleCode\<close> draws.\<close>

definition CreateBusinessRole ::
    "pg \<Rightarrow> env \<Rightarrow> string \<Rightarrow> int64 \<Rightarrow> string \<Rightarrow> int64 list \<Rightarrow> db \<Rightarrow> int64 written" where
  "CreateBusinessRole pg E cd app name permIDs =
     runVersionedWrite E app
       \<lparr>action = ''create_business_role'', entityType = ''role'', entityID = cd, preCheck = no_check,
        mutate = (\<lambda>db.
          case InsertRole pg app cd name db of
            Inl e \<Rightarrow> Inl e
          | Inr (i, db1) \<Rightarrow>
              (case foldM (\<lambda>pid. InsertRolePermission app i pid EffectAllow) permIDs db1 of
                 Inl e \<Rightarrow> Inl e
               | Inr db2 \<Rightarrow> Inr ([], i, db2)))\<rparr>"

definition Manager_DeleteRole :: "env \<Rightarrow> int64 \<Rightarrow> int64 \<Rightarrow> db \<Rightarrow> unit written" where
  "Manager_DeleteRole E app roleID =
     runVersionedWrite E app
       \<lparr>action = ''delete_role'', entityType = ''role'', entityID = show_id roleID, preCheck = no_check,
        mutate = (\<lambda>db. done_res (Store_DeleteRole app roleID db))\<rparr>"

definition Manager_UpsertPermission ::
    "pg \<Rightarrow> env \<Rightarrow> int64 \<Rightarrow> string \<Rightarrow> string \<Rightarrow> string \<Rightarrow> string \<Rightarrow> string \<Rightarrow> db \<Rightarrow> int64 written" where
  "Manager_UpsertPermission pg E app cd resource act ptype name =
     runVersionedWrite E app
       \<lparr>action = ''upsert_permission'', entityType = ''permission'', entityID = cd, preCheck = no_check,
        mutate = (\<lambda>db. done_val (Store_UpsertPermission pg app cd resource act ptype name db))\<rparr>"

definition AddRoleInheritance :: "env \<Rightarrow> int64 \<Rightarrow> int64 \<Rightarrow> int64 \<Rightarrow> db \<Rightarrow> unit written" where
  "AddRoleInheritance E app childID parentID =
     runVersionedWrite E app
       \<lparr>action = ''add_inheritance'', entityType = ''role_inheritance'',
        entityID = show_id childID @ ''->'' @ show_id parentID,
        preCheck = (\<lambda>db. CheckNoCycle db app childID parentID),
        mutate = (\<lambda>db. done_res (InsertRoleInheritance app childID parentID db))\<rparr>"

definition RemoveRoleInheritance :: "env \<Rightarrow> int64 \<Rightarrow> int64 \<Rightarrow> int64 \<Rightarrow> db \<Rightarrow> unit written" where
  "RemoveRoleInheritance E app childID parentID =
     runVersionedWrite E app
       \<lparr>action = ''remove_inheritance'', entityType = ''role_inheritance'',
        entityID = show_id childID @ ''->'' @ show_id parentID, preCheck = no_check,
        mutate = (\<lambda>db. done_ok (DeleteRoleInheritance app childID parentID db))\<rparr>"

definition BindUserRole :: "env \<Rightarrow> int64 \<Rightarrow> string \<Rightarrow> int64 \<Rightarrow> db \<Rightarrow> unit written" where
  "BindUserRole E app userID roleID =
     runVersionedWrite E app
       \<lparr>action = ''bind_user'', entityType = ''user_role_binding'',
        entityID = userID @ '':'' @ show_id roleID, preCheck = no_check,
        mutate = (\<lambda>db. done_res (InsertUserRoleBinding app userID roleID db))\<rparr>"

definition UnbindUserRole :: "env \<Rightarrow> int64 \<Rightarrow> string \<Rightarrow> int64 \<Rightarrow> db \<Rightarrow> unit written" where
  "UnbindUserRole E app userID roleID =
     runVersionedWrite E app
       \<lparr>action = ''unbind_user'', entityType = ''user_role_binding'',
        entityID = userID @ '':'' @ show_id roleID, preCheck = no_check,
        mutate = (\<lambda>db. done_ok (DeleteUserRoleBinding app userID roleID db))\<rparr>"

subsection \<open>Data policies\<close>

definition Manager_UpsertDataPolicy :: "pg \<Rightarrow> env \<Rightarrow> int64 \<Rightarrow> data_policy \<Rightarrow> db \<Rightarrow> unit written" where
  "Manager_UpsertDataPolicy pg E app p0 =
     (let p = p0\<lparr>dp_Effect := effect_or_allow (dp_Effect p0)\<rparr>
      in runVersionedWriteData E app
           \<lparr>wd_action = ''upsert_data_policy'', wd_entityType = ''data_policy'', wd_entityID = dp_SubjectID p,
            wd_apply = (\<lambda>v db.
              case Store_UpsertDataPolicy pg app p v db of
                Inl e \<Rightarrow> Inl e
              | Inr (i, created, db') \<Rightarrow>
                  Inr ([\<lparr>dc_Op = (if created then ChangeAdd else ChangeUpdate), dc_Policy = p\<lparr>dp_ID := i\<rparr>\<rparr>], (), db'))\<rparr>)"

definition zero_data_policy :: data_policy where
  "zero_data_policy =
     \<lparr>dp_ID = 0, dp_SubjectType = '''', dp_SubjectID = '''', dp_Resource = '''', dp_Condition = '''',
      dp_Effect = '''', dp_Description = ''''\<rparr>"

definition Manager_DeleteDataPolicy :: "env \<Rightarrow> int64 \<Rightarrow> int64 \<Rightarrow> db \<Rightarrow> unit written" where
  "Manager_DeleteDataPolicy E app i =
     runVersionedWriteData E app
       \<lparr>wd_action = ''delete_data_policy'', wd_entityType = ''data_policy'', wd_entityID = show_id i,
        wd_apply = (\<lambda>v db.
          case Store_DeleteDataPolicy app i db of
            Inl e \<Rightarrow> Inl e
          | Inr db' \<Rightarrow> Inr ([\<lparr>dc_Op = ChangeRemove, dc_Policy = zero_data_policy\<lparr>dp_ID := i\<rparr>\<rparr>], (), db'))\<rparr>"

subsection \<open>Reported permission points\<close>

record point =
  pt_Code :: string
  pt_Resource :: string
  pt_Action :: string
  pt_Type :: string
  pt_Name :: string
  pt_Description :: string

fun report_loop :: "pg \<Rightarrow> int64 \<Rightarrow> point list \<Rightarrow> nat \<times> nat \<Rightarrow> db \<Rightarrow> (db_error, (nat \<times> nat) \<times> db) res" where
  "report_loop pg app [] res db = Inr (res, db)"
| "report_loop pg app (p # ps) (up, sk) db =
     (case UpsertAutoPermission pg app (pt_Code p) (pt_Resource p) (pt_Action p) (pt_Type p) (pt_Name p)
             (pt_Description p) db of
        Inl e \<Rightarrow> Inl e
      | Inr (True, db') \<Rightarrow> report_loop pg app ps (Suc up, sk) db'
      | Inr (False, db') \<Rightarrow> report_loop pg app ps (up, Suc sk) db')"

definition Manager_ReportPermissions :: "pg \<Rightarrow> env \<Rightarrow> int64 \<Rightarrow> point list \<Rightarrow> db \<Rightarrow> (nat \<times> nat) written" where
  "Manager_ReportPermissions pg E app points =
     runVersionedWrite (E\<lparr>operator := ''auto-report''\<rparr>) app
       \<lparr>action = ''report_permissions'', entityType = ''permission'', entityID = '''', preCheck = no_check,
        mutate = (\<lambda>db. done_val (report_loop pg app points (0, 0) db))\<rparr>"

subsection \<open>Templates\<close>

record template_scope =
  ts_Resource :: string
  ts_Effect :: string
  ts_Condition :: string

record template_role =
  tr_Key :: string
  tr_Name :: string
  tr_PermissionCodes :: "string list"
  tr_DataScopes :: "template_scope list"

record template_result =
  PermsUpserted :: nat
  PermsSkipped :: nat
  RolesCreated :: nat
  RolesSkipped :: nat
  DataScopesCreated :: nat

type_synonym template_state = "template_result \<times> data_policy_change list \<times> db"

definition grant_code ::
    "int64 \<Rightarrow> (string \<Rightarrow> int64 option) \<Rightarrow> int64 \<Rightarrow> string \<Rightarrow> db \<Rightarrow> (db_error, db) res" where
  "grant_code app idByCode roleID pc db =
     (case idByCode pc of
        None \<Rightarrow> Inl Undeclared
      | Some pid \<Rightarrow> InsertRolePermission app roleID pid EffectAllow db)"

definition seed_scope ::
    "pg \<Rightarrow> int64 \<Rightarrow> string \<Rightarrow> template_scope \<Rightarrow> template_state \<Rightarrow> (db_error, template_state) res" where
  "seed_scope pg app cd ds st =
     (case st of (res, changes, db) \<Rightarrow>
        case LockAppVersion db app of
          Inl e \<Rightarrow> Inl e
        | Inr cur \<Rightarrow>
            (let p = \<lparr>dp_ID = 0, dp_SubjectType = ''role'', dp_SubjectID = cd, dp_Resource = ts_Resource ds,
                      dp_Condition = ts_Condition ds, dp_Effect = effect_or_allow (ts_Effect ds),
                      dp_Description = ''''\<rparr>
             in case Store_UpsertDataPolicy pg app p (cur + 1) db of
                  Inl e \<Rightarrow> Inl e
                | Inr (i, _, db') \<Rightarrow>
                    Inr (res\<lparr>DataScopesCreated := Suc (DataScopesCreated res)\<rparr>,
                         changes @ [\<lparr>dc_Op = ChangeAdd, dc_Policy = p\<lparr>dp_ID := i\<rparr>\<rparr>], db')))"

definition template_role_code :: "string \<Rightarrow> string \<Rightarrow> string" where
  "template_role_code templateID key = ''tpl:'' @ templateID @ '':'' @ key"

definition apply_role ::
    "pg \<Rightarrow> int64 \<Rightarrow> string \<Rightarrow> (string \<Rightarrow> int64 option) \<Rightarrow> template_role \<Rightarrow> template_state \<Rightarrow>
     (db_error, template_state) res" where
  "apply_role pg app templateID idByCode r st =
     (case st of (res, changes, db) \<Rightarrow>
        let cd = template_role_code templateID (tr_Key r)
        in case UpsertTemplateRole pg app cd (tr_Name r) db of
             Inl e \<Rightarrow> Inl e
           | Inr (roleID, created, db1) \<Rightarrow>
               if \<not> created then Inr (res\<lparr>RolesSkipped := Suc (RolesSkipped res)\<rparr>, changes, db1)
               else
                 (case foldM (grant_code app idByCode roleID) (tr_PermissionCodes r) db1 of
                    Inl e \<Rightarrow> Inl e
                  | Inr db2 \<Rightarrow>
                      foldM (seed_scope pg app cd) (tr_DataScopes r)
                        (res\<lparr>RolesCreated := Suc (RolesCreated res)\<rparr>, changes, db2)))"

definition apply_template_mutate ::
    "pg \<Rightarrow> int64 \<Rightarrow> string \<Rightarrow> point list \<Rightarrow> template_role list \<Rightarrow> db \<Rightarrow>
     (db_error, data_policy_change list \<times> template_result \<times> db) res" where
  "apply_template_mutate pg app templateID perms trs db =
     (case report_loop pg app perms (0, 0) db of
        Inl e \<Rightarrow> Inl e
      | Inr ((up, sk), db1) \<Rightarrow>
          (case foldM (apply_role pg app templateID (PermissionIDsByCode db1 app (map pt_Code perms))) trs
                  (\<lparr>PermsUpserted = up, PermsSkipped = sk, RolesCreated = 0, RolesSkipped = 0,
                    DataScopesCreated = 0\<rparr>, [], db1) of
             Inl e \<Rightarrow> Inl e
           | Inr (res, changes, db2) \<Rightarrow> Inr (changes, res, db2)))"

definition ApplyTemplate ::
    "pg \<Rightarrow> env \<Rightarrow> int64 \<Rightarrow> string \<Rightarrow> point list \<Rightarrow> template_role list \<Rightarrow> db \<Rightarrow> template_result written" where
  "ApplyTemplate pg E app templateID perms trs db =
     (if CHR '':'' \<in> set templateID then (Inl ErrInvalidInput, db)
      else if \<exists>r \<in> set trs. CHR '':'' \<in> set (tr_Key r) then (Inl ErrInvalidInput, db)
      else runVersionedWrite E app
             \<lparr>action = ''apply_template'', entityType = ''template'', entityID = templateID,
              preCheck = no_check, mutate = apply_template_mutate pg app templateID perms trs\<rparr> db)"

subsection \<open>Batches\<close>

definition batchEntityID :: "nat \<Rightarrow> string" where
  "batchEntityID n = ''batch:'' @ nat_digits n"

definition done_count :: "nat \<times> db \<Rightarrow> (db_error, data_policy_change list \<times> nat \<times> db) res" where
  "done_count r = (case r of (n, db) \<Rightarrow> Inr ([], n, db))"

definition BatchUnbindUserRole :: "env \<Rightarrow> int64 \<Rightarrow> (string \<times> int64) list \<Rightarrow> db \<Rightarrow> nat written" where
  "BatchUnbindUserRole E app pairs =
     runVersionedWrite E app
       \<lparr>action = ''batch_unbind_user_role'', entityType = ''user_role_binding'',
        entityID = batchEntityID (length pairs), preCheck = no_check,
        mutate = (\<lambda>db. done_count (DeleteUserRoleBindingsBatch app pairs db))\<rparr>"

definition BatchRevokePermission :: "env \<Rightarrow> int64 \<Rightarrow> (int64 \<times> int64) list \<Rightarrow> db \<Rightarrow> nat written" where
  "BatchRevokePermission E app pairs =
     runVersionedWrite E app
       \<lparr>action = ''batch_revoke'', entityType = ''role_permission'',
        entityID = batchEntityID (length pairs), preCheck = no_check,
        mutate = (\<lambda>db. done_count (DeleteRolePermissionsBatch app pairs db))\<rparr>"

definition BatchRemoveRoleInheritance :: "env \<Rightarrow> int64 \<Rightarrow> (int64 \<times> int64) list \<Rightarrow> db \<Rightarrow> nat written" where
  "BatchRemoveRoleInheritance E app pairs =
     runVersionedWrite E app
       \<lparr>action = ''batch_remove_inheritance'', entityType = ''role_inheritance'',
        entityID = batchEntityID (length pairs), preCheck = no_check,
        mutate = (\<lambda>db. done_count (DeleteRoleInheritancesBatch app pairs db))\<rparr>"

definition BatchDeleteRole :: "env \<Rightarrow> int64 \<Rightarrow> int64 list \<Rightarrow> db \<Rightarrow> nat written" where
  "BatchDeleteRole E app ids =
     runVersionedWrite E app
       \<lparr>action = ''batch_delete_role'', entityType = ''role'',
        entityID = batchEntityID (length ids), preCheck = no_check,
        mutate = (\<lambda>db. done_val (DeleteRolesBatch app ids db))\<rparr>"

definition BatchDeleteDataPolicy :: "env \<Rightarrow> int64 \<Rightarrow> int64 list \<Rightarrow> db \<Rightarrow> nat written" where
  "BatchDeleteDataPolicy E app ids db =
     (if ids = [] then (Inr (None, 0), db)
      else runVersionedWriteData E app
             \<lparr>wd_action = ''batch_delete_data_policy'', wd_entityType = ''data_policy'',
              wd_entityID = batchEntityID (length ids),
              wd_apply = (\<lambda>v db.
                case DeleteDataPoliciesBatch app ids db of
                  (removed, db') \<Rightarrow>
                    Inr (map (\<lambda>i. \<lparr>dc_Op = ChangeRemove, dc_Policy = zero_data_policy\<lparr>dp_ID := i\<rparr>\<rparr>) removed,
                         length removed, db'))\<rparr> db)"

section \<open>Writes as commands\<close>

text \<open>All write operations of the manager, for statements about any of them.\<close>

datatype wcmd =
    WGrant int64 int64 string
  | WRevoke int64 int64
  | WCreateRole string string
  | WCreateBusinessRole string string "int64 list"
  | WDeleteRole int64
  | WUpsertPermission string string string string string
  | WAddInheritance int64 int64
  | WRemoveInheritance int64 int64
  | WBind string int64
  | WUnbind string int64
  | WUpsertDataPolicy data_policy
  | WDeleteDataPolicy int64
  | WReport "point list"
  | WApplyTemplate string "point list" "template_role list"
  | WBatchUnbind "(string \<times> int64) list"
  | WBatchRevoke "(int64 \<times> int64) list"
  | WBatchRemoveInheritance "(int64 \<times> int64) list"
  | WBatchDeleteRole "int64 list"
  | WBatchDeleteDataPolicy "int64 list"

definition outcome :: "'a written \<Rightarrow> (policy_error, delta option) res \<times> db" where
  "outcome w = (case w of (Inl e, db) \<Rightarrow> (Inl e, db) | (Inr (d, _), db) \<Rightarrow> (Inr d, db))"

fun exec :: "pg \<Rightarrow> env \<Rightarrow> int64 \<Rightarrow> wcmd \<Rightarrow> db \<Rightarrow> (policy_error, delta option) res \<times> db" where
  "exec pg E app (WGrant r p eft) db = outcome (GrantPermission E app r p eft db)"
| "exec pg E app (WRevoke r p) db = outcome (RevokePermission E app r p db)"
| "exec pg E app (WCreateRole cd n) db = outcome (CreateRole pg E app cd n db)"
| "exec pg E app (WCreateBusinessRole cd n ps) db = outcome (CreateBusinessRole pg E cd app n ps db)"
| "exec pg E app (WDeleteRole r) db = outcome (Manager_DeleteRole E app r db)"
| "exec pg E app (WUpsertPermission cd res act ty n) db =
     outcome (Manager_UpsertPermission pg E app cd res act ty n db)"
| "exec pg E app (WAddInheritance c p) db = outcome (AddRoleInheritance E app c p db)"
| "exec pg E app (WRemoveInheritance c p) db = outcome (RemoveRoleInheritance E app c p db)"
| "exec pg E app (WBind u r) db = outcome (BindUserRole E app u r db)"
| "exec pg E app (WUnbind u r) db = outcome (UnbindUserRole E app u r db)"
| "exec pg E app (WUpsertDataPolicy p) db = outcome (Manager_UpsertDataPolicy pg E app p db)"
| "exec pg E app (WDeleteDataPolicy i) db = outcome (Manager_DeleteDataPolicy E app i db)"
| "exec pg E app (WReport pts) db = outcome (Manager_ReportPermissions pg E app pts db)"
| "exec pg E app (WApplyTemplate tid pts trs) db = outcome (ApplyTemplate pg E app tid pts trs db)"
| "exec pg E app (WBatchUnbind ps) db = outcome (BatchUnbindUserRole E app ps db)"
| "exec pg E app (WBatchRevoke ps) db = outcome (BatchRevokePermission E app ps db)"
| "exec pg E app (WBatchRemoveInheritance ps) db = outcome (BatchRemoveRoleInheritance E app ps db)"
| "exec pg E app (WBatchDeleteRole ids) db = outcome (BatchDeleteRole E app ids db)"
| "exec pg E app (WBatchDeleteDataPolicy ids) db = outcome (BatchDeleteDataPolicy E app ids db)"

section \<open>What a statement may touch\<close>

definition same_elsewhere :: "int64 \<Rightarrow> db \<Rightarrow> db \<Rightarrow> bool" where
  "same_elsewhere app db db' \<longleftrightarrow>
     (\<forall>a. a \<noteq> app \<longrightarrow>
        filter (\<lambda>r. rl_app r = a) (roles db') = filter (\<lambda>r. rl_app r = a) (roles db) \<and>
        filter (\<lambda>r. pm_app r = a) (permissions db') = filter (\<lambda>r. pm_app r = a) (permissions db) \<and>
        filter (\<lambda>r. rp_app r = a) (role_permissions db') = filter (\<lambda>r. rp_app r = a) (role_permissions db) \<and>
        filter (\<lambda>r. ri_app r = a) (role_inheritances db') = filter (\<lambda>r. ri_app r = a) (role_inheritances db) \<and>
        filter (\<lambda>r. ub_app r = a) (user_role_bindings db') = filter (\<lambda>r. ub_app r = a) (user_role_bindings db) \<and>
        filter (\<lambda>r. dr_app r = a) (data_policies db') = filter (\<lambda>r. dr_app r = a) (data_policies db))"

text \<open>A business statement of an application leaves the rules, versions, logs and other applications alone.\<close>

definition frame :: "int64 \<Rightarrow> db \<Rightarrow> db \<Rightarrow> bool" where
  "frame app db db' \<longleftrightarrow>
     casbin_rules db' = casbin_rules db \<and> applications db' = applications db \<and>
     audit_log db' = audit_log db \<and> policy_outbox db' = policy_outbox db \<and> same_elsewhere app db db'"

lemma frame_refl [simp]: "frame app db db"
  by (simp add: frame_def same_elsewhere_def)

lemma frame_trans: "frame app db1 db2 \<Longrightarrow> frame app db2 db3 \<Longrightarrow> frame app db1 db3"
  by (simp add: frame_def same_elsewhere_def)

lemma filter_other:
  "a \<noteq> app \<Longrightarrow> (\<And>r. k r \<noteq> app \<Longrightarrow> P r) \<Longrightarrow> filter (\<lambda>r. k r = a) (filter P xs) = filter (\<lambda>r. k r = a) xs"
  by (induction xs) auto

lemma filter_other_map:
  assumes "a \<noteq> app" "\<And>r. k r \<noteq> app \<Longrightarrow> f r = r" "\<And>r. k (f r) = k r"
  shows "filter (\<lambda>r. k r = a) (map f xs) = filter (\<lambda>r. k r = a) xs"
proof (induction xs)
  case (Cons x xs)
  then show ?case by (cases "k x = app") (use assms in simp_all)
qed simp

lemmas frame_simps = frame_def same_elsewhere_def

lemma frame_insert_role: "insert_role_row pg app cd n s db = Inr (i, db') \<Longrightarrow> frame app db db'"
  by (auto simp: insert_role_row_def frame_simps Let_def split: if_splits)

lemma frame_UpsertTemplateRole: "UpsertTemplateRole pg app cd n db = Inr (i, c, db') \<Longrightarrow> frame app db db'"
  by (auto simp: UpsertTemplateRole_def dest: frame_insert_role split: list.splits sum.splits)

lemma frame_delete_roles: "delete_roles app ids db = Inr (n, db') \<Longrightarrow> frame app db db'"
  by (auto simp: delete_roles_def frame_simps Let_def intro!: filter_other simp del: filter_filter split: if_splits)

lemma frame_upsert_permission:
  assumes "upsert_permission_row pg new when upd db = Inr (i, db')" "pm_app new = app" "\<And>p. pm_app (upd p) = pm_app p"
  shows "frame app db db'"
proof -
  have "filter (\<lambda>r. pm_app r = a)
      (map (\<lambda>q. if pm_app q = app \<and> pm_code q = pm_code new then upd q else q) (permissions db)) =
    filter (\<lambda>r. pm_app r = a) (permissions db)" if "a \<noteq> app" for a
    by (rule filter_other_map [OF that]) (use assms(3) in auto)
  with assms show ?thesis
    by (auto simp: upsert_permission_row_def frame_simps Let_def split: if_splits list.splits)
qed

lemma frame_permissions:
  "Store_UpsertPermission pg app cd res act ty n db = Inr (i, db') \<Longrightarrow> frame app db db'"
  "UpsertAutoPermission pg app cd res act ty n d db = Inr (b, db') \<Longrightarrow> frame app db db'"
  by (auto simp: Store_UpsertPermission_def UpsertAutoPermission_def new_permission_def
      split: sum.splits option.splits elim!: frame_upsert_permission)

lemma frame_inserts:
  "InsertRolePermission app r p e db = Inr db' \<Longrightarrow> frame app db db'"
  "InsertRoleInheritance app c q db = Inr db' \<Longrightarrow> frame app db db'"
  "InsertUserRoleBinding app u r db = Inr db' \<Longrightarrow> frame app db db'"
  by (auto simp: InsertRolePermission_def InsertRoleInheritance_def InsertUserRoleBinding_def frame_simps
      split: if_splits)

lemma frame_deletes:
  "frame app db (DeleteRolePermission app r p db)"
  "frame app db (DeleteRoleInheritance app c q db)"
  "frame app db (DeleteUserRoleBinding app u r db)"
  "frame app db (snd (DeleteRolePermissionsBatch app ps db))"
  "frame app db (snd (DeleteRoleInheritancesBatch app ps db))"
  "frame app db (snd (DeleteUserRoleBindingsBatch app us db))"
  "frame app db (snd (DeleteDataPoliciesBatch app ids db))"
  by (auto simp: frame_simps DeleteRolePermission_def DeleteRoleInheritance_def DeleteUserRoleBinding_def
      DeleteRolePermissionsBatch_def DeleteRoleInheritancesBatch_def DeleteUserRoleBindingsBatch_def
      DeleteDataPoliciesBatch_def Let_def intro!: filter_other simp del: filter_filter)

lemma frame_data_policies:
  "Store_UpsertDataPolicy pg app p v db = Inr (i, c, db') \<Longrightarrow> frame app db db'"
  "Store_DeleteDataPolicy app i db = Inr db' \<Longrightarrow> frame app db db'"
proof -
  have "filter (\<lambda>r. dr_app r = a)
      (map (\<lambda>r. if dr_app r = app \<and> dp_ID (dr_policy r) = j then r\<lparr>dr_policy := q, dr_source := dr_source r, dr_version := v\<rparr> else r) rows) =
    filter (\<lambda>r. dr_app r = a) rows" if "a \<noteq> app" for a j q rows
    by (rule filter_other_map [OF that]) auto
  then show "Store_UpsertDataPolicy pg app p v db = Inr (i, c, db') \<Longrightarrow> frame app db db'"
    by (auto simp: Store_UpsertDataPolicy_def upsert_data_policy_row_def frame_simps Let_def
        split: if_splits option.splits)
  show "Store_DeleteDataPolicy app i db = Inr db' \<Longrightarrow> frame app db db'"
    by (auto simp: Store_DeleteDataPolicy_def frame_simps Let_def intro!: filter_other simp del: filter_filter split: if_splits)
qed

lemma frame_foldM:
  assumes "foldM f xs db = Inr db'" "\<And>x db db'. f x db = Inr db' \<Longrightarrow> frame app db db'"
  shows "frame app db db'"
  by (rule foldM_invariant [OF assms(1)]) (auto intro: frame_trans assms(2))

lemma frame_report_loop: "report_loop pg app ps res db = Inr (res', db') \<Longrightarrow> frame app db db'"
proof (induction pg app ps res db rule: report_loop.induct)
  case (2 pg app p ps up sk db)
  then show ?case
    by (auto split: sum.splits bool.splits dest!: frame_permissions(2) intro: frame_trans)
qed simp

lemma frame_apply_role:
  assumes "apply_role pg app tid ids r (res, cs, db) = Inr (res', cs', db')"
  shows "frame app db db'"
proof -
  have seed: "frame app (snd (snd st)) (snd (snd st'))" if "seed_scope pg app cd ds st = Inr st'" for cd ds st st'
    using that by (auto simp: seed_scope_def Let_def split: prod.splits sum.splits dest: frame_data_policies(1))
  have seeds: "frame app (snd (snd st)) (snd (snd st'))" if "foldM (seed_scope pg app cd) dss st = Inr st'" for cd dss st st'
    by (rule foldM_invariant [OF that]) (auto intro: frame_trans seed)
  have grant: "frame app db1 db2" if "grant_code app ids i pc db1 = Inr db2" for i pc db1 db2
    using that by (auto simp: grant_code_def split: option.splits dest: frame_inserts(1))
  have grants: "frame app db1 db2" if "foldM (grant_code app ids i) pcs db1 = Inr db2" for i pcs db1 db2
    by (rule frame_foldM [OF that grant])
  show ?thesis
    using assms
    by (auto simp: apply_role_def Let_def split: prod.splits sum.splits if_splits
        dest!: frame_UpsertTemplateRole seeds grants intro: frame_trans)
qed

lemma frame_template:
  assumes "apply_template_mutate pg app tid pts trs db = Inr (cs, res, db')"
  shows "frame app db db'"
proof -
  have roles: "frame app (snd (snd st)) (snd (snd st'))"
    if "foldM (apply_role pg app tid ids) trs st = Inr st'" for ids st st'
    by (rule foldM_invariant [OF that]) (auto intro: frame_trans [OF _ frame_apply_role])
  show ?thesis
    using assms
    by (auto simp: apply_template_mutate_def split: prod.splits sum.splits
        dest!: frame_report_loop roles intro: frame_trans)
qed

section \<open>The contract of a write\<close>

lemma Diff_bounds:
  assumes "Diff cur des = (adds, removes)"
  shows "distinct adds" "set adds \<subseteq> set des - set cur" "set removes \<subseteq> set cur - set des"
proof -
  have part: "set (map snd (filter (\<lambda>(k, r). map_of (by_key bs) k = None) (by_key as))) \<subseteq> set as - set bs" for as bs
    by (auto simp: map_of_by_key_None dest!: by_key_pairs)
  show "distinct adds" "set adds \<subseteq> set des - set cur" "set removes \<subseteq> set cur - set des"
    using assms part [of cur des] part [of des cur] distinct_by_key_filter by (auto simp: Diff_def Let_def)
qed

lemma delete_rules:
  "fold (delete_rule app) rs db =
     db\<lparr>casbin_rules := filter (\<lambda>c. \<not> (cr_app c = app \<and> cr_rule c \<in> set rs)) (casbin_rules db)\<rparr>"
  by (induction rs arbitrary: db) (auto simp: delete_rule_def intro!: arg_cong2 [of _ _ _ _ casbin_rules_update] filter_cong)

lemma insert_rules:
  assumes "distinct adds" "set adds \<inter> set (ReadAppRules db app) = {}"
  shows "foldM (insert_rule app v) adds db =
    Inr (db\<lparr>casbin_rules := casbin_rules db @ map (\<lambda>r. \<lparr>cr_app = app, cr_rule = r, cr_version = v\<rparr>) adds\<rparr>)"
  using assms
proof (induction adds arbitrary: db)
  case Nil
  then show ?case by simp
next
  case (Cons r adds)
  let ?db1 = "db\<lparr>casbin_rules := casbin_rules db @ [\<lparr>cr_app = app, cr_rule = r, cr_version = v\<rparr>]\<rparr>"
  have "insert_rule app v r db = Inr ?db1"
    using Cons.prems by (auto simp: insert_rule_def ReadAppRules_def)
  moreover have "foldM (insert_rule app v) adds ?db1 =
      Inr (?db1\<lparr>casbin_rules := casbin_rules ?db1 @ map (\<lambda>r. \<lparr>cr_app = app, cr_rule = r, cr_version = v\<rparr>) adds\<rparr>)"
    using Cons.prems by (intro Cons.IH) (auto simp: ReadAppRules_def)
  ultimately show ?case by simp
qed

definition diff_rows :: "int64 \<Rightarrow> rule list \<Rightarrow> rule list \<Rightarrow> int64 \<Rightarrow> db \<Rightarrow> casbin_row list" where
  "diff_rows app adds removes v db =
     filter (\<lambda>c. \<not> (cr_app c = app \<and> cr_rule c \<in> set removes)) (casbin_rules db) @
     map (\<lambda>r. \<lparr>cr_app = app, cr_rule = r, cr_version = v\<rparr>) adds"

lemma ApplyDiff_Ok:
  assumes "distinct adds" "set adds \<inter> set (ReadAppRules db app) = {}"
  shows "ApplyDiff app adds removes v db = Inr (db\<lparr>casbin_rules := diff_rows app adds removes v db\<rparr>)"
proof -
  let ?db = "db\<lparr>casbin_rules := filter (\<lambda>c. \<not> (cr_app c = app \<and> cr_rule c \<in> set removes)) (casbin_rules db)\<rparr>"
  have "set adds \<inter> set (ReadAppRules ?db app) = {}" using assms(2) by (auto simp: ReadAppRules_def)
  with insert_rules [OF assms(1) this, of v] show ?thesis
    by (simp add: ApplyDiff_def delete_rules diff_rows_def)
qed

definition version_of :: "db \<Rightarrow> int64 \<Rightarrow> int64 option" where
  "version_of db app = map_option ap_current_version (applications db app)"

definition rules_of :: "db \<Rightarrow> int64 \<Rightarrow> rule set" where
  "rules_of db app = set (ReadAppRules db app)"

text \<open>Nothing of another application changes.\<close>

definition isolated :: "int64 \<Rightarrow> db \<Rightarrow> db \<Rightarrow> bool" where
  "isolated app db db' \<longleftrightarrow> same_elsewhere app db db' \<and>
     (\<forall>a. a \<noteq> app \<longrightarrow>
        filter (\<lambda>r. cr_app r = a) (casbin_rules db') = filter (\<lambda>r. cr_app r = a) (casbin_rules db) \<and>
        applications db' a = applications db a \<and>
        filter (\<lambda>r. au_app r = a) (audit_log db') = filter (\<lambda>r. au_app r = a) (audit_log db) \<and>
        filter (\<lambda>r. ob_app r = a) (policy_outbox db') = filter (\<lambda>r. ob_app r = a) (policy_outbox db))"

text \<open>
  What a write promises: an error leaves the database as it was; without a delta no rule, no
  version and no log has changed; with a delta, the rules changed by exactly its rows, the version
  is the next one, and the audit log and the outbox each got the one row that describes it.
\<close>

definition write_contract :: "env \<Rightarrow> int64 \<Rightarrow> db \<Rightarrow> (policy_error, delta option) res \<times> db \<Rightarrow> bool" where
  "write_contract E app db out =
     (case out of
        (Inl _, db') \<Rightarrow> db' = db
      | (Inr None, db') \<Rightarrow>
          isolated app db db' \<and> casbin_rules db' = casbin_rules db \<and> applications db' = applications db \<and>
          audit_log db' = audit_log db \<and> policy_outbox db' = policy_outbox db
      | (Inr (Some d), db') \<Rightarrow>
          isolated app db db' \<and> d_AppID d = app \<and>
          version_of db app = Some (d_Version d - 1) \<and> version_of db' app = Some (d_Version d) \<and>
          rules_of db' app = (rules_of db app - set (d_RuleRemoves d)) \<union> set (d_RuleAdds d) \<and>
          set (d_RuleAdds d) \<inter> rules_of db app = {} \<and> set (d_RuleRemoves d) \<subseteq> rules_of db app \<and>
          (\<exists>row. audit_log db' = audit_log db @ [row] \<and> au_app row = app \<and> au_version row = d_Version d \<and>
             au_operator row = operator E \<and> au_adds row = d_RuleAdds d \<and> au_removes row = d_RuleRemoves d \<and>
             au_data row = d_DataChanges d) \<and>
          policy_outbox db' = policy_outbox db @
            (if delta_sink E = NoSink then []
             else [\<lparr>ob_app = app, ob_version = d_Version d, ob_delta = DeltaToProto d, ob_published = False\<rparr>]))"

lemma isolated_refl [simp]: "isolated app db db"
  by (simp add: isolated_def same_elsewhere_def)

lemma frame_isolated: "frame app db db' \<Longrightarrow> isolated app db db'"
  by (simp add: frame_def isolated_def)

text \<open>The tables after the rules, the version and the logs have been written.\<close>

definition committed :: "env \<Rightarrow> int64 \<Rightarrow> string \<Rightarrow> string \<Rightarrow> string \<Rightarrow> delta \<Rightarrow> db \<Rightarrow> db" where
  "committed E app act et ei d db =
     (let db1 = InsertAudit app (operator E) act et ei (d_RuleAdds d) (d_RuleRemoves d) (d_DataChanges d) (d_Version d)
                  (BumpAppVersion app (d_Version d)
                    (db\<lparr>casbin_rules := diff_rows app (d_RuleAdds d) (d_RuleRemoves d) (d_Version d) db\<rparr>))
      in if delta_sink E = NoSink then db1 else sink_Persist app d db1)"

lemma committed_contract:
  assumes "frame app db db1" "version_of db app = Some (d_Version d - 1)" "d_AppID d = app"
    and "set (d_RuleAdds d) \<inter> rules_of db app = {}" "set (d_RuleRemoves d) \<subseteq> rules_of db app"
  shows "write_contract E app db (Inr (Some d), committed E app act et ei d db1)"
proof -
  obtain a where a: "applications db1 app = Some a"
    using assms(1,2) by (auto simp: version_of_def frame_def)
  have rules: "filter (\<lambda>r. cr_app r = b) (diff_rows app (d_RuleAdds d) (d_RuleRemoves d) (d_Version d) db1) =
      filter (\<lambda>r. cr_app r = b) (casbin_rules db)" if "b \<noteq> app" for b
    using assms(1) that
    by (auto simp: diff_rows_def frame_def filter_empty_conv intro!: filter_other [of b app cr_app] simp del: filter_filter)
  have rows: "{c \<in> set (diff_rows app (d_RuleAdds d) (d_RuleRemoves d) (d_Version d) db1). cr_app c = app} =
      {c \<in> set (casbin_rules db). cr_app c = app \<and> cr_rule c \<notin> set (d_RuleRemoves d)} \<union>
      (\<lambda>r. \<lparr>cr_app = app, cr_rule = r, cr_version = d_Version d\<rparr>) ` set (d_RuleAdds d)"
    using assms(1) by (auto simp: diff_rows_def frame_def)
  have kept: "cr_rule ` {c \<in> set (casbin_rules db). cr_app c = app \<and> cr_rule c \<notin> set (d_RuleRemoves d)} =
      rules_of db app - set (d_RuleRemoves d)"
    by (auto simp: rules_of_def ReadAppRules_def)
  have own: "cr_rule ` {c \<in> set (diff_rows app (d_RuleAdds d) (d_RuleRemoves d) (d_Version d) db1). cr_app c = app} =
      (rules_of db app - set (d_RuleRemoves d)) \<union> set (d_RuleAdds d)"
    unfolding rows image_Un kept image_image by simp
  show ?thesis
    using assms a rules own
    by (auto simp: write_contract_def committed_def Let_def InsertAudit_def BumpAppVersion_def sink_Persist_def
        isolated_def frame_def same_elsewhere_def version_of_def rules_of_def ReadAppRules_def)
qed

lemma frame_version: "frame app db db1 \<Longrightarrow> version_of db1 = version_of db \<and> rules_of db1 = rules_of db"
  by (auto simp: frame_def version_of_def rules_of_def ReadAppRules_def fun_eq_iff)

lemma LockAppVersion_Ok: "LockAppVersion db app = Inr v \<longleftrightarrow> version_of db app = Some v"
  by (auto simp: LockAppVersion_def version_of_def split: option.splits)

lemma run_sink_committed:
  assumes "run_sink (delta_sink E) app d
    (InsertAudit app (operator E) act et ei (d_RuleAdds d) (d_RuleRemoves d) (d_DataChanges d) (d_Version d)
      (BumpAppVersion app (d_Version d)
        (db\<lparr>casbin_rules := diff_rows app (d_RuleAdds d) (d_RuleRemoves d) (d_Version d) db\<rparr>))) = Inr db'"
  shows "db' = committed E app act et ei d db"
  using assms by (auto simp: run_sink_def committed_def Let_def split: sink.splits if_splits)

text \<open>
  The interface of the versioned write to the mutation it is given: the mutation touches the
  business rows of its own application only. The contract follows for every such mutation.
\<close>

locale business_write =
  fixes app :: int64
    and m :: "db \<Rightarrow> (db_error, data_policy_change list \<times> 'a \<times> db) res"
  assumes business: "m db = Inr (cs, x, db1) \<Longrightarrow> frame app db db1"
begin

lemma versioned_write_contract:
  assumes "mutate op = m"
  shows "write_contract E app db (outcome (runVersionedWrite E app op db))"
proof (cases "tx_begin E \<and> preCheck op db = None")
  case False
  then show ?thesis
    by (auto simp: runVersionedWrite_def outcome_def write_contract_def split: sum.splits option.splits)
next
  case pre: True
  show ?thesis
  proof (cases "LockAppVersion db app")
    case (Inl e)
    with pre show ?thesis by (simp add: runVersionedWrite_def outcome_def write_contract_def)
  next
    case lock: (Inr cur)
    show ?thesis
    proof (cases "m db")
      case (Inl e)
      with pre lock assms show ?thesis by (simp add: runVersionedWrite_def outcome_def write_contract_def)
    next
      case (Inr r)
      then obtain cs x db1 where m: "m db = Inr (cs, x, db1)" by (cases r) auto
      note fr = business [OF m]
      obtain adds removes where diff: "Diff (ReadAppRules db1 app) (ProjectApp db1 app) = (adds, removes)"
        by (metis surj_pair)
      note bounds = Diff_bounds [OF diff]
      let ?d = "\<lparr>d_AppID = app, d_Version = cur + 1, d_RuleAdds = adds, d_RuleRemoves = removes, d_DataChanges = cs\<rparr>"
      have applied: "ApplyDiff app adds removes (cur + 1) db1 =
          Inr (db1\<lparr>casbin_rules := diff_rows app adds removes (cur + 1) db1\<rparr>)"
        by (rule ApplyDiff_Ok) (use bounds in auto)
      have "set adds \<inter> rules_of db app = {}" "set removes \<subseteq> rules_of db app"
        using bounds frame_version [OF fr] by (auto simp: rules_of_def fun_eq_iff)
      then have contract: "write_contract E app db (Inr (Some ?d), committed E app (action op) (entityType op) (entityID op) ?d db1)"
        by (intro committed_contract [OF fr]) (use lock in \<open>simp_all add: LockAppVersion_Ok\<close>)
      show ?thesis
        using pre lock m diff applied assms contract frame_isolated [OF fr] fr
          run_sink_committed [of E app ?d "action op" "entityType op" "entityID op" db1]
        by (auto simp: runVersionedWrite_def outcome_def write_contract_def [of E app db "(Inl _, _)"]
            write_contract_def [of E app db "(Inr None, _)"] frame_def Let_def split: sum.splits)
    qed
  qed
qed

end

locale data_write =
  fixes app :: int64
    and f :: "int64 \<Rightarrow> db \<Rightarrow> (db_error, data_policy_change list \<times> 'a \<times> db) res"
  assumes data: "f v db = Inr (cs, x, db1) \<Longrightarrow> frame app db db1"

sublocale data_write \<subseteq> at_version: business_write app "f v" for v
  by unfold_locales (rule data)

context data_write
begin

lemma data_write_contract:
  assumes "wd_apply op = f"
  shows "write_contract E app db (outcome (runVersionedWriteData E app op db))"
proof (cases "tx_begin E")
  case False
  then show ?thesis by (simp add: runVersionedWriteData_def outcome_def write_contract_def)
next
  case tx: True
  show ?thesis
  proof (cases "LockAppVersion db app")
    case (Inl e)
    with tx show ?thesis by (simp add: runVersionedWriteData_def outcome_def write_contract_def)
  next
    case lock: (Inr cur)
    show ?thesis
    proof (cases "f (cur + 1) db")
      case (Inl e)
      with tx lock assms show ?thesis by (simp add: runVersionedWriteData_def outcome_def write_contract_def)
    next
      case (Inr r)
      then obtain cs x db1 where m: "f (cur + 1) db = Inr (cs, x, db1)" by (cases r) auto
      note fr = data [OF m]
      let ?d = "\<lparr>d_AppID = app, d_Version = cur + 1, d_RuleAdds = [], d_RuleRemoves = [], d_DataChanges = cs\<rparr>"
      have contract: "write_contract E app db (Inr (Some ?d), committed E app (wd_action op) (wd_entityType op) (wd_entityID op) ?d db1)"
        by (intro committed_contract [OF fr]) (use lock in \<open>simp_all add: LockAppVersion_Ok\<close>)
      have rows: "db1\<lparr>casbin_rules := diff_rows app [] [] (cur + 1) db1\<rparr> = db1" by (simp add: diff_rows_def)
      show ?thesis
        using tx lock m assms contract
          run_sink_committed [of E app ?d "wd_action op" "wd_entityType op" "wd_entityID op" db1]
        by (auto simp: runVersionedWriteData_def outcome_def write_contract_def [of E app db "(Inl _, _)"] rows Let_def
            split: sum.splits)
    qed
  qed
qed

end

section \<open>Every operation meets the contract\<close>

lemma done_Ok:
  "done_res r = Inr (cs, x, db) \<longleftrightarrow> cs = [] \<and> r = Inr db"
  "done_val s = Inr (cs, y, db) \<longleftrightarrow> cs = [] \<and> s = Inr (y, db)"
  "done_ok db1 = Inr (cs, x, db) \<longleftrightarrow> cs = [] \<and> db = db1"
  "done_count nd = Inr (cs, n, db) \<longleftrightarrow> cs = [] \<and> nd = (n, db)"
  by (auto simp: done_res_def done_val_def done_ok_def done_count_def split: sum.splits prod.splits)

lemma frame_grants:
  "foldM (\<lambda>pid. InsertRolePermission app i pid eft) permIDs db = Inr db' \<Longrightarrow> frame app db db'"
  by (rule frame_foldM) (auto dest: frame_inserts(1))

interpretation grant: business_write app "\<lambda>db. done_res (InsertRolePermission app roleID permID eft db)"
  for app roleID permID eft
  by unfold_locales (auto simp: done_Ok dest: frame_inserts)

interpretation revoke: business_write app "\<lambda>db. done_ok (DeleteRolePermission app roleID permID db)"
  for app roleID permID
  by unfold_locales (simp add: done_Ok frame_deletes)

interpretation create_role: business_write app "\<lambda>db. done_val (InsertRole pg app cd name db)"
  for app pg cd name
  by unfold_locales (auto simp: done_Ok InsertRole_def dest: frame_insert_role)

interpretation create_business_role: business_write app
    "\<lambda>db. case InsertRole pg app cd name db of
            Inl e \<Rightarrow> Inl e
          | Inr (i, db1) \<Rightarrow>
              (case foldM (\<lambda>pid. InsertRolePermission app i pid EffectAllow) permIDs db1 of
                 Inl e \<Rightarrow> Inl e
               | Inr db2 \<Rightarrow> Inr ([], i, db2))"
  for app pg cd name permIDs
  by unfold_locales
    (auto simp: InsertRole_def split: sum.splits dest!: frame_insert_role
      dest!: frame_grants intro: frame_trans)

interpretation delete_role: business_write app "\<lambda>db. done_res (Store_DeleteRole app roleID db)" for app roleID
  by unfold_locales (auto simp: done_Ok Store_DeleteRole_def split: sum.splits dest: frame_delete_roles)

interpretation upsert_permission: business_write app
    "\<lambda>db. done_val (Store_UpsertPermission pg app cd resource act ptype name db)"
  for app pg cd resource act ptype name
  by unfold_locales (auto simp: done_Ok dest: frame_permissions)

interpretation add_inheritance: business_write app "\<lambda>db. done_res (InsertRoleInheritance app childID parentID db)"
  for app childID parentID
  by unfold_locales (auto simp: done_Ok dest: frame_inserts)

interpretation remove_inheritance: business_write app "\<lambda>db. done_ok (DeleteRoleInheritance app childID parentID db)"
  for app childID parentID
  by unfold_locales (simp add: done_Ok frame_deletes)

interpretation bind_user: business_write app "\<lambda>db. done_res (InsertUserRoleBinding app userID roleID db)"
  for app userID roleID
  by unfold_locales (auto simp: done_Ok dest: frame_inserts)

interpretation unbind_user: business_write app "\<lambda>db. done_ok (DeleteUserRoleBinding app userID roleID db)"
  for app userID roleID
  by unfold_locales (simp add: done_Ok frame_deletes)

interpretation report: business_write app "\<lambda>db. done_val (report_loop pg app points (0, 0) db)" for app pg points
  by unfold_locales (auto simp: done_Ok dest: frame_report_loop)

interpretation template: business_write app "apply_template_mutate pg app templateID perms trs"
  for app pg templateID perms trs
  by unfold_locales (rule frame_template)

interpretation batch_unbind: business_write app "\<lambda>db. done_count (DeleteUserRoleBindingsBatch app us db)" for app us
  by unfold_locales (metis done_Ok(4) frame_deletes(6) snd_conv)

interpretation batch_revoke: business_write app "\<lambda>db. done_count (DeleteRolePermissionsBatch app pairs db)" for app pairs
  by unfold_locales (metis done_Ok(4) frame_deletes(4) snd_conv)

interpretation batch_remove_inheritance: business_write app "\<lambda>db. done_count (DeleteRoleInheritancesBatch app pairs db)"
  for app pairs
  by unfold_locales (metis done_Ok(4) frame_deletes(5) snd_conv)

interpretation batch_delete_role: business_write app "\<lambda>db. done_val (DeleteRolesBatch app ids db)" for app ids
  by unfold_locales (auto simp: done_Ok DeleteRolesBatch_def split: if_splits dest: frame_delete_roles)

interpretation upsert_data_policy: data_write app
    "\<lambda>v db. case Store_UpsertDataPolicy pg app p v db of
              Inl e \<Rightarrow> Inl e
            | Inr (i, created, db') \<Rightarrow>
                Inr ([\<lparr>dc_Op = (if created then ChangeAdd else ChangeUpdate), dc_Policy = p\<lparr>dp_ID := i\<rparr>\<rparr>], (), db')"
  for app pg p
  by unfold_locales (auto split: sum.splits prod.splits dest: frame_data_policies)

interpretation delete_data_policy: data_write app
    "\<lambda>v db. case Store_DeleteDataPolicy app i db of
              Inl e \<Rightarrow> Inl e
            | Inr db' \<Rightarrow> Inr ([\<lparr>dc_Op = ChangeRemove, dc_Policy = zero_data_policy\<lparr>dp_ID := i\<rparr>\<rparr>], (), db')"
  for app i
  by unfold_locales (auto split: sum.splits dest: frame_data_policies)

interpretation batch_delete_data_policy: data_write app
    "\<lambda>v db. case DeleteDataPoliciesBatch app ids db of
              (removed, db') \<Rightarrow>
                Inr (map (\<lambda>i. \<lparr>dc_Op = ChangeRemove, dc_Policy = zero_data_policy\<lparr>dp_ID := i\<rparr>\<rparr>) removed,
                     length removed, db')"
  for app ids
proof
  fix v db cs x db1
  assume "(case DeleteDataPoliciesBatch app ids db of
      (removed, db') \<Rightarrow>
        Inr (map (\<lambda>i. \<lparr>dc_Op = ChangeRemove, dc_Policy = zero_data_policy\<lparr>dp_ID := i\<rparr>\<rparr>) removed,
             length removed, db')) = (Inr (cs, x, db1) :: (db_error, data_policy_change list \<times> nat \<times> db) res)"
  then show "frame app db db1" using frame_deletes(7) [of app db ids] by (auto split: prod.splits)
qed

definition op_env :: "env \<Rightarrow> wcmd \<Rightarrow> env" where
  "op_env E c = (case c of WReport _ \<Rightarrow> E\<lparr>operator := ''auto-report''\<rparr> | _ \<Rightarrow> E)"

lemma exec_contract: "write_contract (op_env E c) app db (exec pg E app c db)"
proof (cases c)
  case (WApplyTemplate tid pts trs)
  then show ?thesis
    using template.versioned_write_contract [where app = app and pg = pg and templateID = tid and perms = pts and trs = trs and E = E and db = db]
    by (auto simp: op_env_def ApplyTemplate_def outcome_def write_contract_def [of _ _ _ "(Inl _, _)"])
next
  case (WBatchDeleteDataPolicy ids)
  then show ?thesis
    using batch_delete_data_policy.data_write_contract [where app = app and ids = ids and E = E and db = db]
    by (auto simp: op_env_def BatchDeleteDataPolicy_def outcome_def write_contract_def [of _ _ _ "(Inr None, _)"])
qed (simp_all add: op_env_def GrantPermission_def RevokePermission_def CreateRole_def CreateBusinessRole_def
    Manager_DeleteRole_def Manager_UpsertPermission_def AddRoleInheritance_def RemoveRoleInheritance_def
    BindUserRole_def UnbindUserRole_def Manager_UpsertDataPolicy_def Manager_DeleteDataPolicy_def
    Manager_ReportPermissions_def BatchUnbindUserRole_def BatchRevokePermission_def
    BatchRemoveRoleInheritance_def BatchDeleteRole_def Let_def
    grant.versioned_write_contract revoke.versioned_write_contract create_role.versioned_write_contract
    create_business_role.versioned_write_contract delete_role.versioned_write_contract
    upsert_permission.versioned_write_contract add_inheritance.versioned_write_contract
    remove_inheritance.versioned_write_contract bind_user.versioned_write_contract
    unbind_user.versioned_write_contract report.versioned_write_contract
    upsert_data_policy.data_write_contract delete_data_policy.data_write_contract
    batch_unbind.versioned_write_contract batch_revoke.versioned_write_contract
    batch_remove_inheritance.versioned_write_contract batch_delete_role.versioned_write_contract)

section \<open>What a committed write has done to the business tables\<close>

text \<open>The mutation and the precheck behind a command, without its result value.\<close>

definition effect :: "(db_error, data_policy_change list \<times> 'a \<times> db) res \<Rightarrow> (db_error, data_policy_change list \<times> db) res" where
  "effect r = (case r of Inl e \<Rightarrow> Inl e | Inr (cs, _, db) \<Rightarrow> Inr (cs, db))"

fun mutation_of :: "pg \<Rightarrow> int64 \<Rightarrow> int64 \<Rightarrow> wcmd \<Rightarrow> db \<Rightarrow> (db_error, data_policy_change list \<times> db) res" where
  "mutation_of pg app v (WGrant r p eft) db = effect (done_res (InsertRolePermission app r p eft db))"
| "mutation_of pg app v (WRevoke r p) db = effect (done_ok (DeleteRolePermission app r p db))"
| "mutation_of pg app v (WCreateRole cd n) db = effect (done_val (InsertRole pg app cd n db))"
| "mutation_of pg app v (WCreateBusinessRole cd n ps) db =
     (case InsertRole pg app cd n db of
        Inl e \<Rightarrow> Inl e
      | Inr (i, db1) \<Rightarrow> effect (done_res (foldM (\<lambda>pid. InsertRolePermission app i pid EffectAllow) ps db1)))"
| "mutation_of pg app v (WDeleteRole r) db = effect (done_res (Store_DeleteRole app r db))"
| "mutation_of pg app v (WUpsertPermission cd res act ty n) db =
     effect (done_val (Store_UpsertPermission pg app cd res act ty n db))"
| "mutation_of pg app v (WAddInheritance c p) db = effect (done_res (InsertRoleInheritance app c p db))"
| "mutation_of pg app v (WRemoveInheritance c p) db = effect (done_ok (DeleteRoleInheritance app c p db))"
| "mutation_of pg app v (WBind u r) db = effect (done_res (InsertUserRoleBinding app u r db))"
| "mutation_of pg app v (WUnbind u r) db = effect (done_ok (DeleteUserRoleBinding app u r db))"
| "mutation_of pg app v (WUpsertDataPolicy p) db =
     (case Store_UpsertDataPolicy pg app (p\<lparr>dp_Effect := effect_or_allow (dp_Effect p)\<rparr>) v db of
        Inl e \<Rightarrow> Inl e
      | Inr (i, created, db') \<Rightarrow>
          Inr ([\<lparr>dc_Op = (if created then ChangeAdd else ChangeUpdate),
                 dc_Policy = p\<lparr>dp_Effect := effect_or_allow (dp_Effect p), dp_ID := i\<rparr>\<rparr>], db'))"
| "mutation_of pg app v (WDeleteDataPolicy i) db =
     (case Store_DeleteDataPolicy app i db of
        Inl e \<Rightarrow> Inl e
      | Inr db' \<Rightarrow> Inr ([\<lparr>dc_Op = ChangeRemove, dc_Policy = zero_data_policy\<lparr>dp_ID := i\<rparr>\<rparr>], db'))"
| "mutation_of pg app v (WReport pts) db = effect (done_val (report_loop pg app pts (0, 0) db))"
| "mutation_of pg app v (WApplyTemplate tid pts trs) db = effect (apply_template_mutate pg app tid pts trs db)"
| "mutation_of pg app v (WBatchUnbind ps) db = effect (done_count (DeleteUserRoleBindingsBatch app ps db))"
| "mutation_of pg app v (WBatchRevoke ps) db = effect (done_count (DeleteRolePermissionsBatch app ps db))"
| "mutation_of pg app v (WBatchRemoveInheritance ps) db = effect (done_count (DeleteRoleInheritancesBatch app ps db))"
| "mutation_of pg app v (WBatchDeleteRole ids) db = effect (done_val (DeleteRolesBatch app ids db))"
| "mutation_of pg app v (WBatchDeleteDataPolicy ids) db =
     (case DeleteDataPoliciesBatch app ids db of
        (removed, db') \<Rightarrow>
          Inr (map (\<lambda>i. \<lparr>dc_Op = ChangeRemove, dc_Policy = zero_data_policy\<lparr>dp_ID := i\<rparr>\<rparr>) removed, db'))"

definition precheck_of :: "int64 \<Rightarrow> wcmd \<Rightarrow> db \<Rightarrow> db_error option" where
  "precheck_of app c db = (case c of WAddInheritance ch p \<Rightarrow> CheckNoCycle db app ch p | _ \<Rightarrow> None)"

text \<open>Two databases with the same business rows and the same domains.\<close>

definition same_business :: "db \<Rightarrow> db \<Rightarrow> bool" where
  "same_business db db' \<longleftrightarrow>
     roles db' = roles db \<and> permissions db' = permissions db \<and> role_permissions db' = role_permissions db \<and>
     role_inheritances db' = role_inheritances db \<and> user_role_bindings db' = user_role_bindings db \<and>
     data_policies db' = data_policies db \<and>
     (\<lambda>a. map_option ap_domain (applications db' a)) = (\<lambda>a. map_option ap_domain (applications db a))"

lemma same_business_refl [simp]: "same_business db db"
  by (simp add: same_business_def)

lemma same_business_project:
  assumes "same_business db db'"
  shows "ProjectApp db' = ProjectApp db"
proof -
  have dom: "map_option ap_domain (applications db' a) = map_option ap_domain (applications db a)" for a
    using assms by (auto simp: same_business_def fun_eq_iff)
  have "ProjectApp db' a = ProjectApp db a" for a
    using assms dom [of a]
    by (cases "applications db a"; cases "applications db' a")
      (simp_all add: same_business_def ProjectApp_def project_p_def project_g_user_def project_g_inherit_def cong: if_cong)
  then show ?thesis by (simp add: fun_eq_iff)
qed

lemma committed_business: "same_business db (committed E app act et ei d db)"
  by (auto simp: same_business_def committed_def Let_def InsertAudit_def BumpAppVersion_def sink_Persist_def
      fun_eq_iff split: option.splits)

text \<open>Whether the rules of an application are the projection of its business rows.\<close>

definition consistent :: "db \<Rightarrow> int64 \<Rightarrow> bool" where
  "consistent db app \<longleftrightarrow> rules_of db app = set (ProjectApp db app)"

lemma committed_rules: "rules_of (committed E app act et ei d db) app =
  cr_rule ` {c \<in> set (diff_rows app (d_RuleAdds d) (d_RuleRemoves d) (d_Version d) db). cr_app c = app}"
  by (simp add: rules_of_def ReadAppRules_def committed_def Let_def InsertAudit_def BumpAppVersion_def sink_Persist_def
      split: option.splits)

lemma committed_consistent:
  assumes "Diff (ReadAppRules db app) (ProjectApp db app) = (adds, removes)"
    and "\<forall>r \<in> rules_of db app \<union> set (ProjectApp db app). sep_free r"
    and "d_RuleAdds d = adds" "d_RuleRemoves d = removes"
  shows "consistent (committed E app act et ei d db) app"
proof -
  have sets: "set adds = set (ProjectApp db app) - rules_of db app" "set removes = rules_of db app - set (ProjectApp db app)"
    using Diff_sets [of "ReadAppRules db app" "ProjectApp db app"] assms by (auto simp: rules_of_def)
  have rows: "{c \<in> set (diff_rows app adds removes (d_Version d) db). cr_app c = app} =
      {c \<in> set (casbin_rules db). cr_app c = app \<and> cr_rule c \<notin> set removes} \<union>
      (\<lambda>r. \<lparr>cr_app = app, cr_rule = r, cr_version = d_Version d\<rparr>) ` set adds"
    by (auto simp: diff_rows_def)
  have "cr_rule ` {c \<in> set (casbin_rules db). cr_app c = app \<and> cr_rule c \<notin> set removes} = rules_of db app - set removes"
    by (auto simp: rules_of_def ReadAppRules_def)
  then have "rules_of (committed E app act et ei d db) app = (rules_of db app - set removes) \<union> set adds"
    unfolding committed_rules assms(3,4) rows image_Un image_image by simp
  also have "\<dots> = set (ProjectApp db app)" unfolding sets by auto
  finally show ?thesis
    unfolding consistent_def same_business_project [OF committed_business] .
qed

lemma Diff_empty_consistent:
  assumes "Diff (ReadAppRules db app) (ProjectApp db app) = ([], [])"
    and "\<forall>r \<in> rules_of db app \<union> set (ProjectApp db app). sep_free r"
  shows "consistent db app"
  using Diff_sets [of "ReadAppRules db app" "ProjectApp db app"] assms by (auto simp: rules_of_def consistent_def)

definition rows_clean :: "db \<Rightarrow> int64 \<Rightarrow> bool" where
  "rows_clean db app \<longleftrightarrow> (\<forall>r \<in> rules_of db app \<union> set (ProjectApp db app). sep_free r)"

lemma runVersionedWrite_business:
  assumes "outcome (runVersionedWrite E app op db) = (Inr d, db')"
  shows "\<exists>cs x db1. mutate op db = Inr (cs, x, db1) \<and> preCheck op db = None \<and> same_business db1 db' \<and>
    (rows_clean db1 app \<longrightarrow> consistent db' app)"
proof -
  obtain x where run: "runVersionedWrite E app op db = (Inr (d, x), db')"
    using assms by (auto simp: outcome_def split: prod.splits sum.splits)
  then obtain cur cs db1 where 1: "tx_begin E" "LockAppVersion db app = Inr cur" "preCheck op db = None"
      "mutate op db = Inr (cs, x, db1)"
    by (auto simp: runVersionedWrite_def Let_def split: if_splits sum.splits option.splits prod.splits)
  obtain adds removes where diff: "Diff (ReadAppRules db1 app) (ProjectApp db1 app) = (adds, removes)"
    by (metis surj_pair)
  note bounds = Diff_bounds [OF diff]
  let ?d = "\<lparr>d_AppID = app, d_Version = cur + 1, d_RuleAdds = adds, d_RuleRemoves = removes, d_DataChanges = cs\<rparr>"
  have applied: "ApplyDiff app adds removes (cur + 1) db1 =
      Inr (db1\<lparr>casbin_rules := diff_rows app adds removes (cur + 1) db1\<rparr>)"
    by (rule ApplyDiff_Ok) (use bounds in auto)
  consider "adds = [] \<and> removes = [] \<and> cs = []" "db' = db1"
    | "db' = committed E app (action op) (entityType op) (entityID op) ?d db1"
    using run 1 diff applied run_sink_committed [of E app ?d "action op" "entityType op" "entityID op" db1]
    by (auto simp: runVersionedWrite_def Let_def split: if_splits sum.splits)
  then show ?thesis
  proof cases
    case 1
    with \<open>mutate op db = _\<close> \<open>preCheck op db = _\<close> Diff_empty_consistent [of db1 app] diff show ?thesis
      by (auto simp: rows_clean_def)
  next
    case 2
    with \<open>mutate op db = _\<close> \<open>preCheck op db = _\<close> committed_consistent [OF diff, of ?d] committed_business show ?thesis
      by (auto simp: rows_clean_def)
  qed
qed

lemma runVersionedWriteData_business:
  assumes "outcome (runVersionedWriteData E app op db) = (Inr d, db')"
  shows "\<exists>v cs x db1. wd_apply op v db = Inr (cs, x, db1) \<and> same_business db1 db' \<and> rules_of db' app = rules_of db1 app"
proof -
  obtain x where run: "runVersionedWriteData E app op db = (Inr (d, x), db')"
    using assms by (auto simp: outcome_def split: prod.splits sum.splits)
  then obtain cur cs db1 where 1: "tx_begin E" "LockAppVersion db app = Inr cur"
      "wd_apply op (cur + 1) db = Inr (cs, x, db1)"
    by (auto simp: runVersionedWriteData_def Let_def split: if_splits sum.splits prod.splits)
  let ?d = "\<lparr>d_AppID = app, d_Version = cur + 1, d_RuleAdds = [], d_RuleRemoves = [], d_DataChanges = cs\<rparr>"
  have rows: "db1\<lparr>casbin_rules := diff_rows app [] [] (cur + 1) db1\<rparr> = db1" by (simp add: diff_rows_def)
  have "db' = committed E app (wd_action op) (wd_entityType op) (wd_entityID op) ?d db1"
    using run 1 run_sink_committed [of E app ?d "wd_action op" "wd_entityType op" "wd_entityID op" db1]
    by (auto simp: runVersionedWriteData_def rows Let_def split: if_splits sum.splits)
  moreover have "rules_of (committed E app (wd_action op) (wd_entityType op) (wd_entityID op) ?d db1) app = rules_of db1 app"
    unfolding committed_rules by (auto simp: diff_rows_def rules_of_def ReadAppRules_def)
  ultimately show ?thesis using 1(3) committed_business by metis
qed

section \<open>The contract of every operation\<close>


end
