(* ===== verification/Write_Invariants.thy ===== *)
theory Write_Invariants
  imports Manager
begin

text \<open>
  What every write of the policy manager keeps: the keys and references of the schema, the
  acyclic inheritance graph, and the agreement of the stored rules with the projection of the
  business rows. A committed write leaves the business rows that its mutation made
  (\<open>mutation_of\<close>), so each invariant is proved once per mutation.
\<close>

section \<open>Mutations behind committed writes\<close>

lemma effect_Ok: "effect r = Inr (cs, db) \<longleftrightarrow> (\<exists>x. r = Inr (cs, x, db))"
  by (auto simp: effect_def split: sum.splits)

definition is_data :: "wcmd \<Rightarrow> bool" where
  "is_data c = (case c of WUpsertDataPolicy _ \<Rightarrow> True | WDeleteDataPolicy _ \<Rightarrow> True | WBatchDeleteDataPolicy _ \<Rightarrow> True | _ \<Rightarrow> False)"

lemmas write_op_defs = GrantPermission_def RevokePermission_def CreateRole_def CreateBusinessRole_def
  Manager_DeleteRole_def Manager_UpsertPermission_def AddRoleInheritance_def RemoveRoleInheritance_def
  BindUserRole_def UnbindUserRole_def Manager_ReportPermissions_def ApplyTemplate_def BatchUnbindUserRole_def
  BatchRevokePermission_def BatchRemoveRoleInheritance_def BatchDeleteRole_def

lemma exec_versioned:
  assumes "exec pg E app c db = (Inr d, db')" "\<not> is_data c"
  shows "\<exists>v cs db1. mutation_of pg app v c db = Inr (cs, db1) \<and> precheck_of app c db = None \<and>
    same_business db1 db' \<and> (rows_clean db1 app \<longrightarrow> consistent db' app)"
proof (cases c)
  case (WCreateBusinessRole cd n ps)
  with assms(1) show ?thesis
    by (auto simp: CreateBusinessRole_def precheck_of_def effect_Ok done_Ok split: sum.splits
        dest!: runVersionedWrite_business)
qed (use assms in \<open>auto simp: write_op_defs precheck_of_def effect_Ok outcome_def [of "(Inl _, _)"] is_data_def
      dest!: runVersionedWrite_business split: if_splits\<close>)

text \<open>A data statement changes the data policies only.\<close>

lemma data_statements:
  "Store_UpsertDataPolicy pg app p v db = Inr (i, c, db') \<Longrightarrow> \<exists>ps. db' = db\<lparr>data_policies := ps\<rparr>"
  "Store_DeleteDataPolicy app i db = Inr db' \<Longrightarrow> \<exists>ps. db' = db\<lparr>data_policies := ps\<rparr>"
  "\<exists>ps. snd (DeleteDataPoliciesBatch app ids db) = db\<lparr>data_policies := ps\<rparr>"
  by (auto simp: Store_UpsertDataPolicy_def upsert_data_policy_row_def Store_DeleteDataPolicy_def
      DeleteDataPoliciesBatch_def Let_def split: if_splits option.splits)

lemma project_data_policies [simp]: "ProjectApp (db\<lparr>data_policies := ps\<rparr>) = ProjectApp db"
  by (simp add: fun_eq_iff ProjectApp_def project_p_def project_g_user_def project_g_inherit_def cong: if_cong)

lemma mutation_data:
  assumes "mutation_of pg app v c db = Inr (cs, db1)" "is_data c"
  shows "\<exists>ps. db1 = db\<lparr>data_policies := ps\<rparr>"
proof (cases c)
  case (WBatchDeleteDataPolicy ids)
  with assms data_statements(3) [of app ids db] show ?thesis by (auto split: prod.splits)
qed (use assms in \<open>auto simp: is_data_def split: sum.splits prod.splits dest!: data_statements(1,2)\<close>)

lemma effect_case:
  "effect (case S of Inl e \<Rightarrow> Inl e | Inr a \<Rightarrow> f a) = (case S of Inl e \<Rightarrow> Inl e | Inr a \<Rightarrow> effect (f a))"
  "effect (case pr of (a, b) \<Rightarrow> g a b) = (case pr of (a, b) \<Rightarrow> effect (g a b))"
  "effect (Inr (cs, x, db)) = Inr (cs, db)"
  by (simp_all add: effect_def split: sum.splits prod.splits)

lemma data_effect:
  assumes "outcome (runVersionedWriteData E app op db) = (Inr d, db')"
    and "\<And>v. effect (wd_apply op v db) = mutation_of pg app v c db"
  shows "\<exists>v cs db1. mutation_of pg app v c db = Inr (cs, db1) \<and> same_business db1 db' \<and>
    rules_of db' app = rules_of db1 app"
proof -
  obtain v cs x db1 where "wd_apply op v db = Inr (cs, x, db1)" "same_business db1 db'" "rules_of db' app = rules_of db1 app"
    using runVersionedWriteData_business [OF assms(1)] by blast
  moreover from this(1) have "mutation_of pg app v c db = Inr (cs, db1)"
    by (simp flip: assms(2) add: effect_case(3))
  ultimately show ?thesis by blast
qed

lemma exec_data:
  assumes "exec pg E app c db = (Inr d, db')" "is_data c"
  shows "\<exists>v cs db1. mutation_of pg app v c db = Inr (cs, db1) \<and> same_business db1 db' \<and>
    rules_of db' app = rules_of db1 app"
proof (cases c)
  case (WUpsertDataPolicy p)
  show ?thesis
    by (rule data_effect [OF assms(1) [unfolded WUpsertDataPolicy exec.simps Manager_UpsertDataPolicy_def Let_def]])
      (simp add: WUpsertDataPolicy effect_case split: sum.splits prod.splits)
next
  case (WDeleteDataPolicy i)
  show ?thesis
    by (rule data_effect [OF assms(1) [unfolded WDeleteDataPolicy exec.simps Manager_DeleteDataPolicy_def]])
      (simp add: WDeleteDataPolicy effect_case split: sum.splits)
next
  case (WBatchDeleteDataPolicy ids)
  show ?thesis
  proof (cases "ids = []")
    case True
    then have "db' = db" "mutation_of pg app 0 c db = Inr ([], db)"
      using assms WBatchDeleteDataPolicy
      by (auto simp: BatchDeleteDataPolicy_def outcome_def DeleteDataPoliciesBatch_def Let_def)
    then show ?thesis by force
  next
    case False
    then show ?thesis
      using assms(1) unfolding WBatchDeleteDataPolicy exec.simps BatchDeleteDataPolicy_def
      by (simp del: mutation_of.simps) (erule data_effect, simp add: effect_case split: prod.splits)
  qed
qed (use assms in \<open>simp_all add: is_data_def\<close>)

lemma mutation_frame: "mutation_of pg app v c db = Inr (cs, db1) \<Longrightarrow> frame app db db1"
proof (cases c)
  case (WCreateBusinessRole cd n ps)
  then show "mutation_of pg app v c db = Inr (cs, db1) \<Longrightarrow> frame app db db1"
    by (auto simp: InsertRole_def effect_Ok done_Ok split: sum.splits dest!: frame_insert_role frame_grants intro: frame_trans)
next
  case (WBatchDeleteDataPolicy ids)
  then show "mutation_of pg app v c db = Inr (cs, db1) \<Longrightarrow> frame app db db1"
    using frame_deletes(7) [of app db ids] by (auto split: prod.splits)
next
  case (WBatchUnbind ps)
  then show "mutation_of pg app v c db = Inr (cs, db1) \<Longrightarrow> frame app db db1"
    using frame_deletes(6) [of app db ps] by (auto simp: effect_Ok done_Ok)
next
  case (WBatchRevoke ps)
  then show "mutation_of pg app v c db = Inr (cs, db1) \<Longrightarrow> frame app db db1"
    using frame_deletes(4) [of app db ps] by (auto simp: effect_Ok done_Ok)
next
  case (WBatchRemoveInheritance ps)
  then show "mutation_of pg app v c db = Inr (cs, db1) \<Longrightarrow> frame app db db1"
    using frame_deletes(5) [of app db ps] by (auto simp: effect_Ok done_Ok)
qed (auto simp: effect_Ok done_Ok InsertRole_def Store_DeleteRole_def DeleteRolesBatch_def frame_deletes
    split: sum.splits if_splits
    dest: frame_inserts frame_insert_role frame_delete_roles frame_permissions frame_data_policies frame_report_loop frame_template)

text \<open>The two kinds of writes together.\<close>

lemma exec_business:
  assumes "exec pg E app c db = (Inr d, db')"
  shows "\<exists>v cs db1. mutation_of pg app v c db = Inr (cs, db1) \<and> precheck_of app c db = None \<and>
    same_business db1 db' \<and>
    (rows_clean db1 app \<longrightarrow> (is_data c \<longrightarrow> consistent db app) \<longrightarrow> consistent db' app)"
proof (cases "is_data c")
  case False
  then show ?thesis using exec_versioned [OF assms] by blast
next
  case True
  then obtain v cs db1 where m: "mutation_of pg app v c db = Inr (cs, db1)" "same_business db1 db'"
      "rules_of db' app = rules_of db1 app"
    using exec_data [OF assms] by blast
  obtain ps where "db1 = db\<lparr>data_policies := ps\<rparr>" using mutation_data [OF m(1) True] ..
  then have "consistent db app \<Longrightarrow> consistent db' app"
    using m(3) same_business_project [OF m(2)] frame_version [OF mutation_frame [OF m(1)]] by (simp add: consistent_def)
  moreover have "precheck_of app c db = None" using True by (auto simp: is_data_def precheck_of_def split: wcmd.splits)
  ultimately show ?thesis using m True by blast
qed

section \<open>Keys and references of the schema\<close>

definition schema_ok :: "db \<Rightarrow> bool" where
  "schema_ok db \<longleftrightarrow>
     distinct (map rl_id (roles db)) \<and> distinct (map (\<lambda>r. (rl_app r, rl_code r)) (roles db)) \<and>
     distinct (map pm_id (permissions db)) \<and> distinct (map (\<lambda>p. (pm_app p, pm_code p)) (permissions db)) \<and>
     distinct (map (\<lambda>g. (rp_app g, rp_role g, rp_permission g)) (role_permissions db)) \<and>
     (\<forall>g \<in> set (role_permissions db). has_role_id db (rp_app g) (rp_role g) \<and>
        has_permission_id db (rp_app g) (rp_permission g)) \<and>
     (\<forall>g \<in> set (role_inheritances db). has_role_id db (ri_app g) (ri_parent g) \<and> has_role_id db (ri_app g) (ri_child g)) \<and>
     (\<forall>b \<in> set (user_role_bindings db). has_role_id db (ub_app b) (ub_role b)) \<and>
     distinct (map (\<lambda>r. dp_ID (dr_policy r)) (data_policies db))"

lemma has_ids_simps [simp]:
  "has_role_id (db\<lparr>permissions := ps\<rparr>) = has_role_id db"
  "has_role_id (db\<lparr>role_permissions := gs\<rparr>) = has_role_id db"
  "has_role_id (db\<lparr>role_inheritances := is\<rparr>) = has_role_id db"
  "has_role_id (db\<lparr>user_role_bindings := bs\<rparr>) = has_role_id db"
  "has_role_id (db\<lparr>data_policies := ds\<rparr>) = has_role_id db"
  "has_permission_id (db\<lparr>roles := rs\<rparr>) = has_permission_id db"
  "has_permission_id (db\<lparr>role_permissions := gs\<rparr>) = has_permission_id db"
  "has_permission_id (db\<lparr>role_inheritances := is\<rparr>) = has_permission_id db"
  "has_permission_id (db\<lparr>user_role_bindings := bs\<rparr>) = has_permission_id db"
  "has_permission_id (db\<lparr>data_policies := ds\<rparr>) = has_permission_id db"
  by (simp_all add: fun_eq_iff has_role_id_def has_permission_id_def)

lemma distinct_map_filter_key: "distinct (map f xs) \<Longrightarrow> distinct (map f (filter P xs))"
  by (induction xs) auto

lemma schema_insert_role:
  assumes "insert_role_row pg app cd n s db = Inr (i, db')" "schema_ok db"
  shows "schema_ok db'"
proof -
  have new: "i \<notin> rl_id ` set (roles db)" "(app, cd) \<notin> (\<lambda>r. (rl_app r, rl_code r)) ` set (roles db)"
      "db' = db\<lparr>roles := roles db @ [\<lparr>rl_id = i, rl_app = app, rl_code = cd, rl_name = n, rl_description = '''', rl_source = s\<rparr>]\<rparr>"
    using assms(1) by (auto simp: insert_role_row_def role_code_taken_def Let_def split: if_splits)
  have "has_role_id db' a j" if "has_role_id db a j" for a j
    using that by (auto simp: new(3) has_role_id_def)
  with assms(2) new show ?thesis by (auto simp: schema_ok_def)
qed

lemma schema_template_role:
  "UpsertTemplateRole pg app cd n db = Inr (i, c, db') \<Longrightarrow> schema_ok db \<Longrightarrow> schema_ok db'"
  by (auto simp: UpsertTemplateRole_def split: list.splits sum.splits dest: schema_insert_role)

lemma schema_delete_roles:
  assumes "delete_roles app ids db = Inr (n, db')" "schema_ok db"
  shows "schema_ok db'"
proof -
  have db': "db' = db\<lparr>
      role_permissions := filter (\<lambda>g. \<not> (rp_app g = app \<and> rp_role g \<in> set ids)) (role_permissions db),
      role_inheritances := filter (\<lambda>g. \<not> (ri_app g = app \<and> (ri_parent g \<in> set ids \<or> ri_child g \<in> set ids))) (role_inheritances db),
      user_role_bindings := filter (\<lambda>g. \<not> (ub_app g = app \<and> ub_role g \<in> set ids)) (user_role_bindings db),
      roles := filter (\<lambda>r. \<not> (rl_app r = app \<and> rl_id r \<in> set ids)) (roles db)\<rparr>"
    using assms(1) by (auto simp: delete_roles_def Let_def split: if_splits)
  have keeps: "has_role_id db' a j" if "has_role_id db a j" "\<not> (a = app \<and> j \<in> set ids)" for a j
    using that by (auto simp: db' has_role_id_def)
  have perms: "has_permission_id db' = has_permission_id db" by (simp add: db' fun_eq_iff has_permission_id_def)
  have "\<forall>g \<in> set (role_permissions db'). has_role_id db' (rp_app g) (rp_role g) \<and>
        has_permission_id db' (rp_app g) (rp_permission g)"
    unfolding perms using assms(2) keeps by (auto simp: db' schema_ok_def)
  moreover have "\<forall>g \<in> set (role_inheritances db'). has_role_id db' (ri_app g) (ri_parent g) \<and> has_role_id db' (ri_app g) (ri_child g)"
    using assms(2) keeps by (auto simp: db' schema_ok_def)
  moreover have "\<forall>b \<in> set (user_role_bindings db'). has_role_id db' (ub_app b) (ub_role b)"
    using assms(2) keeps by (auto simp: db' schema_ok_def)
  ultimately show ?thesis
    using assms(2) unfolding schema_ok_def by (simp add: db' distinct_map_filter_key)
qed

lemma schema_upsert_permission:
  assumes "upsert_permission_row pg new when upd db = Inr (i, db')" "schema_ok db"
    and upd: "\<And>p. pm_id (upd p) = pm_id p" "\<And>p. pm_app (upd p) = pm_app p" "\<And>p. pm_code (upd p) = pm_code p"
  shows "schema_ok db'"
proof -
  let ?f = "\<lambda>q. if pm_app q = pm_app new \<and> pm_code q = pm_code new then upd q else q"
  consider "db' = db" | "db' = db\<lparr>permissions := map ?f (permissions db)\<rparr>"
    | "db' = db\<lparr>permissions := permissions db @ [new\<lparr>pm_id := pg_permission_id pg db\<rparr>]\<rparr>"
        "pg_permission_id pg db \<notin> pm_id ` set (permissions db)"
        "(pm_app new, pm_code new) \<notin> (\<lambda>p. (pm_app p, pm_code p)) ` set (permissions db)"
    using assms(1)
    by (cases "filter (\<lambda>q. pm_app q = pm_app new \<and> pm_code q = pm_code new) (permissions db)")
      (force simp: upsert_permission_row_def Let_def filter_empty_conv split: if_splits)+
  then show ?thesis
  proof cases
    case 1
    with assms(2) show ?thesis by simp
  next
    case 2
    have keys: "pm_id \<circ> ?f = pm_id" "(\<lambda>p. (pm_app p, pm_code p)) \<circ> ?f = (\<lambda>p. (pm_app p, pm_code p))"
      using upd by (auto simp: fun_eq_iff)
    have "has_permission_id db' = has_permission_id db"
      using upd by (simp add: 2 fun_eq_iff has_permission_id_def Bex_def image_iff if_distrib) (metis (full_types))
    with assms(2) keys show ?thesis by (simp add: 2 schema_ok_def)
  next
    case 3
    have "has_permission_id db' a q" if "has_permission_id db a q" for a q
      using that by (auto simp: 3(1) has_permission_id_def)
    with assms(2) 3 show ?thesis by (auto simp: schema_ok_def)
  qed
qed

lemma schema_permissions:
  "Store_UpsertPermission pg app cd res act ty n db = Inr (i, db') \<Longrightarrow> schema_ok db \<Longrightarrow> schema_ok db'"
  "UpsertAutoPermission pg app cd res act ty n d db = Inr (b, db') \<Longrightarrow> schema_ok db \<Longrightarrow> schema_ok db'"
  by (auto simp: Store_UpsertPermission_def UpsertAutoPermission_def split: sum.splits option.splits
      elim!: schema_upsert_permission)

lemma schema_inserts:
  "InsertRolePermission app r p e db = Inr db' \<Longrightarrow> schema_ok db \<Longrightarrow> schema_ok db'"
  "InsertRoleInheritance app c q db = Inr db' \<Longrightarrow> schema_ok db \<Longrightarrow> schema_ok db'"
  "InsertUserRoleBinding app u r db = Inr db' \<Longrightarrow> schema_ok db \<Longrightarrow> schema_ok db'"
  by (auto simp: InsertRolePermission_def InsertRoleInheritance_def InsertUserRoleBinding_def schema_ok_def
      split: if_splits)

lemma schema_deletes:
  assumes "schema_ok db"
  shows "schema_ok (DeleteRolePermission app r p db)"
    "schema_ok (DeleteRoleInheritance app c q db)"
    "schema_ok (DeleteUserRoleBinding app u r db)"
    "schema_ok (snd (DeleteRolePermissionsBatch app ps db))"
    "schema_ok (snd (DeleteRoleInheritancesBatch app ps db))"
    "schema_ok (snd (DeleteUserRoleBindingsBatch app us db))"
    "schema_ok (snd (DeleteDataPoliciesBatch app ids db))"
  using assms
  by (auto simp: schema_ok_def DeleteRolePermission_def DeleteRoleInheritance_def DeleteUserRoleBinding_def
      DeleteRolePermissionsBatch_def DeleteRoleInheritancesBatch_def DeleteUserRoleBindingsBatch_def
      DeleteDataPoliciesBatch_def Let_def distinct_map_filter_key)

lemma schema_data_policies:
  assumes "schema_ok db"
  shows "Store_UpsertDataPolicy pg app p v db = Inr (i, c, db') \<Longrightarrow> schema_ok db'"
    and "Store_DeleteDataPolicy app i db = Inr db' \<Longrightarrow> schema_ok db'"
proof -
  have keys: "(\<lambda>r. dp_ID (dr_policy r)) \<circ> (\<lambda>r. if dr_app r = app \<and> dp_ID (dr_policy r) = dp_ID p
      then r\<lparr>dr_policy := p\<lparr>dp_Effect := e, dp_Condition := cd\<rparr>, dr_source := dr_source r, dr_version := v\<rparr> else r)
      = (\<lambda>r. dp_ID (dr_policy r))" for e cd
    by (auto simp: fun_eq_iff)
  show "Store_UpsertDataPolicy pg app p v db = Inr (i, c, db') \<Longrightarrow> schema_ok db'"
    using assms
    by (auto simp: Store_UpsertDataPolicy_def upsert_data_policy_row_def schema_ok_def Let_def keys
        split: if_splits option.splits) blast+
  show "Store_DeleteDataPolicy app i db = Inr db' \<Longrightarrow> schema_ok db'"
    using assms
    by (auto simp: Store_DeleteDataPolicy_def schema_ok_def Let_def distinct_map_filter_key split: if_splits)
qed

section \<open>An invariant of the business tables\<close>

text \<open>
  What an invariant has to show of the single statements, and what follows for whole writes.
  \<open>tok\<close> and \<open>eok\<close> restrict the texts (role codes, resources, actions, users) and the effects of grants
  that a write brings in.
\<close>

fun cmd_ok :: "(string \<Rightarrow> bool) \<Rightarrow> (string \<Rightarrow> bool) \<Rightarrow> wcmd \<Rightarrow> bool" where
  "cmd_ok tok eok (WGrant r p eft) = eok eft"
| "cmd_ok tok eok (WCreateRole cd n) = tok cd"
| "cmd_ok tok eok (WCreateBusinessRole cd n ps) = tok cd"
| "cmd_ok tok eok (WUpsertPermission cd res act ty n) = (tok res \<and> tok act)"
| "cmd_ok tok eok (WBind u r) = tok u"
| "cmd_ok tok eok (WReport pts) = list_all (\<lambda>p. tok (pt_Resource p) \<and> tok (pt_Action p)) pts"
| "cmd_ok tok eok (WApplyTemplate tid pts trs) =
     (list_all (\<lambda>p. tok (pt_Resource p) \<and> tok (pt_Action p)) pts \<and>
      list_all (\<lambda>r. tok (template_role_code tid (tr_Key r))) trs)"
| "cmd_ok tok eok _ = True"

locale business_invariant =
  fixes P :: "db \<Rightarrow> bool" and tok eok :: "string \<Rightarrow> bool"
  assumes eok_allow: "eok EffectAllow"
    and keeps_insert_role: "insert_role_row pg app cd n s db = Inr (i, db') \<Longrightarrow> tok cd \<Longrightarrow> P db \<Longrightarrow> P db'"
    and keeps_delete_roles: "delete_roles app ids db = Inr (k, db') \<Longrightarrow> P db \<Longrightarrow> P db'"
    and keeps_permission:
      "Store_UpsertPermission pg app cd res act ty n db = Inr (i, db') \<Longrightarrow> tok res \<Longrightarrow> tok act \<Longrightarrow> P db \<Longrightarrow> P db'"
    and keeps_auto_permission:
      "UpsertAutoPermission pg app cd res act ty n d db = Inr (b, db') \<Longrightarrow> tok res \<Longrightarrow> tok act \<Longrightarrow> P db \<Longrightarrow> P db'"
    and keeps_grant: "InsertRolePermission app r p e db = Inr db' \<Longrightarrow> eok e \<Longrightarrow> P db \<Longrightarrow> P db'"
    and keeps_inheritance:
      "InsertRoleInheritance app c q db = Inr db' \<Longrightarrow> CheckNoCycle db app c q = None \<Longrightarrow> P db \<Longrightarrow> P db'"
    and keeps_binding: "InsertUserRoleBinding app u r db = Inr db' \<Longrightarrow> tok u \<Longrightarrow> P db \<Longrightarrow> P db'"
    and keeps_deletes:
      "P db \<Longrightarrow> P (DeleteRolePermission app r p db)"
      "P db \<Longrightarrow> P (DeleteRoleInheritance app c q db)"
      "P db \<Longrightarrow> P (DeleteUserRoleBinding app u r db)"
      "P db \<Longrightarrow> P (snd (DeleteRolePermissionsBatch app ps db))"
      "P db \<Longrightarrow> P (snd (DeleteRoleInheritancesBatch app ps db))"
      "P db \<Longrightarrow> P (snd (DeleteUserRoleBindingsBatch app us db))"
      "P db \<Longrightarrow> P (snd (DeleteDataPoliciesBatch app ids db))"
    and keeps_data_policy: "Store_UpsertDataPolicy pg app p' v db = Inr (i, c', db') \<Longrightarrow> P db \<Longrightarrow> P db'"
    and keeps_data_delete: "Store_DeleteDataPolicy app i db = Inr db' \<Longrightarrow> P db \<Longrightarrow> P db'"
    and keeps_business: "same_business db db' \<Longrightarrow> P db \<Longrightarrow> P db'"
begin

lemma keeps_report_loop:
  "report_loop pg app ps res db = Inr (res', db') \<Longrightarrow>
   list_all (\<lambda>p. tok (pt_Resource p) \<and> tok (pt_Action p)) ps \<Longrightarrow> P db \<Longrightarrow> P db'"
proof (induction pg app ps res db rule: report_loop.induct)
  case (2 pg app p ps up sk db)
  then show ?case by (auto split: sum.splits bool.splits dest: keeps_auto_permission)
qed simp

lemma keeps_grants:
  assumes "foldM (\<lambda>pid. InsertRolePermission app i pid EffectAllow) ps db = Inr db'" "P db"
  shows "P db'"
  by (rule foldM_invariant [OF assms(1), where P = P]) (use assms(2) in \<open>blast intro: keeps_grant eok_allow\<close>)+

lemma keeps_template_role:
  "UpsertTemplateRole pg app cd n db = Inr (i, c, db') \<Longrightarrow> tok cd \<Longrightarrow> P db \<Longrightarrow> P db'"
  by (auto simp: UpsertTemplateRole_def split: list.splits sum.splits dest: keeps_insert_role)

lemma keeps_apply_role:
  assumes "apply_role pg app tid ids r (res, cs, db) = Inr (res', cs', db')"
    and "tok (template_role_code tid (tr_Key r))" "P db"
  shows "P db'"
proof -
  have seeds: "P (snd (snd st'))" if "foldM (seed_scope pg app cd) dss st = Inr st'" "P (snd (snd st))" for cd dss st st'
    by (rule foldM_invariant [OF that(1), where P = "\<lambda>st. P (snd (snd st))"])
      (use that(2) in \<open>auto simp: seed_scope_def Let_def split: prod.splits sum.splits dest: keeps_data_policy\<close>)
  have grants: "P db2" if "foldM (grant_code app ids i) pcs db1 = Inr db2" "P db1" for i pcs db1 db2
    by (rule foldM_invariant [OF that(1), where P = P])
      (use that(2) in \<open>auto simp: grant_code_def split: option.splits dest: keeps_grant [OF _ eok_allow]\<close>)
  show ?thesis
    using assms
    by (auto simp: apply_role_def Let_def split: prod.splits sum.splits if_splits
        dest!: keeps_template_role grants dest: seeds)
qed

lemma keeps_template:
  assumes "apply_template_mutate pg app tid pts trs db = Inr (cs, res, db')"
    and "cmd_ok tok eok (WApplyTemplate tid pts trs)" "P db"
  shows "P db'"
proof -
  have roles: "P (snd (snd st'))" if "foldM (apply_role pg app tid ids) trs st = Inr st'" "P (snd (snd st))" for ids st st'
    by (rule foldM_invariant [OF that(1), where P = "\<lambda>st. P (snd (snd st))"]) (use that(2) assms(2) in \<open>auto simp: list_all_iff dest: keeps_apply_role\<close>)
  obtain up sk db1 where 1: "report_loop pg app pts (0, 0) db = Inr ((up, sk), db1)"
    using assms(1) by (auto simp: apply_template_mutate_def split: sum.splits)
  with assms(2,3) have "P db1" using keeps_report_loop [OF 1] by simp
  then show ?thesis
    using assms(1) 1 by (auto simp: apply_template_mutate_def split: prod.splits sum.splits dest!: roles)
qed

lemma mutation_keeps:
  assumes "mutation_of pg app v c db = Inr (cs, db1)" "precheck_of app c db = None" "cmd_ok tok eok c" "P db"
  shows "P db1"
proof (cases c)
  case (WCreateBusinessRole cd n ps)
  with assms show ?thesis
    by (auto simp: InsertRole_def effect_Ok done_Ok split: sum.splits dest!: keeps_insert_role dest: keeps_grants)
next
  case (WApplyTemplate tid pts trs)
  with assms show ?thesis by (auto simp: effect_Ok simp del: cmd_ok.simps dest: keeps_template)
next
  case (WBatchDeleteDataPolicy ids)
  with assms show ?thesis using keeps_deletes(7) [of db app ids] by (auto split: prod.splits)
next
  case (WBatchUnbind ps)
  with assms show ?thesis using keeps_deletes(6) [of db app ps] by (auto simp: effect_Ok done_Ok)
next
  case (WBatchRevoke ps)
  with assms show ?thesis using keeps_deletes(4) [of db app ps] by (auto simp: effect_Ok done_Ok)
next
  case (WBatchRemoveInheritance ps)
  with assms show ?thesis using keeps_deletes(5) [of db app ps] by (auto simp: effect_Ok done_Ok)
qed (use assms in \<open>auto simp: effect_Ok done_Ok InsertRole_def Store_DeleteRole_def DeleteRolesBatch_def
    keeps_deletes precheck_of_def split: sum.splits if_splits
    dest: keeps_grant keeps_binding keeps_inheritance keeps_insert_role keeps_delete_roles keeps_permission
      keeps_data_policy keeps_data_delete keeps_report_loop\<close>)

theorem exec_keeps:
  assumes "cmd_ok tok eok c" "P db"
  shows "P (snd (exec pg E app c db))"
proof (cases "exec pg E app c db")
  case (Pair r db')
  show ?thesis
  proof (cases r)
    case (Inl e)
    with Pair exec_contract [of E c app db pg] assms(2) show ?thesis by (simp add: write_contract_def)
  next
    case (Inr d)
    then obtain v cs db1 where "mutation_of pg app v c db = Inr (cs, db1)" "precheck_of app c db = None"
        "same_business db1 db'"
      using Pair exec_business by metis
    with assms Pair show ?thesis by (auto intro: keeps_business mutation_keeps)
  qed
qed

end

interpretation schema: business_invariant schema_ok "\<lambda>_. True" "\<lambda>_. True"
proof unfold_locales
  fix db db' assume "same_business db db'" "schema_ok db"
  then show "schema_ok db'"
    by (simp add: same_business_def schema_ok_def has_role_id_def has_permission_id_def)
qed (auto intro: schema_insert_role schema_delete_roles schema_permissions schema_inserts schema_deletes schema_data_policies)

section \<open>The inheritance graph stays acyclic\<close>

definition acyclic_roles :: "db \<Rightarrow> bool" where
  "acyclic_roles db \<longleftrightarrow> (\<forall>app. acyclic (set (inheritance_edges db app)))"

lemma acyclic_roles_subset:
  assumes "set (role_inheritances db') \<subseteq> set (role_inheritances db)" "acyclic_roles db"
  shows "acyclic_roles db'"
proof -
  have "set (inheritance_edges db' app) \<subseteq> set (inheritance_edges db app)" for app
    using assms(1) by (auto simp: inheritance_edges_def)
  with assms(2) show ?thesis unfolding acyclic_roles_def by (meson acyclic_subset)
qed

lemma acyclic_insert_inheritance:
  assumes "InsertRoleInheritance app c q db = Inr db'" "CheckNoCycle db app c q = None" "acyclic_roles db"
  shows "acyclic_roles db'"
proof -
  have edges: "set (inheritance_edges db' a) \<subseteq> (if a = app then insert (c, q) (set (inheritance_edges db a)) else set (inheritance_edges db a))" for a
    using assms(1) by (auto simp: InsertRoleInheritance_def inheritance_edges_def split: if_splits)
      (metis inheritance_row.select_convs(2,3))+
  have "(q, c) \<notin> (set (inheritance_edges db app))\<^sup>*"
    using assms(2) CheckNoCycle_iff [of db app c q] by auto
  then have "acyclic (insert (c, q) (set (inheritance_edges db app)))"
    using assms(3) by (simp add: acyclic_roles_def acyclic_insert)
  moreover have "acyclic (set (inheritance_edges db a))" for a using assms(3) by (simp add: acyclic_roles_def)
  ultimately have "acyclic (if a = app then insert (c, q) (set (inheritance_edges db a)) else set (inheritance_edges db a))" for a
    by simp
  then have "acyclic (set (inheritance_edges db' a))" for a
    by (rule acyclic_subset [OF _ edges])
  then show ?thesis by (simp add: acyclic_roles_def)
qed

lemma same_inheritances:
  "insert_role_row pg app cd n s db = Inr (i, db') \<Longrightarrow> role_inheritances db' = role_inheritances db"
  "Store_UpsertPermission pg app cd res act ty n db = Inr (i, db') \<Longrightarrow> role_inheritances db' = role_inheritances db"
  "UpsertAutoPermission pg app cd res act ty n d db = Inr (b, db') \<Longrightarrow> role_inheritances db' = role_inheritances db"
  "InsertRolePermission app r p e db = Inr db' \<Longrightarrow> role_inheritances db' = role_inheritances db"
  "InsertUserRoleBinding app u r db = Inr db' \<Longrightarrow> role_inheritances db' = role_inheritances db"
  "Store_UpsertDataPolicy pg app dp v db = Inr (i, c, db') \<Longrightarrow> role_inheritances db' = role_inheritances db"
  "Store_DeleteDataPolicy app i db = Inr db' \<Longrightarrow> role_inheritances db' = role_inheritances db"
  by (auto simp: insert_role_row_def Store_UpsertPermission_def UpsertAutoPermission_def upsert_permission_row_def
      InsertRolePermission_def InsertUserRoleBinding_def Let_def dest!: data_statements(1,2)
      split: if_splits sum.splits option.splits list.splits)

interpretation hierarchy: business_invariant acyclic_roles "\<lambda>_. True" "\<lambda>_. True"
proof unfold_locales
  fix app ids db k db' assume "delete_roles app ids db = Inr (k, db')" "acyclic_roles db"
  then show "acyclic_roles db'"
    by (elim acyclic_roles_subset [rotated]) (auto simp: delete_roles_def Let_def split: if_splits)
next
  fix app ps db assume "acyclic_roles db"
  then show "acyclic_roles (snd (DeleteRoleInheritancesBatch app ps db))"
    by (rule acyclic_roles_subset [rotated]) (auto simp: DeleteRoleInheritancesBatch_def Let_def)
next
  fix app c q db assume "acyclic_roles db"
  then show "acyclic_roles (DeleteRoleInheritance app c q db)"
    by (rule acyclic_roles_subset [rotated]) (auto simp: DeleteRoleInheritance_def)
next
  fix db db' assume "same_business db db'" "acyclic_roles db"
  then show "acyclic_roles db'" by (elim acyclic_roles_subset [rotated]) (simp add: same_business_def)
next
  fix app c q db db'
  assume "InsertRoleInheritance app c q db = Inr db'" "CheckNoCycle db app c q = None" "acyclic_roles db"
  then show "acyclic_roles db'" by (rule acyclic_insert_inheritance)
qed (auto elim!: acyclic_roles_subset [rotated] dest: same_inheritances
    simp: DeleteRolePermission_def DeleteUserRoleBinding_def DeleteRolePermissionsBatch_def
      DeleteUserRoleBindingsBatch_def DeleteDataPoliciesBatch_def Let_def)

section \<open>The texts of the business rows\<close>

text \<open>
  Texts without the separator of the rule keys, effects and domains that are not empty: the
  rows projected from them have distinct keys and the shape the sidecars expect.
\<close>

definition text_ok :: "string \<Rightarrow> bool" where
  "text_ok s \<longleftrightarrow> key_sep \<notin> set s"

definition label_ok :: "string \<Rightarrow> bool" where
  "label_ok s \<longleftrightarrow> s \<noteq> [] \<and> key_sep \<notin> set s"

definition texts_ok :: "db \<Rightarrow> bool" where
  "texts_ok db \<longleftrightarrow>
     (\<forall>r \<in> set (roles db). text_ok (rl_code r)) \<and>
     (\<forall>p \<in> set (permissions db). text_ok (pm_resource p) \<and> text_ok (pm_action p)) \<and>
     (\<forall>g \<in> set (role_permissions db). label_ok (rp_eft g)) \<and>
     (\<forall>b \<in> set (user_role_bindings db). text_ok (ub_user b)) \<and>
     (\<forall>a. pred_option (\<lambda>r. label_ok (ap_domain r)) (applications db a))"

lemma texts_upsert_permission:
  assumes "upsert_permission_row pg new when upd db = Inr (i, db')" "texts_ok db"
    and "text_ok (pm_resource new)" "text_ok (pm_action new)"
    and "\<And>p. pm_resource (upd p) = pm_resource new" "\<And>p. pm_action (upd p) = pm_action new"
  shows "texts_ok db'"
  using assms by (auto simp: upsert_permission_row_def texts_ok_def Let_def split: if_splits list.splits)

interpretation texts: business_invariant texts_ok text_ok label_ok
proof unfold_locales
  show "label_ok EffectAllow" by code_simp
next
  fix pg app cd res act ty n db i db'
  assume "Store_UpsertPermission pg app cd res act ty n db = Inr (i, db')" "text_ok res" "text_ok act" "texts_ok db"
  then show "texts_ok db'"
    by (auto simp: Store_UpsertPermission_def new_permission_def split: sum.splits option.splits
        elim!: texts_upsert_permission)
next
  fix pg app cd res act ty n d db b db'
  assume "UpsertAutoPermission pg app cd res act ty n d db = Inr (b, db')" "text_ok res" "text_ok act" "texts_ok db"
  then show "texts_ok db'"
    by (auto simp: UpsertAutoPermission_def new_permission_def split: sum.splits option.splits
        elim!: texts_upsert_permission)
next
  fix db db' assume "same_business db db'" "texts_ok db"
  moreover from this(1) have "map_option ap_domain (applications db' a) = map_option ap_domain (applications db a)" for a
    by (auto simp: same_business_def fun_eq_iff)
  then have "pred_option (\<lambda>r. label_ok (ap_domain r)) (applications db' a) =
      pred_option (\<lambda>r. label_ok (ap_domain r)) (applications db a)" for a
    by (metis (mono_tags, lifting) comp_apply option.pred_map option.pred_cong)
  ultimately show "texts_ok db'" by (simp add: same_business_def texts_ok_def)
qed (auto simp: texts_ok_def insert_role_row_def delete_roles_def InsertRolePermission_def InsertRoleInheritance_def
    InsertUserRoleBinding_def DeleteRolePermission_def DeleteRoleInheritance_def DeleteUserRoleBinding_def
    DeleteRolePermissionsBatch_def DeleteRoleInheritancesBatch_def DeleteUserRoleBindingsBatch_def
    DeleteDataPoliciesBatch_def Let_def dest!: data_statements(1,2) split: if_splits)

lemma text_ok_simps [simp]: "label_ok s \<Longrightarrow> text_ok s"
  by (simp add: text_ok_def label_ok_def)

lemma sep_free_rows [simp]:
  "sep_free (p_row s d ob a e) \<longleftrightarrow> text_ok s \<and> text_ok d \<and> text_ok ob \<and> text_ok a \<and> text_ok e"
  "sep_free (g_row u r d) \<longleftrightarrow> text_ok u \<and> text_ok r \<and> text_ok d"
  by (auto simp: sep_free_def p_row_def g_row_def V_def text_ok_def key_sep_def)

section \<open>The projection under the schema\<close>

text \<open>The joins go by identifiers alone; under the keys of the schema they stay inside the application.\<close>

definition p_source :: "db \<Rightarrow> int64 \<Rightarrow> grant_row \<Rightarrow> role_row \<Rightarrow> permission_row \<Rightarrow> bool" where
  "p_source db app g r p \<longleftrightarrow> g \<in> set (role_permissions db) \<and> rp_app g = app \<and>
     r \<in> set (roles db) \<and> rl_id r = rp_role g \<and> p \<in> set (permissions db) \<and> pm_id p = rp_permission g"

definition u_source :: "db \<Rightarrow> int64 \<Rightarrow> binding_row \<Rightarrow> role_row \<Rightarrow> bool" where
  "u_source db app b r \<longleftrightarrow> b \<in> set (user_role_bindings db) \<and> ub_app b = app \<and>
     r \<in> set (roles db) \<and> rl_id r = ub_role b"

definition i_source :: "db \<Rightarrow> int64 \<Rightarrow> inheritance_row \<Rightarrow> role_row \<Rightarrow> role_row \<Rightarrow> bool" where
  "i_source db app i c p \<longleftrightarrow> i \<in> set (role_inheritances db) \<and> ri_app i = app \<and>
     c \<in> set (roles db) \<and> rl_id c = ri_child i \<and> p \<in> set (roles db) \<and> rl_id p = ri_parent i"

lemma set_project:
  "set (project_p db app) = {p_row (rl_code r) (ap_domain a) (pm_resource p) (pm_action p) (rp_eft g) | g r p a.
     p_source db app g r p \<and> applications db app = Some a}"
  "set (project_g_user db app) = {g_row (ub_user b) (rl_code r) (ap_domain a) | b r a.
     u_source db app b r \<and> applications db app = Some a}"
  "set (project_g_inherit db app) = {g_row (rl_code c) (rl_code p) (ap_domain a) | i c p a.
     i_source db app i c p \<and> applications db app = Some a}"
  by (cases "applications db app"; simp add: project_p_def project_g_user_def project_g_inherit_def
      p_source_def u_source_def i_source_def; blast)+

lemma projected_rows:
  assumes "texts_ok db" "r \<in> set (ProjectApp db app)"
  shows "(\<exists>s d ob a e. r = p_row s d ob a e \<and> text_ok s \<and> label_ok d \<and> text_ok ob \<and> text_ok a \<and> label_ok e) \<or>
    (\<exists>u s d. r = g_row u s d \<and> text_ok u \<and> text_ok s \<and> label_ok d)"
proof -
  have dom: "label_ok (ap_domain a)" if "applications db app = Some a" for a
    using assms(1) that unfolding texts_ok_def by (metis option.pred_inject(2))
  have t: "\<And>r. r \<in> set (roles db) \<Longrightarrow> text_ok (rl_code r)"
    "\<And>p. p \<in> set (permissions db) \<Longrightarrow> text_ok (pm_resource p) \<and> text_ok (pm_action p)"
    "\<And>g. g \<in> set (role_permissions db) \<Longrightarrow> label_ok (rp_eft g)"
    "\<And>b. b \<in> set (user_role_bindings db) \<Longrightarrow> text_ok (ub_user b)"
    using assms(1) by (simp_all add: texts_ok_def)
  consider "r \<in> set (project_p db app)" | "r \<in> set (project_g_user db app)" | "r \<in> set (project_g_inherit db app)"
    using assms(2) by (auto simp: ProjectApp_def)
  then show ?thesis
  proof cases
    case 1
    then show ?thesis unfolding set_project p_source_def using t dom by blast
  next
    case 2
    then show ?thesis unfolding set_project u_source_def using t dom by blast
  next
    case 3
    then show ?thesis unfolding set_project i_source_def using t dom by blast
  qed
qed

lemma projected_sep_free: "texts_ok db \<Longrightarrow> r \<in> set (ProjectApp db app) \<Longrightarrow> sep_free r"
  by (drule (1) projected_rows) auto

lemma schema_ids:
  assumes "schema_ok db"
  shows "\<And>r a. r \<in> set (roles db) \<Longrightarrow> has_role_id db a (rl_id r) \<Longrightarrow> rl_app r = a"
    and "\<And>p a. p \<in> set (permissions db) \<Longrightarrow> has_permission_id db a (pm_id p) \<Longrightarrow> pm_app p = a"
  using assms by (auto simp: schema_ok_def has_role_id_def has_permission_id_def distinct_map dest: inj_onD)

lemma filter_sets:
  assumes "filter (\<lambda>x. k x = a) ys = filter (\<lambda>x. k x = a) xs"
  shows "x \<in> set ys \<and> k x = a \<longleftrightarrow> x \<in> set xs \<and> k x = a"
  using arg_cong [OF assms, of set] by auto

lemma project_elsewhere:
  assumes "isolated app db db'" "schema_ok db" "schema_ok db'" "a \<noteq> app"
  shows "set (ProjectApp db' a) = set (ProjectApp db a)"
proof -
  have tables: "\<And>x. x \<in> set (roles db') \<and> rl_app x = a \<longleftrightarrow> x \<in> set (roles db) \<and> rl_app x = a"
    "\<And>x. x \<in> set (permissions db') \<and> pm_app x = a \<longleftrightarrow> x \<in> set (permissions db) \<and> pm_app x = a"
    "\<And>x. x \<in> set (role_permissions db') \<and> rp_app x = a \<longleftrightarrow> x \<in> set (role_permissions db) \<and> rp_app x = a"
    "\<And>x. x \<in> set (role_inheritances db') \<and> ri_app x = a \<longleftrightarrow> x \<in> set (role_inheritances db) \<and> ri_app x = a"
    "\<And>x. x \<in> set (user_role_bindings db') \<and> ub_app x = a \<longleftrightarrow> x \<in> set (user_role_bindings db) \<and> ub_app x = a"
    using assms(1,4) by (auto simp: isolated_def same_elsewhere_def intro!: filter_sets)
  have p: "p_source db2 a g r p \<longleftrightarrow> g \<in> set (role_permissions db2) \<and> rp_app g = a \<and>
     r \<in> set (roles db2) \<and> rl_app r = a \<and> rl_id r = rp_role g \<and>
     p \<in> set (permissions db2) \<and> pm_app p = a \<and> pm_id p = rp_permission g" if "schema_ok db2" for db2 g r p
    using schema_ids [OF that] that by (fastforce simp: p_source_def schema_ok_def)
  have u: "u_source db2 a b r \<longleftrightarrow>
     b \<in> set (user_role_bindings db2) \<and> ub_app b = a \<and> r \<in> set (roles db2) \<and> rl_app r = a \<and> rl_id r = ub_role b"
    if "schema_ok db2" for db2 b r
    using schema_ids [OF that] that by (fastforce simp: u_source_def schema_ok_def)
  have i: "i_source db2 a i c p \<longleftrightarrow>
     i \<in> set (role_inheritances db2) \<and> ri_app i = a \<and> c \<in> set (roles db2) \<and> rl_app c = a \<and> rl_id c = ri_child i \<and>
     p \<in> set (roles db2) \<and> rl_app p = a \<and> rl_id p = ri_parent i" if "schema_ok db2" for db2 i c p
    using schema_ids [OF that] that by (fastforce simp: i_source_def schema_ok_def)
  have "p_source db' a = p_source db a" "u_source db' a = u_source db a" "i_source db' a = i_source db a"
    unfolding fun_eq_iff p [OF assms(2)] p [OF assms(3)] u [OF assms(2)] u [OF assms(3)] i [OF assms(2)] i [OF assms(3)]
    using tables by metis+
  moreover have "applications db' a = applications db a" using assms(1,4) by (simp add: isolated_def)
  ultimately show ?thesis unfolding ProjectApp_def set_append set_project by simp
qed

section \<open>Sequences of writes\<close>

definition run_writes :: "pg \<Rightarrow> (env \<times> int64 \<times> wcmd) list \<Rightarrow> db \<Rightarrow> db" where
  "run_writes pg ws db = fold (\<lambda>(E, app, c) db. snd (exec pg E app c db)) ws db"

lemma run_writes_invariant:
  assumes "P db" "\<And>E app c db. (E, app, c) \<in> set ws \<Longrightarrow> P db \<Longrightarrow> P (snd (exec pg E app c db))"
  shows "P (run_writes pg ws db)"
  using assms unfolding run_writes_def by (induction ws arbitrary: db) (auto split: prod.splits)

text \<open>
  A store in good order: the keys and references of the schema hold, no role inherits from
  itself, the texts are clean, and for every application the stored rules are exactly the
  projection of its business rows.
\<close>

definition governed :: "db \<Rightarrow> bool" where
  "governed db \<longleftrightarrow> schema_ok db \<and> acyclic_roles db \<and> texts_ok db \<and> (\<forall>app. consistent db app)"

lemma contract_isolated: "isolated app db (snd (exec pg E app c db))"
  using exec_contract [of E c app db pg]
  by (cases "exec pg E app c db") (auto simp: write_contract_def split: sum.splits option.splits)

lemma exec_consistent_own:
  assumes "governed db" "cmd_ok text_ok label_ok c"
  shows "consistent (snd (exec pg E app c db)) app"
proof (cases "exec pg E app c db")
  case (Pair out db')
  show ?thesis
  proof (cases out)
    case (Inl e)
    with Pair exec_contract [of E c app db pg] assms(1) show ?thesis by (simp add: write_contract_def governed_def)
  next
    case (Inr d)
    then obtain v cs db1 where 1: "mutation_of pg app v c db = Inr (cs, db1)" "precheck_of app c db = None"
        "rows_clean db1 app \<longrightarrow> (is_data c \<longrightarrow> consistent db app) \<longrightarrow> consistent db' app"
      using Pair exec_business by metis
    have texts: "texts_ok db" "texts_ok db1"
      using assms texts.mutation_keeps [OF 1(1,2)] by (simp_all add: governed_def)
    have "rules_of db1 app = set (ProjectApp db app)"
      using assms(1) frame_version [OF mutation_frame [OF 1(1)]] by (simp add: governed_def consistent_def)
    then have "rows_clean db1 app" using texts projected_sep_free by (auto simp: rows_clean_def)
    with 1(3) assms(1) Pair show ?thesis by (simp add: governed_def)
  qed
qed

lemma exec_governed:
  assumes "governed db" "cmd_ok text_ok label_ok c"
  shows "governed (snd (exec pg E app c db))"
proof -
  let ?db = "snd (exec pg E app c db)"
  have cmd: "cmd_ok (\<lambda>_. True) (\<lambda>_. True) c" by (cases c) (simp_all add: list_all_iff)
  have inv: "schema_ok ?db" "acyclic_roles ?db" "texts_ok ?db"
    using assms schema.exec_keeps [OF cmd] hierarchy.exec_keeps [OF cmd] texts.exec_keeps [OF assms(2)]
    by (simp_all add: governed_def)
  have "consistent ?db a" for a
  proof (cases "a = app")
    case True
    then show ?thesis using exec_consistent_own [OF assms] by simp
  next
    case False
    have "set (ProjectApp ?db a) = set (ProjectApp db a)"
      by (rule project_elsewhere [OF contract_isolated]) (use assms inv False in \<open>simp_all add: governed_def\<close>)
    moreover have "rules_of ?db a = rules_of db a"
      using contract_isolated [of app db pg E c] False by (simp add: rules_of_def ReadAppRules_def isolated_def)
    ultimately show ?thesis using assms(1) by (simp add: governed_def consistent_def)
  qed
  with inv show ?thesis by (simp add: governed_def)
qed

text \<open>
  C22. Whatever writes run, in any order and with any failures of the database, the transaction
  or the outbox: unique keys stay unique, every grant, inheritance and binding refers to a role
  and a permission of its own application, and no role inherits from itself, directly or
  through others.
\<close>

theorem writes_keep_schema_and_hierarchy:
  assumes "schema_ok db" and "acyclic_roles db"
  shows "schema_ok (run_writes pg ws db) \<and> acyclic_roles (run_writes pg ws db)"
proof -
  have cmd: "cmd_ok (\<lambda>_. True) (\<lambda>_. True) c" for c by (cases c) (simp_all add: list_all_iff)
  show ?thesis
    using run_writes_invariant [of schema_ok, OF assms(1) schema.exec_keeps [OF cmd]]
      run_writes_invariant [of acyclic_roles, OF assms(2) hierarchy.exec_keeps [OF cmd]] by simp
qed

definition demo_pg :: pg where
  "demo_pg = \<lparr>pg_jsonb = Some, pg_role_id = (\<lambda>db. of_nat (Suc (length (roles db)))),
     pg_permission_id = (\<lambda>db. of_nat (Suc (length (permissions db)))),
     pg_data_policy_id = (\<lambda>db. of_nat (Suc (length (data_policies db))))\<rparr>"

definition demo_env :: env where
  "demo_env = \<lparr>tx_begin = True, tx_commit = True, operator = ''root'', delta_sink = Outbox True\<rparr>"

definition shop_db :: db where
  "shop_db = empty_db\<lparr>applications :=
     [1 \<mapsto> \<lparr>ap_domain = ''shop'', ap_current_version = 0\<rparr>, 2 \<mapsto> \<lparr>ap_domain = ''bank'', ap_current_version = 0\<rparr>]\<rparr>"

definition demo_writes :: "(env \<times> int64 \<times> wcmd) list" where
  "demo_writes =
     [(demo_env, 1, WCreateRole ''clerk'' ''Clerk''), (demo_env, 2, WCreateRole ''teller'' ''Teller''),
      (demo_env, 1, WCreateRole ''boss'' ''Boss''), (demo_env, 1, WUpsertPermission ''read'' ''order'' ''get'' ''api'' ''Read''),
      (demo_env, 1, WGrant 1 1 ''allow''), (demo_env, 1, WAddInheritance 3 1), (demo_env, 1, WBind ''bob'' 3),
      (demo_env, 1, WAddInheritance 1 3), (demo_env, 1, WBind ''eve'' 2), (demo_env, 1, WUnbind ''bob'' 3),
      (demo_env\<lparr>tx_commit := False\<rparr>, 1, WDeleteRole 3), (demo_env, 1, WBind ''eve'' 1)]"

lemma shop_db_start: "schema_ok shop_db" "acyclic_roles shop_db" "governed shop_db"
proof -
  show 1: "schema_ok shop_db" "acyclic_roles shop_db"
    by (simp_all add: schema_ok_def acyclic_def acyclic_roles_def shop_db_def empty_db_def inheritance_edges_def)
  have "texts_ok shop_db" by (simp add: texts_ok_def shop_db_def empty_db_def label_ok_def key_sep_def)
  moreover have "consistent shop_db a" for a
    by (simp add: consistent_def rules_of_def ReadAppRules_def ProjectApp_def set_project p_source_def u_source_def
        i_source_def shop_db_def empty_db_def)
  ultimately show "governed shop_db" using 1 by (simp add: governed_def)
qed

theorem writes_keep_schema_and_hierarchy_witness:
  "schema_ok (run_writes demo_pg demo_writes shop_db) \<and> acyclic_roles (run_writes demo_pg demo_writes shop_db) \<and>
   length (roles (run_writes demo_pg demo_writes shop_db)) = 3 \<and>
   role_inheritances (run_writes demo_pg demo_writes shop_db) = [\<lparr>ri_app = 1, ri_parent = 1, ri_child = 3\<rparr>]"
proof -
  have "length (roles (run_writes demo_pg demo_writes shop_db)) = 3"
      "role_inheritances (run_writes demo_pg demo_writes shop_db) = [\<lparr>ri_app = 1, ri_parent = 1, ri_child = 3\<rparr>]"
    by code_simp+
  with writes_keep_schema_and_hierarchy [OF shop_db_start(1,2), of demo_pg demo_writes] show ?thesis by simp
qed



end
