(* ===== verification/Relay.thy ===== *)
theory Relay
  imports Write_Invariants
begin

text \<open>
  From the outbox to the channel (\<^verbatim>\<open>internal/controlplane/outbox/relay.go\<close> and
  \<^verbatim>\<open>internal/controlplane/broadcast\<close>): the relay loop that publishes the deltas the writes have
  left in the outbox, and the bytes of a broadcast message.
\<close>

section \<open>The envelope\<close>

type_synonym byte = "8 word"

definition PutUint64 :: "uint64 \<Rightarrow> byte list" where
  "PutUint64 v = map (\<lambda>k. ucast (drop_bit k v)) [56, 48, 40, 32, 24, 16, 8, 0]"

fun GetUint64 :: "byte list \<Rightarrow> uint64" where
  "GetUint64 [b0, b1, b2, b3, b4, b5, b6, b7] =
     or (ucast b7) (or (push_bit 8 (ucast b6)) (or (push_bit 16 (ucast b5)) (or (push_bit 24 (ucast b4))
       (or (push_bit 32 (ucast b3)) (or (push_bit 40 (ucast b2)) (or (push_bit 48 (ucast b1)) (push_bit 56 (ucast b0))))))))"
| "GetUint64 _ = 0"

lemma length_PutUint64 [simp]: "length (PutUint64 v) = 8"
  by (simp add: PutUint64_def)

lemma bit_shifted_byte:
  "bit (push_bit k (ucast (ucast (drop_bit k v) :: byte)) :: uint64) n \<longleftrightarrow> k \<le> n \<and> n < k + 8 \<and> n < 64 \<and> bit v n"
  for v :: uint64
  by (auto simp: bit_simps)

lemma Get_Put_Uint64 [simp]: "GetUint64 (PutUint64 v) = v"
proof (rule bit_word_eqI)
  fix n assume "n < LENGTH(64)"
  then show "bit (GetUint64 (PutUint64 v)) n \<longleftrightarrow> bit v n"
    using bit_shifted_byte [of 0 v n]
    by (cases "bit v n") (simp_all add: PutUint64_def bit_or_iff bit_shifted_byte del: push_bit_numeral, linarith?)
qed

text \<open>
  The encoding of a message is the protobuf library's: \<open>marshal\<close> may refuse a message, \<open>unmarshal\<close>
  may refuse bytes.
\<close>

type_synonym marshal = "proto_delta \<Rightarrow> byte list option"
type_synonym unmarshal = "byte list \<Rightarrow> proto_delta option"

datatype envelope_error = TooShort | BadDelta

definition EncodeEnvelope :: "marshal \<Rightarrow> int64 \<Rightarrow> proto_delta \<Rightarrow> byte list option" where
  "EncodeEnvelope marshal appID delta =
     (case marshal delta of None \<Rightarrow> None | Some body \<Rightarrow> Some (PutUint64 appID @ body))"

definition DecodeEnvelope :: "unmarshal \<Rightarrow> byte list \<Rightarrow> (envelope_error, int64 \<times> proto_delta) res" where
  "DecodeEnvelope unmarshal blob =
     (if length blob < 8 then Inl TooShort
      else case unmarshal (drop 8 blob) of
             None \<Rightarrow> Inl BadDelta
           | Some d \<Rightarrow> Inr (GetUint64 (take 8 blob), d))"

text \<open>\<^verbatim>\<open>RedisPublisher.Publish\<close>: the channel takes the bytes or reports an error.\<close>

definition RedisPublisher_Publish :: "marshal \<Rightarrow> (byte list \<Rightarrow> bool) \<Rightarrow> int64 \<Rightarrow> proto_delta \<Rightarrow> byte list option" where
  "RedisPublisher_Publish marshal redis appID delta =
     (case EncodeEnvelope marshal appID delta of
        None \<Rightarrow> None
      | Some blob \<Rightarrow> if redis blob then Some blob else None)"

text \<open>\<^verbatim>\<open>RedisSubscriber.Run\<close>: the handler's calls for the payloads that arrive; a bad payload is skipped.\<close>

fun RedisSubscriber_Run :: "unmarshal \<Rightarrow> (int64 \<Rightarrow> proto_delta \<Rightarrow> 's \<Rightarrow> 's) \<Rightarrow> byte list list \<Rightarrow> 's \<Rightarrow> 's" where
  "RedisSubscriber_Run unmarshal handler [] s = s"
| "RedisSubscriber_Run unmarshal handler (msg # ch) s =
     (case DecodeEnvelope unmarshal msg of
        Inl _ \<Rightarrow> RedisSubscriber_Run unmarshal handler ch s
      | Inr (appID, delta) \<Rightarrow> RedisSubscriber_Run unmarshal handler ch (handler appID delta s))"

section \<open>The relay\<close>

text \<open>
  One round of the relay meets the database and the channel as \<open>drain_env\<close> says: whether the
  query succeeds, what the stored bytes of a row decode to, and for each row of the batch
  whether publishing it and marking it succeed. A row's identifier is its position in the table.
  The messages sent are kept with the identifiers of their rows.
\<close>

record drain_env =
  de_query :: bool
  de_publish :: "nat \<Rightarrow> bool"
  de_mark :: "nat \<Rightarrow> bool"

type_synonym decoder = "proto_delta \<Rightarrow> proto_delta option"
type_synonym message = "nat \<times> int64 \<times> proto_delta"

definition unpublished :: "db \<Rightarrow> (nat \<times> outbox_row) list" where
  "unpublished db = filter (\<lambda>(i, r). \<not> ob_published r) (enumerate 0 (policy_outbox db))"

definition mark_published :: "nat \<Rightarrow> db \<Rightarrow> db" where
  "mark_published i db =
     db\<lparr>policy_outbox := (policy_outbox db)[i := (policy_outbox db ! i)\<lparr>ob_published := True\<rparr>]\<rparr>"

fun drain_loop ::
    "decoder \<Rightarrow> drain_env \<Rightarrow> (nat \<times> outbox_row) list \<Rightarrow> nat \<Rightarrow> message list \<Rightarrow> db \<Rightarrow>
     bool \<times> nat \<times> message list \<times> db" where
  "drain_loop dec D [] n sent db = (True, n, sent, db)"
| "drain_loop dec D ((i, r) # batch) n sent db =
     (case dec (ob_delta r) of
        None \<Rightarrow> drain_loop dec D batch n sent db
      | Some d \<Rightarrow>
          if \<not> de_publish D i then (True, n, sent, db)
          else if \<not> de_mark D i then (False, n, sent @ [(i, ob_app r, d)], db)
          else drain_loop dec D batch (Suc n) (sent @ [(i, ob_app r, d)]) (mark_published i db))"

definition drainOnce :: "decoder \<Rightarrow> drain_env \<Rightarrow> message list \<Rightarrow> db \<Rightarrow> bool \<times> nat \<times> message list \<times> db" where
  "drainOnce dec D sent db =
     (if \<not> de_query D then (False, 0, sent, db)
      else drain_loop dec D (take 100 (unpublished db)) 0 sent db)"

text \<open>
  The loop of the relay interleaved with the writes of the control plane. Whether a round starts
  at once or after a tick has no effect on what it does.
\<close>

datatype relay_step = Drain drain_env | Write env int64 wcmd

fun RunRelayLoop :: "pg \<Rightarrow> decoder \<Rightarrow> relay_step list \<Rightarrow> message list \<times> db \<Rightarrow> message list \<times> db" where
  "RunRelayLoop pg dec [] (sent, db) = (sent, db)"
| "RunRelayLoop pg dec (Drain D # steps) (sent, db) =
     (case drainOnce dec D sent db of (_, _, sent', db') \<Rightarrow> RunRelayLoop pg dec steps (sent', db'))"
| "RunRelayLoop pg dec (Write E app c # steps) (sent, db) =
     RunRelayLoop pg dec steps (sent, snd (exec pg E app c db))"

section \<open>Messages are sent in order and none is skipped\<close>

abbreviation good :: "decoder \<Rightarrow> db \<Rightarrow> nat \<Rightarrow> bool" where
  "good dec db j \<equiv> dec (ob_delta (policy_outbox db ! j)) \<noteq> None"

definition relay_inv :: "decoder \<Rightarrow> message list \<Rightarrow> db \<Rightarrow> bool" where
  "relay_inv dec sent db \<longleftrightarrow>
     sorted (map fst sent) \<and>
     (\<forall>(i, a, d) \<in> set sent. i < length (policy_outbox db) \<and> a = ob_app (policy_outbox db ! i) \<and>
        dec (ob_delta (policy_outbox db ! i)) = Some d) \<and>
     (\<forall>j < length (policy_outbox db). ob_published (policy_outbox db ! j) \<longrightarrow> j \<in> fst ` set sent) \<and>
     (\<forall>j < length (policy_outbox db). good dec db j \<longrightarrow> \<not> ob_published (policy_outbox db ! j) \<longrightarrow>
        (\<forall>i \<in> fst ` set sent. i \<le> j))"

definition batch_ok :: "decoder \<Rightarrow> (nat \<times> outbox_row) list \<Rightarrow> db \<Rightarrow> bool" where
  "batch_ok dec batch db \<longleftrightarrow>
     sorted_wrt (<) (map fst batch) \<and>
     (\<forall>(i, r) \<in> set batch. i < length (policy_outbox db) \<and> policy_outbox db ! i = r \<and> \<not> ob_published r) \<and>
     (\<forall>j < length (policy_outbox db). good dec db j \<longrightarrow> \<not> ob_published (policy_outbox db ! j) \<longrightarrow>
        j \<in> fst ` set batch \<or> (\<forall>i \<in> fst ` set batch. i < j))"

lemma mark_published_nth [simp]:
  "length (policy_outbox (mark_published i db)) = length (policy_outbox db)"
  "j < length (policy_outbox db) \<Longrightarrow> policy_outbox (mark_published i db) ! j =
     (if j = i then (policy_outbox db ! i)\<lparr>ob_published := True\<rparr> else policy_outbox db ! j)"
  by (auto simp: mark_published_def nth_list_update)

lemma sent_next:
  assumes "relay_inv dec sent db" "batch_ok dec ((i, r) # batch) db" "dec (ob_delta r) = Some d"
  shows "relay_inv dec (sent @ [(i, ob_app r, d)]) db"
proof -
  have i: "i < length (policy_outbox db)" "policy_outbox db ! i = r" "\<not> ob_published r" "good dec db i"
    using assms(2,3) by (auto simp: batch_ok_def)
  have last: "\<forall>k \<in> fst ` set sent. k \<le> i" using assms(1) i by (auto simp: relay_inv_def)
  have later: "i \<le> j" if "j < length (policy_outbox db)" "good dec db j" "\<not> ob_published (policy_outbox db ! j)" for j
    using assms(2) that unfolding batch_ok_def by fastforce
  show ?thesis
    using assms(1,3) i last later unfolding relay_inv_def by (auto simp: sorted_append)
qed

lemma relay_inv_mark:
  assumes "relay_inv dec sent db" "i \<in> fst ` set sent"
  shows "relay_inv dec sent (mark_published i db)"
  using assms unfolding relay_inv_def by (auto split: if_splits)

lemma batch_ok_Cons:
  assumes "batch_ok dec ((i, r) # batch) db"
  shows "dec (ob_delta r) = None \<Longrightarrow> batch_ok dec batch db"
    and "batch_ok dec batch (mark_published i db)"
  using assms unfolding batch_ok_def by (fastforce split: if_splits)+

lemma drain_loop_inv:
  "relay_inv dec sent db \<Longrightarrow> batch_ok dec batch db \<Longrightarrow> drain_loop dec D batch n sent db = (ok, n', sent', db') \<Longrightarrow>
   relay_inv dec sent' db'"
proof (induction dec D batch n sent db rule: drain_loop.induct)
  case (2 dec D i r batch n sent db)
  show ?case
  proof (cases "dec (ob_delta r)")
    case None
    with 2 batch_ok_Cons(1) [OF 2(4)] show ?thesis by simp
  next
    case (Some d)
    note sent = sent_next [OF 2(3,4) Some]
    have "relay_inv dec (sent @ [(i, ob_app r, d)]) (mark_published i db)"
      by (rule relay_inv_mark [OF sent]) force
    with 2 Some sent batch_ok_Cons(2) [OF 2(4)] show ?thesis by (auto split: if_splits)
  qed
qed simp

lemma unpublished_batch: "batch_ok dec (take n (unpublished db)) db"
proof -
  let ?u = "unpublished db"
  have sorted: "sorted_wrt (<) (map fst ?u)"
    using sorted_wrt_map [of "(<)" fst "enumerate 0 (policy_outbox db)"]
    by (simp add: unpublished_def sorted_wrt_map sorted_wrt_filter)
  have mem: "(i, r) \<in> set ?u \<longleftrightarrow> i < length (policy_outbox db) \<and> policy_outbox db ! i = r \<and> \<not> ob_published r" for i r
    by (auto simp: unpublished_def in_set_enumerate_eq)
  have order: "fst x < fst y" if "x \<in> set (take n ?u)" "y \<in> set (drop n ?u)" for x y
    using sorted that unfolding sorted_wrt_map
    by (metis append_take_drop_id sorted_wrt_append)
  have "j \<in> fst ` set (take n ?u) \<or> (\<forall>i \<in> fst ` set (take n ?u). i < j)"
    if "j < length (policy_outbox db)" "\<not> ob_published (policy_outbox db ! j)" for j
  proof -
    have "(j, policy_outbox db ! j) \<in> set (take n ?u @ drop n ?u)" using that mem by simp
    then consider "(j, policy_outbox db ! j) \<in> set (take n ?u)" | "(j, policy_outbox db ! j) \<in> set (drop n ?u)"
      by (auto simp del: append_take_drop_id)
    then show ?thesis
    proof cases
      case 1
      then show ?thesis by (metis fst_conv image_eqI)
    next
      case 2
      then show ?thesis using order by fastforce
    qed
  qed
  moreover have "sorted_wrt (<) (map fst (take n ?u))"
    using sorted by (simp add: sorted_wrt_take flip: take_map)
  ultimately show ?thesis unfolding batch_ok_def using mem by (auto dest!: in_set_takeD)
qed

lemma drainOnce_inv:
  "relay_inv dec sent db \<Longrightarrow> drainOnce dec D sent db = (ok, n, sent', db') \<Longrightarrow> relay_inv dec sent' db'"
  by (auto simp: drainOnce_def split: if_splits elim!: drain_loop_inv [OF _ unpublished_batch])

lemma exec_outbox:
  "\<exists>rows. policy_outbox (snd (exec pg E app c db)) = policy_outbox db @ rows \<and> (\<forall>r \<in> set rows. \<not> ob_published r)"
  using exec_contract [of E c app db pg]
  by (cases "exec pg E app c db") (auto simp: write_contract_def split: sum.splits option.splits)

lemma relay_inv_append:
  assumes "relay_inv dec sent db" "policy_outbox db' = policy_outbox db @ rows" "\<forall>r \<in> set rows. \<not> ob_published r"
  shows "relay_inv dec sent db'"
proof -
  have new: "\<not> ob_published (policy_outbox db' ! j)" if "\<not> j < length (policy_outbox db)" "j < length (policy_outbox db')" for j
    using that assms(2,3) by (auto simp: nth_append)
  have old: "policy_outbox db' ! j = policy_outbox db ! j" if "j < length (policy_outbox db)" for j
    using that assms(2) by (simp add: nth_append)
  have sent: "sorted (map fst sent)" "\<And>i a d. (i, a, d) \<in> set sent \<Longrightarrow> i < length (policy_outbox db) \<and>
        a = ob_app (policy_outbox db ! i) \<and> dec (ob_delta (policy_outbox db ! i)) = Some d"
    using assms(1) by (auto simp: relay_inv_def)
  have published: "j \<in> fst ` set sent" if "j < length (policy_outbox db')" "ob_published (policy_outbox db' ! j)" for j
    using that new [of j] old [of j] assms(1) by (cases "j < length (policy_outbox db)") (auto simp: relay_inv_def)
  have "i \<le> j" if "j < length (policy_outbox db')" "good dec db' j" "\<not> ob_published (policy_outbox db' ! j)"
      "i \<in> fst ` set sent" for i j
  proof (cases "j < length (policy_outbox db)")
    case True
    with that old [of j] assms(1) show ?thesis by (auto simp: relay_inv_def)
  next
    case False
    moreover have "i < length (policy_outbox db)" using that(4) sent(2) by auto
    ultimately show ?thesis by simp
  qed
  moreover have "\<forall>(i, a, d) \<in> set sent. i < length (policy_outbox db') \<and> a = ob_app (policy_outbox db' ! i) \<and>
      dec (ob_delta (policy_outbox db' ! i)) = Some d"
    using sent(2) old assms(2) by (auto intro: trans_less_add1)
  ultimately show ?thesis using sent(1) published by (simp add: relay_inv_def)
qed

lemma RunRelayLoop_inv: "relay_inv dec sent db \<Longrightarrow> RunRelayLoop pg dec steps (sent, db) = (sent', db') \<Longrightarrow> relay_inv dec sent' db'"
proof (induction steps arbitrary: sent db)
  case (Cons st steps)
  show ?case
  proof (cases st)
    case (Drain D)
    obtain ok n sent1 db1 where "drainOnce dec D sent db = (ok, n, sent1, db1)" by (metis prod_cases4)
    with Cons Drain drainOnce_inv show ?thesis by (metis (no_types, lifting) RunRelayLoop.simps(2) case_prod_conv)
  next
    case (Write E app c)
    with Cons exec_outbox [of pg E app c db] relay_inv_append [OF Cons.prems(1)] show ?thesis by auto
  qed
qed simp


definition lossy_env :: drain_env where
  "lossy_env = \<lparr>de_query = True, de_publish = (\<lambda>i. True), de_mark = (\<lambda>i. i \<noteq> 1)\<rparr>"

definition fine_env :: drain_env where
  "fine_env = \<lparr>de_query = True, de_publish = (\<lambda>i. True), de_mark = (\<lambda>i. True)\<rparr>"

definition relay_steps :: "relay_step list" where
  "relay_steps = [Write demo_env 1 (WCreateRole ''a'' ''A''), Write demo_env 1 (WBind ''u'' 1), Write demo_env 1 (WBind ''v'' 1),
     Write demo_env 1 (WBind ''w'' 1), Drain lossy_env, Write demo_env 1 (WUnbind ''u'' 1), Drain fine_env]"


section \<open>Progress and its limit\<close>

lemma drain_loop_bad: "\<forall>(i, r) \<in> set batch. dec (ob_delta r) = None \<Longrightarrow> drain_loop dec D batch n sent db = (True, n, sent, db)"
  by (induction batch) auto

text \<open>
  A row whose bytes do not decode is skipped but stays unpublished, and every round takes
  the first hundred unpublished rows: once those are all undecodable, no round ever sends
  anything again, whatever valid rows follow.
\<close>

theorem undecodable_rows_starve_relay:
  assumes "\<forall>(i, r) \<in> set (take 100 (unpublished db)). dec (ob_delta r) = None"
  shows "snd (snd (drainOnce dec D sent db)) = (sent, db)"
  using drain_loop_bad [OF assms] by (simp add: drainOnce_def)

definition bad_row :: outbox_row where
  "bad_row = \<lparr>ob_app = 1, ob_version = 1, ob_delta = \<lparr>pd_Version = 0, pd_PolicyChanges = [], pd_DataChanges = []\<rparr>,
     ob_published = False\<rparr>"

definition stuck_db :: db where
  "stuck_db = empty_db\<lparr>policy_outbox := replicate 100 bad_row @ [bad_row\<lparr>ob_delta := \<lparr>pd_Version = 7, pd_PolicyChanges = [], pd_DataChanges = []\<rparr>\<rparr>]\<rparr>"

definition picky :: decoder where
  "picky d = (if pd_Version d = 0 then None else Some d)"

theorem undecodable_rows_starve_relay_witness:
  "length (unpublished stuck_db) = 101 \<and> snd (snd (drainOnce picky fine_env [] stuck_db)) = ([], stuck_db)"
proof -
  have "take 100 (unpublished stuck_db) = enumerate 0 (replicate 100 bad_row)" "length (unpublished stuck_db) = 101"
    by code_simp+
  moreover have "\<forall>(i, r) \<in> set (enumerate 0 (replicate 100 bad_row)). picky (ob_delta r) = None"
    by (auto simp: in_set_enumerate_eq picky_def bad_row_def)
  ultimately show ?thesis using undecodable_rows_starve_relay [of stuck_db picky fine_env "[]"] by simp
qed

text \<open>
  Bytes that a publisher puts on the channel are read by every subscriber as the same
  application and the same delta, provided the protobuf library decodes what it encoded; and a
  payload that is too short or does not decode is dropped without disturbing those around it.
\<close>

theorem envelope_roundtrip:
  assumes "\<And>d b. marshal d = Some b \<Longrightarrow> unmarshal b = Some d"
    and "RedisPublisher_Publish marshal redis appID delta = Some blob"
    and "\<exists>e. DecodeEnvelope unmarshal junk = Inl e"
  shows "DecodeEnvelope unmarshal blob = Inr (appID, delta) \<and>
    RedisSubscriber_Run unmarshal handler [junk, blob, junk] s = handler appID delta s"
proof -
  obtain body where "marshal delta = Some body" "blob = PutUint64 appID @ body"
    using assms(2) by (auto simp: RedisPublisher_Publish_def EncodeEnvelope_def split: option.splits if_splits)
  with assms(1) have "DecodeEnvelope unmarshal blob = Inr (appID, delta)" by (simp add: DecodeEnvelope_def)
  with assms(3) show ?thesis by auto
qed

definition seven_delta :: proto_delta where
  "seven_delta = \<lparr>pd_Version = 7, pd_PolicyChanges = [], pd_DataChanges = []\<rparr>"

definition one_marshal :: marshal where
  "one_marshal d = (if d = seven_delta then Some [8, 7] else None)"

definition one_unmarshal :: unmarshal where
  "one_unmarshal b = (if b = [8, 7] then Some seven_delta else None)"

theorem envelope_roundtrip_witness:
  "RedisPublisher_Publish one_marshal (\<lambda>_. True) 258 seven_delta = Some [0, 0, 0, 0, 0, 0, 1, 2, 8, 7] \<and>
   DecodeEnvelope one_unmarshal [0, 0, 0, 0, 0, 0, 1, 2, 8, 7] = Inr (258, seven_delta) \<and>
   RedisSubscriber_Run one_unmarshal (\<lambda>a d s. s @ [a]) [[1, 2], [0, 0, 0, 0, 0, 0, 1, 2, 8, 7], [1, 2]] [] = [258]"
proof -
  have law: "one_marshal d = Some b \<Longrightarrow> one_unmarshal b = Some d" for d b
    by (auto simp: one_marshal_def one_unmarshal_def split: if_splits)
  have pub: "RedisPublisher_Publish one_marshal (\<lambda>_. True) 258 seven_delta = Some [0, 0, 0, 0, 0, 0, 1, 2, 8, 7]" by code_simp
  have "\<exists>e. DecodeEnvelope one_unmarshal [1, 2] = Inl e" by (simp add: DecodeEnvelope_def)
  from envelope_roundtrip [OF law pub this, of "\<lambda>a d s. s @ [a]" "[]"] pub show ?thesis by simp
qed

end
