(* ===== verification/Casbin.thy ===== *)
theory Casbin
  imports Rules
begin

text \<open>
  The policy evaluation engine the kernel is built on is a third-party package (casbin): its
  enforcer is a parameter of the model, a record of the operations the kernel calls. What the
  kernel relies on is the locale \<open>casbin_enforcer\<close>, whose laws state the package's documented
  behaviour for the access-control model the program embeds (\<^verbatim>\<open>internal/sidecar/kernel/model.go\<close>).
  The meaning of that embedded model text is the executable definition \<open>model_allows\<close>: request
  \<^verbatim>\<open>(sub, dom, obj, act)\<close>, matcher and effect line by line. An evaluator that stores the rules
  and runs that definition interprets the locale.

  The enforcer follows role links to a fixed depth; that depth is the parameter \<open>lvl\<close>.
\<close>

section \<open>The embedded access-control model\<close>

text \<open>\<^verbatim>\<open>g = _, _, _\<close>: role links inside a domain, followed at most \<open>lvl\<close> times.\<close>

fun role_link :: "nat \<Rightarrow> string list set \<Rightarrow> string \<Rightarrow> string \<Rightarrow> string \<Rightarrow> bool" where
  "role_link 0 G dm u r \<longleftrightarrow> u = r"
| "role_link (Suc n) G dm u r \<longleftrightarrow>
     u = r \<or> (\<exists>g\<in>G. case g of [a, b, d] \<Rightarrow> a = u \<and> d = dm \<and> role_link n G dm b r | _ \<Rightarrow> False)"

text \<open>\<^verbatim>\<open>m = g(r.sub, p.sub, r.dom) && r.dom == p.dom && r.obj == p.obj && r.act == p.act\<close>\<close>

definition matches :: "nat \<Rightarrow> string list set \<Rightarrow> string list \<Rightarrow> string list \<Rightarrow> bool" where
  "matches lvl G req p \<longleftrightarrow>
     (case (req, p) of
        ([sub, dm, obj, act], [psub, pdom, pobj, pact, eft]) \<Rightarrow>
          role_link lvl G dm sub psub \<and> dm = pdom \<and> obj = pobj \<and> act = pact
      | _ \<Rightarrow> False)"

text \<open>\<^verbatim>\<open>e = some(where (p.eft == allow)) && !some(where (p.eft == deny))\<close>\<close>

definition model_allows :: "nat \<Rightarrow> string list set \<Rightarrow> string list set \<Rightarrow> string list \<Rightarrow> bool" where
  "model_allows lvl P G req \<longleftrightarrow>
     (\<exists>p\<in>P. matches lvl G req p \<and> last p = ''allow'') \<and>
     \<not> (\<exists>p\<in>P. matches lvl G req p \<and> last p = ''deny'')"

section \<open>The enforcer's operations and their contract\<close>

type_synonym casbin_error = string

record 'ce casbin =
  ce_ClearPolicy :: "'ce \<Rightarrow> 'ce"
  ce_AddNamedPolicies :: "string list list \<Rightarrow> 'ce \<Rightarrow> casbin_error option \<times> 'ce"
  ce_AddNamedGroupingPolicies :: "string list list \<Rightarrow> 'ce \<Rightarrow> casbin_error option \<times> 'ce"
  ce_RemoveNamedPolicies :: "string list list \<Rightarrow> 'ce \<Rightarrow> casbin_error option \<times> 'ce"
  ce_RemoveNamedGroupingPolicies :: "string list list \<Rightarrow> 'ce \<Rightarrow> casbin_error option \<times> 'ce"
  ce_InvalidateCache :: "'ce \<Rightarrow> casbin_error option \<times> 'ce"
  ce_Enforce :: "string list \<Rightarrow> 'ce \<Rightarrow> (casbin_error, bool) res \<times> 'ce"
  ce_EnforceEx :: "string list \<Rightarrow> 'ce \<Rightarrow> (casbin_error, bool \<times> string list) res"
  ce_GetImplicitRolesForUser :: "string \<Rightarrow> string \<Rightarrow> 'ce \<Rightarrow> (casbin_error, string list) res"

text \<open>
  \<open>pol\<close> and \<open>grp\<close> are the \<^verbatim>\<open>p\<close> and \<^verbatim>\<open>g\<close> rules an enforcer holds; \<open>fresh\<close> says that its decision
  cache holds no decision older than the last policy change. A batch is added or removed as a
  whole, so the laws speak of batches that are all new, or all present.
\<close>

definition well_sized :: "string list set \<Rightarrow> bool" where
  "well_sized P \<longleftrightarrow> (\<forall>p\<in>P. length p = 5)"

locale casbin_enforcer =
  fixes C :: "'ce casbin"
    and pol :: "'ce \<Rightarrow> string list set"
    and grp :: "'ce \<Rightarrow> string list set"
    and fresh :: "'ce \<Rightarrow> bool"
    and lvl :: nat
  assumes clear_pol: "pol (ce_ClearPolicy C ce) = {}"
    and clear_grp: "grp (ce_ClearPolicy C ce) = {}"
    and add_pol: "ce_AddNamedPolicies C rs ce = (None, ce') \<Longrightarrow>
      set rs \<inter> pol ce = {} \<or> set rs \<subseteq> pol ce \<Longrightarrow> pol ce' = pol ce \<union> set rs"
    and add_pol_grp: "ce_AddNamedPolicies C rs ce = (None, ce') \<Longrightarrow> grp ce' = grp ce"
    and add_grp: "ce_AddNamedGroupingPolicies C rs ce = (None, ce') \<Longrightarrow>
      set rs \<inter> grp ce = {} \<or> set rs \<subseteq> grp ce \<Longrightarrow> grp ce' = grp ce \<union> set rs"
    and add_grp_pol: "ce_AddNamedGroupingPolicies C rs ce = (None, ce') \<Longrightarrow> pol ce' = pol ce"
    and remove_pol: "ce_RemoveNamedPolicies C rs ce = (None, ce') \<Longrightarrow>
      set rs \<inter> pol ce = {} \<or> set rs \<subseteq> pol ce \<Longrightarrow> pol ce' = pol ce - set rs"
    and remove_pol_grp: "ce_RemoveNamedPolicies C rs ce = (None, ce') \<Longrightarrow> grp ce' = grp ce"
    and remove_grp: "ce_RemoveNamedGroupingPolicies C rs ce = (None, ce') \<Longrightarrow>
      set rs \<inter> grp ce = {} \<or> set rs \<subseteq> grp ce \<Longrightarrow> grp ce' = grp ce - set rs"
    and remove_grp_pol: "ce_RemoveNamedGroupingPolicies C rs ce = (None, ce') \<Longrightarrow> pol ce' = pol ce"
    and invalidate: "ce_InvalidateCache C ce = (None, ce') \<Longrightarrow>
      pol ce' = pol ce \<and> grp ce' = grp ce \<and> fresh ce'"
    and enforce_val: "fresh ce \<Longrightarrow> well_sized (pol ce) \<Longrightarrow> length req = 4 \<Longrightarrow>
      fst (ce_Enforce C req ce) = Inr (model_allows lvl (pol ce) (grp ce) req)"
    and enforce_state: "pol (snd (ce_Enforce C req ce)) = pol ce \<and>
      grp (snd (ce_Enforce C req ce)) = grp ce \<and> (fresh ce \<longrightarrow> fresh (snd (ce_Enforce C req ce)))"
    and enforce_ex: "well_sized (pol ce) \<Longrightarrow> length req = 4 \<Longrightarrow>
      \<exists>rule. ce_EnforceEx C req ce = Inr (model_allows lvl (pol ce) (grp ce) req, rule) \<and>
        (rule = [] \<longleftrightarrow> \<not> (\<exists>p\<in>pol ce. matches lvl (grp ce) req p \<and> last p \<in> {''allow'', ''deny''})) \<and>
        (rule \<noteq> [] \<longrightarrow> rule \<in> pol ce \<and> matches lvl (grp ce) req rule \<and>
           last rule = (if model_allows lvl (pol ce) (grp ce) req then ''allow'' else ''deny''))"
    and implicit_roles: "\<exists>rs. ce_GetImplicitRolesForUser C u dm ce = Inr rs \<and>
        set rs = {r. r \<noteq> u \<and> (u, r) \<in> {(a, b). [a, b, dm] \<in> grp ce}\<^sup>+}"

section \<open>An enforcer that runs the embedded model\<close>

record ref_ce =
  rc_pol :: "string list list"
  rc_grp :: "string list list"

text \<open>All-or-nothing batches: added unless one of the rules is present.\<close>

definition batch_add :: "string list list \<Rightarrow> string list list \<Rightarrow> string list list" where
  "batch_add rs xs = (if \<exists>r\<in>set rs. r \<in> set xs then xs else xs @ dedup rs)"

definition batch_remove :: "string list list \<Rightarrow> string list list \<Rightarrow> string list list" where
  "batch_remove rs xs =
     (if \<exists>r\<in>set rs. r \<notin> set xs then xs else filter (\<lambda>x. x \<notin> set rs) xs)"

definition role_edges :: "string list list \<Rightarrow> string \<Rightarrow> (string \<times> string) list" where
  "role_edges G dm =
     concat (map (\<lambda>g. case g of [a, b, d] \<Rightarrow> if d = dm then [(a, b)] else [] | _ \<Rightarrow> []) G)"

definition implicit_roles_of :: "string list list \<Rightarrow> string \<Rightarrow> string \<Rightarrow> string list" where
  "implicit_roles_of G dm u =
     filter (\<lambda>r. (u, r) \<in> (set (role_edges G dm))\<^sup>+ \<and> r \<noteq> u) (dedup (map snd (role_edges G dm)))"

definition deciding_rule :: "nat \<Rightarrow> ref_ce \<Rightarrow> string list \<Rightarrow> string list" where
  "deciding_rule lvl ce req =
     (let m = filter (matches lvl (set (rc_grp ce)) req) (rc_pol ce)
      in case filter (\<lambda>p. last p = ''deny'') m of
           p # _ \<Rightarrow> p
         | [] \<Rightarrow> (case filter (\<lambda>p. last p = ''allow'') m of p # _ \<Rightarrow> p | [] \<Rightarrow> []))"

definition ref_casbin :: "nat \<Rightarrow> ref_ce casbin" where
  "ref_casbin lvl =
     \<lparr>ce_ClearPolicy = (\<lambda>ce. \<lparr>rc_pol = [], rc_grp = []\<rparr>),
      ce_AddNamedPolicies = (\<lambda>rs ce. (None, ce\<lparr>rc_pol := batch_add rs (rc_pol ce)\<rparr>)),
      ce_AddNamedGroupingPolicies = (\<lambda>rs ce. (None, ce\<lparr>rc_grp := batch_add rs (rc_grp ce)\<rparr>)),
      ce_RemoveNamedPolicies = (\<lambda>rs ce. (None, ce\<lparr>rc_pol := batch_remove rs (rc_pol ce)\<rparr>)),
      ce_RemoveNamedGroupingPolicies = (\<lambda>rs ce. (None, ce\<lparr>rc_grp := batch_remove rs (rc_grp ce)\<rparr>)),
      ce_InvalidateCache = (\<lambda>ce. (None, ce)),
      ce_Enforce = (\<lambda>req ce. (Inr (model_allows lvl (set (rc_pol ce)) (set (rc_grp ce)) req), ce)),
      ce_EnforceEx = (\<lambda>req ce.
        Inr (model_allows lvl (set (rc_pol ce)) (set (rc_grp ce)) req, deciding_rule lvl ce req)),
      ce_GetImplicitRolesForUser = (\<lambda>u dm ce.
        Inr (implicit_roles_of (rc_grp ce) dm u))\<rparr>"

lemma set_batch_add:
  "set rs \<inter> set xs = {} \<or> set rs \<subseteq> set xs \<Longrightarrow> set (batch_add rs xs) = set xs \<union> set rs"
  by (auto simp: batch_add_def)

lemma set_batch_remove:
  "set rs \<inter> set xs = {} \<or> set rs \<subseteq> set xs \<Longrightarrow> set (batch_remove rs xs) = set xs - set rs"
  by (auto simp: batch_remove_def)

lemma set_role_edges: "set (role_edges G dm) = {(a, b). [a, b, dm] \<in> set G}"
proof -
  have "(a, b) \<in> set (case g of [a, b, d] \<Rightarrow> if d = dm then [(a, b)] else [] | _ \<Rightarrow> [])
      \<longleftrightarrow> g = [a, b, dm]" for a b g
    by (auto split: list.splits)
  then show ?thesis by (auto simp: role_edges_def)
qed

lemma set_implicit_roles_of:
  "set (implicit_roles_of G dm u) = {r. r \<noteq> u \<and> (u, r) \<in> {(a, b). [a, b, dm] \<in> set G}\<^sup>+}"
proof -
  have "r \<in> snd ` set (role_edges G dm)" if "(u, r) \<in> (set (role_edges G dm))\<^sup>+" for r
    using that by (induction rule: trancl.induct) force+
  then show ?thesis
    by (auto simp: implicit_roles_of_def simp flip: set_role_edges)
qed

lemma filter_eq_Cons_D: "filter P xs = y # ys \<Longrightarrow> y \<in> set xs \<and> P y"
proof -
  assume "filter P xs = y # ys"
  then have "y \<in> set (filter P xs)" by simp
  then show ?thesis by simp
qed

lemma deciding_rule_spec:
  fixes ce req lvl
  defines "M \<equiv> \<lambda>p. p \<in> set (rc_pol ce) \<and> matches lvl (set (rc_grp ce)) req p"
  shows "deciding_rule lvl ce req \<noteq> [] \<Longrightarrow>
      M (deciding_rule lvl ce req) \<and>
      last (deciding_rule lvl ce req) =
        (if model_allows lvl (set (rc_pol ce)) (set (rc_grp ce)) req then ''allow'' else ''deny'')"
    and "deciding_rule lvl ce req = [] \<longleftrightarrow> \<not> (\<exists>p. M p \<and> last p \<in> {''allow'', ''deny''})"
proof -
  let ?m = "filter (matches lvl (set (rc_grp ce)) req) (rc_pol ce)"
  have nonempty: "p \<noteq> []" if "M p" for p
    using that by (auto simp: M_def matches_def split: list.splits)
  consider (deny) p ps where "filter (\<lambda>p. last p = ''deny'') ?m = p # ps"
    | (allow) p ps where "filter (\<lambda>p. last p = ''deny'') ?m = []" "filter (\<lambda>p. last p = ''allow'') ?m = p # ps"
    | (none) "filter (\<lambda>p. last p = ''deny'') ?m = []" "filter (\<lambda>p. last p = ''allow'') ?m = []"
    by (metis list.exhaust)
  then have "(deciding_rule lvl ce req \<noteq> [] \<longrightarrow>
      M (deciding_rule lvl ce req) \<and>
      last (deciding_rule lvl ce req) =
        (if model_allows lvl (set (rc_pol ce)) (set (rc_grp ce)) req then ''allow'' else ''deny'')) \<and>
    (deciding_rule lvl ce req = [] \<longleftrightarrow> \<not> (\<exists>p. M p \<and> last p \<in> {''allow'', ''deny''}))"
  proof cases
    case deny
    then have p: "M p" "last p = ''deny''" using filter_eq_Cons_D [OF deny] by (auto simp: M_def)
    moreover have "deciding_rule lvl ce req = p" using deny by (simp add: deciding_rule_def Let_def)
    ultimately show ?thesis using nonempty [of p] by (auto simp: model_allows_def M_def)
  next
    case allow
    then have p: "M p" "last p = ''allow''" using filter_eq_Cons_D [OF allow(2)] by (auto simp: M_def)
    moreover have "deciding_rule lvl ce req = p" using allow by (simp add: deciding_rule_def Let_def)
    moreover have "\<not> (\<exists>p. M p \<and> last p = ''deny'')"
      using allow(1) by (auto simp: filter_empty_conv M_def)
    ultimately show ?thesis using nonempty [of p] by (auto simp: model_allows_def M_def)
  next
    case none
    then have "deciding_rule lvl ce req = []" by (simp add: deciding_rule_def Let_def)
    moreover have "\<not> (\<exists>p. M p \<and> last p \<in> {''allow'', ''deny''})"
      using none by (auto simp: filter_empty_conv M_def)
    ultimately show ?thesis by simp
  qed
  then show "deciding_rule lvl ce req \<noteq> [] \<Longrightarrow>
      M (deciding_rule lvl ce req) \<and>
      last (deciding_rule lvl ce req) =
        (if model_allows lvl (set (rc_pol ce)) (set (rc_grp ce)) req then ''allow'' else ''deny'')"
    and "deciding_rule lvl ce req = [] \<longleftrightarrow> \<not> (\<exists>p. M p \<and> last p \<in> {''allow'', ''deny''})"
    by blast+
qed

lemma ref_casbin_enforcer:
  "casbin_enforcer (ref_casbin lvl) (\<lambda>ce. set (rc_pol ce)) (\<lambda>ce. set (rc_grp ce)) (\<lambda>_. True) lvl"
proof unfold_locales
  fix ce req
  show "\<exists>rule. ce_EnforceEx (ref_casbin lvl) req ce =
        Inr (model_allows lvl (set (rc_pol ce)) (set (rc_grp ce)) req, rule) \<and>
        (rule = [] \<longleftrightarrow> \<not> (\<exists>p\<in>set (rc_pol ce). matches lvl (set (rc_grp ce)) req p \<and>
           last p \<in> {''allow'', ''deny''})) \<and>
        (rule \<noteq> [] \<longrightarrow> rule \<in> set (rc_pol ce) \<and> matches lvl (set (rc_grp ce)) req rule \<and>
           last rule = (if model_allows lvl (set (rc_pol ce)) (set (rc_grp ce)) req
             then ''allow'' else ''deny''))"
    using deciding_rule_spec [of lvl ce req]
    by (intro exI [of _ "deciding_rule lvl ce req"]) (auto simp: ref_casbin_def)
qed (auto simp: ref_casbin_def set_batch_add set_batch_remove set_implicit_roles_of)

interpretation ref: casbin_enforcer "ref_casbin 10" "\<lambda>ce. set (rc_pol ce)" "\<lambda>ce. set (rc_grp ce)"
    "\<lambda>_. True" 10
  by (rule ref_casbin_enforcer)

end
