(* ===== verification/Kernel.thy ===== *)
theory Kernel
  imports Casbin
begin

text \<open>
  The in-memory permission kernel of a sidecar (\<^verbatim>\<open>internal/sidecar/kernel/engine.go\<close>): one
  application, one pinned domain, a policy version and a readiness flag over the enforcer of
  theory \<open>Casbin\<close>, and the data-policy applier it routes changes to. Every operation is a
  function on the engine record; a failing step returns the error together with the state the
  code is left in, so that what a failure leaves behind is visible. The operations that the
  code serialises with \<^verbatim>\<open>applyMu\<close> are single steps here.

  The abstract specification of the kernel is a set of rules with a decision procedure on
  it (\<open>rules_allow\<close>); \<open>represents\<close> says that an enforcer holds exactly that set.
\<close>

section \<open>The program\<close>

datatype kernel_error = ErrNotReady | ErrForeignDomain | ErrStaleVersion | CasbinError casbin_error

record 't applier =
  ap_ApplySnapshot :: "kdata_policy list \<Rightarrow> 't \<Rightarrow> 't"
  ap_ApplyChange :: "change_op \<Rightarrow> kdata_policy \<Rightarrow> 't \<Rightarrow> 't"

text \<open>The default applier ignores data policies.\<close>

definition noopApplier :: "'t applier" where
  "noopApplier = \<lparr>ap_ApplySnapshot = (\<lambda>_ t. t), ap_ApplyChange = (\<lambda>_ _ t. t)\<rparr>"

record ('ce, 't) engine =
  e_domain :: string
  e_ce :: 'ce
  e_applier :: 't
  e_version :: uint64
  e_ready :: bool

definition kernel_New :: "string \<Rightarrow> 'ce \<Rightarrow> 't \<Rightarrow> ('ce, 't) engine" where
  "kernel_New d ce t = \<lparr>e_domain = d, e_ce = ce, e_applier = t, e_version = 0, e_ready = False\<rparr>"

definition Engine_Enforce ::
    "'ce casbin \<Rightarrow> ('ce, 't) engine \<Rightarrow> string \<Rightarrow> string \<Rightarrow> string \<Rightarrow> string \<Rightarrow>
     (kernel_error, bool) res \<times> ('ce, 't) engine" where
  "Engine_Enforce C e sub dm obj act =
     (if \<not> e_ready e then (Inl ErrNotReady, e)
      else if dm \<noteq> e_domain e then (Inl ErrForeignDomain, e)
      else case ce_Enforce C [sub, dm, obj, act] (e_ce e) of
             (Inl err, ce) \<Rightarrow> (Inl (CasbinError err), e\<lparr>e_ce := ce\<rparr>)
           | (Inr b, ce) \<Rightarrow> (Inr b, e\<lparr>e_ce := ce\<rparr>))"

definition Engine_EnforceEx ::
    "'ce casbin \<Rightarrow> ('ce, 't) engine \<Rightarrow> string \<Rightarrow> string \<Rightarrow> string \<Rightarrow> string \<Rightarrow>
     (kernel_error, bool \<times> string list) res" where
  "Engine_EnforceEx C e sub dm obj act =
     (if \<not> e_ready e then Inl ErrNotReady
      else if dm \<noteq> e_domain e then Inl ErrForeignDomain
      else case ce_EnforceEx C [sub, dm, obj, act] (e_ce e) of
             Inl err \<Rightarrow> Inl (CasbinError err)
           | Inr r \<Rightarrow> Inr r)"

definition addRule :: "'ce casbin \<Rightarrow> rule \<Rightarrow> 'ce \<Rightarrow> casbin_error option \<times> 'ce" where
  "addRule C r ce =
     (if Ptype r = ''p'' then ce_AddNamedPolicies C [rule_values r] ce
      else if Ptype r = ''g'' then ce_AddNamedGroupingPolicies C [rule_values r] ce
      else (None, ce))"

definition removeRule :: "'ce casbin \<Rightarrow> rule \<Rightarrow> 'ce \<Rightarrow> casbin_error option \<times> 'ce" where
  "removeRule C r ce =
     (if Ptype r = ''p'' then ce_RemoveNamedPolicies C [rule_values r] ce
      else if Ptype r = ''g'' then ce_RemoveNamedGroupingPolicies C [rule_values r] ce
      else (None, ce))"

definition applyPolicyChange :: "'ce casbin \<Rightarrow> policy_change \<Rightarrow> 'ce \<Rightarrow> casbin_error option \<times> 'ce" where
  "applyPolicyChange C pc ce =
     (case pc_Op pc of
        ChangeAdd \<Rightarrow> addRule C (pc_Rule pc) ce
      | ChangeRemove \<Rightarrow> removeRule C (pc_Rule pc) ce
      | ChangeUpdate \<Rightarrow>
          (case removeRule C (pc_OldRule pc) ce of
             (Some err, ce') \<Rightarrow> (Some err, ce')
           | (None, ce') \<Rightarrow> addRule C (pc_Rule pc) ce'))"

fun applyPolicyChanges :: "'ce casbin \<Rightarrow> policy_change list \<Rightarrow> 'ce \<Rightarrow> casbin_error option \<times> 'ce" where
  "applyPolicyChanges C [] ce = (None, ce)"
| "applyPolicyChanges C (pc # pcs) ce =
     (case applyPolicyChange C pc ce of
        (Some err, ce') \<Rightarrow> (Some err, ce')
      | (None, ce') \<Rightarrow> applyPolicyChanges C pcs ce')"

definition Engine_ApplySnapshot ::
    "'ce casbin \<Rightarrow> 't applier \<Rightarrow> snapshot \<Rightarrow> ('ce, 't) engine \<Rightarrow>
     kernel_error option \<times> ('ce, 't) engine" where
  "Engine_ApplySnapshot C A s e =
     (if \<exists>r \<in> set (s_Rules s). domainValue r \<noteq> e_domain e then (Some ErrForeignDomain, e)
      else
        let ce1 = ce_ClearPolicy C (e_ce e);
            pRules = map rule_values (filter (\<lambda>r. Ptype r = ''p'') (s_Rules s));
            gRules = map rule_values (filter (\<lambda>r. Ptype r = ''g'') (s_Rules s))
        in case (if pRules \<noteq> [] then ce_AddNamedPolicies C pRules ce1 else (None, ce1)) of
             (Some err, ce2) \<Rightarrow> (Some (CasbinError err), e\<lparr>e_ce := ce2, e_ready := False\<rparr>)
           | (None, ce2) \<Rightarrow>
               (case (if gRules \<noteq> [] then ce_AddNamedGroupingPolicies C gRules ce2 else (None, ce2)) of
                  (Some err, ce3) \<Rightarrow> (Some (CasbinError err), e\<lparr>e_ce := ce3, e_ready := False\<rparr>)
                | (None, ce3) \<Rightarrow>
                    let t = ap_ApplySnapshot A (s_DataPolicies s) (e_applier e)
                    in case ce_InvalidateCache C ce3 of
                         (Some err, ce4) \<Rightarrow>
                           (Some (CasbinError err), e\<lparr>e_ce := ce4, e_applier := t, e_ready := False\<rparr>)
                       | (None, ce4) \<Rightarrow>
                           (None, e\<lparr>e_ce := ce4, e_applier := t, e_version := s_Version s,
                                    e_ready := True\<rparr>)))"

definition foreign_change :: "string \<Rightarrow> policy_change \<Rightarrow> bool" where
  "foreign_change d pc \<longleftrightarrow>
     domainValue (pc_Rule pc) \<noteq> d \<or> pc_Op pc = ChangeUpdate \<and> domainValue (pc_OldRule pc) \<noteq> d"

definition Engine_ApplyDelta ::
    "'ce casbin \<Rightarrow> 't applier \<Rightarrow> kdelta \<Rightarrow> ('ce, 't) engine \<Rightarrow>
     kernel_error option \<times> ('ce, 't) engine" where
  "Engine_ApplyDelta C A d e =
     (if kd_Version d \<le> e_version e then (Some ErrStaleVersion, e)
      else if \<exists>pc \<in> set (kd_PolicyChanges d). foreign_change (e_domain e) pc
      then (Some ErrForeignDomain, e)
      else case applyPolicyChanges C (kd_PolicyChanges d) (e_ce e) of
             (Some err, ce1) \<Rightarrow> (Some (CasbinError err), e\<lparr>e_ce := ce1, e_ready := False\<rparr>)
           | (None, ce1) \<Rightarrow>
               let t = fold (\<lambda>dc. ap_ApplyChange A (kdc_Op dc) (kdc_Policy dc)) (kd_DataChanges d) (e_applier e)
               in case ce_InvalidateCache C ce1 of
                    (Some err, ce2) \<Rightarrow>
                      (Some (CasbinError err), e\<lparr>e_ce := ce2, e_applier := t, e_ready := False\<rparr>)
                  | (None, ce2) \<Rightarrow>
                      (None, e\<lparr>e_ce := ce2, e_applier := t, e_version := kd_Version d\<rparr>))"

definition Engine_GetImplicitRolesForUser ::
    "'ce casbin \<Rightarrow> ('ce, 't) engine \<Rightarrow> string \<Rightarrow> string \<Rightarrow> (kernel_error, string list) res" where
  "Engine_GetImplicitRolesForUser C e user dm =
     (if \<not> e_ready e then Inl ErrNotReady
      else if dm \<noteq> e_domain e then Inl ErrForeignDomain
      else case ce_GetImplicitRolesForUser C user dm (e_ce e) of
             Inl err \<Rightarrow> Inl (CasbinError err)
           | Inr rs \<Rightarrow> Inr rs)"

text \<open>
  \<^verbatim>\<open>BatchEnforce\<close> asks the enforcer row by row and returns the results so far when one fails.
\<close>

fun batch_rows ::
    "'ce casbin \<Rightarrow> string list list \<Rightarrow> bool list \<Rightarrow> ('ce, 't) engine \<Rightarrow>
     bool list \<times> kernel_error option \<times> ('ce, 't) engine" where
  "batch_rows C [] results e = (results, None, e)"
| "batch_rows C (r # rs) results e =
     (case ce_Enforce C r (e_ce e) of
        (Inl err, ce) \<Rightarrow> (results, Some (CasbinError err), e\<lparr>e_ce := ce\<rparr>)
      | (Inr b, ce) \<Rightarrow> batch_rows C rs (results @ [b]) (e\<lparr>e_ce := ce\<rparr>))"

definition Engine_BatchEnforce ::
    "'ce casbin \<Rightarrow> ('ce, 't) engine \<Rightarrow> string list list \<Rightarrow>
     bool list \<times> kernel_error option \<times> ('ce, 't) engine" where
  "Engine_BatchEnforce C e reqs =
     (if \<not> e_ready e then ([], Some ErrNotReady, e) else batch_rows C reqs [] e)"

section \<open>Abstract specification: a set of rules\<close>

definition p_rows :: "rule set \<Rightarrow> rule set" where
  "p_rows R = {r \<in> R. Ptype r = ''p''}"

definition g_rows :: "rule set \<Rightarrow> rule set" where
  "g_rows R = {r \<in> R. Ptype r = ''g''}"

text \<open>\<open>u\<close> has role \<open>r\<close> in the domain, through at most \<open>n\<close> bindings or inheritance edges.\<close>

fun has_role :: "nat \<Rightarrow> rule set \<Rightarrow> string \<Rightarrow> string \<Rightarrow> string \<Rightarrow> bool" where
  "has_role 0 R d u r \<longleftrightarrow> u = r"
| "has_role (Suc n) R d u r \<longleftrightarrow>
     u = r \<or> (\<exists>g \<in> R. Ptype g = ''g'' \<and> V0 g = u \<and> V2 g = d \<and> has_role n R d (V1 g) r)"

definition granted :: "nat \<Rightarrow> rule set \<Rightarrow> string \<Rightarrow> string \<Rightarrow> string \<Rightarrow> string \<Rightarrow> string \<Rightarrow> bool" where
  "granted lvl R eft sub d obj act \<longleftrightarrow>
     (\<exists>p \<in> R. Ptype p = ''p'' \<and> has_role lvl R d sub (V0 p) \<and> V1 p = d \<and> V2 p = obj \<and> V3 p = act \<and> V4 p = eft)"

definition rules_allow :: "nat \<Rightarrow> rule set \<Rightarrow> string \<Rightarrow> string \<Rightarrow> string \<Rightarrow> string \<Rightarrow> bool" where
  "rules_allow lvl R sub d obj act \<longleftrightarrow>
     granted lvl R ''allow'' sub d obj act \<and> \<not> granted lvl R ''deny'' sub d obj act"

text \<open>
  The rows the control plane projects: a \<^verbatim>\<open>p\<close> row has an effect and no sixth value, a \<^verbatim>\<open>g\<close> row
  three values.
\<close>

definition wf_row :: "rule \<Rightarrow> bool" where
  "wf_row r \<longleftrightarrow>
     (Ptype r = ''p'' \<longrightarrow> V4 r \<noteq> '''' \<and> V5 r = '''') \<and>
     (Ptype r = ''g'' \<longrightarrow> V2 r \<noteq> '''' \<and> V3 r = '''' \<and> V4 r = '''' \<and> V5 r = '''')"

fun change_rules :: "policy_change \<Rightarrow> rule set \<Rightarrow> rule set" where
  "change_rules pc R =
     (case pc_Op pc of
        ChangeAdd \<Rightarrow> insert (pc_Rule pc) R
      | ChangeRemove \<Rightarrow> R - {pc_Rule pc}
      | ChangeUpdate \<Rightarrow> insert (pc_Rule pc) (R - {pc_OldRule pc}))"

definition in_domain :: "string \<Rightarrow> rule set \<Rightarrow> bool" where
  "in_domain d R \<longleftrightarrow> (\<forall>r \<in> R. domainValue r = d)"

section \<open>Rows and their values\<close>

lemma wf_row_p_values:
  assumes "wf_row r" "Ptype r = ''p''"
  shows "rule_values r = [V0 r, V1 r, V2 r, V3 r, V4 r]"
  using assms by (simp add: wf_row_def rule_values_def V_def eval_nat_numeral)

lemma wf_row_g_values:
  assumes "wf_row r" "Ptype r = ''g''"
  shows "rule_values r = [V0 r, V1 r, V2 r]"
  using assms by (simp add: wf_row_def rule_values_def V_def eval_nat_numeral)

lemma inj_values_rows: "inj_on rule_values (p_rows R)" "inj_on rule_values (g_rows R)"
  by (auto simp: inj_on_def p_rows_def g_rows_def values_inject)

lemma p_rows_simps:
  "p_rows (insert r R) = (if Ptype r = ''p'' then insert r (p_rows R) else p_rows R)"
  "p_rows (R - {r}) = p_rows R - {r}"
  "g_rows (insert r R) = (if Ptype r = ''g'' then insert r (g_rows R) else g_rows R)"
  "g_rows (R - {r}) = g_rows R - {r}"
  by (auto simp: p_rows_def g_rows_def)

lemma rows_not_member:
  "Ptype r \<noteq> ''p'' \<Longrightarrow> p_rows R - {r} = p_rows R"
  "Ptype r \<noteq> ''g'' \<Longrightarrow> g_rows R - {r} = g_rows R"
  by (auto simp: p_rows_def g_rows_def)

lemma values_image_remove:
  "Ptype r = ''p'' \<Longrightarrow> rule_values ` (p_rows R - {r}) = rule_values ` p_rows R - {rule_values r}"
  "Ptype r = ''g'' \<Longrightarrow> rule_values ` (g_rows R - {r}) = rule_values ` g_rows R - {rule_values r}"
  by (auto simp: p_rows_def g_rows_def values_inject)

lemma has_role_link:
  assumes "\<forall>r \<in> R. wf_row r"
  shows "role_link n (rule_values ` g_rows R) d u r \<longleftrightarrow> has_role n R d u r"
proof (induction n arbitrary: u)
  case 0
  then show ?case by simp
next
  case (Suc n)
  have "(\<exists>g \<in> rule_values ` g_rows R. case g of [a, b, d'] \<Rightarrow> a = u \<and> d' = d \<and> role_link n (rule_values ` g_rows R) d b r | _ \<Rightarrow> False)
     \<longleftrightarrow> (\<exists>g \<in> g_rows R. V0 g = u \<and> V2 g = d \<and> role_link n (rule_values ` g_rows R) d (V1 g) r)"
    using assms by (auto simp: g_rows_def wf_row_g_values)
  also have "\<dots> \<longleftrightarrow> (\<exists>g \<in> R. Ptype g = ''g'' \<and> V0 g = u \<and> V2 g = d \<and> has_role n R d (V1 g) r)"
    unfolding Suc by (auto simp: g_rows_def)
  finally show ?case by (simp only: role_link.simps has_role.simps)
qed

lemma matched_granted:
  assumes "\<forall>r \<in> R. wf_row r"
  shows "(\<exists>p \<in> rule_values ` p_rows R. matches n (rule_values ` g_rows R) [sub, d, obj, act] p \<and> last p = eft) \<longleftrightarrow>
    granted n R eft sub d obj act"
  using assms by (auto simp: p_rows_def matches_def wf_row_p_values granted_def has_role_link)

lemma model_allows_rules:
  assumes "\<forall>r \<in> R. wf_row r"
  shows "model_allows n (rule_values ` p_rows R) (rule_values ` g_rows R) [sub, d, obj, act] \<longleftrightarrow>
    rules_allow n R sub d obj act"
  unfolding model_allows_def rules_allow_def matched_granted [OF assms] ..

lemma well_sized_rows: "\<forall>r \<in> R. wf_row r \<Longrightarrow> well_sized (rule_values ` p_rows R)"
  by (auto simp: well_sized_def p_rows_def wf_row_p_values)

section \<open>The kernel over a lawful enforcer\<close>

context casbin_enforcer
begin

definition represents :: "'ce \<Rightarrow> rule set \<Rightarrow> bool" where
  "represents ce R \<longleftrightarrow> pol ce = rule_values ` p_rows R \<and> grp ce = rule_values ` g_rows R"

lemma represents_clear: "represents (ce_ClearPolicy C ce) {}"
  by (simp add: represents_def clear_pol clear_grp p_rows_def g_rows_def)

lemma addRule_represents:
  assumes "represents ce R" "addRule C r ce = (None, ce')"
  shows "represents ce' (insert r R)"
proof -
  consider "Ptype r = ''p''" | "Ptype r = ''g''" | "Ptype r \<noteq> ''p''" "Ptype r \<noteq> ''g''" by blast
  then show ?thesis
  proof cases
    case 1
    then have add: "ce_AddNamedPolicies C [rule_values r] ce = (None, ce')"
      using assms(2) by (simp add: addRule_def)
    have "pol ce' = pol ce \<union> {rule_values r}" "grp ce' = grp ce"
      using add_pol [OF add] add_pol_grp [OF add] by auto
    with 1 assms(1) show ?thesis by (simp add: represents_def p_rows_simps)
  next
    case 2
    then have add: "ce_AddNamedGroupingPolicies C [rule_values r] ce = (None, ce')"
      using assms(2) by (simp add: addRule_def)
    have "grp ce' = grp ce \<union> {rule_values r}" "pol ce' = pol ce"
      using add_grp [OF add] add_grp_pol [OF add] by auto
    with 2 assms(1) show ?thesis by (simp add: represents_def p_rows_simps)
  next
    case 3
    with assms show ?thesis by (simp add: addRule_def represents_def p_rows_simps)
  qed
qed

lemma removeRule_represents:
  assumes "represents ce R" "removeRule C r ce = (None, ce')"
  shows "represents ce' (R - {r})"
proof -
  consider "Ptype r = ''p''" | "Ptype r = ''g''" | "Ptype r \<noteq> ''p''" "Ptype r \<noteq> ''g''" by blast
  then show ?thesis
  proof cases
    case 1
    then have rem: "ce_RemoveNamedPolicies C [rule_values r] ce = (None, ce')"
      using assms(2) by (simp add: removeRule_def)
    have "pol ce' = pol ce - {rule_values r}" "grp ce' = grp ce"
      using remove_pol [OF rem] remove_pol_grp [OF rem] by auto
    with 1 assms(1) show ?thesis
      by (simp add: represents_def p_rows_simps values_image_remove rows_not_member)
  next
    case 2
    then have rem: "ce_RemoveNamedGroupingPolicies C [rule_values r] ce = (None, ce')"
      using assms(2) by (simp add: removeRule_def)
    have "grp ce' = grp ce - {rule_values r}" "pol ce' = pol ce"
      using remove_grp [OF rem] remove_grp_pol [OF rem] by auto
    with 2 assms(1) show ?thesis
      by (simp add: represents_def p_rows_simps values_image_remove rows_not_member)
  next
    case 3
    with assms show ?thesis by (simp add: removeRule_def represents_def p_rows_simps rows_not_member)
  qed
qed

lemma applyPolicyChange_represents:
  assumes "represents ce R" "applyPolicyChange C pc ce = (None, ce')"
  shows "represents ce' (change_rules pc R)"
  using assms
  by (auto simp: applyPolicyChange_def split: change_op.splits prod.splits option.splits
      intro: addRule_represents removeRule_represents)

lemma applyPolicyChanges_represents:
  assumes "represents ce R" "applyPolicyChanges C pcs ce = (None, ce')"
  shows "represents ce' (fold change_rules pcs R)"
  using assms
proof (induction pcs arbitrary: ce R)
  case Nil
  then show ?case by simp
next
  case (Cons pc pcs)
  then obtain ce1 where "applyPolicyChange C pc ce = (None, ce1)" "applyPolicyChanges C pcs ce1 = (None, ce')"
    by (auto split: prod.splits option.splits)
  with Cons show ?case by (auto dest: applyPolicyChange_represents simp del: change_rules.simps)
qed

lemma represents_invalidate:
  assumes "represents ce R" "ce_InvalidateCache C ce = (None, ce')"
  shows "represents ce' R" "fresh ce'"
  using assms invalidate [OF assms(2)] by (auto simp: represents_def)

text \<open>A snapshot replaces the whole rule set.\<close>

lemma ApplySnapshot_represents:
  assumes "Engine_ApplySnapshot C A s e = (None, e')"
  shows "represents (e_ce e') (set (s_Rules s))" "fresh (e_ce e')"
proof -
  let ?ce1 = "ce_ClearPolicy C (e_ce e)"
  let ?p = "map rule_values (filter (\<lambda>r. Ptype r = ''p'') (s_Rules s))"
  let ?g = "map rule_values (filter (\<lambda>r. Ptype r = ''g'') (s_Rules s))"
  obtain ce2 ce3 where
      p: "(if ?p \<noteq> [] then ce_AddNamedPolicies C ?p ?ce1 else (None, ?ce1)) = (None, ce2)"
    and g: "(if ?g \<noteq> [] then ce_AddNamedGroupingPolicies C ?g ce2 else (None, ce2)) = (None, ce3)"
    and inval: "ce_InvalidateCache C ce3 = (None, e_ce e')"
    using assms by (auto simp: Engine_ApplySnapshot_def Let_def split: if_splits prod.splits option.splits)
  have ps: "rule_values ` p_rows (set (s_Rules s)) = set ?p" by (auto simp: p_rows_def)
  have gs: "rule_values ` g_rows (set (s_Rules s)) = set ?g" by (auto simp: g_rows_def)
  have "pol ce2 = set ?p \<and> grp ce2 = {}"
  proof (cases "?p = []")
    case True
    with p have "ce2 = ?ce1" by simp
    with True show ?thesis by (simp only: clear_pol clear_grp list.set)
  next
    case False
    with p have "ce_AddNamedPolicies C ?p ?ce1 = (None, ce2)" by (simp only: if_P simp_thms)
    from add_pol [OF this] add_pol_grp [OF this] show ?thesis by (simp only: clear_pol clear_grp) simp
  qed
  then have "pol ce3 = set ?p \<and> grp ce3 = set ?g"
  proof (cases "?g = []")
    case True
    with g have "ce3 = ce2" by simp
    with True \<open>pol ce2 = set ?p \<and> grp ce2 = {}\<close> show ?thesis by (simp only: list.set)
  next
    case False
    with g have "ce_AddNamedGroupingPolicies C ?g ce2 = (None, ce3)" by (simp only: if_P simp_thms)
    from add_grp [OF this] add_grp_pol [OF this] \<open>pol ce2 = set ?p \<and> grp ce2 = {}\<close>
    show ?thesis by simp
  qed
  then have "represents ce3 (set (s_Rules s))" by (simp add: represents_def ps gs)
  with inval show "represents (e_ce e') (set (s_Rules s))" "fresh (e_ce e')"
    by (auto intro: represents_invalidate)
qed

lemma ApplyDelta_represents:
  assumes "Engine_ApplyDelta C A d e = (None, e')" "represents (e_ce e) R"
  shows "represents (e_ce e') (fold change_rules (kd_PolicyChanges d) R)" "fresh (e_ce e')"
proof -
  obtain ce1 where "applyPolicyChanges C (kd_PolicyChanges d) (e_ce e) = (None, ce1)"
      and inval: "ce_InvalidateCache C ce1 = (None, e_ce e')"
    using assms(1) by (auto simp: Engine_ApplyDelta_def Let_def split: if_splits prod.splits option.splits)
  with assms(2) have "represents ce1 (fold change_rules (kd_PolicyChanges d) R)"
    by (blast intro: applyPolicyChanges_represents)
  with inval show "represents (e_ce e') (fold change_rules (kd_PolicyChanges d) R)" "fresh (e_ce e')"
    by (auto intro: represents_invalidate)
qed

text \<open>A ready kernel with a fresh cache decides as its rule set says.\<close>

lemma Enforce_decides:
  assumes "represents (e_ce e) R" "fresh (e_ce e)" "\<forall>r \<in> R. wf_row r" "e_ready e"
  shows "fst (Engine_Enforce C e sub (e_domain e) obj act) =
    Inr (rules_allow lvl R sub (e_domain e) obj act)"
proof -
  have "fst (ce_Enforce C [sub, e_domain e, obj, act] (e_ce e)) =
      Inr (model_allows lvl (pol (e_ce e)) (grp (e_ce e)) [sub, e_domain e, obj, act])"
    using assms by (intro enforce_val) (auto simp: represents_def well_sized_rows)
  then show ?thesis
    using assms by (auto simp: Engine_Enforce_def represents_def model_allows_rules split: prod.splits)
qed

text \<open>
  Batches: row by row, with the kernel's answer for every row of the pinned domain and a plain
  denial for a row of any other domain.
\<close>

lemma rules_allow_foreign: "in_domain d R \<Longrightarrow> dm \<noteq> d \<Longrightarrow> \<not> rules_allow n R sub dm obj act"
  by (auto simp: in_domain_def rules_allow_def granted_def domainValue_def)

lemma batch_rows_decides:
  assumes "represents (e_ce e) R" "fresh (e_ce e)" "\<forall>r \<in> R. wf_row r"
  shows "\<exists>e'. batch_rows C (map (\<lambda>(s, d, ob, a). [s, d, ob, a]) reqs) acc e =
    (acc @ map (\<lambda>(s, d, ob, a). rules_allow lvl R s d ob a) reqs, None, e')"
  using assms
proof (induction reqs arbitrary: acc e)
  case Nil
  then show ?case by simp
next
  case (Cons req reqs)
  obtain s d ob a where req: "req = (s, d, ob, a)" by (cases req) auto
  let ?r = "ce_Enforce C [s, d, ob, a] (e_ce e)"
  have "fst ?r = Inr (model_allows lvl (pol (e_ce e)) (grp (e_ce e)) [s, d, ob, a])"
    using Cons.prems by (intro enforce_val) (auto simp: represents_def well_sized_rows)
  then have dec: "fst ?r = Inr (rules_allow lvl R s d ob a)"
    using Cons.prems by (simp add: represents_def model_allows_rules)
  have "represents (snd ?r) R" "fresh (snd ?r)"
    using Cons.prems enforce_state [of "[s, d, ob, a]" "e_ce e"] by (auto simp: represents_def)
  then have "\<exists>e'. batch_rows C (map (\<lambda>(s, d, ob, a). [s, d, ob, a]) reqs) (acc @ [rules_allow lvl R s d ob a])
      (e\<lparr>e_ce := snd ?r\<rparr>) =
      (acc @ [rules_allow lvl R s d ob a] @ map (\<lambda>(s, d, ob, a). rules_allow lvl R s d ob a) reqs, None, e')"
    using Cons.IH [of "e\<lparr>e_ce := snd ?r\<rparr>" "acc @ [rules_allow lvl R s d ob a]"] Cons.prems by simp
  then show ?case
    using dec req by (cases ?r) (simp split: sum.splits)
qed

end

section \<open>Runs of a kernel\<close>

datatype kcmd =
    KSnapshot snapshot
  | KDelta kdelta
  | KEnforce string string string string

fun kernel_step :: "'ce casbin \<Rightarrow> 't applier \<Rightarrow> ('ce, 't) engine \<Rightarrow> kcmd \<Rightarrow> ('ce, 't) engine" where
  "kernel_step C A e (KSnapshot s) = snd (Engine_ApplySnapshot C A s e)"
| "kernel_step C A e (KDelta d) = snd (Engine_ApplyDelta C A d e)"
| "kernel_step C A e (KEnforce sub dm obj act) = snd (Engine_Enforce C e sub dm obj act)"

definition kernel_run :: "'ce casbin \<Rightarrow> 't applier \<Rightarrow> ('ce, 't) engine \<Rightarrow> kcmd list \<Rightarrow> ('ce, 't) engine" where
  "kernel_run C A = foldl (kernel_step C A)"

text \<open>
  The rules the control plane has given the kernel and the kernel has accepted: those of the
  last accepted snapshot, changed by every delta accepted since.
\<close>

fun accepted :: "'ce casbin \<Rightarrow> 't applier \<Rightarrow> ('ce, 't) engine \<Rightarrow> rule set \<Rightarrow> kcmd list \<Rightarrow> rule set" where
  "accepted C A e R [] = R"
| "accepted C A e R (KSnapshot s # cs) =
     accepted C A (snd (Engine_ApplySnapshot C A s e))
       (if fst (Engine_ApplySnapshot C A s e) = None then set (s_Rules s) else R) cs"
| "accepted C A e R (KDelta d # cs) =
     accepted C A (snd (Engine_ApplyDelta C A d e))
       (if fst (Engine_ApplyDelta C A d e) = None then fold change_rules (kd_PolicyChanges d) R else R) cs"
| "accepted C A e R (KEnforce sub dm obj act # cs) =
     accepted C A (snd (Engine_Enforce C e sub dm obj act)) R cs"

fun cmd_rows :: "kcmd \<Rightarrow> rule set" where
  "cmd_rows (KSnapshot s) = set (s_Rules s)"
| "cmd_rows (KDelta d) = pc_Rule ` set (kd_PolicyChanges d)"
| "cmd_rows (KEnforce sub dm obj act) = {}"

lemma change_rules_subset:
  "fold change_rules pcs R \<subseteq> R \<union> pc_Rule ` set pcs"
proof (induction pcs arbitrary: R)
  case Nil
  then show ?case by simp
next
  case (Cons pc pcs)
  have "change_rules pc R \<subseteq> insert (pc_Rule pc) R" by (auto split: change_op.splits)
  with Cons.IH [of "change_rules pc R"] show ?case by (auto simp del: change_rules.simps)
qed

text \<open>The pinned domain never changes, and every outcome of an apply is one of three.\<close>

lemma ApplySnapshot_cases:
  obtains (foreign) "\<exists>x \<in> set (s_Rules s). domainValue x \<noteq> e_domain e"
      "Engine_ApplySnapshot C A s e = (Some ErrForeignDomain, e)"
  | (failed) err ce' t' where "\<forall>x \<in> set (s_Rules s). domainValue x = e_domain e"
      "Engine_ApplySnapshot C A s e =
         (Some (CasbinError err), e\<lparr>e_ce := ce', e_applier := t', e_ready := False\<rparr>)"
      "t' = e_applier e \<or> t' = ap_ApplySnapshot A (s_DataPolicies s) (e_applier e)"
  | (applied) ce' where "\<forall>x \<in> set (s_Rules s). domainValue x = e_domain e"
      "Engine_ApplySnapshot C A s e =
         (None, e\<lparr>e_ce := ce', e_applier := ap_ApplySnapshot A (s_DataPolicies s) (e_applier e),
                  e_version := s_Version s, e_ready := True\<rparr>)"
proof (cases "\<exists>x \<in> set (s_Rules s). domainValue x \<noteq> e_domain e")
  case True
  then show ?thesis by (intro foreign) (simp_all add: Engine_ApplySnapshot_def)
next
  case False
  let ?ce1 = "ce_ClearPolicy C (e_ce e)"
  let ?p = "map rule_values (filter (\<lambda>r. Ptype r = ''p'') (s_Rules s))"
  let ?g = "map rule_values (filter (\<lambda>r. Ptype r = ''g'') (s_Rules s))"
  obtain o2 ce2 where 2: "(if ?p \<noteq> [] then ce_AddNamedPolicies C ?p ?ce1 else (None, ?ce1)) = (o2, ce2)"
    by (metis surj_pair)
  obtain o3 ce3 where 3: "(if ?g \<noteq> [] then ce_AddNamedGroupingPolicies C ?g ce2 else (None, ce2)) = (o3, ce3)"
    by (metis surj_pair)
  obtain o4 ce4 where 4: "ce_InvalidateCache C ce3 = (o4, ce4)" by (metis surj_pair)
  let ?t = "ap_ApplySnapshot A (s_DataPolicies s) (e_applier e)"
  have eq: "Engine_ApplySnapshot C A s e =
      (case o2 of Some err \<Rightarrow> (Some (CasbinError err), e\<lparr>e_ce := ce2, e_ready := False\<rparr>)
       | None \<Rightarrow> (case o3 of Some err \<Rightarrow> (Some (CasbinError err), e\<lparr>e_ce := ce3, e_ready := False\<rparr>)
       | None \<Rightarrow> (case o4 of
           Some err \<Rightarrow> (Some (CasbinError err), e\<lparr>e_ce := ce4, e_applier := ?t, e_ready := False\<rparr>)
         | None \<Rightarrow> (None, e\<lparr>e_ce := ce4, e_applier := ?t, e_version := s_Version s, e_ready := True\<rparr>))))"
    unfolding Engine_ApplySnapshot_def Let_def 2 prod.case 3 4
    using False by (auto split: option.splits)
  show ?thesis
  proof (cases o2)
    case (Some err)
    with eq False failed [where err = err and ce' = ce2 and t' = "e_applier e"] show ?thesis by simp
  next
    case None2: None
    show ?thesis
    proof (cases o3)
      case (Some err)
      with eq False None2 failed [where err = err and ce' = ce3 and t' = "e_applier e"] show ?thesis by simp
    next
      case None
      with eq False None2 failed [where ce' = ce4 and t' = ?t] applied [where ce' = ce4] show ?thesis by (cases o4) simp_all
    qed
  qed
qed

lemma ApplyDelta_cases:
  obtains (stale) "kd_Version d \<le> e_version e" "Engine_ApplyDelta C A d e = (Some ErrStaleVersion, e)"
  | (foreign) "e_version e < kd_Version d" "\<exists>pc \<in> set (kd_PolicyChanges d). foreign_change (e_domain e) pc"
      "Engine_ApplyDelta C A d e = (Some ErrForeignDomain, e)"
  | (failed) err ce' t' where "e_version e < kd_Version d"
      "\<forall>pc \<in> set (kd_PolicyChanges d). \<not> foreign_change (e_domain e) pc"
      "Engine_ApplyDelta C A d e =
         (Some (CasbinError err), e\<lparr>e_ce := ce', e_applier := t', e_ready := False\<rparr>)"
      "t' = e_applier e \<or> t' = fold (\<lambda>dc. ap_ApplyChange A (kdc_Op dc) (kdc_Policy dc))
                    (kd_DataChanges d) (e_applier e)"
  | (applied) ce' where "e_version e < kd_Version d"
      "\<forall>pc \<in> set (kd_PolicyChanges d). \<not> foreign_change (e_domain e) pc"
      "Engine_ApplyDelta C A d e =
         (None, e\<lparr>e_ce := ce',
                  e_applier := fold (\<lambda>dc. ap_ApplyChange A (kdc_Op dc) (kdc_Policy dc))
                    (kd_DataChanges d) (e_applier e),
                  e_version := kd_Version d\<rparr>)"
proof -
  let ?t = "fold (\<lambda>dc. ap_ApplyChange A (kdc_Op dc) (kdc_Policy dc)) (kd_DataChanges d) (e_applier e)"
  obtain o1 ce1 where 1: "applyPolicyChanges C (kd_PolicyChanges d) (e_ce e) = (o1, ce1)"
    by (metis surj_pair)
  obtain o2 ce2 where 2: "ce_InvalidateCache C ce1 = (o2, ce2)" by (metis surj_pair)
  consider "kd_Version d \<le> e_version e"
    | "e_version e < kd_Version d" "\<exists>pc \<in> set (kd_PolicyChanges d). foreign_change (e_domain e) pc"
    | "e_version e < kd_Version d" "\<forall>pc \<in> set (kd_PolicyChanges d). \<not> foreign_change (e_domain e) pc"
    by force
  then show ?thesis
  proof cases
    case 1
    then show ?thesis by (intro stale) (simp_all add: Engine_ApplyDelta_def)
  next
    case 2
    then show ?thesis by (intro foreign) (simp_all add: Engine_ApplyDelta_def)
  next
    case 3
    have eq: "Engine_ApplyDelta C A d e =
        (case o1 of Some err \<Rightarrow> (Some (CasbinError err), e\<lparr>e_ce := ce1, e_ready := False\<rparr>)
         | None \<Rightarrow> (case o2 of
             Some err \<Rightarrow> (Some (CasbinError err), e\<lparr>e_ce := ce2, e_applier := ?t, e_ready := False\<rparr>)
           | None \<Rightarrow> (None, e\<lparr>e_ce := ce2, e_applier := ?t, e_version := kd_Version d\<rparr>)))"
      unfolding Engine_ApplyDelta_def Let_def 1 prod.case 2
      using 3 by (auto split: option.splits)
    show ?thesis
    proof (cases o1)
      case (Some err)
      with eq 3 failed [where err = err and ce' = ce1 and t' = "e_applier e"] show ?thesis by simp
    next
      case None
      with eq 3 failed [where ce' = ce2 and t' = ?t] applied [where ce' = ce2] show ?thesis by (cases o2) simp_all
    qed
  qed
qed

lemma kernel_step_domain [simp]: "e_domain (kernel_step C A e c) = e_domain e"
proof (cases c)
  case (KSnapshot s)
  then show ?thesis by (cases rule: ApplySnapshot_cases [of s e C A]) simp_all
next
  case (KDelta d)
  then show ?thesis by (cases rule: ApplyDelta_cases [of d e C A]) simp_all
next
  case (KEnforce sub dm obj act)
  then show ?thesis by (simp add: Engine_Enforce_def split: prod.splits sum.splits)
qed

context casbin_enforcer
begin

definition kernel_inv :: "string \<Rightarrow> ('ce, 't) engine \<Rightarrow> rule set \<Rightarrow> bool" where
  "kernel_inv d e R \<longleftrightarrow>
     e_domain e = d \<and> (e_ready e \<longrightarrow> represents (e_ce e) R \<and> fresh (e_ce e) \<and> in_domain d R)"

lemma kernel_inv_snapshot:
  assumes "kernel_inv d e R"
  shows "kernel_inv d (snd (Engine_ApplySnapshot C A s e))
    (if fst (Engine_ApplySnapshot C A s e) = None then set (s_Rules s) else R)"
proof (cases rule: ApplySnapshot_cases [of s e C A])
  case foreign
  with assms show ?thesis by simp
next
  case failed
  with assms show ?thesis by (simp add: kernel_inv_def)
next
  case applied
  then show ?thesis
    using assms ApplySnapshot_represents [OF applied(2)] by (simp add: kernel_inv_def in_domain_def)
qed

lemma kernel_inv_delta:
  assumes "kernel_inv d e R"
  shows "kernel_inv d (snd (Engine_ApplyDelta C A dl e))
    (if fst (Engine_ApplyDelta C A dl e) = None then fold change_rules (kd_PolicyChanges dl) R else R)"
proof (cases rule: ApplyDelta_cases [of dl e C A])
  case (applied ce')
  have "in_domain d (fold change_rules (kd_PolicyChanges dl) R)" if "in_domain d R"
    using change_rules_subset [of "kd_PolicyChanges dl" R] that applied(2) assms
    by (auto simp: in_domain_def foreign_change_def kernel_inv_def)
  then show ?thesis
    using assms applied ApplyDelta_represents [OF applied(3), of R] by (auto simp: kernel_inv_def)
next
  case failed
  with assms show ?thesis by (simp add: kernel_inv_def)
qed (use assms in simp_all)

lemma kernel_inv_enforce:
  assumes "kernel_inv d e R"
  shows "kernel_inv d (snd (Engine_Enforce C e sub dm obj act)) R"
  using assms enforce_state [of "[sub, dm, obj, act]" "e_ce e"]
  by (auto simp: kernel_inv_def Engine_Enforce_def represents_def split: prod.splits sum.splits)

lemma kernel_inv_run:
  assumes "kernel_inv d e R"
  shows "kernel_inv d (kernel_run C A e cs) (accepted C A e R cs)"
  using assms
proof (induction cs arbitrary: e R)
  case Nil
  then show ?case by (simp add: kernel_run_def)
next
  case (Cons c cs)
  have "kernel_inv d (kernel_run C A (kernel_step C A e c) cs) (accepted C A e R (c # cs))"
    by (cases c) (simp_all add: Cons.IH Cons.prems kernel_inv_snapshot kernel_inv_delta kernel_inv_enforce)
  then show ?case by (simp add: kernel_run_def)
qed

end

lemma accepted_wf:
  assumes "\<forall>r \<in> R. P r" "\<forall>c \<in> set cs. \<forall>r \<in> cmd_rows c. P r"
  shows "\<forall>r \<in> accepted C A e R cs. P r"
  using assms
proof (induction cs arbitrary: e R)
  case Nil
  then show ?case by simp
next
  case (Cons c cs)
  show ?case
  proof (cases c)
    case (KSnapshot s)
    then have "\<forall>r \<in> set (s_Rules s). P r" using Cons.prems by auto
    then show ?thesis
      unfolding KSnapshot accepted.simps using Cons.prems by (intro Cons.IH) simp_all
  next
    case (KDelta d)
    have "\<forall>r \<in> fold change_rules (kd_PolicyChanges d) R. P r"
      using change_rules_subset [of "kd_PolicyChanges d" R] Cons.prems KDelta by fastforce
    then show ?thesis
      unfolding KDelta accepted.simps using Cons.prems by (intro Cons.IH) simp_all
  next
    case KEnforce
    then show ?thesis
      unfolding KEnforce accepted.simps using Cons.prems by (intro Cons.IH) simp_all
  qed
qed

text \<open>
  C3. Take any enforcer that meets its contract, and any sequence of snapshots, deltas and
  requests on a new kernel. If the kernel is ready at the end, then all the rules it has
  accepted lie in its pinned domain, a request in that domain is decided exactly as those rules
  say (some grant allows it and none denies it), and a request in any other domain is refused.
\<close>

theorem kernel_decides_accepted_rules:
  fixes C :: "'ce casbin" and A :: "'t applier" and cs :: "kcmd list"
  assumes "casbin_enforcer C pol grp fresh lvl"
    and "\<forall>c \<in> set cs. \<forall>r \<in> cmd_rows c. wf_row r"
    and "e_ready (kernel_run C A (kernel_New d ce t) cs)"
  shows "in_domain d (accepted C A (kernel_New d ce t) {} cs) \<and>
    fst (Engine_Enforce C (kernel_run C A (kernel_New d ce t) cs) sub d obj act) =
      Inr (rules_allow lvl (accepted C A (kernel_New d ce t) {} cs) sub d obj act) \<and>
    (dm \<noteq> d \<longrightarrow> fst (Engine_Enforce C (kernel_run C A (kernel_New d ce t) cs) sub dm obj act) =
      Inl ErrForeignDomain)"
proof -
  let ?e = "kernel_run C A (kernel_New d ce t) cs"
  let ?R = "accepted C A (kernel_New d ce t) {} cs"
  have "casbin_enforcer.kernel_inv pol grp fresh d (kernel_New d ce t) {}"
    by (simp add: casbin_enforcer.kernel_inv_def [OF assms(1)] kernel_New_def)
  then have inv: "casbin_enforcer.kernel_inv pol grp fresh d ?e ?R"
    by (rule casbin_enforcer.kernel_inv_run [OF assms(1)])
  then have rep: "casbin_enforcer.represents pol grp (e_ce ?e) ?R" "fresh (e_ce ?e)" "in_domain d ?R"
      and dmn: "e_domain ?e = d"
    using assms(3) by (simp_all add: casbin_enforcer.kernel_inv_def [OF assms(1)])
  have "\<forall>r \<in> ?R. wf_row r" by (rule accepted_wf) (use assms(2) in auto)
  then show ?thesis
    using casbin_enforcer.Enforce_decides [OF assms(1) rep(1,2) _ assms(3)] rep(3) dmn assms(3)
    by (simp add: Engine_Enforce_def)
qed

text \<open>A small policy used by the witnesses: a clerk may read orders, and then loses the right.\<close>

definition demo_cmds :: "kcmd list" where
  "demo_cmds =
     [KSnapshot \<lparr>s_Version = 7,
        s_Rules = [p_row ''clerk'' ''shop'' ''order'' ''read'' ''allow'', g_row ''bob'' ''clerk'' ''shop''],
        s_DataPolicies = []\<rparr>,
      KDelta \<lparr>kd_Version = 8,
        kd_PolicyChanges =
          [\<lparr>pc_Op = ChangeAdd, pc_Rule = p_row ''clerk'' ''shop'' ''order'' ''delete'' ''deny'',
            pc_OldRule = zero_rule\<rparr>],
        kd_DataChanges = []\<rparr>]"

definition demo_engine :: "(ref_ce, unit) engine" where
  "demo_engine = kernel_New ''shop'' \<lparr>rc_pol = [], rc_grp = []\<rparr> ()"

theorem kernel_decides_accepted_rules_witness:
  "fst (Engine_Enforce (ref_casbin 10) (kernel_run (ref_casbin 10) noopApplier demo_engine demo_cmds)
      ''bob'' ''shop'' ''order'' ''read'') = Inr True \<and>
   fst (Engine_Enforce (ref_casbin 10) (kernel_run (ref_casbin 10) noopApplier demo_engine demo_cmds)
      ''bob'' ''other'' ''order'' ''read'') = Inl ErrForeignDomain"
proof -
  have wf: "\<forall>c \<in> set demo_cmds. \<forall>r \<in> cmd_rows c. wf_row r" by code_simp
  have ready: "e_ready (kernel_run (ref_casbin 10) noopApplier demo_engine demo_cmds)" by code_simp
  have val: "rules_allow 10 (accepted (ref_casbin 10) noopApplier demo_engine {} demo_cmds)
      ''bob'' ''shop'' ''order'' ''read''" by code_simp
  show ?thesis
    using val kernel_decides_accepted_rules [OF ref_casbin_enforcer wf ready [unfolded demo_engine_def],
      of "''bob''" "''order''" "''read''" "''other''"]
    by (simp add: demo_engine_def)
qed

text \<open>The state a half-way failure leaves: no query is answered until a snapshot is applied.\<close>

definition fail_closed :: "'ce casbin \<Rightarrow> uint64 \<Rightarrow> ('ce, 't) engine \<Rightarrow> bool" where
  "fail_closed C v e \<longleftrightarrow> \<not> e_ready e \<and> e_version e = v \<and>
     (\<forall>sub dm obj act. Engine_Enforce C e sub dm obj act = (Inl ErrNotReady, e) \<and>
        Engine_EnforceEx C e sub dm obj act = Inl ErrNotReady \<and>
        Engine_GetImplicitRolesForUser C e sub dm = Inl ErrNotReady) \<and>
     (\<forall>reqs. Engine_BatchEnforce C e reqs = ([], Some ErrNotReady, e))"

text \<open>
  C4. Applying a snapshot or a delta has three outcomes and no other. It succeeds, and then
  the version is the one announced (for a delta strictly greater than before) and all rows are
  rows of the pinned domain. It is rejected before anything is touched (a foreign row, or a
  version that is not newer), and then the kernel is exactly as before. Or the enforcer fails
  half-way, and then the kernel is not ready, its version has not moved, and every query
  answers \<^const>\<open>ErrNotReady\<close> instead of deciding on partial rules.
\<close>

theorem apply_all_or_fail_closed:
  fixes C :: "'ce casbin" and A :: "'t applier" and e :: "('ce, 't) engine"
  shows "(case Engine_ApplySnapshot C A s e of
       (None, e') \<Rightarrow> e_ready e' \<and> e_version e' = s_Version s \<and>
         list_all (\<lambda>r. domainValue r = e_domain e) (s_Rules s)
     | (Some ErrForeignDomain, e') \<Rightarrow> e' = e \<and> list_ex (\<lambda>r. domainValue r \<noteq> e_domain e) (s_Rules s)
     | (Some (CasbinError _), e') \<Rightarrow> fail_closed C (e_version e) e'
     | (Some _, e') \<Rightarrow> False) \<and>
    (case Engine_ApplyDelta C A d e of
       (None, e') \<Rightarrow> e_ready e' = e_ready e \<and> e_version e < kd_Version d \<and>
         e_version e' = kd_Version d \<and>
         list_all (\<lambda>pc. \<not> foreign_change (e_domain e) pc) (kd_PolicyChanges d)
     | (Some ErrStaleVersion, e') \<Rightarrow> e' = e \<and> kd_Version d \<le> e_version e
     | (Some ErrForeignDomain, e') \<Rightarrow> e' = e \<and> list_ex (foreign_change (e_domain e)) (kd_PolicyChanges d)
     | (Some (CasbinError _), e') \<Rightarrow> fail_closed C (e_version e) e'
     | (Some ErrNotReady, e') \<Rightarrow> False)"
    (is "?snapshot \<and> ?delta")
proof
  have closed: "fail_closed C (e_version e) (e\<lparr>e_ce := ce', e_applier := t', e_ready := False\<rparr>)" for ce' t'
    by (simp add: fail_closed_def Engine_Enforce_def Engine_EnforceEx_def
        Engine_GetImplicitRolesForUser_def Engine_BatchEnforce_def)
  show ?snapshot by (cases rule: ApplySnapshot_cases [of s e C A]) (simp_all add: closed list_all_iff list_ex_iff)
  show ?delta by (cases rule: ApplyDelta_cases [of d e C A]) (simp_all add: closed list_all_iff list_ex_iff)
qed

text \<open>
  Over a lawful enforcer a ready kernel answers a batch of requests with exactly the
  single decisions of its accepted rules, in order; a row of a foreign domain is answered
  with a denial, never with an error that would hide the other answers.
\<close>

theorem batch_is_pointwise:
  fixes C :: "'ce casbin" and A :: "'t applier" and cs :: "kcmd list"
  assumes "casbin_enforcer C pol grp fresh lvl"
    and "\<forall>c \<in> set cs. \<forall>r \<in> cmd_rows c. wf_row r"
    and "e_ready (kernel_run C A (kernel_New d ce t) cs)"
  shows "\<exists>e'. Engine_BatchEnforce C (kernel_run C A (kernel_New d ce t) cs)
      (map (\<lambda>(s, dm, ob, a). [s, dm, ob, a]) reqs) =
    (map (\<lambda>(s, dm, ob, a). dm = d \<and>
        rules_allow lvl (accepted C A (kernel_New d ce t) {} cs) s dm ob a) reqs, None, e')"
proof -
  let ?e = "kernel_run C A (kernel_New d ce t) cs"
  let ?R = "accepted C A (kernel_New d ce t) {} cs"
  have "casbin_enforcer.kernel_inv pol grp fresh d (kernel_New d ce t) {}"
    by (simp add: casbin_enforcer.kernel_inv_def [OF assms(1)] kernel_New_def)
  then have "casbin_enforcer.kernel_inv pol grp fresh d ?e ?R"
    by (rule casbin_enforcer.kernel_inv_run [OF assms(1)])
  then have rep: "casbin_enforcer.represents pol grp (e_ce ?e) ?R" "fresh (e_ce ?e)" "in_domain d ?R"
    using assms(3) by (simp_all add: casbin_enforcer.kernel_inv_def [OF assms(1)])
  have "\<forall>r \<in> ?R. wf_row r" by (rule accepted_wf) (use assms(2) in auto)
  from casbin_enforcer.batch_rows_decides [OF assms(1) rep(1,2) this, of reqs "[]"]
  obtain e' where "batch_rows C (map (\<lambda>(s, dm, ob, a). [s, dm, ob, a]) reqs) [] ?e =
      (map (\<lambda>(s, dm, ob, a). rules_allow lvl ?R s dm ob a) reqs, None, e')" by auto
  moreover have "rules_allow lvl ?R s dm ob a \<longleftrightarrow> dm = d \<and> rules_allow lvl ?R s dm ob a" for s dm ob a
    using casbin_enforcer.rules_allow_foreign [OF assms(1) rep(3)] by blast
  ultimately show ?thesis
    using assms(3) by (auto simp: Engine_BatchEnforce_def)
qed

theorem batch_is_pointwise_witness:
  "fst (Engine_BatchEnforce (ref_casbin 10) (kernel_run (ref_casbin 10) noopApplier demo_engine demo_cmds)
     [[''bob'', ''shop'', ''order'', ''read''], [''bob'', ''other'', ''order'', ''read''],
      [''bob'', ''shop'', ''order'', ''delete'']]) = [True, False, False]"
proof -
  have wf: "\<forall>c \<in> set demo_cmds. \<forall>r \<in> cmd_rows c. wf_row r" by code_simp
  have ready: "e_ready (kernel_run (ref_casbin 10) noopApplier demo_engine demo_cmds)" by code_simp
  let ?R = "accepted (ref_casbin 10) noopApplier demo_engine {} demo_cmds"
  have val: "rules_allow 10 ?R ''bob'' ''shop'' ''order'' ''read''"
    "\<not> rules_allow 10 ?R ''bob'' ''shop'' ''order'' ''delete''" by code_simp+
  show ?thesis
    using val batch_is_pointwise [OF ref_casbin_enforcer wf ready [unfolded demo_engine_def],
      of "[(''bob'', ''shop'', ''order'', ''read''), (''bob'', ''other'', ''order'', ''read''),
           (''bob'', ''shop'', ''order'', ''delete'')]"]
    by (auto simp: demo_engine_def)
qed

end
