(* ===== verification/Json.thy ===== *)
theory Json
  imports Prelude
begin

text \<open>
  The part of Go's \<^verbatim>\<open>encoding/json\<close> that the program reads conditions, documents and envelopes
  with: texts are split into tokens, and the tokens are read by a machine with a stack of open
  arrays and objects, as the library's scanner does, so that reading is a structural recursion
  on the tokens and always ends. Number literals are kept as text: the program passes the
  numbers on and never computes with them, and only needs to know whether the literal fits a
  \<^verbatim>\<open>float64\<close>. A JSON object keeps its members in order, duplicates included; \<open>any_of\<close> gives the
  value an \<^verbatim>\<open>any\<close> variable holds after decoding.
\<close>

datatype jval =
    JNull
  | JBool bool
  | JNum string
  | JStr string
  | JArr "jval list"
  | JObj "(string \<times> jval) list"

datatype jtoken =
    TLBrace | TRBrace | TLBrack | TRBrack | TComma | TColon
  | TTrue | TFalse | TNull
  | TStr string
  | TNum string

section \<open>Bytes and runes\<close>

abbreviation code :: "char \<Rightarrow> nat" where
  "code \<equiv> of_char"

definition within :: "char \<Rightarrow> nat \<Rightarrow> nat \<Rightarrow> bool" where
  "within c lo hi \<longleftrightarrow> lo \<le> code c \<and> code c \<le> hi"

definition is_digit :: "char \<Rightarrow> bool" where
  "is_digit c \<longleftrightarrow> c \<in> set ''0123456789''"

definition is_control :: "char \<Rightarrow> bool" where
  "is_control c \<longleftrightarrow> \<not> digit5 c \<and> \<not> digit6 c \<and> \<not> digit7 c"

definition is_ascii :: "char \<Rightarrow> bool" where
  "is_ascii c \<longleftrightarrow> \<not> digit7 c"

definition digit_val :: "char \<Rightarrow> int" where
  "digit_val c = of_char c - 48"

definition is_space :: "char \<Rightarrow> bool" where
  "is_space c \<longleftrightarrow> c = CHR 0x20 \<or> c = CHR 0x09 \<or> c = CHR 0x0A \<or> c = CHR 0x0D"

definition hex_val :: "char \<Rightarrow> nat option" where
  "hex_val c =
     (if within c 48 57 then Some (code c - 48)
      else if within c 97 102 then Some (code c - 87)
      else if within c 65 70 then Some (code c - 55)
      else None)"

definition hex4 :: "char \<Rightarrow> char \<Rightarrow> char \<Rightarrow> char \<Rightarrow> nat option" where
  "hex4 a b c d =
     (case (hex_val a, hex_val b, hex_val c, hex_val d) of
        (Some x, Some y, Some z, Some w) \<Rightarrow> Some (((x * 16 + y) * 16 + z) * 16 + w)
      | _ \<Rightarrow> None)"

text \<open>The UTF-8 bytes of a rune, and the replacement character U+FFFD.\<close>

definition utf8_encode :: "nat \<Rightarrow> string" where
  "utf8_encode r =
     map char_of
       (if r < 128 then [r]
        else if r < 2048 then [192 + r div 64, 128 + r mod 64]
        else if r < 65536 then [224 + r div 4096, 128 + r div 64 mod 64, 128 + r mod 64]
        else [240 + r div 262144, 128 + r div 4096 mod 64, 128 + r div 64 mod 64, 128 + r mod 64])"

definition rune_error :: string where
  "rune_error = utf8_encode 65533"

text \<open>How many bytes the well-formed UTF-8 sequence at the head of a text has; 0 if there is none.\<close>

fun utf8_size :: "string \<Rightarrow> nat" where
  "utf8_size [] = 0"
| "utf8_size (a # s) =
     (if is_ascii a then 1
      else if within a 194 223 then (case s of b # _ \<Rightarrow> if within b 128 191 then 2 else 0 | _ \<Rightarrow> 0)
      else if within a 224 239 then
        (case s of b # c # _ \<Rightarrow>
           if within c 128 191 \<and>
              within b (if a = CHR 0xE0 then 160 else 128) (if a = CHR 0xED then 159 else 191)
           then 3 else 0
         | _ \<Rightarrow> 0)
      else if within a 240 244 then
        (case s of b # c # d # _ \<Rightarrow>
           if within c 128 191 \<and> within d 128 191 \<and>
              within b (if a = CHR 0xF0 then 144 else 128) (if a = CHR 0xF4 then 143 else 191)
           then 4 else 0
         | _ \<Rightarrow> 0)
      else 0)"

definition is_high_surrogate :: "nat \<Rightarrow> bool" where
  "is_high_surrogate r \<longleftrightarrow> 55296 \<le> r \<and> r < 56320"

definition is_low_surrogate :: "nat \<Rightarrow> bool" where
  "is_low_surrogate r \<longleftrightarrow> 56320 \<le> r \<and> r < 57344"

section \<open>Tokens\<close>

text \<open>
  A string literal, after its opening quote: the decoded bytes and the text after the closing
  quote. Control bytes and unknown escapes are syntax errors; ill-formed UTF-8 and unpaired
  surrogates become U+FFFD.
\<close>

definition escape_char :: "char \<Rightarrow> char option" where
  "escape_char c =
     (if c = CHR 0x22 \<or> c = CHR 0x5C \<or> c = CHR 0x2F then Some c
      else if c = CHR 0x62 then Some (CHR 0x08)
      else if c = CHR 0x66 then Some (CHR 0x0C)
      else if c = CHR 0x6E then Some (CHR 0x0A)
      else if c = CHR 0x72 then Some (CHR 0x0D)
      else if c = CHR 0x74 then Some (CHR 0x09)
      else None)"

definition low_escape :: "string \<Rightarrow> nat option" where
  "low_escape s =
     (case s of
        x # y # a # b # c # d # _ \<Rightarrow>
          (if x = CHR 0x5C \<and> y = CHR 0x75 then
             (case hex4 a b c d of
                Some r \<Rightarrow> if is_low_surrogate r then Some r else None
              | None \<Rightarrow> None)
           else None)
      | _ \<Rightarrow> None)"

function lex_string :: "string \<Rightarrow> string \<Rightarrow> (string \<times> string) option" where
  "lex_string acc [] = None"
| "lex_string acc (x # s) =
     (if x = CHR 0x22 then Some (acc, s)
      else if is_control x then None
      else if x = CHR 0x5C then
        (case s of
           [] \<Rightarrow> None
         | e # s1 \<Rightarrow>
             if e = CHR 0x75 then
               (case s1 of
                  a # b # c # d # s2 \<Rightarrow>
                    (case hex4 a b c d of
                       None \<Rightarrow> None
                     | Some r \<Rightarrow>
                         if is_high_surrogate r then
                           (case low_escape s2 of
                              Some r' \<Rightarrow>
                                lex_string (acc @ utf8_encode ((r - 55296) * 1024 + (r' - 56320) + 65536))
                                  (drop 6 s2)
                            | None \<Rightarrow> lex_string (acc @ rune_error) s2)
                         else if is_low_surrogate r then lex_string (acc @ rune_error) s2
                         else lex_string (acc @ utf8_encode r) s2)
                | _ \<Rightarrow> None)
             else (case escape_char e of
                     Some y \<Rightarrow> lex_string (acc @ [y]) s1
                   | None \<Rightarrow> None))
      else if is_ascii x then lex_string (acc @ [x]) s
      else if utf8_size (x # s) = 0 then lex_string (acc @ rune_error) s
      else lex_string (acc @ take (utf8_size (x # s)) (x # s)) (drop (utf8_size (x # s)) (x # s)))"
  by pat_completeness auto
termination
  by (relation "measure (\<lambda>(acc, s). length s)") auto

text \<open>A number literal: the longest prefix of the grammar's shape, and the rest.\<close>

definition digits :: "string \<Rightarrow> string \<times> string" where
  "digits s = (takeWhile is_digit s, dropWhile is_digit s)"

definition lex_int :: "string \<Rightarrow> (string \<times> string) option" where
  "lex_int s =
     (case s of
        [] \<Rightarrow> None
      | c # s' \<Rightarrow>
          if c = CHR 0x30 then Some ([c], s')
          else if is_digit c then Some (digits s)
          else None)"

definition lex_frac :: "string \<Rightarrow> (string \<times> string) option" where
  "lex_frac s =
     (case s of
        c # s' \<Rightarrow>
          if c = CHR 0x2E then
            (case digits s' of (ds, r) \<Rightarrow> if ds = [] then None else Some (c # ds, r))
          else Some ([], s)
      | [] \<Rightarrow> Some ([], s))"

definition lex_exp :: "string \<Rightarrow> (string \<times> string) option" where
  "lex_exp s =
     (case s of
        c # s' \<Rightarrow>
          if c = CHR 0x65 \<or> c = CHR 0x45 then
            (let (sg, s2) = (case s' of d # s'' \<Rightarrow> if d = CHR 0x2B \<or> d = CHR 0x2D then ([d], s'') else ([], s')
                             | [] \<Rightarrow> ([], s'))
             in case digits s2 of (ds, r) \<Rightarrow> if ds = [] then None else Some (c # sg @ ds, r))
          else Some ([], s)
      | [] \<Rightarrow> Some ([], s))"

definition lex_number :: "string \<Rightarrow> (string \<times> string) option" where
  "lex_number s =
     (let (sg, s0) = (case s of c # s' \<Rightarrow> if c = CHR 0x2D then ([c], s') else ([], s) | [] \<Rightarrow> ([], s))
      in case lex_int s0 of
           None \<Rightarrow> None
         | Some (i, s1) \<Rightarrow>
             (case lex_frac s1 of
                None \<Rightarrow> None
              | Some (f, s2) \<Rightarrow>
                  (case lex_exp s2 of
                     None \<Rightarrow> None
                   | Some (e, s3) \<Rightarrow> Some (sg @ i @ f @ e, s3))))"

lemma lex_string_shorter: "lex_string acc s = Some (t, r) \<Longrightarrow> length r < length s"
proof (induction "length s" arbitrary: acc s t r rule: less_induct)
  case less
  have IH: "length r < length u" if "lex_string a u = Some (t, r)" "length u < length s" for a u
    using less.hyps that by blast
  show ?case
  proof (cases s)
    case Nil
    with less.prems show ?thesis by simp
  next
    case (Cons x s')
    with less.prems show ?thesis
      by (auto split: if_splits list.splits option.splits simp del: utf8_size.simps
          dest!: IH)
  qed
qed

lemma digits_append: "digits s = (ds, r) \<Longrightarrow> s = ds @ r"
  by (auto simp: digits_def)

lemma lex_int_split: "lex_int s = Some (i, r) \<Longrightarrow> s = i @ r \<and> i \<noteq> []"
  by (auto simp: lex_int_def digits_def split: list.splits if_splits)

lemma lex_frac_split: "lex_frac s = Some (f, r) \<Longrightarrow> s = f @ r"
  by (auto simp: lex_frac_def digits_def split: list.splits if_splits)

lemma lex_exp_split: "lex_exp s = Some (e, r) \<Longrightarrow> s = e @ r"
  by (auto simp: lex_exp_def digits_def Let_def split: list.splits if_splits)

lemma lex_number_split: "lex_number s = Some (n, r) \<Longrightarrow> s = n @ r \<and> n \<noteq> []"
  by (auto simp: lex_number_def Let_def split: list.splits option.splits if_splits
      dest!: lex_int_split lex_frac_split lex_exp_split)

lemma lex_number_shorter: "lex_number s = Some (n, r) \<Longrightarrow> length r < length s"
  by (auto dest: lex_number_split)

definition punct :: "char \<Rightarrow> jtoken option" where
  "punct c =
     (if c = CHR 0x7B then Some TLBrace
      else if c = CHR 0x7D then Some TRBrace
      else if c = CHR 0x5B then Some TLBrack
      else if c = CHR 0x5D then Some TRBrack
      else if c = CHR 0x2C then Some TComma
      else if c = CHR 0x3A then Some TColon
      else None)"

function lex :: "jtoken list \<Rightarrow> string \<Rightarrow> jtoken list option" where
  "lex acc [] = Some (rev acc)"
| "lex acc (c # s) =
     (if is_space c then lex acc s
      else case punct c of
             Some t \<Rightarrow> lex (t # acc) s
           | None \<Rightarrow>
               if c = CHR 0x22 then
                 (case lex_string [] s of None \<Rightarrow> None | Some (str, r) \<Rightarrow> lex (TStr str # acc) r)
               else if hasPrefix (c # s) ''true'' then lex (TTrue # acc) (drop 3 s)
               else if hasPrefix (c # s) ''false'' then lex (TFalse # acc) (drop 4 s)
               else if hasPrefix (c # s) ''null'' then lex (TNull # acc) (drop 3 s)
               else (case lex_number (c # s) of None \<Rightarrow> None | Some (n, r) \<Rightarrow> lex (TNum n # acc) r))"
  by pat_completeness auto
termination
  by (relation "measure (\<lambda>(acc, s). length s)")
    (auto dest: lex_string_shorter lex_number_shorter)

section \<open>The stack machine\<close>

datatype frame = FArr "jval list" | FObj "(string \<times> jval) list" string

definition maxNestingDepth :: nat where
  "maxNestingDepth = 10000"

fun p_value :: "frame list \<Rightarrow> jtoken list \<Rightarrow> jval option"
  and p_after :: "jval \<Rightarrow> frame list \<Rightarrow> jtoken list \<Rightarrow> jval option" where
  "p_value st [] = None"
| "p_value st (t # ts) =
     (case t of
        TNull \<Rightarrow> p_after JNull st ts
      | TTrue \<Rightarrow> p_after (JBool True) st ts
      | TFalse \<Rightarrow> p_after (JBool False) st ts
      | TStr s \<Rightarrow> p_after (JStr s) st ts
      | TNum n \<Rightarrow> p_after (JNum n) st ts
      | TLBrack \<Rightarrow>
          if length st \<ge> maxNestingDepth then None
          else if ts \<noteq> [] \<and> hd ts = TRBrack then p_after (JArr []) st (tl ts)
          else p_value (FArr [] # st) ts
      | TLBrace \<Rightarrow>
          if length st \<ge> maxNestingDepth then None
          else (case ts of
                  TRBrace # ts' \<Rightarrow> p_after (JObj []) st ts'
                | TStr k # TColon # ts' \<Rightarrow> p_value (FObj [] k # st) ts'
                | _ \<Rightarrow> None)
      | _ \<Rightarrow> None)"
| "p_after v [] ts = (if ts = [] then Some v else None)"
| "p_after v (FArr vs # st) ts =
     (case ts of
        TComma # ts' \<Rightarrow> p_value (FArr (vs @ [v]) # st) ts'
      | TRBrack # ts' \<Rightarrow> p_after (JArr (vs @ [v])) st ts'
      | _ \<Rightarrow> None)"
| "p_after v (FObj kvs k # st) ts =
     (case ts of
        TComma # TStr k' # TColon # ts' \<Rightarrow> p_value (FObj (kvs @ [(k, v)]) k' # st) ts'
      | TRBrace # ts' \<Rightarrow> p_after (JObj (kvs @ [(k, v)])) st ts'
      | _ \<Rightarrow> None)"

definition parse_json :: "string \<Rightarrow> jval option" where
  "parse_json s = (case lex [] s of None \<Rightarrow> None | Some ts \<Rightarrow> p_value [] ts)"

section \<open>Decoded values\<close>

definition digits_val :: "string \<Rightarrow> int" where
  "digits_val ds = foldl (\<lambda>n c. n * 10 + digit_val c) 0 ds"

text \<open>
  Whether a literal is in the range of \<^verbatim>\<open>float64\<close>: the magnitude is below the value halfway
  between the largest float and the next power of two, from which rounding overflows.
\<close>

definition float_limit :: int where
  "float_limit = 2 ^ 1024 - 2 ^ 970"

definition number_in_range :: "string \<Rightarrow> bool" where
  "number_in_range lit =
     (let s0 = (case lit of c # s' \<Rightarrow> if c = CHR 0x2D then s' else lit | [] \<Rightarrow> lit);
          (i, s1) = digits s0;
          (f, s2) = (case s1 of c # s' \<Rightarrow> if c = CHR 0x2E then digits s' else ([], s1) | [] \<Rightarrow> ([], s1));
          (neg, ds) = (case s2 of
                         _ # d # s' \<Rightarrow> if d = CHR 0x2D then (True, s')
                                       else if d = CHR 0x2B then (False, s') else (False, d # s')
                       | _ \<Rightarrow> (False, []));
          m = digits_val (i @ f);
          x = (if neg then - digits_val ds else digits_val ds) - int (length f)
      in if 0 \<le> x then m * 10 ^ nat x < float_limit else m < float_limit * 10 ^ nat (- x))"

text \<open>A Go map built by successive assignments, kept sorted by key.\<close>

fun put :: "string \<Rightarrow> 'v \<Rightarrow> (string \<times> 'v) list \<Rightarrow> (string \<times> 'v) list" where
  "put k v [] = [(k, v)]"
| "put k v ((k', v') # kvs) =
     (if k = k' then (k, v) # kvs
      else if k < k' then (k, v) # (k', v') # kvs
      else (k', v') # put k v kvs)"

text \<open>The value an \<^verbatim>\<open>any\<close> holds after decoding, \<^const>\<open>None\<close> if a number is out of range.\<close>

fun any_of :: "jval \<Rightarrow> jval option"
  and any_list :: "jval list \<Rightarrow> jval list option"
  and any_members :: "(string \<times> jval) list \<Rightarrow> (string \<times> jval) list \<Rightarrow> (string \<times> jval) list option" where
  "any_of JNull = Some JNull"
| "any_of (JBool b) = Some (JBool b)"
| "any_of (JStr s) = Some (JStr s)"
| "any_of (JNum n) = (if number_in_range n then Some (JNum n) else None)"
| "any_of (JArr vs) = map_option JArr (any_list vs)"
| "any_of (JObj kvs) = map_option JObj (any_members kvs [])"
| "any_list [] = Some []"
| "any_list (v # vs) =
     (case any_of v of None \<Rightarrow> None | Some w \<Rightarrow> map_option ((#) w) (any_list vs))"
| "any_members [] m = Some m"
| "any_members (kv # kvs) m =
     (case any_of (snd kv) of None \<Rightarrow> None | Some w \<Rightarrow> any_members kvs (put (fst kv) w m))"

text \<open>A member name matches a struct field name without regard to the case of ASCII letters.\<close>

definition lower :: "char \<Rightarrow> char" where
  "lower c = (if within c 65 90 then char_of (code c + 32) else c)"

definition names_field :: "string \<Rightarrow> string \<Rightarrow> bool" where
  "names_field key field \<longleftrightarrow> map lower key = field"

section \<open>Reading a value's own tokens\<close>

text \<open>
  The tokens of a value. The machine reads them back as that value, whatever is open around
  it, as long as the nesting stays within the library's limit.
\<close>

fun sep_tokens :: "jtoken list list \<Rightarrow> jtoken list" where
  "sep_tokens [] = []"
| "sep_tokens [xs] = xs"
| "sep_tokens (xs # xss) = xs @ TComma # sep_tokens xss"

fun tokens :: "jval \<Rightarrow> jtoken list" where
  "tokens JNull = [TNull]"
| "tokens (JBool b) = [if b then TTrue else TFalse]"
| "tokens (JNum n) = [TNum n]"
| "tokens (JStr s) = [TStr s]"
| "tokens (JArr vs) = TLBrack # sep_tokens (map tokens vs) @ [TRBrack]"
| "tokens (JObj kvs) =
     TLBrace # sep_tokens (map (\<lambda>kv. TStr (fst kv) # TColon # tokens (snd kv)) kvs) @ [TRBrace]"

fun nesting :: "jval \<Rightarrow> nat" where
  "nesting (JArr vs) = Suc (fold (max \<circ> nesting) vs 0)"
| "nesting (JObj kvs) = Suc (fold (max \<circ> (nesting \<circ> snd)) kvs 0)"
| "nesting _ = 0"

lemma fold_max_le: "fold (max \<circ> f) xs n \<le> (m::nat) \<longleftrightarrow> n \<le> m \<and> (\<forall>x \<in> set xs. f x \<le> m)"
  by (induction xs arbitrary: n) auto

lemma tokens_nonempty: "\<exists>t ts. tokens v = t # ts \<and> t \<noteq> TRBrack \<and> t \<noteq> TRBrace"
  by (cases v) auto

lemma p_value_elems:
  assumes "\<And>x st ts. x \<in> set (v # vs) \<Longrightarrow> nesting x + length st \<le> maxNestingDepth \<Longrightarrow>
      p_value st (tokens x @ ts) = p_after x st ts"
    and "\<forall>x \<in> set (v # vs). nesting x + Suc (length st) \<le> maxNestingDepth"
  shows "p_value (FArr us # st) (sep_tokens (map tokens (v # vs)) @ TRBrack # ts) =
    p_after (JArr (us @ v # vs)) st ts"
  using assms
proof (induction vs arbitrary: us v)
  case Nil
  then show ?case by simp
next
  case (Cons w vs)
  have "p_value (FArr us # st) (tokens v @ TComma # sep_tokens (map tokens (w # vs)) @ TRBrack # ts)
      = p_value (FArr (us @ [v]) # st) (sep_tokens (map tokens (w # vs)) @ TRBrack # ts)"
    using Cons.prems by simp
  also have "\<dots> = p_after (JArr ((us @ [v]) @ w # vs)) st ts"
    by (rule Cons.IH) (use Cons.prems in auto)
  finally show ?case by simp
qed

lemma p_value_members:
  assumes "\<And>x st ts. x \<in> snd ` set (kv # kvs) \<Longrightarrow> nesting x + length st \<le> maxNestingDepth \<Longrightarrow>
      p_value st (tokens x @ ts) = p_after x st ts"
    and "\<forall>x \<in> snd ` set (kv # kvs). nesting x + Suc (length st) \<le> maxNestingDepth"
  shows "p_value (FObj us (fst kv) # st)
      (tokens (snd kv) @ concat (map (\<lambda>kv. TComma # TStr (fst kv) # TColon # tokens (snd kv)) kvs) @ TRBrace # ts) =
    p_after (JObj (us @ kv # kvs)) st ts"
  using assms
proof (induction kvs arbitrary: us kv)
  case Nil
  then show ?case by (cases kv) simp
next
  case (Cons kw kvs)
  let ?rest = "concat (map (\<lambda>kv. TComma # TStr (fst kv) # TColon # tokens (snd kv)) kvs) @ TRBrace # ts"
  have "p_value (FObj us (fst kv) # st) (tokens (snd kv) @ TComma # TStr (fst kw) # TColon # tokens (snd kw) @ ?rest)
      = p_value (FObj (us @ [kv]) (fst kw) # st) (tokens (snd kw) @ ?rest)"
    using Cons.prems by simp
  also have "\<dots> = p_after (JObj ((us @ [kv]) @ kw # kvs)) st ts"
    by (rule Cons.IH) (use Cons.prems in auto)
  finally show ?case by simp
qed

lemma sep_tokens_members:
  "sep_tokens (map f (kv # kvs)) = f kv @ concat (map (\<lambda>kv. TComma # f kv) kvs)"
  by (induction kvs arbitrary: kv) auto

lemma elem_tokens_start: "\<exists>t ts'. sep_tokens (map tokens (v # vs)) @ ts = t # ts' \<and> t \<noteq> TRBrack"
  using tokens_nonempty [of v] by (cases vs) auto

lemma p_value_tokens:
  "nesting v + length st \<le> maxNestingDepth \<Longrightarrow> p_value st (tokens v @ ts) = p_after v st ts"
proof (induction v arbitrary: st ts)
  case (JArr vs)
  then have nest: "\<forall>x \<in> set vs. nesting x + Suc (length st) \<le> maxNestingDepth"
    using fold_max_le [of nesting vs 0 "maxNestingDepth - Suc (length st)"] by auto
  show ?case
  proof (cases vs)
    case Nil
    with JArr.prems show ?thesis by simp
  next
    case (Cons w ws)
    obtain t ts' where t: "sep_tokens (map tokens vs) @ TRBrack # ts = t # ts'" "t \<noteq> TRBrack"
      using elem_tokens_start Cons by meson
    have "p_value st (tokens (JArr vs) @ ts) =
        p_value (FArr [] # st) (sep_tokens (map tokens vs) @ TRBrack # ts)"
      using t JArr.prems by simp
    also have "\<dots> = p_after (JArr vs) st ts"
      using p_value_elems [of w ws st "[]" ts] JArr.IH nest Cons by simp
    finally show ?thesis .
  qed
next
  case (JObj kvs)
  then have nest: "\<forall>x \<in> snd ` set kvs. nesting x + Suc (length st) \<le> maxNestingDepth"
    using fold_max_le [of "nesting \<circ> snd" kvs 0 "maxNestingDepth - Suc (length st)"] by auto
  have IH: "p_value st (tokens x @ ts) = p_after x st ts"
    if "x \<in> snd ` set kvs" "nesting x + length st \<le> maxNestingDepth" for x st ts
    using that JObj.IH by (fastforce simp: prod_set_simps)
  show ?case
  proof (cases kvs)
    case Nil
    with JObj.prems show ?thesis by simp
  next
    case (Cons kw ks)
    have "p_value (FObj [] (fst kw) # st)
        (tokens (snd kw) @ concat (map (\<lambda>kv. TComma # TStr (fst kv) # TColon # tokens (snd kv)) ks) @ TRBrace # ts)
        = p_after (JObj ([] @ kw # ks)) st ts"
      using IH nest unfolding Cons by (intro p_value_members) auto
    then show ?thesis using JObj.prems Cons by (simp only: tokens.simps sep_tokens_members) simp
  qed
qed simp_all

end
