(* ===== verification/Condition.thy ===== *)
theory Condition
  imports Json
begin

text \<open>
  The condition trees of data policies (\<^verbatim>\<open>internal/sidecar/dataperm/condition.go\<close>): decoding a
  tree from JSON text, and the validation that everything downstream relies on. A child of a
  logical node is a pointer; JSON \<^verbatim>\<open>null\<close> makes it nil, and reading through it is a run-time
  panic, which is a value of the error type here, as is indexing an empty slice.
\<close>

section \<open>The program\<close>

definition OpAnd :: string where "OpAnd = ''AND''"
definition OpOr :: string where "OpOr = ''OR''"
definition OpNot :: string where "OpNot = ''NOT''"
definition OpEQ :: string where "OpEQ = ''EQ''"
definition OpNE :: string where "OpNE = ''NE''"
definition OpGT :: string where "OpGT = ''GT''"
definition OpGE :: string where "OpGE = ''GE''"
definition OpLT :: string where "OpLT = ''LT''"
definition OpLE :: string where "OpLE = ''LE''"
definition OpIN :: string where "OpIN = ''IN''"
definition OpNotIn :: string where "OpNotIn = ''NOT_IN''"
definition OpLike :: string where "OpLike = ''LIKE''"
definition OpNotLike :: string where "OpNotLike = ''NOT_LIKE''"
definition OpIsNull :: string where "OpIsNull = ''IS_NULL''"
definition OpIsNotNull :: string where "OpIsNotNull = ''IS_NOT_NULL''"
definition OpBetween :: string where "OpBetween = ''BETWEEN''"

lemmas op_defs = OpAnd_def OpOr_def OpNot_def OpEQ_def OpNE_def OpGT_def OpGE_def OpLT_def OpLE_def
  OpIN_def OpNotIn_def OpLike_def OpNotLike_def OpIsNull_def OpIsNotNull_def OpBetween_def

text \<open>
  A \<^verbatim>\<open>*Condition\<close>: nil, or a node. A nil \<^verbatim>\<open>Value\<close> is \<^const>\<open>JNull\<close>.
\<close>

datatype condition =
    CNil
  | Cond (c_Op: string) (c_Children: "condition list") (c_Field: string) (c_Value: jval)

datatype cond_error = ErrInvalidPolicy | ErrMissingVar string | NilDereference | IndexOutOfRange

definition isLogicalOp :: "string \<Rightarrow> bool" where
  "isLogicalOp op \<longleftrightarrow> op = OpAnd \<or> op = OpOr \<or> op = OpNot"

definition isLeafOp :: "string \<Rightarrow> bool" where
  "isLeafOp op \<longleftrightarrow>
     op = OpEQ \<or> op = OpNE \<or> op = OpGT \<or> op = OpGE \<or> op = OpLT \<or> op = OpLE \<or> op = OpIN \<or>
     op = OpNotIn \<or> op = OpLike \<or> op = OpNotLike \<or> op = OpIsNull \<or> op = OpIsNotNull \<or> op = OpBetween"

definition is_letter :: "char \<Rightarrow> bool" where
  "is_letter c \<longleftrightarrow> c \<in> set ''ABCDEFGHIJKLMNOPQRSTUVWXYZabcdefghijklmnopqrstuvwxyz_''"

definition fieldNameRe :: "string \<Rightarrow> bool" where
  "fieldNameRe s \<longleftrightarrow>
     (case s of [] \<Rightarrow> False | c # cs \<Rightarrow> is_letter c \<and> list_all (\<lambda>d. is_letter d \<or> is_digit d) cs)"

definition is_array :: "jval \<Rightarrow> bool" where
  "is_array v = (case v of JArr _ \<Rightarrow> True | _ \<Rightarrow> False)"

definition validateLeaf :: "string \<Rightarrow> string \<Rightarrow> jval \<Rightarrow> cond_error option" where
  "validateLeaf op field v =
     (if \<not> fieldNameRe field then Some ErrInvalidPolicy
      else if op = OpIsNull \<or> op = OpIsNotNull then
        (if v \<noteq> JNull then Some ErrInvalidPolicy else None)
      else if op = OpIN \<or> op = OpNotIn then
        (case v of JArr arr \<Rightarrow> if arr = [] then Some ErrInvalidPolicy else None
         | _ \<Rightarrow> Some ErrInvalidPolicy)
      else if op = OpBetween then
        (case v of JArr arr \<Rightarrow> if length arr \<noteq> 2 then Some ErrInvalidPolicy else None
         | _ \<Rightarrow> Some ErrInvalidPolicy)
      else if v = JNull then Some ErrInvalidPolicy
      else if is_array v then Some ErrInvalidPolicy
      else None)"

fun validate :: "condition \<Rightarrow> cond_error option"
  and validate_children :: "condition list \<Rightarrow> cond_error option" where
  "validate CNil = Some NilDereference"
| "validate (Cond op cs field v) =
     (if isLogicalOp op then
        (if field \<noteq> '''' \<or> v \<noteq> JNull then Some ErrInvalidPolicy
         else if op = OpNot \<and> length cs \<noteq> 1 then Some ErrInvalidPolicy
         else if op \<noteq> OpNot \<and> length cs = 0 then Some ErrInvalidPolicy
         else validate_children cs)
      else if isLeafOp op then validateLeaf op field v
      else Some ErrInvalidPolicy)"
| "validate_children [] = None"
| "validate_children (c # cs) =
     (case validate c of Some e \<Rightarrow> Some e | None \<Rightarrow> validate_children cs)"

subsection \<open>Decoding\<close>

text \<open>
  \<^verbatim>\<open>json.Unmarshal\<close> into a \<^verbatim>\<open>Condition\<close>. A member sets the field its name matches, the last
  one wins, \<^verbatim>\<open>null\<close> leaves a string as it is and clears \<^verbatim>\<open>children\<close> and \<^verbatim>\<open>value\<close>, unknown members
  are skipped. A repeated \<^verbatim>\<open>children\<close> member decodes into the elements the slice already has,
  and into what its backing array still holds behind its length: a buffer keeps that array and
  the length in use. Decoding fails if a value does not fit its field's type.
\<close>

datatype cond_buf = BNil | Buf (b_op: string) (b_backing: "cond_buf list") (b_len: nat) (b_field: string) (b_value: jval)

definition zero_buf :: cond_buf where
  "zero_buf = Buf '''' [] 0 '''' JNull"

definition deref :: "cond_buf \<Rightarrow> cond_buf" where
  "deref b = (case b of BNil \<Rightarrow> zero_buf | _ \<Rightarrow> b)"

fun decode_string :: "jval \<Rightarrow> string \<Rightarrow> string option" where
  "decode_string (JStr s) old = Some s"
| "decode_string JNull old = Some old"
| "decode_string _ old = None"

fun decode_cond :: "jval \<Rightarrow> cond_buf \<Rightarrow> cond_buf option"
  and decode_members :: "(string \<times> jval) list \<Rightarrow> cond_buf \<Rightarrow> cond_buf option"
  and decode_elems :: "jval list \<Rightarrow> cond_buf list \<Rightarrow> cond_buf list option" where
  "decode_cond (JObj kvs) b = decode_members kvs b"
| "decode_cond JNull b = Some b"
| "decode_cond _ b = None"
| "decode_members [] b = Some b"
| "decode_members (kv # kvs) b =
     (case (if names_field (fst kv) ''op'' then
              map_option (\<lambda>s. Buf s (b_backing b) (b_len b) (b_field b) (b_value b))
                (decode_string (snd kv) (b_op b))
            else if names_field (fst kv) ''field'' then
              map_option (\<lambda>s. Buf (b_op b) (b_backing b) (b_len b) s (b_value b))
                (decode_string (snd kv) (b_field b))
            else if names_field (fst kv) ''value'' then
              map_option (\<lambda>w. Buf (b_op b) (b_backing b) (b_len b) (b_field b) w) (any_of (snd kv))
            else if names_field (fst kv) ''children'' then
              (case snd kv of
                 JNull \<Rightarrow> Some (Buf (b_op b) [] 0 (b_field b) (b_value b))
               | JArr vs \<Rightarrow>
                   map_option (\<lambda>bs. Buf (b_op b) bs (length vs) (b_field b) (b_value b))
                     (if vs = [] then Some [] else decode_elems vs (b_backing b))
               | _ \<Rightarrow> None)
            else Some b) of
        None \<Rightarrow> None
      | Some b' \<Rightarrow> decode_members kvs b')"
| "decode_elems [] bs = Some bs"
| "decode_elems (v # vs) bs =
     (case (if v = JNull then Some BNil
            else decode_cond v (case bs of [] \<Rightarrow> zero_buf | b # _ \<Rightarrow> deref b)) of
        None \<Rightarrow> None
      | Some b' \<Rightarrow> map_option ((#) b') (decode_elems vs (case bs of [] \<Rightarrow> [] | _ # bs' \<Rightarrow> bs')))"

fun live :: "cond_buf \<Rightarrow> condition" where
  "live BNil = CNil"
| "live (Buf op bs n field v) = Cond op (take n (map live bs)) field v"

definition unmarshal_condition :: "string \<Rightarrow> condition option" where
  "unmarshal_condition raw =
     (case parse_json raw of
        None \<Rightarrow> None
      | Some j \<Rightarrow> map_option live (decode_cond j zero_buf))"

definition parseCondition :: "string \<Rightarrow> (cond_error, condition) res" where
  "parseCondition raw =
     (case unmarshal_condition raw of
        None \<Rightarrow> Inl ErrInvalidPolicy
      | Some c \<Rightarrow> (case validate c of Some e \<Rightarrow> Inl e | None \<Rightarrow> Inr c))"

definition ValidateCondition :: "string \<Rightarrow> cond_error option" where
  "ValidateCondition raw = (case parseCondition raw of Inl e \<Rightarrow> Some e | Inr _ \<Rightarrow> None)"

section \<open>The grammar the validation accepts\<close>

text \<open>
  The canonical grammar, stated on its own: logical nodes have no field and no value, \<^verbatim>\<open>NOT\<close> has
  one child and the others at least one, all children are canonical; leaves have an identifier
  as field and a value of the operator's shape.
\<close>

definition leaf_shape :: "string \<Rightarrow> jval \<Rightarrow> bool" where
  "leaf_shape op v \<longleftrightarrow>
     (if op \<in> {OpIsNull, OpIsNotNull} then v = JNull
      else if op \<in> {OpIN, OpNotIn} then \<exists>a arr. v = JArr (a # arr)
      else if op = OpBetween then \<exists>lo hi. v = JArr [lo, hi]
      else v \<noteq> JNull \<and> (\<forall>arr. v \<noteq> JArr arr))"

inductive canonical :: "condition \<Rightarrow> bool" where
  canonical_logic:
    "op \<in> {OpAnd, OpOr} \<Longrightarrow> cs \<noteq> [] \<Longrightarrow> list_all canonical cs \<Longrightarrow> canonical (Cond op cs '''' JNull)"
| canonical_not: "canonical c \<Longrightarrow> canonical (Cond OpNot [c] '''' JNull)"
| canonical_leaf:
    "isLeafOp op \<Longrightarrow> fieldNameRe f \<Longrightarrow> leaf_shape op v \<Longrightarrow> canonical (Cond op cs f v)"
monos list.pred_mono

inductive_cases canonical_CNil [elim!]: "canonical CNil"
inductive_cases canonical_Cond [elim]: "canonical (Cond op cs f v)"

lemma leaf_not_logical: "isLeafOp op \<Longrightarrow> \<not> isLogicalOp op"
  by (auto simp: isLeafOp_def isLogicalOp_def op_defs)

lemma validateLeaf_iff: "isLeafOp op \<Longrightarrow> validateLeaf op f v = None \<longleftrightarrow> fieldNameRe f \<and> leaf_shape op v"
  by (auto simp: validateLeaf_def leaf_shape_def is_array_def neq_Nil_conv op_defs length_Suc_conv numeral_2_eq_2
      split: jval.splits if_splits)

lemma validate_children_iff: "validate_children cs = None \<longleftrightarrow> (\<forall>c \<in> set cs. validate c = None)"
  by (induction cs) (auto split: option.splits)

lemma validate_canonical: "validate c = None \<Longrightarrow> canonical c"
proof (induction c)
  case CNil
  then show ?case by simp
next
  case (Cond op cs f v)
  show ?case
  proof (cases "isLogicalOp op")
    case True
    then have c: "f = ''''" "v = JNull" "\<forall>c \<in> set cs. canonical c"
      and len: "op = OpNot \<Longrightarrow> length cs = 1" "op \<noteq> OpNot \<Longrightarrow> cs \<noteq> []"
      using Cond.prems Cond.IH by (auto simp: validate_children_iff split: if_splits)
    show ?thesis
    proof (cases "op = OpNot")
      case True
      with len(1) obtain c where "cs = [c]" by (auto simp: length_Suc_conv)
      with True c show ?thesis by (auto intro: canonical_not)
    next
      case False
      then have "op \<in> {OpAnd, OpOr}" using \<open>isLogicalOp op\<close> by (simp add: isLogicalOp_def)
      then have "canonical (Cond op cs '''' JNull)"
        by (rule canonical_logic) (use len(2) False c(3) in \<open>simp_all add: list_all_iff\<close>)
      with c show ?thesis by simp
    qed
  next
    case False
    with Cond.prems show ?thesis
      by (auto split: if_splits simp: validateLeaf_iff intro!: canonical_leaf)
  qed
qed

lemma canonical_validate: "canonical c \<Longrightarrow> validate c = None"
proof (induction rule: canonical.induct)
  case (canonical_logic op cs)
  then have "validate_children cs = None" by (simp add: validate_children_iff list_all_iff)
  with canonical_logic show ?case by (auto simp: isLogicalOp_def op_defs)
next
  case (canonical_not c)
  then show ?case by (simp add: isLogicalOp_def)
next
  case (canonical_leaf op f v cs)
  then show ?case by (simp add: leaf_not_logical validateLeaf_iff)
qed

lemma parseCondition_canonical: "parseCondition raw = Inr c \<Longrightarrow> canonical c"
  by (auto simp: parseCondition_def intro: validate_canonical split: option.splits)

text \<open>Where the validation can panic: a tree with a nil child below nodes that are valid so far.\<close>

fun nil_free :: "condition \<Rightarrow> bool" where
  "nil_free CNil = False"
| "nil_free (Cond op cs f v) \<longleftrightarrow> list_all nil_free cs"

lemma validateLeaf_no_panic: "validateLeaf op f v \<noteq> Some NilDereference"
  by (simp add: validateLeaf_def split: jval.split)

lemma nil_free_no_panic: "nil_free c \<Longrightarrow> validate c \<noteq> Some NilDereference"
  "list_all nil_free cs \<Longrightarrow> validate_children cs \<noteq> Some NilDereference"
  by (induction c and cs rule: validate_validate_children.induct) (auto simp: validateLeaf_no_panic split: option.splits)

text \<open>
  C6. Parsing a condition accepts exactly the texts that decode to a tree of the canonical
  grammar, and gives that tree; every other text is rejected with an error value, the panic
  included, and a text that decodes to a tree without nil children never panics.
\<close>

theorem parse_accepts_grammar:
  "(parseCondition raw = Inr c \<longleftrightarrow> unmarshal_condition raw = Some c \<and> canonical c) \<and>
   (ValidateCondition raw = None \<longleftrightarrow> (\<exists>c. unmarshal_condition raw = Some c \<and> canonical c)) \<and>
   \<not> (ValidateCondition raw = Some NilDereference \<and>
      (case unmarshal_condition raw of None \<Rightarrow> True | Some c \<Rightarrow> nil_free c))"
proof -
  have valid: "validate c = None \<longleftrightarrow> canonical c" for c
    using validate_canonical canonical_validate by blast
  show ?thesis
    using nil_free_no_panic(1)
    by (auto dest: canonical_validate simp: parseCondition_def ValidateCondition_def valid split: option.splits sum.splits)
qed

definition null_child_text :: string where
  "null_child_text =
     ''{'' @ [CHR 0x22] @ ''op'' @ [CHR 0x22] @ '':'' @ [CHR 0x22] @ ''AND'' @ [CHR 0x22] @ '','' @
     [CHR 0x22] @ ''children'' @ [CHR 0x22] @ '':[null]}''"

text \<open>
  The validation dereferences the nil pointer that a JSON \<^verbatim>\<open>null\<close> child decodes to: the
  text of an \<^verbatim>\<open>AND\<close> node whose only child is \<^verbatim>\<open>null\<close> is well-formed JSON of the right types, and
  validating it panics instead of returning \<^const>\<open>ErrInvalidPolicy\<close>.
\<close>

theorem null_child_panics:
  "unmarshal_condition null_child_text = Some (Cond ''AND'' [CNil] '''' JNull) \<and>
   ValidateCondition null_child_text = Some NilDereference"
  by (intro conjI; code_simp)

end
