(* ===== verification/Table.thy ===== *)
theory Table
  imports Kernel Condition
begin

text \<open>
  The data-policy table of a sidecar (\<^verbatim>\<open>internal/sidecar/dataperm/table.go\<close>): policies parsed
  once and kept per resource, a policy whose effect or condition is invalid kept as poisoned.
  The table is the kernel's data-policy applier. Where parsing panics the operations give
  \<^const>\<open>None\<close>: nothing recovers the panic, so the process is gone.

  The locale \<open>data_applier\<close> is the kernel's side of the interface. The kernel's lemmas about
  the policies it routes are proved from its two laws, and the table meets them.
\<close>

section \<open>The program\<close>

definition SubjectUser :: string where "SubjectUser = ''user''"
definition SubjectRole :: string where "SubjectRole = ''role''"

record stored =
  st_id :: uint64
  st_subjectType :: string
  st_subjectID :: string
  st_effect :: string
  st_cond :: condition
  st_parseErr :: "cond_error option"

type_synonym table = "string \<rightharpoonup> stored list"

definition NewTable :: table where
  "NewTable = Map.empty"

definition normalizeEffect :: "string \<Rightarrow> string \<times> bool" where
  "normalizeEffect e =
     (if e = '''' \<or> e = EffectAllow then (EffectAllow, True)
      else if e = EffectDeny then (EffectDeny, True)
      else ('''', False))"

definition toStored :: "kdata_policy \<Rightarrow> stored option" where
  "toStored p =
     (let s = \<lparr>st_id = kdp_ID p, st_subjectType = kdp_SubjectType p, st_subjectID = kdp_SubjectID p,
               st_effect = '''', st_cond = CNil, st_parseErr = None\<rparr>
      in case normalizeEffect (kdp_Effect p) of
           (_, False) \<Rightarrow> Some (s\<lparr>st_parseErr := Some ErrInvalidPolicy\<rparr>)
         | (eff, True) \<Rightarrow>
             (case parseCondition (kdp_Condition p) of
                Inl NilDereference \<Rightarrow> None
              | Inl err \<Rightarrow> Some (s\<lparr>st_effect := eff, st_parseErr := Some err\<rparr>)
              | Inr cond \<Rightarrow> Some (s\<lparr>st_effect := eff, st_cond := cond\<rparr>)))"

text \<open>\<^verbatim>\<open>m[k] = append(m[k], x)\<close>, a missing key reading as the nil slice.\<close>

definition bucket :: "table \<Rightarrow> string \<Rightarrow> stored list" where
  "bucket t res = (case t res of None \<Rightarrow> [] | Some b \<Rightarrow> b)"

definition append_stored :: "kdata_policy \<Rightarrow> table \<Rightarrow> table option" where
  "append_stored p t =
     (case toStored p of
        None \<Rightarrow> None
      | Some s \<Rightarrow> Some (t(kdp_Resource p \<mapsto> bucket t (kdp_Resource p) @ [s])))"

fun append_all :: "kdata_policy list \<Rightarrow> table \<Rightarrow> table option" where
  "append_all [] t = Some t"
| "append_all (p # ps) t =
     (case append_stored p t of None \<Rightarrow> None | Some t' \<Rightarrow> append_all ps t')"

definition Table_ApplySnapshot :: "kdata_policy list \<Rightarrow> table \<Rightarrow> table option" where
  "Table_ApplySnapshot policies t = append_all policies Map.empty"

definition removeLocked :: "string \<Rightarrow> uint64 \<Rightarrow> table \<Rightarrow> table" where
  "removeLocked resource i t =
     (let b = remove_first (\<lambda>s. st_id s = i) (bucket t resource)
      in if b = [] then t(resource := None) else t(resource \<mapsto> b))"

definition Table_ApplyChange :: "change_op \<Rightarrow> kdata_policy \<Rightarrow> table \<Rightarrow> table option" where
  "Table_ApplyChange op p t =
     (case op of
        ChangeAdd \<Rightarrow> append_stored p t
      | ChangeRemove \<Rightarrow> Some (removeLocked (kdp_Resource p) (kdp_ID p) t)
      | ChangeUpdate \<Rightarrow> append_stored p (removeLocked (kdp_Resource p) (kdp_ID p) t))"

definition Lookup :: "table \<Rightarrow> string \<Rightarrow> stored list \<times> bool" where
  "Lookup t resource = (case t resource of None \<Rightarrow> ([], False) | Some b \<Rightarrow> (b, True))"

text \<open>The table as the kernel's applier, on a process that may have panicked.\<close>

definition tableApplier :: "table option applier" where
  "tableApplier =
     \<lparr>ap_ApplySnapshot = (\<lambda>ps t. case t of None \<Rightarrow> None | Some t' \<Rightarrow> Table_ApplySnapshot ps t'),
      ap_ApplyChange = (\<lambda>op p t. case t of None \<Rightarrow> None | Some t' \<Rightarrow> Table_ApplyChange op p t')\<rparr>"

section \<open>The policies a table stands for\<close>

text \<open>
  The abstract view: the policies in the order they arrived. An update or a removal takes out
  the first policy with the change's resource and identifier.
\<close>

fun change_policies :: "change_op \<Rightarrow> kdata_policy \<Rightarrow> kdata_policy list \<Rightarrow> kdata_policy list" where
  "change_policies ChangeAdd p ps = ps @ [p]"
| "change_policies ChangeRemove p ps =
     remove_first (\<lambda>q. kdp_Resource q = kdp_Resource p \<and> kdp_ID q = kdp_ID p) ps"
| "change_policies ChangeUpdate p ps =
     remove_first (\<lambda>q. kdp_Resource q = kdp_Resource p \<and> kdp_ID q = kdp_ID p) ps @ [p]"

definition parses :: "kdata_policy \<Rightarrow> bool" where
  "parses p \<longleftrightarrow> toStored p \<noteq> None"

definition policies_for :: "string \<Rightarrow> kdata_policy list \<Rightarrow> kdata_policy list" where
  "policies_for res ps = filter (\<lambda>p. kdp_Resource p = res) ps"

definition holds_policies :: "table \<Rightarrow> kdata_policy list \<Rightarrow> bool" where
  "holds_policies t ps \<longleftrightarrow>
     list_all parses ps \<and>
     (\<forall>res. t res = (if policies_for res ps = [] then None
                     else Some (map (the \<circ> toStored) (policies_for res ps))))"

definition no_empty_bucket :: "table \<Rightarrow> bool" where
  "no_empty_bucket t \<longleftrightarrow> (\<forall>res. t res \<noteq> Some [])"

lemma holds_no_empty_bucket: "holds_policies t ps \<Longrightarrow> no_empty_bucket t"
  by (auto simp: holds_policies_def no_empty_bucket_def split: if_splits)

lemma holds_bucket:
  "holds_policies t ps \<Longrightarrow> bucket t res = map (the \<circ> toStored) (policies_for res ps)"
  by (auto simp: holds_policies_def bucket_def)

lemma toStored_id: "toStored p = Some s \<Longrightarrow> st_id s = kdp_ID p"
  by (auto simp: toStored_def Let_def split: prod.splits bool.splits sum.splits cond_error.splits)

lemma parses_id: "parses p \<Longrightarrow> st_id (the (toStored p)) = kdp_ID p"
  by (auto simp: parses_def dest: toStored_id)

lemma holds_append:
  assumes "holds_policies t ps" "parses p"
  shows "\<exists>t'. append_stored p t = Some t' \<and> holds_policies t' (ps @ [p])"
proof -
  obtain s where s: "toStored p = Some s" using assms(2) by (auto simp: parses_def)
  have "holds_policies (t(kdp_Resource p \<mapsto> bucket t (kdp_Resource p) @ [s])) (ps @ [p])"
    using assms s holds_bucket [OF assms(1), of "kdp_Resource p"]
    by (auto simp: holds_policies_def policies_for_def)
  with s show ?thesis by (simp add: append_stored_def)
qed

lemma holds_append_all:
  assumes "holds_policies t ps" "list_all parses qs"
  shows "\<exists>t'. append_all qs t = Some t' \<and> holds_policies t' (ps @ qs)"
  using assms
proof (induction qs arbitrary: t ps)
  case Nil
  then show ?case by simp
next
  case (Cons q qs)
  then obtain t1 where "append_stored q t = Some t1" "holds_policies t1 (ps @ [q])"
    using holds_append [of t ps q] by auto
  with Cons.IH [of t1 "ps @ [q]"] Cons.prems show ?case by simp
qed

lemma remove_first_for:
  "policies_for res (remove_first (\<lambda>q. kdp_Resource q = r \<and> kdp_ID q = i) ps) =
   (if res = r then remove_first (\<lambda>q. kdp_ID q = i) (policies_for res ps) else policies_for res ps)"
  by (induction ps) (auto simp: policies_for_def)

lemma holds_remove:
  assumes "holds_policies t ps"
  shows "holds_policies (removeLocked r i t)
    (remove_first (\<lambda>q. kdp_Resource q = r \<and> kdp_ID q = i) ps)"
proof -
  let ?ps = "policies_for r ps"
  have ok: "list_all parses ps" using assms by (simp add: holds_policies_def)
  have "remove_first (\<lambda>s. st_id s = i) (bucket t r) =
      map (the \<circ> toStored) (remove_first (\<lambda>q. st_id (the (toStored q)) = i) ?ps)"
    by (simp add: holds_bucket [OF assms] remove_first_map comp_def)
  also have "remove_first (\<lambda>q. st_id (the (toStored q)) = i) ?ps = remove_first (\<lambda>q. kdp_ID q = i) ?ps"
    by (rule remove_first_cong)
      (use ok in \<open>auto simp: policies_for_def list_all_iff parses_id\<close>)
  finally have "remove_first (\<lambda>s. st_id s = i) (bucket t r) =
      map (the \<circ> toStored) (remove_first (\<lambda>q. kdp_ID q = i) ?ps)" .
  moreover have "list_all parses (remove_first (\<lambda>q. kdp_Resource q = r \<and> kdp_ID q = i) ps)"
    using ok set_remove_first_subset [of _ ps] by (auto simp: list_all_iff)
  ultimately show ?thesis
    using assms by (auto simp: holds_policies_def removeLocked_def Let_def remove_first_for)
qed

section \<open>The kernel over a lawful applier\<close>

text \<open>The data policies a kernel has accepted, beside the rules of theory \<open>Kernel\<close>.\<close>

fun cmd_policies :: "kcmd \<Rightarrow> kdata_policy list" where
  "cmd_policies (KSnapshot s) = s_DataPolicies s"
| "cmd_policies (KDelta d) = map kdc_Policy (kd_DataChanges d)"
| "cmd_policies (KEnforce sub dm obj act) = []"

fun accepted_data ::
    "'ce casbin \<Rightarrow> 't applier \<Rightarrow> ('ce, 't) engine \<Rightarrow> kdata_policy list \<Rightarrow> kcmd list \<Rightarrow> kdata_policy list" where
  "accepted_data C A e ps [] = ps"
| "accepted_data C A e ps (KSnapshot s # cs) =
     accepted_data C A (snd (Engine_ApplySnapshot C A s e))
       (if fst (Engine_ApplySnapshot C A s e) = None then s_DataPolicies s else ps) cs"
| "accepted_data C A e ps (KDelta d # cs) =
     accepted_data C A (snd (Engine_ApplyDelta C A d e))
       (if fst (Engine_ApplyDelta C A d e) = None
        then fold (\<lambda>dc. change_policies (kdc_Op dc) (kdc_Policy dc)) (kd_DataChanges d) ps else ps) cs"
| "accepted_data C A e ps (KEnforce sub dm obj act # cs) =
     accepted_data C A (snd (Engine_Enforce C e sub dm obj act)) ps cs"

locale data_applier =
  fixes A :: "'t applier"
    and holds :: "'t \<Rightarrow> kdata_policy list \<Rightarrow> bool"
    and readable :: "kdata_policy \<Rightarrow> bool"
    and alive :: "'t \<Rightarrow> bool"
  assumes snapshot_holds: "alive t \<Longrightarrow> list_all readable ps \<Longrightarrow> holds (ap_ApplySnapshot A ps t) ps"
    and change_holds:
      "holds t ps \<Longrightarrow> readable p \<Longrightarrow> holds (ap_ApplyChange A op p t) (change_policies op p ps)"
    and holds_alive: "holds t ps \<Longrightarrow> alive t"
    and change_alive: "alive t \<Longrightarrow> readable p \<Longrightarrow> alive (ap_ApplyChange A op p t)"
begin

lemma changes_hold:
  "holds t ps \<Longrightarrow> list_all readable (map kdc_Policy dcs) \<Longrightarrow>
   holds (fold (\<lambda>dc. ap_ApplyChange A (kdc_Op dc) (kdc_Policy dc)) dcs t)
     (fold (\<lambda>dc. change_policies (kdc_Op dc) (kdc_Policy dc)) dcs ps)"
  by (induction dcs arbitrary: t ps) (auto intro: change_holds)

lemma changes_alive:
  "alive t \<Longrightarrow> list_all readable (map kdc_Policy dcs) \<Longrightarrow>
   alive (fold (\<lambda>dc. ap_ApplyChange A (kdc_Op dc) (kdc_Policy dc)) dcs t)"
  by (induction dcs arbitrary: t) (auto intro: change_alive)

lemma snapshot_alive:
  "alive t \<Longrightarrow> list_all readable ps \<Longrightarrow> alive (ap_ApplySnapshot A ps t)"
  using snapshot_holds holds_alive by blast

definition data_inv :: "('ce, 't) engine \<Rightarrow> kdata_policy list \<Rightarrow> bool" where
  "data_inv e ps \<longleftrightarrow> alive (e_applier e) \<and> (e_ready e \<longrightarrow> holds (e_applier e) ps)"

lemma data_inv_snapshot:
  assumes "data_inv e ps" "list_all readable (s_DataPolicies s)"
  shows "data_inv (snd (Engine_ApplySnapshot C A s e))
    (if fst (Engine_ApplySnapshot C A s e) = None then s_DataPolicies s else ps)"
  by (cases rule: ApplySnapshot_cases [of s e C A])
    (use assms in \<open>auto simp: data_inv_def snapshot_holds snapshot_alive\<close>)

lemma data_inv_delta:
  assumes "data_inv e ps" "list_all readable (map kdc_Policy (kd_DataChanges d))"
  shows "data_inv (snd (Engine_ApplyDelta C A d e))
    (if fst (Engine_ApplyDelta C A d e) = None
     then fold (\<lambda>dc. change_policies (kdc_Op dc) (kdc_Policy dc)) (kd_DataChanges d) ps else ps)"
  by (cases rule: ApplyDelta_cases [of d e C A])
    (use assms in \<open>auto simp: data_inv_def changes_hold changes_alive\<close>)

lemma data_inv_enforce:
  "data_inv e ps \<Longrightarrow> data_inv (snd (Engine_Enforce C e sub dm obj act)) ps"
  by (auto simp: data_inv_def Engine_Enforce_def split: prod.splits sum.splits)

lemma data_inv_run:
  assumes "data_inv e ps" "\<forall>c \<in> set cs. list_all readable (cmd_policies c)"
  shows "data_inv (kernel_run C A e cs) (accepted_data C A e ps cs)"
  using assms
proof (induction cs arbitrary: e ps)
  case Nil
  then show ?case by (simp add: kernel_run_def)
next
  case (Cons c cs)
  have "data_inv (kernel_run C A (kernel_step C A e c) cs) (accepted_data C A e ps (c # cs))"
    using Cons.prems
    by (cases c) (simp_all add: Cons.IH data_inv_snapshot data_inv_delta data_inv_enforce)
  then show ?case by (simp add: kernel_run_def)
qed

end

interpretation table: data_applier tableApplier
  "\<lambda>t ps. \<exists>t'. t = Some t' \<and> holds_policies t' ps" parses "\<lambda>t. t \<noteq> None"
proof
  fix t :: "table option" and ps assume "t \<noteq> None" "list_all parses ps"
  moreover have "holds_policies Map.empty []" by (simp add: holds_policies_def policies_for_def)
  ultimately show "\<exists>t'. ap_ApplySnapshot tableApplier ps t = Some t' \<and> holds_policies t' ps"
    using holds_append_all [of Map.empty "[]" ps] by (auto simp: tableApplier_def Table_ApplySnapshot_def)
next
  fix t ps p op assume "\<exists>t'. t = Some t' \<and> holds_policies t' ps" "parses p"
  then show "\<exists>t'. ap_ApplyChange tableApplier op p t = Some t' \<and> holds_policies t' (change_policies op p ps)"
    using holds_append [of _ _ p] holds_remove
    by (cases op) (auto simp: tableApplier_def Table_ApplyChange_def)
next
  fix t ps assume "\<exists>t'. t = Some t' \<and> holds_policies t' ps"
  then show "t \<noteq> None" by auto
next
  fix t :: "table option" and p op assume "t \<noteq> None" "parses p"
  then show "ap_ApplyChange tableApplier op p t \<noteq> None"
    by (cases op) (auto simp: tableApplier_def Table_ApplyChange_def append_stored_def parses_def)
qed

text \<open>A small policy set used by the witnesses: clerks see the orders whose department is set.\<close>

definition dept_text :: string where
  "dept_text =
     ''{'' @ [CHR 0x22] @ ''op'' @ [CHR 0x22] @ '':'' @ [CHR 0x22] @ ''IS_NOT_NULL'' @ [CHR 0x22] @ '','' @
     [CHR 0x22] @ ''field'' @ [CHR 0x22] @ '':'' @ [CHR 0x22] @ ''dept'' @ [CHR 0x22] @ ''}''"

definition demo_policy :: kdata_policy where
  "demo_policy =
     \<lparr>kdp_ID = 1, kdp_SubjectType = ''role'', kdp_SubjectID = ''clerk'', kdp_Resource = ''order'',
      kdp_Condition = dept_text, kdp_Effect = ''allow''\<rparr>"

definition demo_data_cmds :: "kcmd list" where
  "demo_data_cmds =
     [KSnapshot \<lparr>s_Version = 7, s_Rules = [g_row ''bob'' ''clerk'' ''shop''], s_DataPolicies = [demo_policy]\<rparr>,
      KDelta \<lparr>kd_Version = 8, kd_PolicyChanges = [],
        kd_DataChanges = [\<lparr>kdc_Op = ChangeUpdate, kdc_Policy = demo_policy\<lparr>kdp_Effect := ''deny''\<rparr>\<rparr>]\<rparr>]"

lemma toStored_demo:
  "toStored (demo_policy\<lparr>kdp_Effect := eff\<rparr>) =
     Some \<lparr>st_id = 1, st_subjectType = ''role'', st_subjectID = ''clerk'',
           st_effect = fst (normalizeEffect eff),
           st_cond = (if snd (normalizeEffect eff) then Cond ''IS_NOT_NULL'' [] ''dept'' JNull else CNil),
           st_parseErr = (if snd (normalizeEffect eff) then None else Some ErrInvalidPolicy)\<rparr>"
proof -
  have "parseCondition dept_text = Inr (Cond ''IS_NOT_NULL'' [] ''dept'' JNull)" by code_simp
  then show ?thesis
    by (auto simp: toStored_def demo_policy_def normalizeEffect_def EffectAllow_def EffectDeny_def Let_def)
qed

lemma demo_parses: "parses (demo_policy\<lparr>kdp_Effect := eff\<rparr>)" "parses demo_policy"
proof -
  show "parses (demo_policy\<lparr>kdp_Effect := eff\<rparr>)" for eff by (simp add: parses_def toStored_demo)
  from this [of "kdp_Effect demo_policy"] show "parses demo_policy" by simp
qed

text \<open>
  C8. Run a new kernel with the table as its applier through any snapshots, deltas and
  requests whose policies can be parsed without a panic. If the kernel is ready at the end,
  the table holds for every resource exactly the accepted policies of that resource, in the
  order of their arrival, and a resource is configured if and only if it has a policy.
\<close>

theorem table_holds_accepted_policies:
  assumes "\<forall>c \<in> set cs. list_all parses (cmd_policies c)"
    and "e_ready (kernel_run C tableApplier (kernel_New d ce (Some NewTable)) cs)"
  shows "\<exists>t. e_applier (kernel_run C tableApplier (kernel_New d ce (Some NewTable)) cs) = Some t \<and>
    Lookup t res =
      (map (the \<circ> toStored)
         (policies_for res (accepted_data C tableApplier (kernel_New d ce (Some NewTable)) [] cs)),
       policies_for res (accepted_data C tableApplier (kernel_New d ce (Some NewTable)) [] cs) \<noteq> [])"
proof -
  have "table.data_inv (kernel_New d ce (Some NewTable)) []"
    unfolding table.data_inv_def kernel_New_def by simp
  from table.data_inv_run [OF this assms(1), of C] assms(2)
  show ?thesis unfolding table.data_inv_def by (auto simp: holds_policies_def Lookup_def)
qed

theorem table_holds_accepted_policies_witness:
  "\<exists>t. e_applier (kernel_run (ref_casbin 10) tableApplier
       (kernel_New ''shop'' \<lparr>rc_pol = [], rc_grp = []\<rparr> (Some NewTable)) demo_data_cmds) = Some t \<and>
     map st_effect (fst (Lookup t ''order'')) = [''deny''] \<and> snd (Lookup t ''user'') = False"
proof -
  let ?e = "kernel_New ''shop'' \<lparr>rc_pol = [], rc_grp = []\<rparr> (Some NewTable)"
  have ok: "\<forall>c \<in> set demo_data_cmds. list_all parses (cmd_policies c)"
    by (simp add: demo_data_cmds_def demo_parses)
  have ready: "e_ready (kernel_run (ref_casbin 10) tableApplier ?e demo_data_cmds)"
    by (simp add: demo_data_cmds_def kernel_run_def kernel_New_def Engine_ApplySnapshot_def ref_casbin_def
        Engine_ApplyDelta_def g_row_def domainValue_def)
  have acc: "accepted_data (ref_casbin 10) tableApplier ?e [] demo_data_cmds = [demo_policy\<lparr>kdp_Effect := ''deny''\<rparr>]"
    by (simp add: demo_data_cmds_def kernel_run_def kernel_New_def Engine_ApplySnapshot_def ref_casbin_def
        Engine_ApplyDelta_def g_row_def domainValue_def demo_policy_def)
  have res: "kdp_Resource demo_policy = ''order''" by (simp add: demo_policy_def)
  show ?thesis
    using table_holds_accepted_policies [OF ok ready, of "''order''"]
      table_holds_accepted_policies [OF ok ready, of "''user''"]
    by (auto simp: acc policies_for_def toStored_demo normalizeEffect_def EffectAllow_def EffectDeny_def res)
qed

text \<open>
  An incremental removal looks in the bucket of the resource the change names. A removal
  that carries the identifier only, with an empty resource, as the control plane's delete
  operations send it, leaves every policy of every named resource in force.
\<close>

theorem removal_without_resource_is_lost:
  assumes "res \<noteq> ''''"
  shows "\<exists>t'. Table_ApplyChange ChangeRemove (zero_kdata_policy\<lparr>kdp_ID := i\<rparr>) t = Some t' \<and>
    Lookup t' res = Lookup t res"
  using assms by (simp add: Table_ApplyChange_def zero_kdata_policy_def removeLocked_def Lookup_def Let_def)

theorem removal_without_resource_is_lost_witness:
  "\<exists>t'. Table_ApplyChange ChangeRemove (zero_kdata_policy\<lparr>kdp_ID := 1\<rparr>)
      [''order'' \<mapsto> [the (toStored demo_policy)]] = Some t' \<and>
    Lookup t' ''order'' = ([the (toStored demo_policy)], True)"
  using removal_without_resource_is_lost [of "''order''" 1 "[''order'' \<mapsto> [the (toStored demo_policy)]]"]
  by (simp add: Lookup_def)

end
