(* ===== verification/Sync_Client.thy ===== *)
theory Sync_Client
  imports Table
begin

text \<open>
  The subscription client of a sidecar (\<^verbatim>\<open>internal/sidecar/syncclient\<close>): it pulls a snapshot,
  subscribes, and keeps the kernel aligned with the control plane through deltas, heartbeats
  and fresh snapshots. What the network answers is an argument: every call that may pull a
  snapshot takes the answer it would get, every call that reads the clock takes the time. A
  connection is the list of what its stream delivers, and the reconnect loop runs over a list
  of connections.

  The lemmas show that a client fed with true messages holds, whenever its kernel is ready,
  exactly the rules of the committed version it reports, that a handled event never leaves it
  behind the event, and that the retry delays stay within their bounds.
\<close>

section \<open>Retry delays\<close>

text \<open>Durations are nanoseconds in 64 bits; the doubling is written with its wrap-around.\<close>

record backoff =
  bo_initial :: int
  bo_max :: int
  bo_attempt :: nat

definition defaultBackoffInitial :: int where
  "defaultBackoffInitial = 500 * 1000000"

definition defaultBackoffMax :: int where
  "defaultBackoffMax = 30 * 1000000000"

definition newBackoff :: "int \<Rightarrow> int \<Rightarrow> backoff" where
  "newBackoff initial mx =
     (let i1 = (if initial \<le> 0 then defaultBackoffInitial else initial);
          m1 = (if mx \<le> 0 then defaultBackoffMax else mx);
          i2 = (if i1 > m1 then m1 else i1)
      in \<lparr>bo_initial = i2, bo_max = m1, bo_attempt = 0\<rparr>)"

fun cap_loop :: "int \<Rightarrow> nat \<Rightarrow> int \<Rightarrow> int" where
  "cap_loop mx 0 capped = (if capped > mx then mx else capped)"
| "cap_loop mx (Suc n) capped =
     (if capped \<ge> mx div 2 then mx else cap_loop mx n (wrap64 (capped * 2)))"

definition capFor :: "backoff \<Rightarrow> nat \<Rightarrow> int" where
  "capFor b attempt = cap_loop (bo_max b) attempt (bo_initial b)"

text \<open>\<open>rng n\<close> stands for \<^verbatim>\<open>rand.Int63n(n)\<close>.\<close>

definition backoff_next :: "(int \<Rightarrow> int) \<Rightarrow> backoff \<Rightarrow> int \<times> backoff" where
  "backoff_next rng b =
     (let c = capFor b (bo_attempt b);
          b' = b\<lparr>bo_attempt := Suc (bo_attempt b)\<rparr>
      in if c \<le> 0 then (0, b') else (rng c, b'))"

definition backoff_reset :: "backoff \<Rightarrow> backoff" where
  "backoff_reset b = b\<lparr>bo_attempt := 0\<rparr>"

section \<open>The client\<close>

datatype sync_error = NetError | TranslateError translate_error | EngineError kernel_error

datatype sync_event =
    EvDelta proto_delta
  | EvHeartbeat uint64
  | EvSnapshotRequired
  | EvUnknown

type_synonym pulled = "(unit, proto_snapshot) res"

text \<open>\<open>sc_applied\<close> counts the calls of the \<^verbatim>\<open>OnSnapshotApplied\<close> hook.\<close>

record ('ce, 't) sync_client =
  sc_engine :: "('ce, 't) engine"
  sc_lastSyncAt :: int
  sc_connected :: bool
  sc_applied :: nat

definition markSync :: "int \<Rightarrow> ('ce, 't) sync_client \<Rightarrow> ('ce, 't) sync_client" where
  "markSync now c = c\<lparr>sc_lastSyncAt := now\<rparr>"

definition resync ::
    "'ce casbin \<Rightarrow> 't applier \<Rightarrow> pulled \<Rightarrow> int \<Rightarrow> ('ce, 't) sync_client \<Rightarrow>
     sync_error option \<times> ('ce, 't) sync_client" where
  "resync C A pull now c =
     (case pull of
        Inl _ \<Rightarrow> (Some NetError, c)
      | Inr snap \<Rightarrow>
          (case snapshotFromProto snap of
             Inl err \<Rightarrow> (Some (TranslateError err), c)
           | Inr ks \<Rightarrow>
               (case Engine_ApplySnapshot C A ks (sc_engine c) of
                  (Some err, e) \<Rightarrow> (Some (EngineError err), c\<lparr>sc_engine := e\<rparr>)
                | (None, e) \<Rightarrow>
                    (None, markSync now (c\<lparr>sc_engine := e, sc_applied := Suc (sc_applied c)\<rparr>)))))"

definition handleDelta ::
    "'ce casbin \<Rightarrow> 't applier \<Rightarrow> pulled \<Rightarrow> int \<Rightarrow> proto_delta \<Rightarrow> ('ce, 't) sync_client \<Rightarrow>
     sync_error option \<times> ('ce, 't) sync_client" where
  "handleDelta C A pull now d c =
     (let cur = e_version (sc_engine c)
      in if pd_Version d \<le> cur then (None, markSync now c)
         else if pd_Version d = cur + 1 then
           (case deltaFromProto d of
              Inl _ \<Rightarrow> resync C A pull now c
            | Inr kd \<Rightarrow>
                (case Engine_ApplyDelta C A kd (sc_engine c) of
                   (Some ErrStaleVersion, e) \<Rightarrow> (None, markSync now (c\<lparr>sc_engine := e\<rparr>))
                 | (Some _, e) \<Rightarrow> resync C A pull now (c\<lparr>sc_engine := e\<rparr>)
                 | (None, e) \<Rightarrow> (None, markSync now (c\<lparr>sc_engine := e\<rparr>))))
         else resync C A pull now c)"

fun handleEvent ::
    "'ce casbin \<Rightarrow> 't applier \<Rightarrow> pulled \<Rightarrow> int \<Rightarrow> sync_event \<Rightarrow> ('ce, 't) sync_client \<Rightarrow>
     sync_error option \<times> ('ce, 't) sync_client" where
  "handleEvent C A pull now (EvDelta d) c = handleDelta C A pull now d c"
| "handleEvent C A pull now (EvHeartbeat cv) c =
     (if cv > e_version (sc_engine c) then resync C A pull now c else (None, markSync now c))"
| "handleEvent C A pull now EvSnapshotRequired c = resync C A pull now c"
| "handleEvent C A pull now EvUnknown c = (None, c)"

text \<open>
  What one \<^verbatim>\<open>stream.Recv\<close> gives: an event, with the answer a pull during its handling would
  get and the time, or an error, with whether the context was cancelled.
\<close>

datatype recv = RecvEvent sync_event pulled int | RecvErr bool

record connection =
  cn_pull :: pulled
  cn_now :: int
  cn_subscribe :: bool
  cn_stream :: "recv list"

text \<open>How a connection ends; \<open>Serving\<close> is a stream that is still open when its list is used up.\<close>

datatype served = Serving | Stopped | Failed sync_error

fun serve ::
    "'ce casbin \<Rightarrow> 't applier \<Rightarrow> recv list \<Rightarrow> backoff \<Rightarrow> ('ce, 't) sync_client \<Rightarrow>
     served \<times> backoff \<times> ('ce, 't) sync_client" where
  "serve C A [] bo c = (Serving, bo, c)"
| "serve C A (RecvErr cancelled # rs) bo c =
     (if cancelled then Stopped else Failed NetError, bo, c\<lparr>sc_connected := False\<rparr>)"
| "serve C A (RecvEvent ev pull now # rs) bo c =
     (case handleEvent C A pull now ev c of
        (Some err, c') \<Rightarrow> (Failed err, backoff_reset bo, c'\<lparr>sc_connected := False\<rparr>)
      | (None, c') \<Rightarrow> serve C A rs (backoff_reset bo) c')"

definition connectAndServe ::
    "'ce casbin \<Rightarrow> 't applier \<Rightarrow> connection \<Rightarrow> backoff \<Rightarrow> ('ce, 't) sync_client \<Rightarrow>
     served \<times> backoff \<times> ('ce, 't) sync_client" where
  "connectAndServe C A cn bo c =
     (case resync C A (cn_pull cn) (cn_now cn) c of
        (Some err, c') \<Rightarrow> (Failed err, bo, c')
      | (None, c') \<Rightarrow>
          if \<not> cn_subscribe cn then (Failed NetError, bo, c')
          else serve C A (cn_stream cn) bo (c'\<lparr>sc_connected := True\<rparr>))"

text \<open>
  The reconnect loop over the connections the network grants. Each is preceded by the check of
  the context and followed, if it failed, by a sleep that the context may interrupt.
\<close>

record attempt =
  at_cancelled :: bool
  at_connection :: connection
  at_slept :: bool

fun sync_Run ::
    "'ce casbin \<Rightarrow> 't applier \<Rightarrow> (int \<Rightarrow> int) \<Rightarrow> attempt list \<Rightarrow> backoff \<Rightarrow> ('ce, 't) sync_client \<Rightarrow>
     backoff \<times> ('ce, 't) sync_client" where
  "sync_Run C A rng [] bo c = (bo, c)"
| "sync_Run C A rng (a # as) bo c =
     (if at_cancelled a then (bo, c)
      else case connectAndServe C A (at_connection a) bo c of
             (Failed _, bo', c') \<Rightarrow>
               (case backoff_next rng bo' of
                  (_, bo'') \<Rightarrow> if \<not> at_slept a then (bo'', c') else sync_Run C A rng as bo'' c')
           | (_, bo', c') \<Rightarrow> (bo', c'))"

section \<open>Delays are bounded\<close>

definition backoff_ok :: "backoff \<Rightarrow> bool" where
  "backoff_ok b \<longleftrightarrow> 0 < bo_initial b \<and> bo_initial b \<le> bo_max b \<and> bo_max b < 2 ^ 63"

lemma newBackoff_ok: "mx < 2 ^ 63 \<Longrightarrow> backoff_ok (newBackoff i mx)"
  by (auto simp: backoff_ok_def newBackoff_def defaultBackoffInitial_def defaultBackoffMax_def Let_def)

lemma backoff_ok_steps [inv_intros]:
  "backoff_ok b \<Longrightarrow> backoff_ok (snd (backoff_next rng b))"
  "backoff_ok b \<Longrightarrow> backoff_ok (backoff_reset b)"
  by (simp_all add: backoff_ok_def backoff_next_def backoff_reset_def Let_def)

lemma wrap64_double: "0 < x \<Longrightarrow> x < mx div 2 \<Longrightarrow> mx < 2 ^ 63 \<Longrightarrow> wrap64 (x * 2) = x * 2"
  by (rule wrap64_id) (simp add: int64_range_def)

lemma cap_loop_bounds:
  assumes "0 < x" "x \<le> mx" "mx < 2 ^ 63"
  shows "min mx (x * 2 ^ n) \<le> cap_loop mx n x \<and> cap_loop mx n x \<le> mx \<and>
    (even mx \<longrightarrow> cap_loop mx n x = min mx (x * 2 ^ n))"
  using assms
proof (induction n arbitrary: x)
  case 0
  then show ?case by simp
next
  case (Suc n)
  show ?case
  proof (cases "x \<ge> mx div 2")
    case True
    have "mx \<le> x * 2 ^ Suc n" if "even mx"
    proof -
      have "mx = mx div 2 * 2" using that by simp
      also have "\<dots> \<le> x * 2 ^ Suc n" using True Suc.prems by (simp add: mult_mono)
      finally show ?thesis .
    qed
    with True show ?thesis by auto
  next
    case False
    with Suc.prems wrap64_double [of x mx] have w: "wrap64 (x * 2) = x * 2" by simp
    from False have "x * 2 \<le> mx" by linarith
    with Suc.IH [of "x * 2"] Suc.prems w False show ?thesis by (simp add: mult.assoc)
  qed
qed

text \<open>
  C13. Every retry delay is drawn below the cap of its attempt; the cap never exceeds the
  configured maximum and is never below the smaller of the maximum and the doubled initial
  delay, for any number of attempts and without the doubling ever wrapping around. It is that
  minimum exactly when the maximum is even.
\<close>

theorem backoff_bounded:
  assumes "mx < 2 ^ 63" and "\<And>n. 0 < n \<Longrightarrow> 0 \<le> rng n \<and> rng n < n"
    and "b = (newBackoff i mx)\<lparr>bo_attempt := k\<rparr>"
  shows "0 < capFor b k \<and> capFor b k \<le> bo_max b \<and>
    min (bo_max b) (bo_initial b * 2 ^ k) \<le> capFor b k \<and>
    (even (bo_max b) \<longrightarrow> capFor b k = min (bo_max b) (bo_initial b * 2 ^ k)) \<and>
    0 \<le> fst (backoff_next rng b) \<and> fst (backoff_next rng b) < capFor b k"
proof -
  have "backoff_ok b" using newBackoff_ok [OF assms(1), of i] by (simp add: assms(3) backoff_ok_def)
  then have b: "0 < bo_initial b" "bo_initial b \<le> bo_max b" "bo_max b < 2 ^ 63"
    by (simp_all add: backoff_ok_def)
  have pos: "0 < min (bo_max b) (bo_initial b * 2 ^ k)" using b by simp
  from cap_loop_bounds [OF b, of k] pos assms(2) [of "capFor b k"] show ?thesis
    by (auto simp: capFor_def backoff_next_def assms(3) Let_def)
qed

theorem backoff_bounded_witness:
  "capFor ((newBackoff 0 0)\<lparr>bo_attempt := 3\<rparr>) 3 = 4 * 1000000000 \<and>
   fst (backoff_next (\<lambda>n. n - 1) ((newBackoff 0 0)\<lparr>bo_attempt := 3\<rparr>)) < 4 * 1000000000"
proof -
  have "even (bo_max ((newBackoff 0 0)\<lparr>bo_attempt := 3\<rparr>))"
      "min (bo_max ((newBackoff 0 0)\<lparr>bo_attempt := 3\<rparr>)) (bo_initial ((newBackoff 0 0)\<lparr>bo_attempt := 3\<rparr>) * 2 ^ 3) = 4 * 1000000000"
    by (simp_all add: newBackoff_def Let_def defaultBackoffInitial_def defaultBackoffMax_def)
  with backoff_bounded [where mx = 0 and rng = "\<lambda>n. n - 1" and b = "(newBackoff 0 0)\<lparr>bo_attempt := 3\<rparr>" and i = 0 and k = 3] show ?thesis
    by simp
qed

section \<open>The replica invariant\<close>

text \<open>
  \<open>H v\<close> are the rules the control plane committed as version \<open>v\<close>. A snapshot is true if it lists
  them, a delta if it leads to them from those of the version before; a message the client
  cannot translate says nothing.
\<close>

definition true_snapshot :: "(uint64 \<Rightarrow> rule set) \<Rightarrow> proto_snapshot \<Rightarrow> bool" where
  "true_snapshot H s =
     (case snapshotFromProto s of Inl _ \<Rightarrow> True | Inr ks \<Rightarrow> set (s_Rules ks) = H (s_Version ks))"

definition true_delta :: "(uint64 \<Rightarrow> rule set) \<Rightarrow> proto_delta \<Rightarrow> bool" where
  "true_delta H d =
     (case deltaFromProto d of
        Inl _ \<Rightarrow> True
      | Inr kd \<Rightarrow> fold change_rules (kd_PolicyChanges kd) (H (kd_Version kd - 1)) = H (kd_Version kd))"

definition true_pull :: "(uint64 \<Rightarrow> rule set) \<Rightarrow> pulled \<Rightarrow> bool" where
  "true_pull H p = (case p of Inl _ \<Rightarrow> True | Inr s \<Rightarrow> true_snapshot H s)"

fun true_recv :: "(uint64 \<Rightarrow> rule set) \<Rightarrow> recv \<Rightarrow> bool" where
  "true_recv H (RecvEvent ev p now) \<longleftrightarrow>
     true_pull H p \<and> (case ev of EvDelta d \<Rightarrow> true_delta H d | _ \<Rightarrow> True)"
| "true_recv H (RecvErr _) \<longleftrightarrow> True"

definition true_attempt :: "(uint64 \<Rightarrow> rule set) \<Rightarrow> attempt \<Rightarrow> bool" where
  "true_attempt H a \<longleftrightarrow>
     true_pull H (cn_pull (at_connection a)) \<and> list_all (true_recv H) (cn_stream (at_connection a))"

lemma deltaFromProto_version: "deltaFromProto d = Inr kd \<Longrightarrow> kd_Version kd = pd_Version d"
  by (auto simp: deltaFromProto_def rbind_eq_Ok)

lemma snapshotFromProto_version: "snapshotFromProto s = Inr ks \<Longrightarrow> s_Version ks = ps_Version s"
  by (auto simp: snapshotFromProto_def rbind_eq_Ok)

context casbin_enforcer
begin

definition in_sync :: "(uint64 \<Rightarrow> rule set) \<Rightarrow> string \<Rightarrow> ('ce, 't) sync_client \<Rightarrow> bool" where
  "in_sync H d c \<longleftrightarrow> kernel_inv d (sc_engine c) (H (e_version (sc_engine c)))"

lemma in_sync_simps [simp]:
  "in_sync H d (markSync now c) = in_sync H d c"
  "in_sync H d (c\<lparr>sc_connected := b\<rparr>) = in_sync H d c"
  "in_sync H d (c\<lparr>sc_applied := n\<rparr>) = in_sync H d c"
  by (simp_all add: in_sync_def markSync_def)

lemma in_sync_snapshot:
  assumes "in_sync H d c" "set (s_Rules ks) = H (s_Version ks)"
  shows "in_sync H d (c\<lparr>sc_engine := snd (Engine_ApplySnapshot C A ks (sc_engine c))\<rparr>)"
proof -
  note inv = kernel_inv_snapshot [OF assms(1) [unfolded in_sync_def], of A ks]
  show ?thesis
    by (cases rule: ApplySnapshot_cases [of ks "sc_engine c" C A])
      (use inv assms in \<open>auto simp: in_sync_def kernel_inv_def\<close>)
qed

lemma in_sync_resync:
  assumes "in_sync H d c" "true_pull H pull"
  shows "in_sync H d (snd (resync C A pull now c))"
proof (cases pull)
  case (Inr snap)
  show ?thesis
  proof (cases "snapshotFromProto snap")
    case (Inr ks)
    with assms \<open>pull = Inr snap\<close> have "set (s_Rules ks) = H (s_Version ks)"
      by (simp add: true_pull_def true_snapshot_def)
    from in_sync_snapshot [OF assms(1) this, of A] Inr \<open>pull = Inr snap\<close> show ?thesis
      by (auto simp: resync_def in_sync_def markSync_def split: prod.splits option.splits)
  qed (use assms Inr in \<open>simp add: resync_def\<close>)
qed (use assms in \<open>simp add: resync_def\<close>)

lemma in_sync_delta:
  assumes "in_sync H d c" "kd_Version kd = e_version (sc_engine c) + 1"
    and "fold change_rules (kd_PolicyChanges kd) (H (kd_Version kd - 1)) = H (kd_Version kd)"
  shows "in_sync H d (c\<lparr>sc_engine := snd (Engine_ApplyDelta C A kd (sc_engine c))\<rparr>)"
proof -
  note inv = kernel_inv_delta [OF assms(1) [unfolded in_sync_def], of A kd]
  show ?thesis
    by (cases rule: ApplyDelta_cases [of kd "sc_engine c" C A])
      (use inv assms in \<open>auto simp: in_sync_def kernel_inv_def\<close>)
qed

lemma in_sync_handleDelta:
  assumes "in_sync H d c" "true_pull H pull" "true_delta H dl"
  shows "in_sync H d (snd (handleDelta C A pull now dl c))"
proof (cases "pd_Version dl = e_version (sc_engine c) + 1 \<and> \<not> pd_Version dl \<le> e_version (sc_engine c)")
  case False
  then show ?thesis using assms in_sync_resync by (auto simp: handleDelta_def Let_def)
next
  case True
  show ?thesis
  proof (cases "deltaFromProto dl")
    case (Inl e)
    with True show ?thesis using assms in_sync_resync by (auto simp: handleDelta_def Let_def)
  next
    case (Inr kd)
    then have "kd_Version kd = e_version (sc_engine c) + 1"
      using True deltaFromProto_version by simp
    moreover have "fold change_rules (kd_PolicyChanges kd) (H (kd_Version kd - 1)) = H (kd_Version kd)"
      using assms(3) Inr by (simp add: true_delta_def)
    ultimately have sync: "in_sync H d (c\<lparr>sc_engine := snd (Engine_ApplyDelta C A kd (sc_engine c))\<rparr>)"
      by (rule in_sync_delta [OF assms(1)])
    obtain o1 e1 where run: "Engine_ApplyDelta C A kd (sc_engine c) = (o1, e1)" by (metis surj_pair)
    have "snd (handleDelta C A pull now dl c) \<in>
        {markSync now (c\<lparr>sc_engine := e1\<rparr>), snd (resync C A pull now (c\<lparr>sc_engine := e1\<rparr>))}"
      using True Inr run by (auto simp: handleDelta_def Let_def split: option.splits kernel_error.splits)
    with sync in_sync_resync [OF _ assms(2)] run show ?thesis by auto
  qed
qed

lemma in_sync_handleEvent:
  assumes "in_sync H d c" "true_recv H (RecvEvent ev pull now)"
  shows "in_sync H d (snd (handleEvent C A pull now ev c))"
  using assms by (cases ev) (auto simp: in_sync_resync in_sync_handleDelta)

lemma in_sync_serve:
  "in_sync H d c \<Longrightarrow> list_all (true_recv H) rs \<Longrightarrow> in_sync H d (snd (snd (serve C A rs bo c)))"
proof (induction rs arbitrary: bo c)
  case (Cons r rs)
  show ?case
  proof (cases r)
    case (RecvEvent ev pull now)
    obtain o1 c1 where run: "handleEvent C A pull now ev c = (o1, c1)" by (metis surj_pair)
    then have "in_sync H d c1"
      using in_sync_handleEvent [of H d c ev pull now A] Cons.prems RecvEvent by auto
    with Cons run RecvEvent show ?thesis by (cases o1) simp_all
  qed (use Cons.prems in simp)
qed simp

lemma in_sync_connect:
  assumes "in_sync H d c" "true_pull H (cn_pull cn)" "list_all (true_recv H) (cn_stream cn)"
  shows "in_sync H d (snd (snd (connectAndServe C A cn bo c)))"
proof -
  obtain o1 c1 where run: "resync C A (cn_pull cn) (cn_now cn) c = (o1, c1)" by (metis surj_pair)
  with in_sync_resync [OF assms(1,2), of A "cn_now cn"] have "in_sync H d c1" by simp
  with run assms(3) show ?thesis
    by (cases o1) (simp_all add: connectAndServe_def in_sync_serve)
qed

lemma in_sync_Run:
  "in_sync H d c \<Longrightarrow> list_all (true_attempt H) as \<Longrightarrow> in_sync H d (snd (sync_Run C A rng as bo c))"
proof (induction as arbitrary: bo c)
  case (Cons a as)
  obtain sv bo1 c1 where run: "connectAndServe C A (at_connection a) bo c = (sv, bo1, c1)"
    by (metis surj_pair)
  then have sync: "in_sync H d c1"
    using in_sync_connect [of H d c "at_connection a" A bo] Cons.prems by (simp add: true_attempt_def)
  obtain w bo2 where "backoff_next rng bo1 = (w, bo2)" by (metis surj_pair)
  with Cons run sync show ?case by (cases sv) simp_all
qed simp

end

text \<open>The rows of the messages, for the shape the control plane gives them.\<close>

definition committed_rows :: "(uint64 \<Rightarrow> rule set) \<Rightarrow> bool" where
  "committed_rows H \<longleftrightarrow> (\<forall>v. \<forall>r \<in> H v. wf_row r)"

definition sync_New :: "('ce, 't) engine \<Rightarrow> ('ce, 't) sync_client" where
  "sync_New e = \<lparr>sc_engine = e, sc_lastSyncAt = 0, sc_connected = False, sc_applied = 0\<rparr>"

lemma replica_decides_committed_version_core:
  fixes C :: "'ce casbin" and A :: "'t applier"
  assumes "casbin_enforcer C pol grp fresh lvl" and "committed_rows H"
    and "list_all (true_attempt H) as"
    and "snd (sync_Run C A rng as bo (sync_New (kernel_New d ce t))) = c"
    and "e_ready (sc_engine c)"
  shows "in_domain d (H (e_version (sc_engine c))) \<and>
    fst (Engine_Enforce C (sc_engine c) sub d obj act) =
      Inr (rules_allow lvl (H (e_version (sc_engine c))) sub d obj act)"
proof -
  let ?R = "H (e_version (sc_engine c))"
  note e = assms(1)
  have "casbin_enforcer.in_sync pol grp fresh H d (sync_New (kernel_New d ce t))"
    by (simp add: casbin_enforcer.in_sync_def [OF e] casbin_enforcer.kernel_inv_def [OF e] kernel_New_def sync_New_def)
  from casbin_enforcer.in_sync_Run [OF e this assms(3), of A rng bo]
  have "casbin_enforcer.in_sync pol grp fresh H d c" unfolding assms(4) .
  then have k: "casbin_enforcer.represents pol grp (e_ce (sc_engine c)) ?R" "fresh (e_ce (sc_engine c))"
      "in_domain d ?R" "e_domain (sc_engine c) = d"
    using assms(5) by (simp_all add: casbin_enforcer.in_sync_def [OF e] casbin_enforcer.kernel_inv_def [OF e])
  moreover have "\<forall>r \<in> ?R. wf_row r" using assms(2) by (simp add: committed_rows_def)
  ultimately show ?thesis
    using casbin_enforcer.Enforce_decides [OF e k(1,2) _ assms(5)] by simp
qed

text \<open>
  C14. Let the control plane commit a history of rule sets, one per version, and let every
  snapshot and delta the client receives be true to that history; messages may be lost,
  repeated, reordered or fail to translate, connections may break at any point, and the
  enforcer may fail. Whenever the kernel is ready, it decides every request of its domain
  exactly as the rules of the one committed version it reports; it never serves a mixture.
\<close>

theorem replica_decides_committed_version:
  fixes C :: "'ce casbin" and A :: "'t applier"
  assumes "casbin_enforcer C pol grp fresh lvl" and "committed_rows H"
    and "list_all (true_attempt H) as"
    and "snd (sync_Run C A rng as bo (sync_New (kernel_New d ce t))) = c"
    and "e_ready (sc_engine c)"
  shows "in_domain d (H (e_version (sc_engine c))) \<and>
    fst (Engine_Enforce C (sc_engine c) sub d obj act) =
      Inr (rules_allow lvl (H (e_version (sc_engine c))) sub d obj act)"
  using assms by (rule replica_decides_committed_version_core)

definition demo_rules :: "rule list" where
  "demo_rules = [p_row ''clerk'' ''shop'' ''order'' ''read'' ''allow'', g_row ''bob'' ''clerk'' ''shop'']"

definition demo_history :: "uint64 \<Rightarrow> rule set" where
  "demo_history v = (if v = 8 then set (g_row ''eve'' ''clerk'' ''shop'' # demo_rules) else set demo_rules)"

definition demo_attempts :: "attempt list" where
  "demo_attempts =
     [\<lparr>at_cancelled = False,
       at_connection =
         \<lparr>cn_pull = Inr \<lparr>ps_Version = 7, ps_Rules = RulesToProto demo_rules, ps_DataPolicies = []\<rparr>,
          cn_now = 1, cn_subscribe = True,
          cn_stream =
            [RecvEvent (EvDelta (DeltaToProto \<lparr>d_AppID = 1, d_Version = 8, d_RuleAdds = [g_row ''eve'' ''clerk'' ''shop''],
                d_RuleRemoves = [], d_DataChanges = []\<rparr>)) (Inl ()) 2,
             RecvEvent (EvHeartbeat 8) (Inl ()) 3]\<rparr>,
       at_slept = True\<rparr>]"

lemma demo_attempts_true: "list_all (true_attempt demo_history) demo_attempts"
  by code_simp

lemma demo_history_rows: "committed_rows demo_history"
proof -
  have "list_all wf_row (g_row ''eve'' ''clerk'' ''shop'' # demo_rules)" by code_simp
  then show ?thesis by (auto simp: committed_rows_def demo_history_def list_all_iff)
qed

definition demo_client :: "(ref_ce, unit) sync_client" where
  "demo_client = snd (sync_Run (ref_casbin 10) noopApplier (\<lambda>_. 0) demo_attempts (newBackoff 0 0)
     (sync_New (kernel_New ''shop'' \<lparr>rc_pol = [], rc_grp = []\<rparr> ())))"

theorem replica_decides_committed_version_witness:
  "e_version (sc_engine demo_client) = 8 \<and>
   fst (Engine_Enforce (ref_casbin 10) (sc_engine demo_client) ''eve'' ''shop'' ''order'' ''read'') = Inr True"
proof -
  have v: "e_version (sc_engine demo_client) = 8" "e_ready (sc_engine demo_client)" by code_simp+
  have "rules_allow 10 (demo_history 8) ''eve'' ''shop'' ''order'' ''read''" by code_simp
  with v replica_decides_committed_version [OF ref_casbin_enforcer demo_history_rows demo_attempts_true
      demo_client_def [symmetric] v(2), of "''eve''" "''order''" "''read''"]
  show ?thesis by simp
qed

section \<open>No event leaves the client behind\<close>

fun announced :: "sync_event \<Rightarrow> uint64" where
  "announced (EvDelta d) = pd_Version d"
| "announced (EvHeartbeat v) = v"
| "announced _ = 0"

lemma resync_Ok:
  assumes "resync C A pull now c = (None, c')"
  shows "\<exists>snap. pull = Inr snap \<and> e_version (sc_engine c') = ps_Version snap \<and> e_ready (sc_engine c') \<and>
    sc_lastSyncAt c' = now"
proof -
  obtain snap ks where s: "pull = Inr snap" "snapshotFromProto snap = Inr ks"
    using assms by (auto simp: resync_def split: sum.splits)
  show ?thesis
    by (cases rule: ApplySnapshot_cases [of ks "sc_engine c" C A])
      (use assms s in \<open>auto simp: resync_def markSync_def dest: snapshotFromProto_version\<close>)
qed

lemma handleDelta_Ok:
  assumes "handleDelta C A pull now d c = (None, c')" "e_ready (sc_engine c)"
    and "\<And>snap. pull = Inr snap \<Longrightarrow> pd_Version d \<le> ps_Version snap"
  shows "pd_Version d \<le> e_version (sc_engine c') \<and> e_ready (sc_engine c')"
proof -
  have pulls: "pd_Version d \<le> e_version (sc_engine c') \<and> e_ready (sc_engine c')"
    if "resync C A pull now c1 = (None, c')" for c1
    using resync_Ok [OF that] assms(3) by auto
  consider "pd_Version d \<le> e_version (sc_engine c)"
    | "\<not> pd_Version d \<le> e_version (sc_engine c)" "pd_Version d \<noteq> e_version (sc_engine c) + 1 \<or> (\<exists>e. deltaFromProto d = Inl e)"
    | kd where "\<not> pd_Version d \<le> e_version (sc_engine c)" "pd_Version d = e_version (sc_engine c) + 1" "deltaFromProto d = Inr kd"
    by (cases "deltaFromProto d") blast+
  then show ?thesis
  proof cases
    case 1
    with assms show ?thesis by (auto simp: handleDelta_def markSync_def)
  next
    case 2
    with assms(1) have "resync C A pull now c = (None, c')" by (auto simp: handleDelta_def Let_def split: if_splits)
    then show ?thesis by (rule pulls)
  next
    case 3
    show ?thesis
      by (cases rule: ApplyDelta_cases [of kd "sc_engine c" C A])
        (use 3 assms pulls deltaFromProto_version [OF 3(3)] in \<open>auto simp: handleDelta_def markSync_def Let_def split: if_splits\<close>)
  qed
qed

text \<open>
  While a client serves a stream with a ready kernel, every event it handles without an
  error leaves the kernel ready and at least at the version the event announces, provided a
  snapshot pulled while handling it is at least that new: a lost delta is noticed by the next
  delta or heartbeat and is repaired before anything newer is applied.
\<close>

theorem handled_event_catches_up:
  assumes "handleEvent C A pull now ev c = (None, c')" and "e_ready (sc_engine c)"
    and "\<And>snap. pull = Inr snap \<Longrightarrow> announced ev \<le> ps_Version snap"
  shows "announced ev \<le> e_version (sc_engine c') \<and> e_ready (sc_engine c')"
proof (cases ev)
  case (EvDelta d)
  with assms show ?thesis using handleDelta_Ok [of C A pull now d c c'] by simp
next
  case (EvHeartbeat v)
  with assms show ?thesis
    using resync_Ok [of C A pull now c c'] by (auto simp: markSync_def split: if_splits)
next
  case EvSnapshotRequired
  with assms show ?thesis using resync_Ok [of C A pull now c c'] by auto
qed (use assms in auto)

theorem handled_event_catches_up_witness:
  "\<exists>c'. handleEvent (ref_casbin 10) noopApplier
       (Inr \<lparr>ps_Version = 10, ps_Rules = RulesToProto demo_rules, ps_DataPolicies = []\<rparr>) 4 (EvHeartbeat 9) demo_client =
       (None, c') \<and> 9 \<le> e_version (sc_engine c') \<and> e_ready (sc_engine c')"
proof -
  let ?pull = "Inr \<lparr>ps_Version = 10, ps_Rules = RulesToProto demo_rules, ps_DataPolicies = []\<rparr> :: pulled"
  obtain o' c' where run: "handleEvent (ref_casbin 10) noopApplier ?pull 4 (EvHeartbeat 9) demo_client = (o', c')"
    by (metis surj_pair)
  have "fst (handleEvent (ref_casbin 10) noopApplier ?pull 4 (EvHeartbeat 9) demo_client) = None" by code_simp
  moreover have "e_ready (sc_engine demo_client)" by code_simp
  ultimately show ?thesis
    using run handled_event_catches_up [of "ref_casbin 10" noopApplier ?pull 4 "EvHeartbeat 9" demo_client c'] by auto
qed

end
