(* ===== verification/Policy_Sync.thy ===== *)
theory Policy_Sync
  imports Relay Sync_Client "HOL-Library.Sublist"
begin

text \<open>
  The control plane's side of the sync protocol (\<^verbatim>\<open>internal/controlplane/policysync\<close>): the hub that
  fans deltas out to the open streams with bounded buffers, the snapshot pull, and the stream
  with its reconciliation, overflow signal and heartbeats.
\<close>

section \<open>The hub\<close>

text \<open>
  A stream endpoint has a buffer of events and the pending overflow signal. The set of endpoints
  of an application is a list of endpoints with their addresses; \<open>hb_next\<close> is the next address.
\<close>

record subscriber =
  sb_events :: "sync_event list"
  sb_overflow :: bool

record hub =
  hb_streams :: "int64 \<rightharpoonup> (nat \<times> subscriber) list"
  hb_bufSize :: nat
  hb_next :: nat

definition NewHub :: "nat \<Rightarrow> hub" where
  "NewHub bufSize = \<lparr>hb_streams = Map.empty, hb_bufSize = bufSize, hb_next = 0\<rparr>"

definition endpoints :: "hub \<Rightarrow> int64 \<Rightarrow> (nat \<times> subscriber) list" where
  "endpoints h app = (case hb_streams h app of None \<Rightarrow> [] | Some ss \<Rightarrow> ss)"

definition register :: "int64 \<Rightarrow> hub \<Rightarrow> nat \<times> hub" where
  "register app h =
     (hb_next h,
      h\<lparr>hb_streams := (hb_streams h)(app \<mapsto> endpoints h app @ [(hb_next h, \<lparr>sb_events = [], sb_overflow = False\<rparr>)]),
        hb_next := Suc (hb_next h)\<rparr>)"

definition unregister :: "int64 \<Rightarrow> nat \<Rightarrow> hub \<Rightarrow> hub" where
  "unregister app addr h =
     (case hb_streams h app of
        None \<Rightarrow> h
      | Some ss \<Rightarrow>
          (let ss' = filter (\<lambda>(a, s). a \<noteq> addr) ss
           in h\<lparr>hb_streams := (hb_streams h)(app := if ss' = [] then None else Some ss')\<rparr>))"

definition offer :: "nat \<Rightarrow> sync_event \<Rightarrow> subscriber \<Rightarrow> subscriber" where
  "offer bufSize ev s =
     (if length (sb_events s) < bufSize then s\<lparr>sb_events := sb_events s @ [ev]\<rparr>
      else s\<lparr>sb_overflow := True\<rparr>)"

definition Dispatch :: "int64 \<Rightarrow> sync_event \<Rightarrow> hub \<Rightarrow> hub" where
  "Dispatch app ev h =
     h\<lparr>hb_streams := (hb_streams h)(app := map_option (map (apsnd (offer (hb_bufSize h) ev))) (hb_streams h app))\<rparr>"

section \<open>The service\<close>

text \<open>
  \<open>app_keys\<close> is the \<^verbatim>\<open>app_key\<close> column of the applications, and the caller's identity is what the
  authentication has put into the context. A read-only transaction runs under PostgreSQL's
  default isolation, read committed, so each of its statements reads the state of the database
  at its own start: the version, the rules and the data policies may come from three states.
\<close>

record pull_env =
  pe_begin :: bool
  pe_version :: db
  pe_rules :: "db option"
  pe_dps :: "db option"

definition ResolveAppIDByKey :: "(string \<rightharpoonup> int64) \<Rightarrow> string \<Rightarrow> int64 option" where
  "ResolveAppIDByKey app_keys key = app_keys key"

definition PullSnapshot :: "(string \<rightharpoonup> int64) \<Rightarrow> string option \<Rightarrow> pull_env \<Rightarrow> (grpc_code, proto_snapshot) res" where
  "PullSnapshot app_keys caller P =
     (case caller of
        None \<Rightarrow> Inl Unauthenticated
      | Some appKey \<Rightarrow>
          if \<not> pe_begin P then Inl Internal
          else case ResolveAppIDByKey app_keys appKey of
            None \<Rightarrow> Inl NotFound
          | Some app \<Rightarrow>
              (case ReadCurrentVersion (pe_version P) app of
                 Inl _ \<Rightarrow> Inl Internal
               | Inr version \<Rightarrow>
                   (case pe_rules P of
                      None \<Rightarrow> Inl Internal
                    | Some rdb \<Rightarrow>
                        (case pe_dps P of
                           None \<Rightarrow> Inl Internal
                         | Some ddb \<Rightarrow>
                             Inr \<lparr>ps_Version = version, ps_Rules = RulesToProto (ReadAppRules rdb app),
                                  ps_DataPolicies = DataPoliciesToProto (ReadAppDataPolicies ddb app)\<rparr>))))"

text \<open>
  \<^verbatim>\<open>Subscribe\<close> as a machine: opening the stream, and then one step per turn of the send loop. A
  turn takes whichever channel is ready (\<open>sel\<close>); \<open>ok\<close> says whether the send succeeds, and the
  reconciliation may or may not be able to read the version.
\<close>

record stream =
  st_app :: int64
  st_addr :: nat
  st_lastVer :: uint64
  st_ticks :: nat

datatype sel = SelDone | SelEvent | SelOverflow | SelTick

definition reconcileEvery :: nat where
  "reconcileEvery = 10"

definition Subscribe_open ::
    "(string \<rightharpoonup> int64) \<Rightarrow> string option \<Rightarrow> uint64 \<Rightarrow> bool \<Rightarrow> db \<Rightarrow> hub \<Rightarrow>
     (grpc_code option, stream) res \<times> sync_event list \<times> hub" where
  "Subscribe_open app_keys caller lastApplied ok db h =
     (case caller of
        None \<Rightarrow> (Inl (Some Unauthenticated), [], h)
      | Some appKey \<Rightarrow>
          (case ResolveAppIDByKey app_keys appKey of
             None \<Rightarrow> (Inl (Some NotFound), [], h)
           | Some app \<Rightarrow>
               (case ReadCurrentVersion db app of
                  Inl _ \<Rightarrow> (Inl (Some Internal), [], h)
                | Inr current \<Rightarrow>
                    (case register app h of
                       (addr, h1) \<Rightarrow>
                         let st = \<lparr>st_app = app, st_addr = addr, st_lastVer = current, st_ticks = 0\<rparr>
                         in if current = lastApplied then (Inr st, [], h1)
                            else if ok then (Inr st, [EvSnapshotRequired], h1)
                            else (Inl None, [], unregister app addr h1)))))"

definition endpoint :: "hub \<Rightarrow> stream \<Rightarrow> subscriber option" where
  "endpoint h st = map_of (endpoints h (st_app st)) (st_addr st)"

definition set_endpoint :: "stream \<Rightarrow> (subscriber \<Rightarrow> subscriber) \<Rightarrow> hub \<Rightarrow> hub" where
  "set_endpoint st f h =
     h\<lparr>hb_streams := (hb_streams h)(st_app st :=
         map_option (map (\<lambda>(a, s). (a, if a = st_addr st then f s else s))) (hb_streams h (st_app st)))\<rparr>"

text \<open>A turn gives the event it sends; the stream ends when the context is done or a send fails.\<close>

definition send :: "bool \<Rightarrow> sync_event \<Rightarrow> stream \<Rightarrow> hub \<Rightarrow> sync_event list \<times> stream option \<times> hub" where
  "send ok ev st h = (if ok then ([ev], Some st, h) else ([], None, unregister (st_app st) (st_addr st) h))"

definition Subscribe_turn ::
    "sel \<Rightarrow> bool \<Rightarrow> db option \<Rightarrow> stream \<Rightarrow> hub \<Rightarrow> sync_event list \<times> stream option \<times> hub" where
  "Subscribe_turn sl ok db st h =
     (case endpoint h st of
        None \<Rightarrow> ([], Some st, h)
      | Some s \<Rightarrow>
          (case sl of
             SelDone \<Rightarrow> ([], None, unregister (st_app st) (st_addr st) h)
           | SelEvent \<Rightarrow>
               (case sb_events s of
                  [] \<Rightarrow> ([], Some st, h)
                | ev # evs \<Rightarrow>
                    let st' = (case ev of EvDelta d \<Rightarrow> st\<lparr>st_lastVer := pd_Version d\<rparr> | _ \<Rightarrow> st)
                    in send ok ev st' (set_endpoint st (sb_events_update (\<lambda>_. evs)) h))
           | SelOverflow \<Rightarrow>
               if sb_overflow s then send ok EvSnapshotRequired st (set_endpoint st (sb_overflow_update (\<lambda>_. False)) h)
               else ([], Some st, h)
           | SelTick \<Rightarrow>
               (let st1 = st\<lparr>st_ticks := Suc (st_ticks st)\<rparr>;
                    st2 = (if st_ticks st1 mod reconcileEvery = 0
                           then case db of
                                  Some d \<Rightarrow> (case ReadCurrentVersion d (st_app st) of
                                       Inr v \<Rightarrow> st1\<lparr>st_lastVer := v\<rparr> | Inl _ \<Rightarrow> st1)
                                | None \<Rightarrow> st1
                           else st1)
                in send ok (EvHeartbeat (st_lastVer st2)) st2 h)))"

definition RunDispatchLoop :: "unmarshal \<Rightarrow> byte list list \<Rightarrow> hub \<Rightarrow> hub" where
  "RunDispatchLoop unmarshal ch h = RedisSubscriber_Run unmarshal (\<lambda>app d. Dispatch app (EvDelta d)) ch h"

section \<open>Reported permission points\<close>

definition point_complete :: "point \<Rightarrow> bool" where
  "point_complete p \<longleftrightarrow> pt_Code p \<noteq> [] \<and> pt_Resource p \<noteq> [] \<and> pt_Action p \<noteq> []"

definition Sync_ReportPermissions ::
    "pg \<Rightarrow> env \<Rightarrow> (string \<rightharpoonup> int64) \<Rightarrow> string option \<Rightarrow> point list \<Rightarrow> db \<Rightarrow> (grpc_code, nat \<times> nat) res \<times> db" where
  "Sync_ReportPermissions pg E app_keys caller points db =
     (case caller of
        None \<Rightarrow> (Inl Unauthenticated, db)
      | Some appKey \<Rightarrow>
          if \<not> list_all point_complete points then (Inl InvalidArgument, db)
          else case ResolveAppIDByKey app_keys appKey of
                 None \<Rightarrow> (Inl NotFound, db)
               | Some app \<Rightarrow>
                   (case Manager_ReportPermissions pg E app points db of
                      (Inl _, db') \<Rightarrow> (Inl Internal, db')
                    | (Inr (_, counts), db') \<Rightarrow> (Inr counts, db')))"

section \<open>The endpoint of a stream\<close>

lemma map_of_apsnd: "map_of (map (apsnd f) xs) k = map_option f (map_of xs k)"
  by (induction xs) auto

lemma endpoint_Dispatch [simp]:
  "endpoint (Dispatch app ev h) st =
     (if app = st_app st then map_option (offer (hb_bufSize h) ev) (endpoint h st) else endpoint h st)"
  by (auto simp: endpoint_def endpoints_def Dispatch_def map_of_apsnd split: option.splits)

lemma endpoint_set [simp]: "endpoint (set_endpoint st f h) st = map_option f (endpoint h st)"
proof -
  have "map_of (map (\<lambda>(a, s). (a, if a = k then f s else s)) xs) k = map_option f (map_of xs k)" for k xs
    by (induction xs) auto
  then show ?thesis by (auto simp: endpoint_def endpoints_def set_endpoint_def split: option.splits)
qed

lemma endpoint_stream [simp]:
  "endpoint h (st\<lparr>st_lastVer := v\<rparr>) = endpoint h st"
  "endpoint h (st\<lparr>st_ticks := n\<rparr>) = endpoint h st"
  by (simp_all add: endpoint_def)

lemma bufSize_simps [simp]:
  "hb_bufSize (Dispatch app ev h) = hb_bufSize h"
  "hb_bufSize (set_endpoint st f h) = hb_bufSize h"
  by (simp_all add: Dispatch_def set_endpoint_def)

text \<open>
  What a turn does to a stream that stays open: it sends the oldest event, or the pending signal,
  or a heartbeat, or nothing.
\<close>

lemma turn_cases:
  assumes "Subscribe_turn sl ok db st h = (out, Some st', h')" "endpoint h st = Some s"
  shows "st_app st' = st_app st \<and> hb_bufSize h' = hb_bufSize h \<and>
    ((\<exists>ev evs. sb_events s = ev # evs \<and> out = [ev] \<and> endpoint h' st' = Some (s\<lparr>sb_events := evs\<rparr>)) \<or>
     (sb_overflow s \<and> out = [EvSnapshotRequired] \<and> endpoint h' st' = Some (s\<lparr>sb_overflow := False\<rparr>)) \<or>
     (\<exists>v. out = [EvHeartbeat v] \<and> endpoint h' st' = Some s) \<or>
     (out = [] \<and> endpoint h' st' = Some s))"
proof (cases sl)
    case SelEvent
    with assms show ?thesis
      by (auto simp: Subscribe_turn_def send_def Let_def split: list.splits if_splits sync_event.splits)
  next
    case SelTick
    with assms show ?thesis
      by (auto simp: Subscribe_turn_def send_def Let_def split: if_splits option.splits sum.splits)
qed (use assms in \<open>auto simp: Subscribe_turn_def send_def Let_def split: if_splits\<close>)

datatype feed_act = FDispatch int64 sync_event | FTurn sel bool "db option"

fun feed_run :: "feed_act list \<Rightarrow> stream \<Rightarrow> hub \<Rightarrow> sync_event list \<times> stream option \<times> hub" where
  "feed_run [] st h = ([], Some st, h)"
| "feed_run (FDispatch app ev # acts) st h = feed_run acts st (Dispatch app ev h)"
| "feed_run (FTurn sl ok db # acts) st h =
     (case Subscribe_turn sl ok db st h of
        (out, None, h') \<Rightarrow> (out, None, h')
      | (out, Some st', h') \<Rightarrow> (case feed_run acts st' h' of (out', r) \<Rightarrow> (out @ out', r)))"

lemma feed_endpoint:
  "feed_run acts st h = (out, Some st', h') \<Longrightarrow> endpoint h st = Some s \<Longrightarrow> \<exists>s'. endpoint h' st' = Some s'"
proof (induction acts arbitrary: st h s out)
  case (Cons a acts)
  show ?case
  proof (cases a)
    case (FDispatch app e)
    with Cons.prems Cons.IH [of st "Dispatch app e h" out] show ?thesis by (cases "app = st_app st") auto
  next
    case (FTurn sl ok db)
    then obtain out1 st1 h1 out2 where t: "Subscribe_turn sl ok db st h = (out1, Some st1, h1)"
        "feed_run acts st1 h1 = (out2, Some st', h')"
      using Cons.prems(1) by (auto split: prod.splits option.splits)
    from turn_cases [OF t(1) Cons.prems(2)] obtain s1 where "endpoint h1 st1 = Some s1" by blast
    then show ?thesis by (rule Cons.IH [OF t(2)])
  qed
qed auto

lemma feed_keeps_debt:
  assumes "feed_run acts st h = (out, Some st', h')" "endpoint h st = Some s" "ev \<in> set (sb_events s) \<or> sb_overflow s"
  shows "\<exists>s'. endpoint h' st' = Some s' \<and>
    (ev \<in> set out \<or> ev \<in> set (sb_events s') \<or> EvSnapshotRequired \<in> set out \<or> sb_overflow s')"
  using assms
proof (induction acts arbitrary: st h s out)
  case (Cons a acts)
  show ?case
  proof (cases a)
    case (FDispatch app e)
    let ?s = "if app = st_app st then offer (hb_bufSize h) e s else s"
    have "endpoint (Dispatch app e h) st = Some ?s" using Cons.prems by simp
    moreover have "ev \<in> set (sb_events ?s) \<or> sb_overflow ?s" using Cons.prems by (simp add: offer_def)
    ultimately show ?thesis using Cons.IH [of st "Dispatch app e h" out ?s] Cons.prems FDispatch by simp
  next
    case (FTurn sl ok db)
    then obtain out1 st1 h1 out2 where t: "Subscribe_turn sl ok db st h = (out1, Some st1, h1)"
        "feed_run acts st1 h1 = (out2, Some st', h')" "out = out1 @ out2"
      using Cons.prems(1) by (auto split: prod.splits option.splits)
    from turn_cases [OF t(1) Cons.prems(2)] obtain s1 where s1: "endpoint h1 st1 = Some s1"
        "ev \<in> set (sb_events s1) \<or> sb_overflow s1 \<or> ev \<in> set out1 \<or> EvSnapshotRequired \<in> set out1"
      using Cons.prems(3) by auto
    show ?thesis
    proof (cases "ev \<in> set (sb_events s1) \<or> sb_overflow s1")
      case True
      with Cons.IH [OF t(2) s1(1)] t(3) show ?thesis by auto
    next
      case False
      moreover have "\<exists>s'. endpoint h' st' = Some s'"
        using t(2) s1(1) by (rule feed_endpoint)
      ultimately show ?thesis using s1 t(3) by auto
    qed
  qed
qed auto

text \<open>
  C27. Nothing dispatched to an open stream is lost silently: whatever is dispatched and
  whatever turns the send loop takes afterwards, as long as the stream is open the event has
  been sent, or waits in the buffer, or the subscriber has been told to fetch a snapshot since,
  or the signal to tell it so is pending.
\<close>

theorem no_silent_loss:
  assumes "endpoint h st = Some s"
    and "feed_run (FDispatch (st_app st) ev # acts) st h = (out, Some st', h')"
  shows "\<exists>s'. endpoint h' st' = Some s' \<and>
    (ev \<in> set out \<or> ev \<in> set (sb_events s') \<or> EvSnapshotRequired \<in> set out \<or> sb_overflow s')"
proof (rule feed_keeps_debt)
  show "feed_run acts st (Dispatch (st_app st) ev h) = (out, Some st', h')" using assms(2) by simp
  show "endpoint (Dispatch (st_app st) ev h) st = Some (offer (hb_bufSize h) ev s)" using assms(1) by simp
  show "ev \<in> set (sb_events (offer (hb_bufSize h) ev s)) \<or> sb_overflow (offer (hb_bufSize h) ev s)"
    by (simp add: offer_def)
qed

definition dv :: "uint64 \<Rightarrow> sync_event" where
  "dv v = EvDelta \<lparr>pd_Version = v, pd_PolicyChanges = [], pd_DataChanges = []\<rparr>"

definition demo_stream :: stream where
  "demo_stream = \<lparr>st_app = 1, st_addr = 0, st_lastVer = 4, st_ticks = 0\<rparr>"

definition demo_hub :: hub where
  "demo_hub = Dispatch 1 (dv 6) (Dispatch 1 (dv 5) (snd (register 1 (NewHub 2))))"

definition demo_turns :: "feed_act list" where
  "demo_turns = [FTurn SelEvent True None, FDispatch 1 (dv 8), FTurn SelEvent True None]"

theorem no_silent_loss_witness:
  "\<exists>out st' h' s'. feed_run (FDispatch 1 (dv 7) # demo_turns) demo_stream demo_hub = (out, Some st', h') \<and>
     out = [dv 5, dv 6] \<and> endpoint h' st' = Some s' \<and> sb_overflow s'"
proof -
  obtain out so h' where run: "feed_run (FDispatch 1 (dv 7) # demo_turns) demo_stream demo_hub = (out, so, h')"
    by (metis prod_cases3)
  have "fst (feed_run (FDispatch 1 (dv 7) # demo_turns) demo_stream demo_hub) = [dv 5, dv 6]"
      "fst (snd (feed_run (FDispatch 1 (dv 7) # demo_turns) demo_stream demo_hub)) \<noteq> None"
      "map_option sb_events (endpoint (snd (snd (feed_run (FDispatch 1 (dv 7) # demo_turns) demo_stream demo_hub))) demo_stream) = Some [dv 8]"
    by code_simp+
  with run obtain st' where st': "so = Some st'" "out = [dv 5, dv 6]" "map_option sb_events (endpoint h' demo_stream) = Some [dv 8]" by auto
  have "map_option (\<lambda>st. (st_app st, st_addr st)) (fst (snd (feed_run (FDispatch 1 (dv 7) # demo_turns) demo_stream demo_hub))) = Some (1, 0)"
    by code_simp
  with run st' have same: "endpoint h' st' = endpoint h' demo_stream" by (simp add: endpoint_def demo_stream_def)
  have app: "st_app demo_stream = 1" by code_simp
  have "endpoint demo_hub demo_stream \<noteq> None" by code_simp
  then obtain s where "endpoint demo_hub demo_stream = Some s" by blast
  from no_silent_loss [OF this, unfolded app, OF run [unfolded st'(1)]] st' same
  show ?thesis using run by (auto simp: dv_def)
qed

section \<open>Order and bounds\<close>

fun is_delta :: "sync_event \<Rightarrow> bool" where
  "is_delta (EvDelta _) = True"
| "is_delta _ = False"

fun dispatched :: "int64 \<Rightarrow> feed_act list \<Rightarrow> sync_event list" where
  "dispatched app [] = []"
| "dispatched app (FDispatch a ev # acts) = (if a = app then ev # dispatched app acts else dispatched app acts)"
| "dispatched app (FTurn sl ok db # acts) = dispatched app acts"

lemma subseq_insert_mid: "subseq xs (a @ b) \<Longrightarrow> subseq xs (a @ c # b)"
proof -
  have "subseq (a @ b) (a @ c # b)" by (intro list_emb_append_mono) auto
  then show "subseq xs (a @ b) \<Longrightarrow> subseq xs (a @ c # b)" by (rule subseq_order.order_trans [rotated])
qed

lemma feed_in_order:
  assumes "feed_run acts st h = (out, Some st', h')" "endpoint h st = Some s"
    and "list_all is_delta (sb_events s)" "list_all is_delta (dispatched (st_app st) acts)"
    and "length (sb_events s) \<le> hb_bufSize h"
  shows "\<exists>s'. endpoint h' st' = Some s' \<and> length (sb_events s') \<le> hb_bufSize h \<and>
    subseq (filter is_delta out @ sb_events s') (sb_events s @ dispatched (st_app st) acts)"
  using assms
proof (induction acts arbitrary: st h s out)
  case Nil
  then show ?case by simp
next
  case (Cons a acts)
  show ?case
  proof (cases a)
    case (FDispatch app e)
    let ?s = "if app = st_app st then offer (hb_bufSize h) e s else s"
    have "endpoint (Dispatch app e h) st = Some ?s" using Cons.prems by simp
    moreover have "list_all is_delta (sb_events ?s)" "length (sb_events ?s) \<le> hb_bufSize h"
        "list_all is_delta (dispatched (st_app st) acts)"
      using Cons.prems FDispatch by (auto simp: offer_def split: if_splits)
    ultimately obtain s' where s': "endpoint h' st' = Some s'" "length (sb_events s') \<le> hb_bufSize h"
        "subseq (filter is_delta out @ sb_events s') (sb_events ?s @ dispatched (st_app st) acts)"
      using Cons.IH [of st "Dispatch app e h" out ?s] Cons.prems FDispatch by auto
    then show ?thesis
      using FDispatch by (auto simp: offer_def subseq_insert_mid split: if_splits)
  next
    case (FTurn sl ok db)
    then obtain out1 st1 h1 out2 where t: "Subscribe_turn sl ok db st h = (out1, Some st1, h1)"
        "feed_run acts st1 h1 = (out2, Some st', h')" "out = out1 @ out2"
      using Cons.prems(1) by (auto split: prod.splits option.splits)
    from turn_cases [OF t(1) Cons.prems(2)] obtain s1 where s1: "endpoint h1 st1 = Some s1" "st_app st1 = st_app st"
        "hb_bufSize h1 = hb_bufSize h" "filter is_delta out1 @ sb_events s1 = sb_events s"
      using Cons.prems(3) by (elim conjE disjE exE) auto
    have "list_all is_delta (sb_events s1)" "length (sb_events s1) \<le> hb_bufSize h1"
        "list_all is_delta (dispatched (st_app st1) acts)"
      using Cons.prems(3,4,5) FTurn s1(2,3) by (auto simp flip: s1(4))
    from Cons.IH [OF t(2) s1(1) this(1,3,2)] obtain s' where "endpoint h' st' = Some s'" "length (sb_events s') \<le> hb_bufSize h"
        "subseq (filter is_delta out2 @ sb_events s') (sb_events s1 @ dispatched (st_app st) acts)"
      using s1(2,3) by auto
    then show ?thesis
      using FTurn t(3) by (auto simp flip: s1(4) intro: list_emb_append_mono)
  qed
qed

text \<open>Addresses of endpoints are never reused.\<close>

definition hub_fresh :: "hub \<Rightarrow> bool" where
  "hub_fresh h \<longleftrightarrow> (\<forall>app. \<forall>(addr, s) \<in> set (endpoints h app). addr < hb_next h)"

lemma opened_endpoint:
  assumes "Subscribe_open app_keys caller lastApplied ok db h = (Inr st, out0, h0)" "hub_fresh h"
  shows "endpoint h0 st = Some \<lparr>sb_events = [], sb_overflow = False\<rparr> \<and> hb_bufSize h0 = hb_bufSize h"
proof -
  have h0: "h0 = snd (register (st_app st) h)" "st_addr st = hb_next h"
    using assms(1)
    by (auto simp: Subscribe_open_def register_def Let_def split: option.splits sum.splits if_splits)
  have "map_of (endpoints h (st_app st)) (hb_next h) = None"
    using assms(2) by (fastforce simp: hub_fresh_def map_of_eq_None_iff)
  then show ?thesis by (simp add: h0 endpoint_def register_def endpoints_def map_add_def)
qed

text \<open>
  C28. A stream never delivers what was not dispatched to its application, never reorders and
  never repeats: the deltas it has sent followed by those it still holds are a subsequence of
  the deltas dispatched to its application since it was opened, and it never holds more than
  the buffer size.
\<close>

theorem stream_keeps_order:
  assumes "Subscribe_open app_keys caller lastApplied ok db h = (Inr st, out0, h0)"
    and "hub_fresh h"
    and "feed_run acts st h0 = (out, Some st', h')"
    and "list_all is_delta (dispatched (st_app st) acts)"
  shows "\<exists>s'. endpoint h' st' = Some s' \<and> length (sb_events s') \<le> hb_bufSize h \<and>
    subseq (filter is_delta out @ sb_events s') (dispatched (st_app st) acts)"
proof -
  from opened_endpoint [OF assms(1,2)]
  have "endpoint h0 st = Some \<lparr>sb_events = [], sb_overflow = False\<rparr>" "hb_bufSize h0 = hb_bufSize h" by simp_all
  with feed_in_order [OF assms(3) this(1) _ assms(4)] show ?thesis by simp
qed

theorem stream_keeps_order_witness:
  "\<exists>st h0 out st' h' s'. Subscribe_open [''k'' \<mapsto> 1] (Some ''k'') 0 True shop_db (NewHub 2) = (Inr st, [], h0) \<and>
     feed_run (FDispatch 1 (dv 1) # FDispatch 2 (dv 9) # FDispatch 1 (dv 2) # FDispatch 1 (dv 3) # demo_turns) st h0 = (out, Some st', h') \<and>
     out = [dv 1, dv 2] \<and> endpoint h' st' = Some s' \<and> length (sb_events s') \<le> 2"
proof -
  let ?acts = "FDispatch 1 (dv 1) # FDispatch 2 (dv 9) # FDispatch 1 (dv 2) # FDispatch 1 (dv 3) # demo_turns"
  let ?st = "\<lparr>st_app = 1, st_addr = 0, st_lastVer = 0, st_ticks = 0\<rparr> :: stream"
  let ?h0 = "snd (snd (Subscribe_open [''k'' \<mapsto> 1] (Some ''k'') 0 True shop_db (NewHub 2)))"
  have opened: "Subscribe_open [''k'' \<mapsto> 1] (Some ''k'') 0 True shop_db (NewHub 2) = (Inr ?st, [], ?h0)"
    by (simp add: Subscribe_open_def ResolveAppIDByKey_def ReadCurrentVersion_def shop_db_def register_def NewHub_def Let_def)
  have "fst (feed_run ?acts ?st ?h0) = [dv 1, dv 2]" "fst (snd (feed_run ?acts ?st ?h0)) \<noteq> None" by code_simp+
  then obtain st' h' where run: "feed_run ?acts ?st ?h0 = ([dv 1, dv 2], Some st', h')" by (metis option.exhaust prod.collapse)
  have "list_all is_delta (dispatched 1 ?acts)" by code_simp
  moreover have "hub_fresh (NewHub 2)" "hb_bufSize (NewHub 2) = 2" by (simp_all add: NewHub_def hub_fresh_def endpoints_def)
  ultimately show ?thesis using stream_keeps_order [OF opened _ run] opened run by fastforce
qed

section \<open>Heartbeats\<close>

lemma tick_turn:
  assumes "endpoint h st = Some s" "ReadCurrentVersion db (st_app st) = Inr v"
  shows "\<exists>v' st'. Subscribe_turn SelTick True (Some db) st h = ([EvHeartbeat v'], Some st', h) \<and>
    st_app st' = st_app st \<and> st_ticks st' = Suc (st_ticks st) \<and> endpoint h st' = Some s \<and>
    (Suc (st_ticks st) mod 10 = 0 \<longrightarrow> v' = v)"
  using assms by (auto simp: Subscribe_turn_def send_def Let_def reconcileEvery_def)

lemma ticks_reconcile:
  assumes "endpoint h st = Some s" "ReadCurrentVersion db (st_app st) = Inr v" "k < n" "Suc (st_ticks st + k) mod 10 = 0"
  shows "EvHeartbeat v \<in> set (fst (feed_run (replicate n (FTurn SelTick True (Some db))) st h))"
  using assms
proof (induction n arbitrary: st k)
  case (Suc n)
  from tick_turn [OF Suc.prems(1,2)] obtain v' st' where t: "Subscribe_turn SelTick True (Some db) st h = ([EvHeartbeat v'], Some st', h)"
      "st_app st' = st_app st" "st_ticks st' = Suc (st_ticks st)" "endpoint h st' = Some s"
      "Suc (st_ticks st) mod 10 = 0 \<longrightarrow> v' = v" by (elim exE conjE)
  show ?case
  proof (cases k)
    case 0
    with t Suc.prems show ?thesis by (auto split: prod.splits)
  next
    case (Suc k')
    with Suc.IH [of st' k'] Suc.prems t show ?thesis by (auto split: prod.splits)
  qed
qed simp

text \<open>
  C29. While a stream is open and the database can be read, every ten turns of the heartbeat
  announce the application's current version, whatever was lost on the channel; a sidecar that
  handles that heartbeat fetches what it has missed.
\<close>

theorem heartbeat_announces_current:
  assumes "endpoint h st = Some s" and "ReadCurrentVersion db (st_app st) = Inr v"
  shows "EvHeartbeat v \<in> set (fst (feed_run (replicate 10 (FTurn SelTick True (Some db))) st h))"
proof -
  let ?k = "9 - st_ticks st mod 10"
  have "Suc (st_ticks st + ?k) mod 10 = 0" by presburger
  with ticks_reconcile [OF assms, of ?k 10] show ?thesis by simp
qed

theorem heartbeat_announces_current_witness:
  "EvHeartbeat 0 \<in> set (fst (feed_run (replicate 10 (FTurn SelTick True (Some shop_db))) demo_stream demo_hub))"
proof -
  have "endpoint demo_hub demo_stream \<noteq> None" by code_simp
  then obtain s where "endpoint demo_hub demo_stream = Some s" by blast
  then show ?thesis
    by (rule heartbeat_announces_current) (simp add: ReadCurrentVersion_def demo_stream_def shop_db_def)
qed

section \<open>Snapshots\<close>

lemma change_rules_fold:
  "fold change_rules (kernel_changes d) R = (R \<union> set (d_RuleAdds d)) - set (d_RuleRemoves d)"
proof -
  have adds: "fold change_rules (map (\<lambda>r. \<lparr>pc_Op = ChangeAdd, pc_Rule = r, pc_OldRule = zero_rule\<rparr>) rs) R = R \<union> set rs" for rs R
    by (induction rs arbitrary: R) auto
  have removes: "fold change_rules (map (\<lambda>r. \<lparr>pc_Op = ChangeRemove, pc_Rule = r, pc_OldRule = zero_rule\<rparr>) rs) R = R - set rs" for rs R
    by (induction rs arbitrary: R) auto
  show ?thesis by (simp add: kernel_changes_def adds removes)
qed

lemma pulled_rules:
  assumes "PullSnapshot app_keys (Some key) P = Inr snap" "app_keys key = Some app" "pe_rules P = Some rdb"
  shows "ReadCurrentVersion (pe_version P) app = Inr (ps_Version snap) \<and>
    (\<exists>ks. snapshotFromProto snap = Inr ks \<and> s_Version ks = ps_Version snap \<and> set (s_Rules ks) = rules_of rdb app)"
  using assms
  by (auto simp: PullSnapshot_def ResolveAppIDByKey_def snapshot_wire_roundtrip rules_of_def split: if_splits option.splits sum.splits)

text \<open>
  C30. A snapshot pulled while a write commits may carry the version from before the write and
  the rules from after it: nothing but the default isolation ties the reads of the transaction
  together. Such a snapshot is repaired by the write's own delta, which leads from these rules
  to the same rules under their right version.
\<close>

theorem snapshot_may_mix_versions:
  assumes "exec pg E app c db1 = (Inr (Some d), db2)" and "app_keys key = Some app"
    and "pe_begin P" and "pe_version P = db1" and "pe_rules P = Some db2" and "pe_dps P = Some db2"
  shows "\<exists>snap ks. PullSnapshot app_keys (Some key) P = Inr snap \<and> snapshotFromProto snap = Inr ks \<and>
    s_Version ks = d_Version d - 1 \<and> set (s_Rules ks) = rules_of db2 app \<and>
    version_of db2 app = Some (d_Version d) \<and>
    fold change_rules (kernel_changes d) (set (s_Rules ks)) = rules_of db2 app"
proof -
  have contract: "version_of db1 app = Some (d_Version d - 1)" "version_of db2 app = Some (d_Version d)"
      "rules_of db2 app = (rules_of db1 app - set (d_RuleRemoves d)) \<union> set (d_RuleAdds d)"
      "set (d_RuleAdds d) \<inter> rules_of db1 app = {}" "set (d_RuleRemoves d) \<subseteq> rules_of db1 app"
    using exec_contract [of E c app db1 pg] assms(1) by (simp_all add: write_contract_def)
  have "\<exists>snap. PullSnapshot app_keys (Some key) P = Inr snap"
    using assms(2-) contract(1)
    by (auto simp: PullSnapshot_def ResolveAppIDByKey_def ReadCurrentVersion_def version_of_def)
  then obtain snap where snap: "PullSnapshot app_keys (Some key) P = Inr snap" ..
  from pulled_rules [OF snap assms(2,5)] contract(1) assms(4)
  obtain ks where ks: "snapshotFromProto snap = Inr ks" "s_Version ks = d_Version d - 1" "set (s_Rules ks) = rules_of db2 app"
    by (auto simp: ReadCurrentVersion_def version_of_def split: option.splits)
  have "fold change_rules (kernel_changes d) (set (s_Rules ks)) = rules_of db2 app"
    unfolding change_rules_fold ks(3) using contract(3,4,5) by auto
  with snap ks contract(2) show ?thesis by blast
qed

definition before_bind :: db where
  "before_bind = run_writes demo_pg [(demo_env, 1, WCreateRole ''clerk'' ''Clerk'')] shop_db"

definition after_bind :: db where
  "after_bind = snd (exec demo_pg demo_env 1 (WBind ''eve'' 1) before_bind)"

theorem snapshot_may_mix_versions_witness:
  "rules_of before_bind 1 = {} \<and> (\<exists>snap ks. PullSnapshot [''k'' \<mapsto> 1] (Some ''k'')
     \<lparr>pe_begin = True, pe_version = before_bind, pe_rules = Some after_bind, pe_dps = Some after_bind\<rparr> = Inr snap \<and>
     snapshotFromProto snap = Inr ks \<and> s_Version ks = 0 \<and> set (s_Rules ks) = {g_row ''eve'' ''clerk'' ''shop''})"
proof -
  let ?P = "\<lparr>pe_begin = True, pe_version = before_bind, pe_rules = Some after_bind, pe_dps = Some after_bind\<rparr>"
  have e: "(case fst (exec demo_pg demo_env 1 (WBind ''eve'' 1) before_bind) of Inr (Some d) \<Rightarrow> d_Version d = 1 | _ \<Rightarrow> False)"
      "ReadAppRules after_bind 1 = [g_row ''eve'' ''clerk'' ''shop'']" "ReadAppRules before_bind 1 = []"
    by code_simp+
  then obtain d where d: "exec demo_pg demo_env 1 (WBind ''eve'' 1) before_bind = (Inr (Some d), after_bind)" "d_Version d = 1"
    by (auto simp: after_bind_def split: sum.splits option.splits) (metis prod.collapse)
  from snapshot_may_mix_versions [OF d(1), of "[''k'' \<mapsto> 1]" "''k''" ?P] d(2) e(2,3) show ?thesis
    by (simp add: rules_of_def) blast
qed

end
