(* ===== verification/Row_Filter.thy ===== *)
theory Row_Filter
  imports Table
begin

text \<open>
  The row filters of a sidecar (\<^verbatim>\<open>internal/sidecar/dataperm/filter.go\<close>, \<^verbatim>\<open>render_sql.go\<close>,
  \<^verbatim>\<open>symbolic.go\<close>): selecting the policies of a request's subjects, merging them into one
  condition, resolving the request's attributes, and rendering the result as a parameterised
  SQL fragment or as readable text.

  The specification reads conditions on a row in three-valued logic, as a database does: a
  leaf is true, false or unknown on a row, and a row is visible only if the filter is true.
\<close>

section \<open>The program\<close>

datatype filter_error = RoleError kernel_error | CondError cond_error

type_synonym resolver = "string \<Rightarrow> string \<Rightarrow> (kernel_error, string list) res"
type_synonym attrs = "string \<rightharpoonup> jval"

datatype plan = ModeNoFilter | ModeDenyAll | ModeTree condition

subsection \<open>Selecting and merging\<close>

definition subjectMatches :: "stored \<Rightarrow> string \<Rightarrow> string list \<Rightarrow> bool" where
  "subjectMatches s user roles =
     (if st_subjectType s = SubjectUser then st_subjectID s = user
      else if st_subjectType s = SubjectRole then st_subjectID s \<in> set roles
      else False)"

definition orAll :: "condition list \<Rightarrow> condition" where
  "orAll cs = (if length cs = 1 then cs ! 0 else Cond OpOr cs '''' JNull)"

fun select_loop ::
    "string \<Rightarrow> string list \<Rightarrow> stored list \<Rightarrow> condition list \<Rightarrow> condition list \<Rightarrow>
     (filter_error, condition list \<times> condition list) res" where
  "select_loop user roles [] allow deny = Inr (allow, deny)"
| "select_loop user roles (s # ss) allow deny =
     (if \<not> subjectMatches s user roles then select_loop user roles ss allow deny
      else case st_parseErr s of
             Some err \<Rightarrow> Inl (CondError err)
           | None \<Rightarrow>
               if st_effect s = EffectDeny then select_loop user roles ss allow (deny @ [st_cond s])
               else select_loop user roles ss (allow @ [st_cond s]) deny)"

definition selectAndMerge :: "resolver \<Rightarrow> table \<Rightarrow> string \<Rightarrow> string \<Rightarrow> string \<Rightarrow> (filter_error, plan) res" where
  "selectAndMerge rr t user dm resource =
     (let (b, configured) = Lookup t resource
      in if \<not> configured then Inr ModeNoFilter
         else case rr user dm of
                Inl err \<Rightarrow> Inl (RoleError err)
              | Inr roles \<Rightarrow>
                  (case select_loop user roles b [] [] of
                     Inl err \<Rightarrow> Inl err
                   | Inr (allow, deny) \<Rightarrow>
                       if allow = [] then Inr ModeDenyAll
                       else if deny = [] then Inr (ModeTree (orAll allow))
                       else Inr (ModeTree
                              (Cond OpAnd [orAll allow, Cond OpNot [orAll deny] '''' JNull] '''' JNull))))"

subsection \<open>Resolving attributes\<close>

definition userVarName :: "string \<Rightarrow> string option" where
  "userVarName s = (if hasPrefix s ''$user.'' then Some (drop (length ''$user.'') s) else None)"

fun resolveValue :: "attrs \<Rightarrow> jval \<Rightarrow> (cond_error, jval) res"
  and resolve_list :: "attrs \<Rightarrow> jval list \<Rightarrow> (cond_error, jval list) res" where
  "resolveValue at (JStr s) =
     (case userVarName s of
        None \<Rightarrow> Inr (JStr s)
      | Some name \<Rightarrow> (case at name of None \<Rightarrow> Inl (ErrMissingVar name) | Some v \<Rightarrow> Inr v))"
| "resolveValue at (JArr vs) =
     (case resolve_list at vs of Inl e \<Rightarrow> Inl e | Inr ws \<Rightarrow> Inr (JArr ws))"
| "resolveValue at JNull = Inr JNull"
| "resolveValue at (JBool b) = Inr (JBool b)"
| "resolveValue at (JNum n) = Inr (JNum n)"
| "resolveValue at (JObj kvs) = Inr (JObj kvs)"
| "resolve_list at [] = Inr []"
| "resolve_list at (v # vs) =
     (case resolveValue at v of
        Inl e \<Rightarrow> Inl e
      | Inr w \<Rightarrow> (case resolve_list at vs of Inl e \<Rightarrow> Inl e | Inr ws \<Rightarrow> Inr (w # ws)))"

fun resolveVars :: "attrs \<Rightarrow> condition \<Rightarrow> (cond_error, condition) res"
  and resolve_children :: "attrs \<Rightarrow> condition list \<Rightarrow> (cond_error, condition list) res" where
  "resolveVars at CNil = Inl NilDereference"
| "resolveVars at (Cond op cs f v) =
     (if isLogicalOp op then
        (case resolve_children at cs of Inl e \<Rightarrow> Inl e | Inr cs' \<Rightarrow> Inr (Cond op cs' '''' JNull))
      else
        (case resolveValue at v of Inl e \<Rightarrow> Inl e | Inr w \<Rightarrow> Inr (Cond op [] f w)))"
| "resolve_children at [] = Inr []"
| "resolve_children at (c # cs) =
     (case resolveVars at c of
        Inl e \<Rightarrow> Inl e
      | Inr c' \<Rightarrow> (case resolve_children at cs of Inl e \<Rightarrow> Inl e | Inr cs' \<Rightarrow> Inr (c' # cs')))"

definition buildPlan ::
    "resolver \<Rightarrow> table \<Rightarrow> string \<Rightarrow> string \<Rightarrow> string \<Rightarrow> attrs \<Rightarrow> (filter_error, plan) res" where
  "buildPlan rr t user dm resource at =
     (case selectAndMerge rr t user dm resource of
        Inl err \<Rightarrow> Inl err
      | Inr (ModeTree tree) \<Rightarrow>
          (case resolveVars at tree of
             Inl err \<Rightarrow> Inl (CondError err)
           | Inr resolved \<Rightarrow> Inr (ModeTree resolved))
      | Inr p \<Rightarrow> Inr p)"

datatype raw_result = MatchAll | MatchNone | MatchConditional condition

definition FilterRaw ::
    "resolver \<Rightarrow> table \<Rightarrow> string \<Rightarrow> string \<Rightarrow> string \<Rightarrow> attrs \<Rightarrow> (filter_error, raw_result) res" where
  "FilterRaw rr t user dm resource at =
     (case buildPlan rr t user dm resource at of
        Inl err \<Rightarrow> Inl err
      | Inr ModeNoFilter \<Rightarrow> Inr MatchAll
      | Inr ModeDenyAll \<Rightarrow> Inr MatchNone
      | Inr (ModeTree tree) \<Rightarrow> Inr (MatchConditional tree))"

subsection \<open>Rendering SQL\<close>

definition sqlComparator :: "string \<Rightarrow> string" where
  "sqlComparator op =
     (if op = OpEQ then ''=''
      else if op = OpNE then ''<>''
      else if op = OpGT then ''>''
      else if op = OpGE then ''>=''
      else if op = OpLT then ''<''
      else if op = OpLE then ''<=''
      else if op = OpLike then ''LIKE''
      else if op = OpNotLike then ''NOT LIKE''
      else ''='')"

type_synonym sql_buf = "string \<times> jval list"

definition renderLeaf :: "string \<Rightarrow> string \<Rightarrow> jval \<Rightarrow> sql_buf \<Rightarrow> (cond_error, sql_buf) res" where
  "renderLeaf op field v buf =
     (case buf of (b, args) \<Rightarrow>
        if op = OpIsNull then Inr (b @ field @ '' IS NULL'', args)
        else if op = OpIsNotNull then Inr (b @ field @ '' IS NOT NULL'', args)
        else if op = OpIN \<or> op = OpNotIn then
          (case v of
             JArr arr \<Rightarrow>
               Inr (b @ field @ '' '' @ (if op = OpNotIn then ''NOT IN'' else ''IN'') @ '' ('' @
                      joinStrings '', '' (map (\<lambda>_. ''?'') arr) @ '')'',
                    args @ arr)
           | _ \<Rightarrow> Inl ErrInvalidPolicy)
        else if op = OpBetween then
          (case v of
             JArr arr \<Rightarrow>
               if length arr \<noteq> 2 then Inl ErrInvalidPolicy
               else Inr (b @ field @ '' BETWEEN ? AND ?'', args @ [arr ! 0, arr ! 1])
           | _ \<Rightarrow> Inl ErrInvalidPolicy)
        else Inr (b @ field @ '' '' @ sqlComparator op @ '' ?'', args @ [v]))"

fun renderSQL :: "condition \<Rightarrow> sql_buf \<Rightarrow> (cond_error, sql_buf) res"
  and render_children :: "string \<Rightarrow> bool \<Rightarrow> condition list \<Rightarrow> sql_buf \<Rightarrow> (cond_error, sql_buf) res" where
  "renderSQL CNil buf = Inl NilDereference"
| "renderSQL (Cond op cs field v) buf =
     (if op = OpAnd \<or> op = OpOr then
        (case render_children (if op = OpOr then '' OR '' else '' AND '') True cs (fst buf @ ''('', snd buf) of
           Inl e \<Rightarrow> Inl e
         | Inr (b, args) \<Rightarrow> Inr (b @ '')'', args))
      else if op = OpNot then
        (case cs of
           [] \<Rightarrow> Inl IndexOutOfRange
         | c # _ \<Rightarrow>
             (case renderSQL c (fst buf @ ''NOT ('', snd buf) of
                Inl e \<Rightarrow> Inl e
              | Inr (b, args) \<Rightarrow> Inr (b @ '')'', args)))
      else renderLeaf op field v buf)"
| "render_children sep first [] buf = Inr buf"
| "render_children sep first (c # cs) buf =
     (case renderSQL c (if first then fst buf else fst buf @ sep, snd buf) of
        Inl e \<Rightarrow> Inl e
      | Inr buf' \<Rightarrow> render_children sep False cs buf')"

record sql_result =
  SQL :: string
  Args :: "jval list"

definition FilterSQL ::
    "resolver \<Rightarrow> table \<Rightarrow> string \<Rightarrow> string \<Rightarrow> string \<Rightarrow> attrs \<Rightarrow> (filter_error, sql_result) res" where
  "FilterSQL rr t user dm resource at =
     (case buildPlan rr t user dm resource at of
        Inl err \<Rightarrow> Inl err
      | Inr ModeNoFilter \<Rightarrow> Inr \<lparr>SQL = '''', Args = []\<rparr>
      | Inr ModeDenyAll \<Rightarrow> Inr \<lparr>SQL = ''1=0'', Args = []\<rparr>
      | Inr (ModeTree tree) \<Rightarrow>
          (case renderSQL tree ('''', []) of
             Inl err \<Rightarrow> Inl (CondError err)
           | Inr (b, args) \<Rightarrow> Inr \<lparr>SQL = b, Args = args\<rparr>))"

subsection \<open>Rendering for display\<close>

text \<open>\<open>sprintV\<close> stands for \<^verbatim>\<open>fmt.Sprintf("%v", v)\<close> on the values that are not strings.\<close>

definition symbolicValue :: "(jval \<Rightarrow> string) \<Rightarrow> jval \<Rightarrow> string" where
  "symbolicValue sprintV v =
     (case v of
        JStr s \<Rightarrow> if hasPrefix s ''$user.'' then s else [CHR 0x27] @ s @ [CHR 0x27]
      | _ \<Rightarrow> sprintV v)"

definition symbolicList :: "(jval \<Rightarrow> string) \<Rightarrow> jval \<Rightarrow> string" where
  "symbolicList sprintV v =
     (case v of JArr arr \<Rightarrow> joinStrings '', '' (map (symbolicValue sprintV) arr) | _ \<Rightarrow> '''')"

definition renderSymbolicLeaf :: "(jval \<Rightarrow> string) \<Rightarrow> string \<Rightarrow> string \<Rightarrow> jval \<Rightarrow> string" where
  "renderSymbolicLeaf sprintV op field v =
     (if op = OpIsNull then field @ '' IS NULL''
      else if op = OpIsNotNull then field @ '' IS NOT NULL''
      else if op = OpIN \<or> op = OpNotIn then
        field @ '' '' @ (if op = OpNotIn then ''NOT IN'' else ''IN'') @ '' ('' @ symbolicList sprintV v @ '')''
      else if op = OpBetween then
        (case v of
           JArr arr \<Rightarrow>
             if length arr = 2
             then field @ '' BETWEEN '' @ symbolicValue sprintV (arr ! 0) @ '' AND '' @ symbolicValue sprintV (arr ! 1)
             else field @ '' BETWEEN <invalid>''
         | _ \<Rightarrow> field @ '' BETWEEN <invalid>'')
      else field @ '' '' @ sqlComparator op @ '' '' @ symbolicValue sprintV v)"

fun renderSymbolic :: "(jval \<Rightarrow> string) \<Rightarrow> condition \<Rightarrow> (cond_error, string) res"
  and symbolic_children :: "(jval \<Rightarrow> string) \<Rightarrow> string \<Rightarrow> bool \<Rightarrow> condition list \<Rightarrow> (cond_error, string) res" where
  "renderSymbolic sprintV CNil = Inl NilDereference"
| "renderSymbolic sprintV (Cond op cs field v) =
     (if op = OpAnd \<or> op = OpOr then
        rbind (symbolic_children sprintV (if op = OpOr then '' OR '' else '' AND '') True cs) (\<lambda>b.
          Inr (''('' @ b @ '')''))
      else if op = OpNot then
        (case cs of
           [] \<Rightarrow> Inl IndexOutOfRange
         | c # _ \<Rightarrow> rbind (renderSymbolic sprintV c) (\<lambda>b. Inr (''NOT ('' @ b @ '')'')))
      else Inr (renderSymbolicLeaf sprintV op field v))"
| "symbolic_children sprintV sep first [] = Inr ''''"
| "symbolic_children sprintV sep first (c # cs) =
     rbind (renderSymbolic sprintV c) (\<lambda>b.
     rbind (symbolic_children sprintV sep False cs) (\<lambda>bs.
       Inr ((if first then '''' else sep) @ b @ bs)))"

datatype symbolic_result = SymAll | SymNone | SymConditional string

definition FilterSymbolic ::
    "(jval \<Rightarrow> string) \<Rightarrow> resolver \<Rightarrow> table \<Rightarrow> string \<Rightarrow> string \<Rightarrow> string \<Rightarrow> (filter_error, symbolic_result) res" where
  "FilterSymbolic sprintV rr t user dm resource =
     (case selectAndMerge rr t user dm resource of
        Inl err \<Rightarrow> Inl err
      | Inr ModeNoFilter \<Rightarrow> Inr SymAll
      | Inr ModeDenyAll \<Rightarrow> Inr SymNone
      | Inr (ModeTree tree) \<Rightarrow>
          (case renderSymbolic sprintV tree of
             Inl err \<Rightarrow> Inl (CondError err)
           | Inr b \<Rightarrow> Inr (SymConditional b)))"

section \<open>Conditions on a row\<close>

text \<open>
  \<open>atom\<close> gives the truth of a leaf on the row at hand, \<^const>\<open>None\<close> being unknown.
\<close>

definition k_all :: "bool option list \<Rightarrow> bool option" where
  "k_all bs = (if Some False \<in> set bs then Some False else if None \<in> set bs then None else Some True)"

definition k_not :: "bool option \<Rightarrow> bool option" where
  "k_not b = map_option Not b"

definition k_any :: "bool option list \<Rightarrow> bool option" where
  "k_any bs = k_not (k_all (map k_not bs))"

fun row_eval :: "(string \<Rightarrow> string \<Rightarrow> jval \<Rightarrow> bool option) \<Rightarrow> condition \<Rightarrow> bool option" where
  "row_eval atom CNil = None"
| "row_eval atom (Cond op cs f v) =
     (if op = OpAnd then k_all (map (row_eval atom) cs)
      else if op = OpOr then k_any (map (row_eval atom) cs)
      else if op = OpNot then k_not (k_all (map (row_eval atom) cs))
      else atom op f v)"

text \<open>The truth of a leaf when the request's attributes stand for the variables.\<close>

definition with_attrs ::
    "attrs \<Rightarrow> (string \<Rightarrow> string \<Rightarrow> jval \<Rightarrow> bool option) \<Rightarrow> string \<Rightarrow> string \<Rightarrow> jval \<Rightarrow> bool option" where
  "with_attrs at atom op f v = (case resolveValue at v of Inl _ \<Rightarrow> None | Inr w \<Rightarrow> atom op f w)"

lemma k_all_True: "k_all bs = Some True \<longleftrightarrow> (\<forall>b \<in> set bs. b = Some True)"
  by (auto simp: k_all_def) (metis (full_types) option.exhaust)

lemma k_all_False: "k_all bs = Some False \<longleftrightarrow> Some False \<in> set bs"
  by (auto simp: k_all_def)

lemma k_not_iff: "k_not b = Some x \<longleftrightarrow> b = Some (\<not> x)"
  by (cases b) (auto simp: k_not_def)

lemma k_any_True: "k_any bs = Some True \<longleftrightarrow> Some True \<in> set bs"
  by (auto simp: k_any_def k_not_iff k_all_False image_iff eq_commute [of "Some False"])

lemma k_any_False: "k_any bs = Some False \<longleftrightarrow> (\<forall>b \<in> set bs. b = Some False)"
  by (auto simp: k_any_def k_not_iff k_all_True)

lemma row_eval_orAll: "cs \<noteq> [] \<Longrightarrow> row_eval atom (orAll cs) = k_any (map (row_eval atom) cs)"
proof (cases "length cs = 1")
  case True
  then obtain c where "cs = [c]" by (auto simp: length_Suc_conv)
  then show ?thesis
    by (cases "row_eval atom c") (auto simp: orAll_def k_any_def k_not_def k_all_def)
qed (auto simp: orAll_def op_defs)

lemma resolveVars_eval:
  "resolveVars at c = Inr c' \<Longrightarrow> row_eval atom c' = row_eval (with_attrs at atom) c"
  "resolve_children at cs = Inr cs' \<Longrightarrow> map (row_eval atom) cs' = map (row_eval (with_attrs at atom)) cs"
proof (induction at c and at cs arbitrary: c' and cs' rule: resolveVars_resolve_children.induct)
  case (2 at op cs f v)
  then show ?case
    by (auto simp: isLogicalOp_def with_attrs_def op_defs split: if_splits sum.splits)
qed (auto split: sum.splits)

section \<open>Selection\<close>

definition matching :: "string \<Rightarrow> string list \<Rightarrow> stored list \<Rightarrow> stored list" where
  "matching user roles b = filter (\<lambda>s. subjectMatches s user roles) b"

definition conds_of :: "bool \<Rightarrow> stored list \<Rightarrow> condition list" where
  "conds_of denies ss = map st_cond (filter (\<lambda>s. (st_effect s = EffectDeny) = denies) ss)"

lemma select_loop_Ok:
  "select_loop user roles b allow deny = Inr r \<longleftrightarrow>
     (\<forall>s \<in> set (matching user roles b). st_parseErr s = None) \<and>
     r = (allow @ conds_of False (matching user roles b), deny @ conds_of True (matching user roles b))"
  by (induction b arbitrary: allow deny) (auto simp: matching_def conds_of_def split: option.splits)

lemma select_loop_Err:
  "(\<exists>e. select_loop user roles b allow deny = Inl e) \<longleftrightarrow>
     (\<exists>s \<in> set (matching user roles b). st_parseErr s \<noteq> None)"
  by (induction b arbitrary: allow deny) (auto simp: matching_def split: option.splits)

definition merged :: "condition list \<Rightarrow> condition list \<Rightarrow> condition" where
  "merged allow deny =
     (if deny = [] then orAll allow
      else Cond OpAnd [orAll allow, Cond OpNot [orAll deny] '''' JNull] '''' JNull)"

lemma row_eval_merged:
  assumes "allow \<noteq> []"
  shows "row_eval atom (merged allow deny) = Some True \<longleftrightarrow>
    (\<exists>c \<in> set allow. row_eval atom c = Some True) \<and> (\<forall>c \<in> set deny. row_eval atom c = Some False)"
proof -
  have "row_eval atom (orAll allow) = Some True \<longleftrightarrow> (\<exists>c \<in> set allow. row_eval atom c = Some True)"
    using assms by (auto simp: row_eval_orAll k_any_True image_iff eq_commute [of "Some True"])
  moreover have "row_eval atom (orAll deny) = Some False \<longleftrightarrow> (\<forall>c \<in> set deny. row_eval atom c = Some False)"
    if "deny \<noteq> []"
    using that by (auto simp: row_eval_orAll k_any_False)
  ultimately show ?thesis
    by (auto simp: merged_def k_all_True k_all_False k_not_iff op_defs)
qed

lemma selectAndMerge_Ok:
  "selectAndMerge rr t user dm res = Inr p \<longleftrightarrow>
     (case t res of
        None \<Rightarrow> p = ModeNoFilter
      | Some b \<Rightarrow>
          (\<exists>roles. rr user dm = Inr roles \<and>
             (\<forall>s \<in> set (matching user roles b). st_parseErr s = None) \<and>
             p = (if conds_of False (matching user roles b) = [] then ModeDenyAll
                  else ModeTree (merged (conds_of False (matching user roles b))
                                        (conds_of True (matching user roles b))))))"
proof (cases "t res")
  case None
  then show ?thesis by (auto simp: selectAndMerge_def Lookup_def)
next
  case (Some b)
  show ?thesis
  proof (cases "rr user dm")
    case (Inl e)
    with Some show ?thesis by (simp add: selectAndMerge_def Lookup_def)
  next
    case (Inr roles)
    show ?thesis
    proof (cases "select_loop user roles b [] []")
      case (Inl e)
      then have "\<not> (\<forall>s \<in> set (matching user roles b). st_parseErr s = None)"
        using select_loop_Ok [of user roles b "[]" "[]"] by (auto simp del: select_loop.simps)
      with Inl Inr Some show ?thesis by (auto simp: selectAndMerge_def Lookup_def)
    next
      case (Inr r)
      note sel = Inr [unfolded select_loop_Ok] and run = Inr
      with \<open>rr user dm = Inr roles\<close> Some show ?thesis
        by (auto simp: selectAndMerge_def Lookup_def run merged_def)
    qed
  qed
qed

section \<open>What a filter means\<close>

text \<open>Which rows a result lets through.\<close>

fun row_visible :: "(string \<Rightarrow> string \<Rightarrow> jval \<Rightarrow> bool option) \<Rightarrow> raw_result \<Rightarrow> bool" where
  "row_visible atom MatchAll \<longleftrightarrow> True"
| "row_visible atom MatchNone \<longleftrightarrow> False"
| "row_visible atom (MatchConditional c) \<longleftrightarrow> row_eval atom c = Some True"

definition policy_true where
  "policy_true at atom s \<longleftrightarrow> row_eval (with_attrs at atom) (st_cond s) = Some True"

definition policy_false where
  "policy_false at atom s \<longleftrightarrow> row_eval (with_attrs at atom) (st_cond s) = Some False"

lemma FilterRaw_Ok:
  "FilterRaw rr t user dm res at = Inr r \<longleftrightarrow>
     (\<exists>p. selectAndMerge rr t user dm res = Inr p \<and>
        (case p of ModeNoFilter \<Rightarrow> r = MatchAll | ModeDenyAll \<Rightarrow> r = MatchNone
         | ModeTree c \<Rightarrow> \<exists>c'. resolveVars at c = Inr c' \<and> r = MatchConditional c'))"
  by (auto simp: FilterRaw_def buildPlan_def split: sum.splits plan.splits)

text \<open>
  C10. Whenever a filter is produced for a configured resource, a row passes it exactly if some
  policy that matches the user or one of the user's roles and does not deny is true on the row,
  and every matching deny policy is false on it; an unknown deny hides the row. A resource
  without policies is not filtered.
\<close>

theorem filter_rows:
  assumes "FilterRaw rr t user dm res at = Inr r"
  shows "row_visible atom r \<longleftrightarrow>
    (case t res of
       None \<Rightarrow> True
     | Some b \<Rightarrow>
         (\<exists>roles. rr user dm = Inr roles \<and>
            list_ex (\<lambda>s. st_effect s \<noteq> EffectDeny \<and> policy_true at atom s) (matching user roles b) \<and>
            list_all (\<lambda>s. st_effect s = EffectDeny \<longrightarrow> policy_false at atom s) (matching user roles b)))"
proof (cases "t res")
  case None
  with assms show ?thesis by (auto simp: FilterRaw_Ok selectAndMerge_Ok)
next
  case (Some b)
  then obtain roles where roles: "rr user dm = Inr roles"
    using assms by (auto simp: FilterRaw_Ok selectAndMerge_Ok)
  let ?allow = "conds_of False (matching user roles b)" and ?deny = "conds_of True (matching user roles b)"
  have spec: "(list_ex (\<lambda>s. st_effect s \<noteq> EffectDeny \<and> policy_true at atom s) (matching user roles b) \<and>
      list_all (\<lambda>s. st_effect s = EffectDeny \<longrightarrow> policy_false at atom s) (matching user roles b)) \<longleftrightarrow>
    (\<exists>c \<in> set ?allow. row_eval (with_attrs at atom) c = Some True) \<and>
    (\<forall>c \<in> set ?deny. row_eval (with_attrs at atom) c = Some False)"
    by (auto simp: conds_of_def policy_true_def policy_false_def list_ex_iff list_all_iff)
  show ?thesis
  proof (cases "?allow = []")
    case True
    with assms Some roles have "r = MatchNone" by (auto simp: FilterRaw_Ok selectAndMerge_Ok)
    with spec True Some roles show ?thesis by simp
  next
    case False
    with assms Some roles obtain c' where c': "resolveVars at (merged ?allow ?deny) = Inr c'"
        "r = MatchConditional c'"
      by (auto simp: FilterRaw_Ok selectAndMerge_Ok)
    then have "row_visible atom r \<longleftrightarrow> row_eval (with_attrs at atom) (merged ?allow ?deny) = Some True"
      by (simp add: resolveVars_eval)
    with row_eval_merged [OF False] spec Some roles show ?thesis by simp
  qed
qed

section \<open>When a filter fails\<close>

fun value_vars :: "jval \<Rightarrow> string set" where
  "value_vars (JStr s) = set_option (userVarName s)"
| "value_vars (JArr vs) = (\<Union>v \<in> set vs. value_vars v)"
| "value_vars _ = {}"

fun cond_vars :: "condition \<Rightarrow> string set" where
  "cond_vars CNil = {}"
| "cond_vars (Cond op cs f v) = (if isLogicalOp op then (\<Union>c \<in> set cs. cond_vars c) else value_vars v)"

lemma resolveValue_Ok:
  "(\<exists>w. resolveValue at v = Inr w) \<longleftrightarrow> value_vars v \<subseteq> dom at"
  "(\<exists>ws. resolve_list at vs = Inr ws) \<longleftrightarrow> (\<forall>v \<in> set vs. value_vars v \<subseteq> dom at)"
proof (induction at v and at vs rule: resolveValue_resolve_list.induct)
  case (8 at v vs)
  then show ?case by (cases "resolveValue at v"; cases "resolve_list at vs") auto
qed (auto split: option.splits sum.splits)

lemma resolve_list_length: "resolve_list at vs = Inr ws \<Longrightarrow> length ws = length vs"
  by (induction vs arbitrary: ws) (auto split: sum.splits)

text \<open>The shapes that rendering needs; they survive the resolution of attributes.\<close>

fun renderable :: "condition \<Rightarrow> bool" where
  "renderable CNil \<longleftrightarrow> False"
| "renderable (Cond op cs f v) \<longleftrightarrow>
     (if isLogicalOp op then list_all renderable cs \<and> (op = OpNot \<longrightarrow> cs \<noteq> [])
      else fieldNameRe f \<and>
        (op = OpIN \<or> op = OpNotIn \<longrightarrow> is_array v) \<and>
        (op = OpBetween \<longrightarrow> (\<exists>lo hi. v = JArr [lo, hi])))"

lemma canonical_renderable: "canonical c \<Longrightarrow> renderable c"
proof (induction rule: canonical.induct)
  case (canonical_leaf op f v cs)
  then show ?case
    by (auto simp: leaf_not_logical leaf_shape_def is_array_def op_defs split: if_splits)
qed (auto simp: isLogicalOp_def op_defs list_all_iff)

lemma resolveVars_Ok:
  "renderable c \<Longrightarrow> (\<exists>c'. resolveVars at c = Inr c') \<longleftrightarrow> cond_vars c \<subseteq> dom at"
  "list_all renderable cs \<Longrightarrow>
     (\<exists>cs'. resolve_children at cs = Inr cs') \<longleftrightarrow> (\<forall>c \<in> set cs. cond_vars c \<subseteq> dom at)"
proof (induction at c and at cs rule: resolveVars_resolve_children.induct)
  case (2 at op cs f v)
  then show ?case
    using resolveValue_Ok(1) [of at v] by (auto split: sum.splits if_splits)
next
  case (4 at c cs)
  then show ?case by (cases "resolveVars at c"; cases "resolve_children at cs") auto
qed auto

lemma resolveVars_renderable:
  "renderable c \<Longrightarrow> resolveVars at c = Inr c' \<Longrightarrow> renderable c'"
  "list_all renderable cs \<Longrightarrow> resolve_children at cs = Inr cs' \<Longrightarrow>
     list_all renderable cs' \<and> length cs' = length cs"
proof (induction at c and at cs arbitrary: c' and cs' rule: resolveVars_resolve_children.induct)
  case (2 at op cs f v)
  show ?case
  proof (cases "isLogicalOp op")
    case True
    with 2 show ?thesis by (auto split: sum.splits)
  next
    case False
    with 2 show ?thesis
      by (auto simp: is_array_def length_Suc_conv dest!: resolve_list_length split: sum.splits jval.splits)
  qed
qed (auto split: sum.splits)

section \<open>The text of a filter\<close>

text \<open>The fragment and the arguments of a tree, as functions of the tree alone.\<close>

fun sql_text :: "condition \<Rightarrow> string" where
  "sql_text CNil = ''''"
| "sql_text (Cond op cs f v) =
     (if op = OpAnd then ''('' @ joinStrings '' AND '' (map sql_text cs) @ '')''
      else if op = OpOr then ''('' @ joinStrings '' OR '' (map sql_text cs) @ '')''
      else if op = OpNot then ''NOT ('' @ concat (take 1 (map sql_text cs)) @ '')''
      else if op = OpIsNull then f @ '' IS NULL''
      else if op = OpIsNotNull then f @ '' IS NOT NULL''
      else if op = OpIN \<or> op = OpNotIn then
        f @ '' '' @ (if op = OpNotIn then ''NOT IN'' else ''IN'') @ '' ('' @
          joinStrings '', '' (case v of JArr arr \<Rightarrow> map (\<lambda>_. ''?'') arr | _ \<Rightarrow> []) @ '')''
      else if op = OpBetween then f @ '' BETWEEN ? AND ?''
      else f @ '' '' @ sqlComparator op @ '' ?'')"

fun sql_args :: "condition \<Rightarrow> jval list" where
  "sql_args CNil = []"
| "sql_args (Cond op cs f v) =
     (if op = OpAnd \<or> op = OpOr then concat (map sql_args cs)
      else if op = OpNot then concat (take 1 (map sql_args cs))
      else if op = OpIsNull \<or> op = OpIsNotNull then []
      else if op = OpIN \<or> op = OpNotIn \<or> op = OpBetween then (case v of JArr arr \<Rightarrow> arr | _ \<Rightarrow> [])
      else [v])"

lemma op_distinct [simp]:
  "OpAnd \<noteq> OpOr" "OpAnd \<noteq> OpNot" "OpOr \<noteq> OpAnd" "OpOr \<noteq> OpNot" "OpNot \<noteq> OpAnd" "OpNot \<noteq> OpOr"
  "isLogicalOp OpAnd" "isLogicalOp OpOr" "isLogicalOp OpNot"
  by (simp_all add: isLogicalOp_def op_defs)

lemma joinStrings_Cons: "joinStrings sep (x # xs) = x @ concat (map (\<lambda>y. sep @ y) xs)"
  by (induction xs arbitrary: x) auto

lemma renderLeaf_text:
  assumes "\<not> isLogicalOp op"
    and "op = OpIN \<or> op = OpNotIn \<longrightarrow> is_array v" and "op = OpBetween \<longrightarrow> (\<exists>lo hi. v = JArr [lo, hi])"
  shows "renderLeaf op f v buf =
    Inr (fst buf @ sql_text (Cond op cs f v), snd buf @ sql_args (Cond op cs f v))"
proof -
  have "op \<noteq> OpAnd" "op \<noteq> OpOr" "op \<noteq> OpNot" using assms(1) by (auto simp: isLogicalOp_def)
  then show ?thesis
    using assms(2,3) by (auto simp: renderLeaf_def is_array_def split: prod.splits jval.splits)
qed

lemma renderSQL_text:
  "renderable c \<Longrightarrow> renderSQL c buf = Inr (fst buf @ sql_text c, snd buf @ sql_args c)"
  "list_all renderable cs \<Longrightarrow> render_children sep first cs buf =
     Inr (fst buf @ (if first then joinStrings sep (map sql_text cs) else concat (map (\<lambda>c. sep @ sql_text c) cs)),
          snd buf @ concat (map sql_args cs))"
proof (induction c buf and sep first cs buf rule: renderSQL_render_children.induct)
  case (2 op cs field v buf)
  show ?case
  proof (cases "isLogicalOp op")
    case True
    then consider "op = OpAnd" | "op = OpOr" | c cs' where "op = OpNot" "cs = c # cs'"
      using "2.prems" by (cases cs) (auto simp: isLogicalOp_def)
    then show ?thesis
    proof cases
      case 1
      with "2.IH" "2.prems" show ?thesis by simp
    next
      case 2
      with "2.IH" "2.prems" show ?thesis by simp
    next
      case 3
      with "2.IH" "2.prems" show ?thesis by simp
    qed
  next
    case False
    with "2.prems" have "op \<noteq> OpAnd" "op \<noteq> OpOr" "op \<noteq> OpNot" by (auto simp: isLogicalOp_def)
    then show ?thesis
      using "2.prems" renderLeaf_text [OF False, of v field buf cs] False by simp
  qed
next
  case (4 sep first c cs buf)
  then show ?case by (auto simp: joinStrings_Cons comp_def)
qed auto

section \<open>Filters over a table of parsed policies\<close>

lemma holds_stored:
  assumes "holds_policies t ps" "t res = Some b" "s \<in> set b"
  shows "st_parseErr s = None \<longleftrightarrow> canonical (st_cond s)"
proof -
  obtain p where p: "p \<in> set ps" "s = the (toStored p)" "parses p"
    using assms by (auto simp: holds_policies_def policies_for_def list_all_iff split: if_splits)
  then obtain s' where "toStored p = Some s'" by (auto simp: parses_def)
  with p show ?thesis
    by (auto simp: toStored_def Let_def intro: parseCondition_canonical
        split: prod.splits bool.splits sum.splits cond_error.splits)
qed

lemma orAll_renderable: "cs \<noteq> [] \<Longrightarrow> list_all renderable cs \<Longrightarrow> renderable (orAll cs)"
  by (auto simp: orAll_def length_Suc_conv)

lemma orAll_vars: "cs \<noteq> [] \<Longrightarrow> cond_vars (orAll cs) = (\<Union>c \<in> set cs. cond_vars c)"
  by (auto simp: orAll_def length_Suc_conv)

lemma merged_renderable:
  "allow \<noteq> [] \<Longrightarrow> list_all renderable allow \<Longrightarrow> list_all renderable deny \<Longrightarrow> renderable (merged allow deny)"
  by (simp add: merged_def orAll_renderable)

lemma merged_vars:
  "allow \<noteq> [] \<Longrightarrow> cond_vars (merged allow deny) = (\<Union>c \<in> set allow \<union> set deny. cond_vars c)"
  by (simp add: merged_def orAll_vars)

lemma conds_of_renderable:
  assumes "holds_policies t ps" "t res = Some b" "\<forall>s \<in> set (matching user roles b). st_parseErr s = None"
  shows "list_all renderable (conds_of d (matching user roles b))"
proof -
  have "renderable (st_cond s)" if "s \<in> set (matching user roles b)" for s
    using holds_stored [OF assms(1,2), of s] assms(3) that canonical_renderable
    by (auto simp: matching_def)
  then show ?thesis by (auto simp: conds_of_def list_all_iff)
qed

lemma conds_of_vars:
  "(\<Union>c \<in> set (conds_of False ss) \<union> set (conds_of True ss). cond_vars c) = (\<Union>s \<in> set ss. cond_vars (st_cond s))"
  by (auto simp: conds_of_def)

lemma conds_of_Nil: "conds_of False ss = [] \<longleftrightarrow> \<not> list_ex (\<lambda>s. st_effect s \<noteq> EffectDeny) ss"
  by (induction ss) (auto simp: conds_of_def)

text \<open>Why a request for a configured resource is refused a filter.\<close>

definition refused :: "attrs \<Rightarrow> stored list \<Rightarrow> bool" where
  "refused at ss \<longleftrightarrow>
     list_ex (\<lambda>s. st_parseErr s \<noteq> None) ss \<or>
     list_ex (\<lambda>s. st_effect s \<noteq> EffectDeny) ss \<and> list_ex (\<lambda>s. \<not> cond_vars (st_cond s) \<subseteq> dom at) ss"

lemma holds_configured: "holds_policies t ps \<Longrightarrow> t res = None \<longleftrightarrow> policies_for res ps = []"
  by (auto simp: holds_policies_def)

lemma FilterRaw_fails_iff:
  assumes "holds_policies t ps" "t res = Some b" "rr user dm = Inr roles"
  shows "(\<exists>e. FilterRaw rr t user dm res at = Inl e) \<longleftrightarrow> refused at (matching user roles b)"
proof -
  let ?m = "matching user roles b"
  have "(\<exists>e. FilterRaw rr t user dm res at = Inl e) \<longleftrightarrow> (\<nexists>r. FilterRaw rr t user dm res at = Inr r)"
    by (cases "FilterRaw rr t user dm res at") auto
  also have "\<dots> \<longleftrightarrow> refused at ?m"
  proof (cases "(\<forall>s \<in> set ?m. st_parseErr s = None) \<and> conds_of False ?m \<noteq> []")
    case True
    then have "renderable (merged (conds_of False ?m) (conds_of True ?m))"
      using conds_of_renderable [OF assms(1,2)] by (simp add: merged_renderable)
    moreover have "cond_vars (merged (conds_of False ?m) (conds_of True ?m)) =
        (\<Union>s \<in> set ?m. cond_vars (st_cond s))"
      using True merged_vars conds_of_vars by metis
    ultimately have "(\<exists>c'. resolveVars at (merged (conds_of False ?m) (conds_of True ?m)) = Inr c') \<longleftrightarrow>
        (\<Union>s \<in> set ?m. cond_vars (st_cond s)) \<subseteq> dom at"
      using resolveVars_Ok(1) by metis
    with True assms show ?thesis
      by (auto simp: FilterRaw_Ok selectAndMerge_Ok refused_def list_ex_iff conds_of_Nil)
  next
    case False
    with assms show ?thesis
      by (auto simp: FilterRaw_Ok selectAndMerge_Ok refused_def list_ex_iff conds_of_Nil)
  qed
  finally show ?thesis .
qed

lemma FilterSQL_Ok:
  assumes "holds_policies t ps"
  shows "FilterSQL rr t user dm res at =
    (case FilterRaw rr t user dm res at of
       Inl e \<Rightarrow> Inl e
     | Inr MatchAll \<Rightarrow> Inr \<lparr>SQL = '''', Args = []\<rparr>
     | Inr MatchNone \<Rightarrow> Inr \<lparr>SQL = ''1=0'', Args = []\<rparr>
     | Inr (MatchConditional c) \<Rightarrow> Inr \<lparr>SQL = sql_text c, Args = sql_args c\<rparr>)"
proof (cases "buildPlan rr t user dm res at")
  case (Inl e)
  then show ?thesis by (simp add: FilterSQL_def FilterRaw_def)
next
  case (Inr p)
  show ?thesis
  proof (cases p)
    case (ModeTree c)
    then obtain c0 where c0: "selectAndMerge rr t user dm res = Inr (ModeTree c0)" "resolveVars at c0 = Inr c"
      using Inr by (auto simp: buildPlan_def split: sum.splits plan.splits)
    then have "renderable c0"
      using conds_of_renderable [OF assms]
      by (auto simp: selectAndMerge_Ok merged_renderable split: option.splits if_splits)
    then have "renderable c" using c0(2) resolveVars_renderable(1) by blast
    with Inr ModeTree show ?thesis by (simp add: FilterSQL_def FilterRaw_def renderSQL_text)
  qed (use Inr in \<open>simp_all add: FilterSQL_def FilterRaw_def\<close>)
qed


section \<open>The rendered fragment\<close>

definition sql_char :: "char \<Rightarrow> bool" where
  "sql_char c \<longleftrightarrow> is_letter c \<or> is_digit c \<or> c \<in> set '' (),?=<>''"

text \<open>Fragments over the safe alphabet, and how many placeholders a fragment has.\<close>

definition safe_sql :: "string \<Rightarrow> bool" where
  "safe_sql s = list_all sql_char s"

definition holes :: "string \<Rightarrow> nat" where
  "holes s = count_list s CHR ''?''"

lemma safe_sql_simps [simp]:
  "safe_sql []" "safe_sql (c # s) \<longleftrightarrow> sql_char c \<and> safe_sql s" "safe_sql (s @ t) \<longleftrightarrow> safe_sql s \<and> safe_sql t"
  by (simp_all add: safe_sql_def)

lemma holes_simps [simp]:
  "holes [] = 0" "holes (c # s) = (if c = CHR ''?'' then 1 else 0) + holes s" "holes (s @ t) = holes s + holes t"
  by (simp_all add: holes_def)

lemma sql_char_literals [simp]:
  "sql_char CHR '' ''" "sql_char CHR ''(''" "sql_char CHR '')''" "sql_char CHR '',''" "sql_char CHR ''0''" "sql_char CHR ''1''" "sql_char CHR ''<''" "sql_char CHR ''=''" "sql_char CHR ''>''" "sql_char CHR ''?''" "sql_char CHR ''A''" "sql_char CHR ''B''" "sql_char CHR ''D''" "sql_char CHR ''E''" "sql_char CHR ''I''" "sql_char CHR ''K''" "sql_char CHR ''L''" "sql_char CHR ''N''" "sql_char CHR ''O''" "sql_char CHR ''R''" "sql_char CHR ''S''" "sql_char CHR ''T''" "sql_char CHR ''U''" "sql_char CHR ''W''"
  by code_simp+

lemma safe_sql_join: "safe_sql sep \<Longrightarrow> (\<And>s. s \<in> set xs \<Longrightarrow> safe_sql s) \<Longrightarrow> safe_sql (joinStrings sep xs)"
  by (induction sep xs rule: joinStrings.induct) auto

lemma holes_join: "holes sep = 0 \<Longrightarrow> holes (joinStrings sep xs) = sum_list (map holes xs)"
  by (induction sep xs rule: joinStrings.induct) auto

lemma safe_sql_field: "fieldNameRe f \<Longrightarrow> safe_sql f"
  by (auto simp: fieldNameRe_def safe_sql_def sql_char_def list_all_iff split: list.splits)

lemma holes_field: "fieldNameRe f \<Longrightarrow> holes f = 0"
proof -
  have "\<not> is_letter CHR ''?''" "\<not> is_digit CHR ''?''" by code_simp+
  then have "CHR ''?'' \<notin> set f" if "fieldNameRe f"
    using that by (auto simp: fieldNameRe_def list_all_iff split: list.splits)
  then show "fieldNameRe f \<Longrightarrow> holes f = 0" by (simp add: holes_def count_list_0_iff)
qed

lemma comparator_safe [simp]: "safe_sql (sqlComparator op)" "holes (sqlComparator op) = 0"
proof -
  have "sqlComparator op \<in> set [''='', ''<>'', ''>'', ''>='', ''<'', ''<='', ''LIKE'', ''NOT LIKE'']"
    by (simp add: sqlComparator_def)
  moreover have "list_all (\<lambda>s. safe_sql s \<and> holes s = 0) [''='', ''<>'', ''>'', ''>='', ''<'', ''<='', ''LIKE'', ''NOT LIKE'']"
    by simp
  ultimately show "safe_sql (sqlComparator op)" "holes (sqlComparator op) = 0"
    unfolding list_all_iff by blast+
qed

lemma placeholders:
  "safe_sql (joinStrings '', '' (map (\<lambda>_. ''?'') arr))" "holes (joinStrings '', '' (map (\<lambda>_. ''?'') arr)) = length arr"
  by (auto simp: holes_join comp_def sum_list_triv intro!: safe_sql_join)

lemma sql_leaf:
  assumes "\<not> isLogicalOp op" "renderable (Cond op cs f v)"
  shows "safe_sql (sql_text (Cond op cs f v)) \<and>
    holes (sql_text (Cond op cs f v)) = length (sql_args (Cond op cs f v))"
proof -
  have op: "op \<noteq> OpAnd" "op \<noteq> OpOr" "op \<noteq> OpNot" using assms(1) by (auto simp: isLogicalOp_def)
  have f: "safe_sql f" "holes f = 0" using assms safe_sql_field holes_field by simp_all
  consider "op = OpIN \<or> op = OpNotIn" | "op \<noteq> OpIN" "op \<noteq> OpNotIn" "op = OpBetween"
    | "op \<noteq> OpIN" "op \<noteq> OpNotIn" "op \<noteq> OpBetween" by blast
  then show ?thesis
  proof cases
    case 1
    then obtain arr where v: "v = JArr arr" using assms by (auto simp: is_array_def split: jval.splits)
    have "op \<noteq> OpIsNull" "op \<noteq> OpIsNotNull" using 1 by (auto simp: op_defs)
    with 1 v op f show ?thesis by (auto simp: placeholders)
  next
    case 2
    then obtain lo hi where v: "v = JArr [lo, hi]" using assms by auto
    have "op \<noteq> OpIsNull" "op \<noteq> OpIsNotNull" using 2 by (auto simp: op_defs)
    with 2 v op f show ?thesis by simp
  next
    case 3
    with op f show ?thesis by simp
  qed
qed

lemma sql_text_shape:
  "renderable c \<Longrightarrow> safe_sql (sql_text c) \<and> holes (sql_text c) = length (sql_args c)"
proof (induction c)
  case (Cond op cs f v)
  show ?case
  proof (cases "isLogicalOp op")
    case True
    with Cond have IH: "safe_sql (sql_text c)" "holes (sql_text c) = length (sql_args c)" if "c \<in> set cs" for c
      using that by (auto simp: list_all_iff)
    then have sum: "sum_list (map (holes \<circ> sql_text) cs) = sum_list (map (length \<circ> sql_args) cs)"
      by (intro arg_cong [of _ _ sum_list] map_cong) auto
    have join: "safe_sql (joinStrings sep (map sql_text cs))"
        "holes (joinStrings sep (map sql_text cs)) = length (concat (map sql_args cs))"
      if "safe_sql sep" "holes sep = 0" for sep
      using that IH sum by (auto simp: holes_join length_concat intro!: safe_sql_join)
    from True consider "op = OpAnd" | "op = OpOr" | c cs' where "op = OpNot" "cs = c # cs'"
      using Cond.prems by (cases cs) (auto simp: isLogicalOp_def)
    then show ?thesis using join IH by cases simp_all
  next
    case False
    with Cond.prems show ?thesis by (rule sql_leaf [rotated])
  qed
qed simp

text \<open>The fragment depends on the shape of the tree only: attributes decide the arguments.\<close>

lemma resolve_text:
  "renderable c \<Longrightarrow> resolveVars at c = Inr c' \<Longrightarrow> sql_text c' = sql_text c"
  "list_all renderable cs \<Longrightarrow> resolve_children at cs = Inr cs' \<Longrightarrow> map sql_text cs' = map sql_text cs"
proof (induction at c and at cs arbitrary: c' and cs' rule: resolveVars_resolve_children.induct)
  case (2 at op cs f v)
  show ?case
  proof (cases "isLogicalOp op")
    case True
    with 2 obtain cs' where "c' = Cond op cs' '''' JNull" "map sql_text cs' = map sql_text cs"
      by (auto split: sum.splits)
    with True show ?thesis by (auto simp: isLogicalOp_def)
  next
    case False
    with 2 obtain w where w: "c' = Cond op [] f w" "resolveValue at v = Inr w" by (auto split: sum.splits)
    have "(case w of JArr arr \<Rightarrow> map (\<lambda>_. ''?'') arr | _ \<Rightarrow> []) = (case v of JArr arr \<Rightarrow> map (\<lambda>_. ''?'') arr | _ \<Rightarrow> [])"
      if "is_array v"
      using that w(2) resolve_list_length [of at]
      by (cases v) (auto simp: is_array_def map_replicate_const split: sum.splits)
    with False w "2.prems" show ?thesis
      by (auto simp: isLogicalOp_def)
  qed
qed (auto split: sum.splits)

lemma FilterSQL_text:
  assumes "holds_policies t ps" "FilterSQL rr t user dm res at = Inr r"
  shows "\<exists>p. selectAndMerge rr t user dm res = Inr p \<and>
    SQL r = (case p of ModeNoFilter \<Rightarrow> '''' | ModeDenyAll \<Rightarrow> ''1=0'' | ModeTree c \<Rightarrow> sql_text c) \<and>
    safe_sql (SQL r) \<and> holes (SQL r) = length (Args r)"
proof -
  obtain raw where raw: "FilterRaw rr t user dm res at = Inr raw"
    using assms by (auto simp: FilterSQL_Ok split: sum.splits)
  then obtain p where p: "selectAndMerge rr t user dm res = Inr p"
      "case p of ModeNoFilter \<Rightarrow> raw = MatchAll | ModeDenyAll \<Rightarrow> raw = MatchNone
       | ModeTree c \<Rightarrow> \<exists>c'. resolveVars at c = Inr c' \<and> raw = MatchConditional c'"
    by (auto simp: FilterRaw_Ok)
  show ?thesis
  proof (cases p)
    case (ModeTree c)
    then have "renderable c"
      using p(1) conds_of_renderable [OF assms(1)]
      by (auto simp: selectAndMerge_Ok merged_renderable split: option.splits if_splits)
    moreover obtain c' where "resolveVars at c = Inr c'" "raw = MatchConditional c'"
      using p(2) ModeTree by auto
    ultimately show ?thesis
      using assms raw p(1) ModeTree sql_text_shape [of c'] resolve_text(1) [of c at c']
        resolveVars_renderable(1) [of c at c']
      by (auto simp: FilterSQL_Ok)
  qed (use assms raw p in \<open>auto simp: FilterSQL_Ok\<close>)
qed

text \<open>
  C12. The SQL fragment of a filter over accepted policies is written in letters, digits,
  underscores, spaces, parentheses, commas, comparison signs and placeholders only, has exactly
  one placeholder per argument, and does not depend on the request's attributes: no value a
  caller or a policy supplies reaches the text.
\<close>

theorem sql_values_stay_out:
  assumes "holds_policies t ps"
    and "FilterSQL rr t user dm res at = Inr r" and "FilterSQL rr t user dm res at' = Inr r'"
  shows "SQL r = SQL r' \<and> list_all sql_char (SQL r) \<and> count_list (SQL r) CHR ''?'' = length (Args r)"
  using FilterSQL_text [OF assms(1,2)] FilterSQL_text [OF assms(1,3)]
  by (auto simp: safe_sql_def holes_def)

text \<open>A table for the witnesses: the demo policy, which allows clerks.\<close>

definition demo_table :: table where
  "demo_table = [''order'' \<mapsto> [the (toStored demo_policy)]]"

lemma demo_table_holds: "holds_policies demo_table [demo_policy]"
proof -
  have "kdp_Resource demo_policy = ''order''" by (simp add: demo_policy_def)
  then show ?thesis by (simp add: holds_policies_def demo_parses demo_table_def policies_for_def)
qed

lemma demo_table_eq:
  "demo_table = [''order'' \<mapsto> [\<lparr>st_id = 1, st_subjectType = ''role'', st_subjectID = ''clerk'',
     st_effect = ''allow'', st_cond = Cond ''IS_NOT_NULL'' [] ''dept'' JNull, st_parseErr = None\<rparr>]]"
proof -
  have "demo_policy = demo_policy\<lparr>kdp_Effect := ''allow''\<rparr>" by (simp add: demo_policy_def)
  then have "toStored demo_policy = toStored (demo_policy\<lparr>kdp_Effect := ''allow''\<rparr>)" by simp
  then show ?thesis
    by (simp add: demo_table_def toStored_demo normalizeEffect_def EffectAllow_def)
qed

theorem filter_rows_witness:
  "FilterRaw (\<lambda>_ _. Inr [''clerk'']) demo_table ''bob'' ''shop'' ''order'' Map.empty =
     Inr (MatchConditional (Cond ''IS_NOT_NULL'' [] ''dept'' JNull)) \<and>
   row_visible (\<lambda>op f v. Some True) (MatchConditional (Cond ''IS_NOT_NULL'' [] ''dept'' JNull)) \<and>
   \<not> row_visible (\<lambda>op f v. None) (MatchConditional (Cond ''IS_NOT_NULL'' [] ''dept'' JNull))"
proof -
  have ok: "FilterRaw (\<lambda>_ _. Inr [''clerk'']) demo_table ''bob'' ''shop'' ''order'' Map.empty =
     Inr (MatchConditional (Cond ''IS_NOT_NULL'' [] ''dept'' JNull))"
    unfolding demo_table_eq by code_simp
  show ?thesis
    using ok filter_rows [OF ok, of "\<lambda>op f v. Some True"] filter_rows [OF ok, of "\<lambda>op f v. None"]
    by (simp add: demo_table_eq matching_def subjectMatches_def SubjectUser_def SubjectRole_def
        policy_true_def policy_false_def EffectDeny_def with_attrs_def op_defs)
qed


theorem sql_values_stay_out_witness:
  "\<exists>r. FilterSQL (\<lambda>_ _. Inr [''clerk'']) demo_table ''bob'' ''shop'' ''order'' Map.empty = Inr r \<and>
     SQL r = ''dept IS NOT NULL'' \<and> count_list (SQL r) CHR ''?'' = length (Args r)"
proof -
  let ?r = "\<lparr>SQL = ''dept IS NOT NULL'', Args = []\<rparr>"
  have ok: "FilterSQL (\<lambda>_ _. Inr [''clerk'']) demo_table ''bob'' ''shop'' ''order'' Map.empty = Inr ?r"
    unfolding demo_table_eq by code_simp
  from sql_values_stay_out [OF demo_table_holds ok ok] ok show ?thesis by simp
qed

end
