(* ===== verification/Authorizer.thy ===== *)
theory Authorizer
  imports Sync_Client Row_Filter
begin

text \<open>
  The data-plane entry of a sidecar (\<^verbatim>\<open>internal/sidecar/authz\<close>): the staleness guard in front of
  the kernel and the row filters, and the gRPC handlers that map every failure to a status
  code. Times are nanoseconds; a difference of times saturates as \<^verbatim>\<open>time.Time.Sub\<close> does. The
  encoding of SQL arguments as protobuf values (\<open>encode\<close>) and the relay of reported permission
  points are parameters. A table lost to a panic (\<^const>\<open>None\<close>) answers no filter.
\<close>

section \<open>The program\<close>

datatype authz_error =
    ErrTooStale
  | KernelErr kernel_error
  | DataErr cond_error

record ('ce, 't) authorizer =
  a_client :: "('ce, 't) sync_client"
  a_domain :: string
  a_maxStaleness :: int

definition authz_New :: "('ce, 't) sync_client \<Rightarrow> int \<Rightarrow> ('ce, 't) authorizer" where
  "authz_New c ms = \<lparr>a_client = c, a_domain = e_domain (sc_engine c), a_maxStaleness = ms\<rparr>"

definition checkFresh :: "int \<Rightarrow> ('ce, 't) authorizer \<Rightarrow> authz_error option" where
  "checkFresh now a =
     (if \<not> e_ready (sc_engine (a_client a)) then Some (KernelErr ErrNotReady)
      else if a_maxStaleness a > 0 \<and>
              (sc_lastSyncAt (a_client a) = 0 \<or>
               time_Sub now (sc_lastSyncAt (a_client a)) > a_maxStaleness a)
      then Some ErrTooStale
      else None)"

definition with_engine :: "('ce, 't) authorizer \<Rightarrow> ('ce, 't) engine \<Rightarrow> ('ce, 't) authorizer" where
  "with_engine a e = a\<lparr>a_client := (a_client a)\<lparr>sc_engine := e\<rparr>\<rparr>"

definition authz_Check ::
    "'ce casbin \<Rightarrow> int \<Rightarrow> ('ce, 't) authorizer \<Rightarrow> string \<Rightarrow> string \<Rightarrow> string \<Rightarrow>
     (authz_error, bool) res \<times> ('ce, 't) authorizer" where
  "authz_Check C now a subject object action =
     (case checkFresh now a of
        Some err \<Rightarrow> (Inl err, a)
      | None \<Rightarrow>
          (case Engine_Enforce C (sc_engine (a_client a)) subject (a_domain a) object action of
             (Inl err, e) \<Rightarrow> (Inl (KernelErr err), with_engine a e)
           | (Inr b, e) \<Rightarrow> (Inr b, with_engine a e)))"

record check_req =
  cr_Subject :: string
  cr_Object :: string
  cr_Action :: string

definition authz_BatchCheck ::
    "'ce casbin \<Rightarrow> int \<Rightarrow> ('ce, 't) authorizer \<Rightarrow> check_req list \<Rightarrow>
     (authz_error, bool list) res \<times> ('ce, 't) authorizer" where
  "authz_BatchCheck C now a reqs =
     (case checkFresh now a of
        Some err \<Rightarrow> (Inl err, a)
      | None \<Rightarrow>
          (case Engine_BatchEnforce C (sc_engine (a_client a))
                  (map (\<lambda>r. [cr_Subject r, a_domain a, cr_Object r, cr_Action r]) reqs) of
             (_, Some err, e) \<Rightarrow> (Inl (KernelErr err), with_engine a e)
           | (bs, None, e) \<Rightarrow> (Inr bs, with_engine a e)))"

fun lift_filter_error :: "filter_error \<Rightarrow> authz_error" where
  "lift_filter_error (RoleError err) = KernelErr err"
| "lift_filter_error (CondError err) = DataErr err"

definition authz_FilterSQL ::
    "'ce casbin \<Rightarrow> int \<Rightarrow> ('ce, table option) authorizer \<Rightarrow> string \<Rightarrow> string \<Rightarrow> attrs \<Rightarrow> (authz_error, sql_result) res" where
  "authz_FilterSQL C now a subject resource at =
     (case checkFresh now a of
        Some err \<Rightarrow> Inl err
      | None \<Rightarrow>
          (case e_applier (sc_engine (a_client a)) of
             None \<Rightarrow> Inl (DataErr NilDereference)
           | Some t \<Rightarrow>
               (case FilterSQL (Engine_GetImplicitRolesForUser C (sc_engine (a_client a)))
                       t subject (a_domain a) resource at of
                  Inl err \<Rightarrow> Inl (lift_filter_error err)
                | Inr r \<Rightarrow> Inr r)))"

definition authz_FilterRaw ::
    "'ce casbin \<Rightarrow> int \<Rightarrow> ('ce, table option) authorizer \<Rightarrow> string \<Rightarrow> string \<Rightarrow> attrs \<Rightarrow> (authz_error, raw_result) res" where
  "authz_FilterRaw C now a subject resource at =
     (case checkFresh now a of
        Some err \<Rightarrow> Inl err
      | None \<Rightarrow>
          (case e_applier (sc_engine (a_client a)) of
             None \<Rightarrow> Inl (DataErr NilDereference)
           | Some t \<Rightarrow>
               (case FilterRaw (Engine_GetImplicitRolesForUser C (sc_engine (a_client a)))
                       t subject (a_domain a) resource at of
                  Inl err \<Rightarrow> Inl (lift_filter_error err)
                | Inr r \<Rightarrow> Inr r)))"

section \<open>The gRPC handlers\<close>

fun authz_toStatus :: "authz_error \<Rightarrow> grpc_code" where
  "authz_toStatus (KernelErr ErrNotReady) = Unavailable"
| "authz_toStatus ErrTooStale = Unavailable"
| "authz_toStatus (DataErr (ErrMissingVar _)) = InvalidArgument"
| "authz_toStatus (DataErr ErrInvalidPolicy) = FailedPrecondition"
| "authz_toStatus (KernelErr ErrForeignDomain) = Internal"
| "authz_toStatus _ = Internal"

definition Server_Check ::
    "'ce casbin \<Rightarrow> int \<Rightarrow> ('ce, 't) authorizer \<Rightarrow> string \<Rightarrow> string \<Rightarrow> string \<Rightarrow>
     (grpc_code, bool) res \<times> ('ce, 't) authorizer" where
  "Server_Check C now a subject object action =
     (case authz_Check C now a subject object action of
        (Inl err, a') \<Rightarrow> (Inl (authz_toStatus err), a')
      | (Inr allowed, a') \<Rightarrow> (Inr allowed, a'))"

definition Server_BatchCheck ::
    "'ce casbin \<Rightarrow> int \<Rightarrow> ('ce, 't) authorizer \<Rightarrow> check_req list \<Rightarrow>
     (grpc_code, bool list) res \<times> ('ce, 't) authorizer" where
  "Server_BatchCheck C now a reqs =
     (case authz_BatchCheck C now a reqs of
        (Inl err, a') \<Rightarrow> (Inl (authz_toStatus err), a')
      | (Inr allowed, a') \<Rightarrow> (Inr allowed, a'))"

definition Server_FilterSQL ::
    "(jval \<Rightarrow> 'pb option) \<Rightarrow> 'ce casbin \<Rightarrow> int \<Rightarrow> ('ce, table option) authorizer \<Rightarrow> string \<Rightarrow> string \<Rightarrow> attrs \<Rightarrow>
     (grpc_code, string \<times> 'pb list) res" where
  "Server_FilterSQL encode C now a subject resource at =
     (case authz_FilterSQL C now a subject resource at of
        Inl err \<Rightarrow> Inl (authz_toStatus err)
      | Inr r \<Rightarrow>
          (case mapM (\<lambda>v. case encode v of None \<Rightarrow> Inl Internal | Some p \<Rightarrow> Inr p) (Args r) of
             Inl st \<Rightarrow> Inl st
           | Inr pbs \<Rightarrow> Inr (SQL r, pbs)))"

record permission_point =
  pp_Code :: string
  pp_Resource :: string
  pp_Action :: string
  pp_Type :: string
  pp_Name :: string
  pp_Description :: string

definition Server_ReportPermissions ::
    "(permission_point list \<Rightarrow> (unit, nat \<times> nat) res) \<Rightarrow> permission_point list \<Rightarrow>
     (grpc_code, 32 word \<times> 32 word) res" where
  "Server_ReportPermissions relay points =
     (case relay points of
        Inl _ \<Rightarrow> Inl Unavailable
      | Inr (up, sk) \<Rightarrow> Inr (of_nat up, of_nat sk))"

section \<open>The guard\<close>

definition stale :: "int \<Rightarrow> int \<Rightarrow> ('ce, 't) sync_client \<Rightarrow> bool" where
  "stale now ms c \<longleftrightarrow>
     0 < ms \<and> (sc_lastSyncAt c = 0 \<or> ms < min (2 ^ 63 - 1) (now - sc_lastSyncAt c))"

lemma checkFresh_New:
  "checkFresh now (authz_New c ms) =
     (if \<not> e_ready (sc_engine c) then Some (KernelErr ErrNotReady)
      else if stale now ms c then Some ErrTooStale else None)"
  by (auto simp: checkFresh_def authz_New_def stale_def time_Sub_def)

lemma checkFresh_refuses:
  assumes "\<not> e_ready (sc_engine c) \<or> stale now ms c"
  shows "\<exists>err. checkFresh now (authz_New c ms) = Some err \<and> authz_toStatus err = Unavailable"
  using assms by (cases "e_ready (sc_engine c)") (simp_all add: checkFresh_New)

text \<open>
  A sidecar whose kernel is not ready, or whose last proof of synchronisation is older
  than the configured limit, answers every check, batch and filter with \<^const>\<open>Unavailable\<close>, and
  answering changes nothing: no caller is told allowed or denied.
\<close>

theorem unfresh_sidecar_decides_nothing:
  assumes "\<not> e_ready (sc_engine c) \<or> stale now ms c"
  shows "Server_Check C now (authz_New c ms) sub obj act = (Inl Unavailable, authz_New c ms) \<and>
    Server_BatchCheck C now (authz_New c ms) reqs = (Inl Unavailable, authz_New c ms) \<and>
    (\<forall>res at. Server_FilterSQL encode C now (authz_New c ms) sub res at = Inl Unavailable) \<and>
    (\<forall>res at. \<exists>err. authz_FilterRaw C now (authz_New c ms) sub res at = Inl err \<and> authz_toStatus err = Unavailable)"
proof -
  obtain err where err: "checkFresh now (authz_New c ms) = Some err" "authz_toStatus err = Unavailable"
    using assms checkFresh_refuses by blast
  then show ?thesis
    by (simp add: Server_Check_def authz_Check_def Server_BatchCheck_def authz_BatchCheck_def
        Server_FilterSQL_def authz_FilterSQL_def authz_FilterRaw_def)
qed

definition crashed_client :: "(ref_ce, table option) sync_client" where
  "crashed_client = sync_New (kernel_New ''shop'' \<lparr>rc_pol = [], rc_grp = []\<rparr> (Some NewTable))"

theorem unfresh_sidecar_decides_nothing_witness:
  "fst (Server_Check (ref_casbin 10) 5 (authz_New crashed_client 0) ''bob'' ''order'' ''read'') = Inl Unavailable"
proof -
  have "\<not> e_ready (sc_engine crashed_client)" by (simp add: crashed_client_def sync_New_def kernel_New_def)
  with unfresh_sidecar_decides_nothing [of crashed_client 5 0 "ref_casbin 10" "''bob''" "''order''" "''read''" "[]" "\<lambda>v. Some v"]
  show ?thesis by simp
qed

text \<open>
  C17. For a sidecar that has been fed true messages, \<^verbatim>\<open>Check\<close> answers allowed or denied exactly
  if its kernel is ready and its synchronisation is fresh enough, and then with the decision of
  the rules of the committed version its kernel reports.
\<close>

theorem sidecar_check_correct:
  fixes C :: "'ce casbin" and A :: "'t applier"
  assumes "casbin_enforcer C pol grp fresh lvl" and "committed_rows H"
    and "list_all (true_attempt H) as"
    and "snd (sync_Run C A rng as bo (sync_New (kernel_New d ce t))) = c"
  shows "fst (Server_Check C now (authz_New c ms) sub obj act) =
    (if e_ready (sc_engine c) \<and> \<not> stale now ms c
     then Inr (rules_allow lvl (H (e_version (sc_engine c))) sub d obj act)
     else Inl Unavailable)"
proof (cases "e_ready (sc_engine c) \<and> \<not> stale now ms c")
  case True
  then have ready: "e_ready (sc_engine c)" by simp
  have dmn: "e_domain (sc_engine c) = d"
    using casbin_enforcer.in_sync_Run [OF assms(1) _ assms(3), of d "sync_New (kernel_New d ce t)" A rng bo] assms(4)
    by (simp add: casbin_enforcer.in_sync_def [OF assms(1)] casbin_enforcer.kernel_inv_def [OF assms(1)]
        kernel_New_def sync_New_def)
  obtain r e where run: "Engine_Enforce C (sc_engine c) sub d obj act = (r, e)" by (metis surj_pair)
  have "r = Inr (rules_allow lvl (H (e_version (sc_engine c))) sub d obj act)"
    using replica_decides_committed_version_core [OF assms ready, of sub obj act] run by simp
  moreover have "a_client (authz_New c ms) = c" "a_domain (authz_New c ms) = d"
    using dmn by (simp_all add: authz_New_def)
  ultimately show ?thesis
    using True run by (simp add: Server_Check_def authz_Check_def checkFresh_New)
next
  case False
  then obtain err where "checkFresh now (authz_New c ms) = Some err" "authz_toStatus err = Unavailable"
    using checkFresh_refuses by blast
  with False show ?thesis by (simp add: Server_Check_def authz_Check_def)
qed

theorem sidecar_check_correct_witness:
  "fst (Server_Check (ref_casbin 10) 10 (authz_New demo_client 8) ''eve'' ''order'' ''read'') = Inr True \<and>
   fst (Server_Check (ref_casbin 10) 12 (authz_New demo_client 8) ''eve'' ''order'' ''read'') = Inl Unavailable"
proof -
  have v: "e_version (sc_engine demo_client) = 8" "e_ready (sc_engine demo_client)" "sc_lastSyncAt demo_client = 3"
    by code_simp+
  then have "\<not> stale 10 8 demo_client" "stale 12 8 demo_client" by (simp_all add: stale_def)
  moreover have "rules_allow 10 (demo_history 8) ''eve'' ''shop'' ''order'' ''read''" by code_simp
  ultimately show ?thesis
    using v sidecar_check_correct [OF ref_casbin_enforcer demo_history_rows demo_attempts_true
      demo_client_def [symmetric], of 10 8 "''eve''" "''order''" "''read''"]
      sidecar_check_correct [OF ref_casbin_enforcer demo_history_rows demo_attempts_true
      demo_client_def [symmetric], of 12 8 "''eve''" "''order''" "''read''"]
    by simp
qed

end
