(* ===== verification/System.thy ===== *)
theory System
  imports Policy_Sync Authorizer
begin

text \<open>
  The parts together: writes, relay, channel, hub and stream of one control plane as one run, and
  what a sidecar that follows it can be told. The lemmas show that every message true to this
  run is true to one history of committed states, which is what the replica theorem asks for.
\<close>

section \<open>The control plane in one run\<close>

text \<open>
  One control plane with the stream of one sidecar of application \<open>app\<close>: writes, rounds of the
  relay, deliveries of channel messages to the hub, and turns of the stream, in any order.
  \<open>sy_past\<close> lists every state the database was in, \<open>sy_out\<close> every event sent to the sidecar.
\<close>

record sys =
  sy_db :: db
  sy_past :: "db list"
  sy_channel :: "message list"
  sy_hub :: hub
  sy_stream :: "stream option"
  sy_out :: "sync_event list"

datatype sys_act =
    AWrite env int64 wcmd
  | ADrain drain_env
  | ADeliver nat
  | AOpen uint64 bool
  | ATurn sel bool bool

fun sys_step :: "pg \<Rightarrow> decoder \<Rightarrow> (string \<rightharpoonup> int64) \<Rightarrow> string \<Rightarrow> sys_act \<Rightarrow> sys \<Rightarrow> sys" where
  "sys_step pg dec keys key (AWrite E a c) s =
     (let db = snd (exec pg E a c (sy_db s)) in s\<lparr>sy_db := db, sy_past := sy_past s @ [db]\<rparr>)"
| "sys_step pg dec keys key (ADrain D) s =
     (case drainOnce dec D (sy_channel s) (sy_db s) of
        (_, _, ch, db) \<Rightarrow> s\<lparr>sy_db := db, sy_past := sy_past s @ [db], sy_channel := ch\<rparr>)"
| "sys_step pg dec keys key (ADeliver k) s =
     (if k < length (sy_channel s)
      then case sy_channel s ! k of (_, a, d) \<Rightarrow> s\<lparr>sy_hub := Dispatch a (EvDelta d) (sy_hub s)\<rparr>
      else s)"
| "sys_step pg dec keys key (AOpen lastApplied ok) s =
     (case Subscribe_open keys (Some key) lastApplied ok (sy_db s) (sy_hub s) of
        (Inr st, evs, h) \<Rightarrow> s\<lparr>sy_stream := Some st, sy_out := sy_out s @ evs, sy_hub := h\<rparr>
      | (Inl _, evs, h) \<Rightarrow> s\<lparr>sy_hub := h\<rparr>)"
| "sys_step pg dec keys key (ATurn sl ok rd) s =
     (case sy_stream s of
        None \<Rightarrow> s
      | Some st \<Rightarrow>
          (case Subscribe_turn sl ok (if rd then Some (sy_db s) else None) st (sy_hub s) of
             (evs, st', h) \<Rightarrow> s\<lparr>sy_stream := st', sy_out := sy_out s @ evs, sy_hub := h\<rparr>))"

definition sys_init :: "db \<Rightarrow> nat \<Rightarrow> sys" where
  "sys_init db bufSize = \<lparr>sy_db = db, sy_past = [db], sy_channel = [], sy_hub = NewHub bufSize, sy_stream = None, sy_out = []\<rparr>"

definition sys_run :: "pg \<Rightarrow> decoder \<Rightarrow> (string \<rightharpoonup> int64) \<Rightarrow> string \<Rightarrow> sys_act list \<Rightarrow> sys \<Rightarrow> sys" where
  "sys_run pg dec keys key acts s = fold (sys_step pg dec keys key) acts s"

fun act_ok :: "sys_act \<Rightarrow> bool" where
  "act_ok (AWrite E a c) = cmd_ok text_ok label_ok c"
| "act_ok _ = True"

section \<open>What the history knows of an application\<close>

text \<open>
  \<open>F k\<close> is the state after the \<open>k\<close>-th committed delta of the application. Every state so far has
  the version and the rules of one of them, and every outbox row leads from one to the next.
\<close>

definition leads :: "int64 \<Rightarrow> proto_delta \<Rightarrow> db \<Rightarrow> db \<Rightarrow> bool" where
  "leads app pd db db' \<longleftrightarrow> (\<exists>d. pd = DeltaToProto d \<and> version_of db' app = Some (d_Version d) \<and>
     fold change_rules (kernel_changes d) (rules_of db app) = rules_of db' app)"

definition chronicle :: "int64 \<Rightarrow> int64 \<Rightarrow> (nat \<Rightarrow> db) \<Rightarrow> nat \<Rightarrow> sys \<Rightarrow> bool" where
  "chronicle app v0 F n s \<longleftrightarrow>
     n < length (sy_past s) \<and> governed (sy_db s) \<and>
     version_of (sy_db s) app = Some (v0 + of_nat n) \<and> rules_of (sy_db s) app = rules_of (F n) app \<and>
     (\<forall>k \<le> n. F k \<in> set (sy_past s) \<and> governed (F k) \<and> version_of (F k) app = Some (v0 + of_nat k)) \<and>
     (\<forall>db \<in> set (sy_past s). \<exists>k \<le> n. version_of db app = Some (v0 + of_nat k) \<and> rules_of db app = rules_of (F k) app) \<and>
     (\<forall>r \<in> set (policy_outbox (sy_db s)). ob_app r = app \<longrightarrow> (\<exists>k < n. leads app (ob_delta r) (F k) (F (Suc k))))"

lemma governed_outbox [simp]: "governed (db\<lparr>policy_outbox := ob\<rparr>) = governed db"
proof -
  have "ProjectApp (db\<lparr>policy_outbox := ob\<rparr>) = ProjectApp db"
    by (simp add: fun_eq_iff ProjectApp_def project_p_def project_g_user_def project_g_inherit_def cong: if_cong)
  then show ?thesis
    by (simp add: governed_def schema_ok_def has_role_id_def has_permission_id_def acyclic_roles_def inheritance_edges_def
        texts_ok_def consistent_def rules_of_def ReadAppRules_def)
qed

definition only_marks :: "db \<Rightarrow> db \<Rightarrow> bool" where
  "only_marks db db' \<longleftrightarrow> db' = db\<lparr>policy_outbox := policy_outbox db'\<rparr> \<and>
     map ob_app (policy_outbox db') = map ob_app (policy_outbox db) \<and>
     map ob_delta (policy_outbox db') = map ob_delta (policy_outbox db)"

lemma only_marks_refl [simp]: "only_marks db db"
  by (simp add: only_marks_def)

lemma only_marks_trans: "only_marks db1 db2 \<Longrightarrow> only_marks db2 db3 \<Longrightarrow> only_marks db1 db3"
  unfolding only_marks_def by (metis db.update_convs(10) db.surjective)

lemma map_mark:
  assumes "\<And>r. f (r\<lparr>ob_published := True\<rparr>) = f r"
  shows "map f ((policy_outbox db)[i := (policy_outbox db ! i)\<lparr>ob_published := True\<rparr>]) = map f (policy_outbox db)"
  using assms list_update_id [of "map f (policy_outbox db)" i]
  by (cases "i < length (policy_outbox db)") (simp_all add: map_update list_update_beyond)

lemma only_marks_mark: "only_marks db (mark_published i db)"
  by (simp add: only_marks_def mark_published_def map_mark)

lemma drain_loop_marks: "drain_loop dec D batch n sent db = (ok, n', sent', db') \<Longrightarrow> only_marks db db'"
proof (induction dec D batch n sent db rule: drain_loop.induct)
  case (2 dec D i r batch n sent db)
  then show ?case
    using only_marks_trans [OF only_marks_mark] by (auto split: option.splits if_splits)
qed simp

lemma drainOnce_marks: "drainOnce dec D sent db = (ok, n', sent', db') \<Longrightarrow> only_marks db db'"
  by (auto simp: drainOnce_def dest: drain_loop_marks split: if_splits)

lemma outbox_rows_cong:
  assumes "map ob_app ob = map ob_app ob'" "map ob_delta ob = map ob_delta ob'" "r \<in> set ob"
  shows "\<exists>r' \<in> set ob'. ob_app r' = ob_app r \<and> ob_delta r' = ob_delta r"
  using assms by (metis in_set_conv_nth length_map nth_map)

lemma chronicle_init:
  assumes "governed db" "version_of db app = Some v0" "\<forall>r \<in> set (policy_outbox db). ob_app r \<noteq> app"
  shows "chronicle app v0 (\<lambda>_. db) 0 (sys_init db bufSize)"
  using assms by (auto simp: chronicle_def sys_init_def)

text \<open>A write without a delta for the application, and one with a delta.\<close>

lemma chronicle_same:
  assumes "chronicle app v0 F n s" "governed db'" "version_of db' app = version_of (sy_db s) app"
    and "rules_of db' app = rules_of (sy_db s) app"
    and "\<And>r. r \<in> set (policy_outbox db') \<Longrightarrow> ob_app r = app \<Longrightarrow> \<exists>r' \<in> set (policy_outbox (sy_db s)). ob_app r' = app \<and> ob_delta r' = ob_delta r"
    and "sy_db s' = db'" "sy_past s' = sy_past s @ [db']"
  shows "chronicle app v0 F n s'"
  unfolding chronicle_def
proof (intro conjI ballI impI)
  fix r assume "r \<in> set (policy_outbox (sy_db s'))" "ob_app r = app"
  then obtain r' where "r' \<in> set (policy_outbox (sy_db s))" "ob_app r' = app" "ob_delta r' = ob_delta r"
    using assms(5,6) by auto
  then show "\<exists>k<n. leads app (ob_delta r) (F k) (F (Suc k))"
    using assms(1) unfolding chronicle_def by metis
qed (use assms in \<open>auto simp: chronicle_def\<close>)

lemma chronicle_next:
  assumes "chronicle app v0 F n s" "governed db'" "version_of db' app = Some (v0 + of_nat (Suc n))"
    and "leads app (ob_delta row) (sy_db s) db'" "policy_outbox db' = policy_outbox (sy_db s) @ rows" "set rows \<subseteq> {row}"
    and "sy_db s' = db'" "sy_past s' = sy_past s @ [db']"
  shows "chronicle app v0 (F(Suc n := db')) (Suc n) s'"
proof -
  have leads: "leads app (ob_delta row) (F n) db'"
    using assms(1,4) by (simp add: leads_def chronicle_def)
  have "\<exists>k<Suc n. leads app (ob_delta r) ((F(Suc n := db')) k) ((F(Suc n := db')) (Suc k))"
    if r: "r \<in> set (policy_outbox db')" "ob_app r = app" for r
  proof (cases "r \<in> set (policy_outbox (sy_db s))")
    case True
    then obtain k where "k < n" "leads app (ob_delta r) (F k) (F (Suc k))"
      using assms(1) r(2) unfolding chronicle_def by metis
    then show ?thesis by (auto intro!: exI [of _ k])
  next
    case False
    with r assms(5,6) have "r = row" by auto
    with leads show ?thesis by (auto intro!: exI [of _ n])
  qed
  moreover have "\<exists>k\<le>Suc n. version_of db app = Some (v0 + of_nat k) \<and> rules_of db app = rules_of ((F(Suc n := db')) k) app"
    if "db \<in> set (sy_past s')" for db
  proof (cases "db = db'")
    case True
    with assms(3) show ?thesis by (auto intro!: exI [of _ "Suc n"])
  next
    case False
    with that assms(8) have "db \<in> set (sy_past s)" by simp
    then obtain k where "k \<le> n" "version_of db app = Some (v0 + of_nat k) \<and> rules_of db app = rules_of (F k) app"
      using assms(1) unfolding chronicle_def by metis
    then have "k \<le> Suc n" "version_of db app = Some (v0 + of_nat k)" "rules_of db app = rules_of ((F(Suc n := db')) k) app"
      by simp_all
    then show ?thesis by blast
  qed
  moreover have "(F(Suc n := db')) k \<in> set (sy_past s') \<and> governed ((F(Suc n := db')) k) \<and>
      version_of ((F(Suc n := db')) k) app = Some (v0 + of_nat k)" if "k \<le> Suc n" for k
    using that assms(1,2,3,8) by (cases "k = Suc n") (simp_all add: chronicle_def)
  moreover have "Suc n < length (sy_past s')" using assms(1,8) by (simp add: chronicle_def)
  ultimately show ?thesis
    using assms(2,3,7) unfolding chronicle_def by simp
qed

lemma chronicle_write:
  assumes "chronicle app v0 F n s" "cmd_ok text_ok label_ok c"
  shows "\<exists>F' n'. chronicle app v0 F' n' (sys_step pg dec keys key (AWrite E a c) s)"
proof -
  obtain out db' where run: "exec pg E a c (sy_db s) = (out, db')" by (metis surj_pair)
  have gov: "governed db'"
    using exec_governed [of "sy_db s" c pg E a] assms run by (simp add: chronicle_def)
  have step: "sy_db (sys_step pg dec keys key (AWrite E a c) s) = db'"
      "sy_past (sys_step pg dec keys key (AWrite E a c) s) = sy_past s @ [db']"
    using run by (simp_all add: Let_def)
  have contract: "write_contract (op_env E c) a (sy_db s) (out, db')" using exec_contract [of E c a "sy_db s" pg] run by simp
  have other: "version_of db' app = version_of (sy_db s) app" "rules_of db' app = rules_of (sy_db s) app"
    if "a \<noteq> app"
    using contract_isolated [of a "sy_db s" pg E c] run that
    by (simp_all add: isolated_def version_of_def rules_of_def ReadAppRules_def)
  have outbox: "r \<in> set (policy_outbox (sy_db s))" if "a \<noteq> app" "r \<in> set (policy_outbox db')" "ob_app r = app" for r
    using contract_isolated [of a "sy_db s" pg E c] run that by (auto simp: isolated_def dest: filter_sets)
  consider "a \<noteq> app" | "a = app" "\<not> (\<exists>d. out = Inr (Some d))" | d where "a = app" "out = Inr (Some d)" by blast
  then show ?thesis
  proof cases
    case 1
    have "chronicle app v0 F n (sys_step pg dec keys key (AWrite E a c) s)"
      by (rule chronicle_same [OF assms(1) gov _ _ _ step]) (use 1 other outbox in auto)
    then show ?thesis by blast
  next
    case 2
    have same: "casbin_rules db' = casbin_rules (sy_db s)" "applications db' = applications (sy_db s)"
        "policy_outbox db' = policy_outbox (sy_db s)"
      using contract 2 by (auto simp: write_contract_def split: sum.splits option.splits)
    have "chronicle app v0 F n (sys_step pg dec keys key (AWrite E a c) s)"
      by (rule chronicle_same [OF assms(1) gov _ _ _ step]) (use same in \<open>auto simp: version_of_def rules_of_def ReadAppRules_def\<close>)
    then show ?thesis by blast
  next
    case 3
    let ?row = "\<lparr>ob_app = app, ob_version = d_Version d, ob_delta = DeltaToProto d, ob_published = False\<rparr>"
    have c: "version_of (sy_db s) app = Some (d_Version d - 1)" "version_of db' app = Some (d_Version d)"
        "rules_of db' app = (rules_of (sy_db s) app - set (d_RuleRemoves d)) \<union> set (d_RuleAdds d)"
        "set (d_RuleAdds d) \<inter> rules_of (sy_db s) app = {}" "set (d_RuleRemoves d) \<subseteq> rules_of (sy_db s) app"
        "policy_outbox db' = policy_outbox (sy_db s) @ (if delta_sink (op_env E c) = NoSink then [] else [?row])"
      using contract 3 by (simp_all add: write_contract_def)
    have "d_Version d - 1 = v0 + of_nat n" using c(1) assms(1) by (simp add: chronicle_def)
    then have "version_of db' app = Some (v0 + of_nat (Suc n))" using c(2) by (simp add: algebra_simps)
    moreover have "leads app (ob_delta ?row) (sy_db s) db'"
      using c(2-5) by (auto simp: leads_def change_rules_fold)
    ultimately have "chronicle app v0 (F(Suc n := db')) (Suc n) (sys_step pg dec keys key (AWrite E a c) s)"
      by (rule chronicle_next [OF assms(1) gov _ _ c(6) _ step]) simp
    then show ?thesis by blast
  qed
qed

lemma chronicle_drain:
  assumes "chronicle app v0 F n s"
  shows "chronicle app v0 F n (sys_step pg dec keys key (ADrain D) s)"
proof -
  obtain ok m ch db' where run: "drainOnce dec D (sy_channel s) (sy_db s) = (ok, m, ch, db')" by (metis prod_cases4)
  note marks = drainOnce_marks [OF run]
  have db': "db' = (sy_db s)\<lparr>policy_outbox := policy_outbox db'\<rparr>" using marks by (simp add: only_marks_def)
  show ?thesis
  proof (rule chronicle_same [OF assms])
    show "governed db'" by (subst db') (use assms in \<open>simp add: chronicle_def\<close>)
    show "version_of db' app = version_of (sy_db s) app" "rules_of db' app = rules_of (sy_db s) app"
      by (subst db', simp add: version_of_def rules_of_def ReadAppRules_def)+
    show "\<exists>r' \<in> set (policy_outbox (sy_db s)). ob_app r' = app \<and> ob_delta r' = ob_delta r"
      if "r \<in> set (policy_outbox db')" "ob_app r = app" for r
      using outbox_rows_cong [of "policy_outbox db'" "policy_outbox (sy_db s)" r] marks that by (simp add: only_marks_def)
  qed (simp_all add: run)
qed

lemma chronicle_cong:
  "chronicle app v0 F n s \<Longrightarrow> sy_db s' = sy_db s \<Longrightarrow> sy_past s' = sy_past s \<Longrightarrow> chronicle app v0 F n s'"
  by (simp add: chronicle_def)

lemma chronicle_step:
  assumes "chronicle app v0 F n s" "act_ok a"
  shows "\<exists>F' n'. chronicle app v0 F' n' (sys_step pg dec keys key a s)"
proof (cases a)
  case (AWrite E a' c)
  with assms chronicle_write show ?thesis by simp
next
  case (ADrain D)
  with chronicle_drain [OF assms(1)] show ?thesis by blast
next
  case (ADeliver k)
  then show ?thesis
    by (auto intro!: exI chronicle_cong [OF assms(1)] split: prod.splits)
next
  case (AOpen la ok)
  then show ?thesis
    by (auto intro!: exI chronicle_cong [OF assms(1)] split: prod.splits sum.splits)
next
  case (ATurn sl ok rd)
  then show ?thesis
    by (auto intro!: exI chronicle_cong [OF assms(1)] split: prod.splits option.splits)
qed

section \<open>Where the events of a stream come from\<close>

definition stored_delta :: "decoder \<Rightarrow> db \<Rightarrow> int64 \<Rightarrow> proto_delta \<Rightarrow> bool" where
  "stored_delta dec db a d \<longleftrightarrow> (\<exists>r \<in> set (policy_outbox db). ob_app r = a \<and> dec (ob_delta r) = Some d)"

definition hub_fed :: "decoder \<Rightarrow> db \<Rightarrow> hub \<Rightarrow> bool" where
  "hub_fed dec db h \<longleftrightarrow> (\<forall>a. \<forall>(x, s) \<in> set (endpoints h a). \<forall>d. EvDelta d \<in> set (sb_events s) \<longrightarrow> stored_delta dec db a d)"

definition sys_fed :: "decoder \<Rightarrow> int64 \<Rightarrow> sys \<Rightarrow> bool" where
  "sys_fed dec app s \<longleftrightarrow>
     (\<forall>(i, a, d) \<in> set (sy_channel s). stored_delta dec (sy_db s) a d) \<and> hub_fed dec (sy_db s) (sy_hub s) \<and>
     (\<forall>d. EvDelta d \<in> set (sy_out s) \<longrightarrow> stored_delta dec (sy_db s) app d) \<and>
     (\<forall>st. sy_stream s = Some st \<longrightarrow> st_app st = app)"

lemma endpoints_simps:
  "endpoints (Dispatch app ev h) a =
     (if a = app then map (apsnd (offer (hb_bufSize h) ev)) (endpoints h a) else endpoints h a)"
  "endpoints (set_endpoint st f h) a =
     (if a = st_app st then map (\<lambda>(x, s). (x, if x = st_addr st then f s else s)) (endpoints h a) else endpoints h a)"
  "endpoints (snd (register app h)) a =
     (if a = app then endpoints h a @ [(hb_next h, \<lparr>sb_events = [], sb_overflow = False\<rparr>)] else endpoints h a)"
  "endpoints (unregister app x h) a = (if a = app then filter (\<lambda>(y, s). y \<noteq> x) (endpoints h a) else endpoints h a)"
  by (auto simp: endpoints_def Dispatch_def set_endpoint_def register_def unregister_def Let_def split: option.splits)

lemma hub_fed_simps:
  "hub_fed dec db h \<Longrightarrow> hub_fed dec db (unregister app x h)"
  "hub_fed dec db h \<Longrightarrow> hub_fed dec db (snd (register app h))"
  "hub_fed dec db h \<Longrightarrow>
   (\<And>s d. EvDelta d \<in> set (sb_events (f s)) \<Longrightarrow> EvDelta d \<in> set (sb_events s) \<or> stored_delta dec db (st_app st) d) \<Longrightarrow>
   hub_fed dec db (set_endpoint st f h)"
  "hub_fed dec db h \<Longrightarrow> stored_delta dec db app d \<Longrightarrow> hub_fed dec db (Dispatch app (EvDelta d) h)"
proof -
  show "hub_fed dec db h \<Longrightarrow> hub_fed dec db (unregister app x h)"
    by (auto simp: hub_fed_def endpoints_simps split: if_splits)
  show "hub_fed dec db h \<Longrightarrow> hub_fed dec db (snd (register app h))"
    by (auto simp: hub_fed_def endpoints_simps split: if_splits)
  show "hub_fed dec db h \<Longrightarrow>
     (\<And>s d. EvDelta d \<in> set (sb_events (f s)) \<Longrightarrow> EvDelta d \<in> set (sb_events s) \<or> stored_delta dec db (st_app st) d) \<Longrightarrow>
     hub_fed dec db (set_endpoint st f h)"
    by (fastforce simp: hub_fed_def endpoints_simps split: if_splits)
  show "hub_fed dec db h \<Longrightarrow> stored_delta dec db app d \<Longrightarrow> hub_fed dec db (Dispatch app (EvDelta d) h)"
    by (fastforce simp: hub_fed_def endpoints_simps offer_def split: if_splits)
qed

lemma drain_loop_sent:
  "drain_loop dec D batch n sent db = (ok, n', sent', db') \<Longrightarrow>
   set sent' \<subseteq> set sent \<union> {(i, ob_app r, d) | i r d. (i, r) \<in> set batch \<and> dec (ob_delta r) = Some d}"
proof (induction dec D batch n sent db rule: drain_loop.induct)
  case (2 dec D i r batch n sent db)
  then show ?case by (fastforce split: option.splits if_splits)
qed simp

lemma drained_stored:
  assumes "drainOnce dec D sent db = (ok, n', sent', db')" "m \<in> set sent'" "m \<notin> set sent"
  shows "case m of (i, a, d) \<Rightarrow> stored_delta dec db a d"
proof -
  have "(i, r) \<in> set (take 100 (unpublished db)) \<Longrightarrow> r \<in> set (policy_outbox db)" for i r
    by (auto simp: unpublished_def in_set_enumerate_eq dest!: in_set_takeD)
  then show ?thesis
    using assms by (fastforce simp: drainOnce_def stored_delta_def dest!: drain_loop_sent split: if_splits)
qed

definition outbox_grows :: "db \<Rightarrow> db \<Rightarrow> bool" where
  "outbox_grows db db' \<longleftrightarrow> (\<forall>r \<in> set (policy_outbox db). \<exists>r' \<in> set (policy_outbox db'). ob_app r' = ob_app r \<and> ob_delta r' = ob_delta r)"

lemma stored_delta_mono: "stored_delta dec db a d \<Longrightarrow> outbox_grows db db' \<Longrightarrow> stored_delta dec db' a d"
  unfolding stored_delta_def outbox_grows_def by metis

lemma only_marks_grows: "only_marks db db' \<Longrightarrow> outbox_grows db db'"
  using outbox_rows_cong [of "policy_outbox db" "policy_outbox db'"] by (simp add: only_marks_def outbox_grows_def)

lemma exec_grows: "outbox_grows db (snd (exec pg E a c db))"
  using exec_outbox [of pg E a c db] by (auto simp: outbox_grows_def)

lemma hub_fed_mono: "hub_fed dec db h \<Longrightarrow> outbox_grows db db' \<Longrightarrow> hub_fed dec db' h"
  unfolding hub_fed_def by (fast intro: stored_delta_mono)

lemma sys_fed_db:
  assumes "sys_fed dec app s" "outbox_grows (sy_db s) (sy_db s')" "sy_hub s' = sy_hub s" "sy_out s' = sy_out s"
    and "sy_stream s' = sy_stream s" "\<forall>m \<in> set (sy_channel s') - set (sy_channel s). case m of (i, a, d) \<Rightarrow> stored_delta dec (sy_db s') a d"
  shows "sys_fed dec app s'"
proof -
  have "case m of (i, a, d) \<Rightarrow> stored_delta dec (sy_db s') a d" if "m \<in> set (sy_channel s')" for m
    using that assms(1,2,6) stored_delta_mono by (cases "m \<in> set (sy_channel s)") (fastforce simp: sys_fed_def)+
  moreover have "hub_fed dec (sy_db s') (sy_hub s')"
    using assms(1,2,3) hub_fed_mono by (simp add: sys_fed_def) blast
  moreover have "stored_delta dec (sy_db s') app d" if "EvDelta d \<in> set (sy_out s')" for d
    using that assms(1,2,4) by (auto simp: sys_fed_def intro: stored_delta_mono)
  ultimately show ?thesis using assms(1,5) by (simp add: sys_fed_def)
qed

lemma turn_hub:
  assumes "hub_fed dec db h" "Subscribe_turn sl ok rd st h = (evs, so, h')"
  shows "hub_fed dec db h' \<and> (\<forall>d. EvDelta d \<in> set evs \<longrightarrow> stored_delta dec db (st_app st) d) \<and>
    (\<forall>st'. so = Some st' \<longrightarrow> st_app st' = st_app st)"
proof (cases "endpoint h st")
  case (Some s)
  then have "(st_addr st, s) \<in> set (endpoints h (st_app st))" by (simp add: endpoint_def map_of_SomeD)
  then have buf: "EvDelta d \<in> set (sb_events s) \<Longrightarrow> stored_delta dec db (st_app st) d" for d
    using assms(1) by (fastforce simp: hub_fed_def)
  show ?thesis
  proof (cases sl)
    case SelEvent
    show ?thesis
    proof (cases "sb_events s")
      case (Cons ev evs')
      let ?h = "set_endpoint st (sb_events_update (\<lambda>_. evs')) h"
      have "hub_fed dec db ?h" by (rule hub_fed_simps(3) [OF assms(1)]) (use buf Cons in auto)
      then show ?thesis
        using assms(2) Some SelEvent Cons buf hub_fed_simps(1)
        by (auto simp: Subscribe_turn_def send_def Let_def split: if_splits sync_event.splits)
    qed (use assms Some SelEvent in \<open>auto simp: Subscribe_turn_def\<close>)
  next
    case SelOverflow
    then show ?thesis
      using assms Some hub_fed_simps(1) hub_fed_simps(3) [OF assms(1), of "sb_overflow_update (\<lambda>_. False)" st]
      by (auto simp: Subscribe_turn_def send_def split: if_splits)
  next
    case SelTick
    then show ?thesis
      using assms Some hub_fed_simps(1)
      by (auto simp: Subscribe_turn_def send_def Let_def split: if_splits option.splits sum.splits)
  qed (use assms Some hub_fed_simps(1) in \<open>auto simp: Subscribe_turn_def\<close>)
qed (use assms in \<open>auto simp: Subscribe_turn_def\<close>)

lemma sys_fed_step:
  assumes "sys_fed dec app s" "keys key = Some app"
  shows "sys_fed dec app (sys_step pg dec keys key a s)"
proof (cases a)
  case (AWrite E a' c)
  then show ?thesis
    by (intro sys_fed_db [OF assms(1)]) (simp_all add: Let_def exec_grows)
next
  case (ADrain D)
  obtain ok m ch db' where run: "drainOnce dec D (sy_channel s) (sy_db s) = (ok, m, ch, db')" by (metis prod_cases4)
  note grows = only_marks_grows [OF drainOnce_marks [OF run]]
  have "case m of (i, a, d) \<Rightarrow> stored_delta dec db' a d" if "m \<in> set ch - set (sy_channel s)" for m
    using drained_stored [OF run] that stored_delta_mono [OF _ grows] by fastforce
  then show ?thesis using ADrain run grows by (intro sys_fed_db [OF assms(1)]) simp_all
next
  case (ADeliver k)
  show ?thesis
  proof (cases "k < length (sy_channel s)")
    case True
    obtain i a' d where m: "sy_channel s ! k = (i, a', d)" by (metis prod_cases3)
    with True assms(1) have "stored_delta dec (sy_db s) a' d"
      unfolding sys_fed_def by (metis (no_types, lifting) case_prodD nth_mem)
    with True m ADeliver assms(1) show ?thesis by (simp add: sys_fed_def hub_fed_simps(4))
  qed (use assms ADeliver in simp)
next
  case (AOpen la ok)
  obtain r evs h where run: "Subscribe_open keys (Some key) la ok (sy_db s) (sy_hub s) = (r, evs, h)" by (metis prod_cases3)
  have h: "h \<in> {sy_hub s, snd (register app (sy_hub s)), unregister app (fst (register app (sy_hub s))) (snd (register app (sy_hub s)))}"
      "set evs \<subseteq> {EvSnapshotRequired}" "\<forall>st. r = Inr st \<longrightarrow> st_app st = app"
    using run assms(2) by (auto simp: Subscribe_open_def ResolveAppIDByKey_def Let_def split: sum.splits if_splits prod.splits)
  then have "hub_fed dec (sy_db s) h" using assms(1) hub_fed_simps(1,2) by (auto simp: sys_fed_def)
  with run h(2,3) AOpen assms(1) show ?thesis by (cases r) (auto simp: sys_fed_def)
next
  case (ATurn sl ok rd)
  show ?thesis
  proof (cases "sy_stream s")
    case (Some st)
    obtain evs so h where run: "Subscribe_turn sl ok (if rd then Some (sy_db s) else None) st (sy_hub s) = (evs, so, h)" by (metis prod_cases3)
    from turn_hub [OF _ run, of dec "sy_db s"] assms(1) Some ATurn run show ?thesis by (auto simp: sys_fed_def)
  qed (use assms ATurn in simp)
qed

lemma sys_run_inv:
  assumes "governed db" "version_of db app = Some v0" "\<forall>r \<in> set (policy_outbox db). ob_app r \<noteq> app"
    and "keys key = Some app" "list_all act_ok acts"
  shows "(\<exists>F n. chronicle app v0 F n (sys_run pg dec keys key acts (sys_init db bufSize))) \<and>
    sys_fed dec app (sys_run pg dec keys key acts (sys_init db bufSize))"
proof -
  have "(\<exists>F n. chronicle app v0 F n (sys_run pg dec keys key acts s)) \<and> sys_fed dec app (sys_run pg dec keys key acts s)"
    if "chronicle app v0 F n s" "sys_fed dec app s" for F n s
    using that assms(5)
  proof (induction acts arbitrary: F n s)
    case (Cons a acts)
    then obtain F' n' where "chronicle app v0 F' n' (sys_step pg dec keys key a s)" using chronicle_step by fastforce
    with Cons sys_fed_step [OF Cons.prems(2), of keys key pg a] assms(4) show ?case by (simp add: sys_run_def)
  qed (auto simp: sys_run_def)
  moreover have "sys_fed dec app (sys_init db bufSize)"
    by (simp add: sys_fed_def sys_init_def hub_fed_def NewHub_def endpoints_def)
  ultimately show ?thesis using chronicle_init [OF assms(1-3)] by blast
qed

lemma sys_run_past: "length (sy_past (sys_run pg dec keys key acts s)) \<le> length (sy_past s) + length acts"
proof (induction acts arbitrary: s)
  case (Cons a acts)
  have "length (sy_past (sys_step pg dec keys key a s)) \<le> Suc (length (sy_past s))"
    by (cases a) (auto simp: Let_def split: prod.splits sum.splits option.splits)
  with Cons [of "sys_step pg dec keys key a s"] show ?case by (simp add: sys_run_def)
qed (simp add: sys_run_def)

section \<open>The history a sidecar is told\<close>

definition history :: "int64 \<Rightarrow> int64 \<Rightarrow> (nat \<Rightarrow> db) \<Rightarrow> nat \<Rightarrow> rule set \<Rightarrow> uint64 \<Rightarrow> rule set" where
  "history app v0 F n X v = (if unat (v - v0) \<le> n then rules_of (F (unat (v - v0))) app else X)"

lemma history_at: "k \<le> n \<Longrightarrow> n < 2 ^ 64 \<Longrightarrow> history app v0 F n X (v0 + of_nat k) = rules_of (F k) app"
  by (simp add: history_def unat_of_nat)

lemma governed_wf_rows: "governed db \<Longrightarrow> r \<in> rules_of db app \<Longrightarrow> wf_row r"
  using projected_rows [of db r app]
  by (auto simp: governed_def consistent_def wf_row_def p_row_def g_row_def label_ok_def)

lemma history_rows: "chronicle app v0 F n s \<Longrightarrow> \<forall>r \<in> X. wf_row r \<Longrightarrow> committed_rows (history app v0 F n X)"
  using governed_wf_rows by (auto simp: committed_rows_def history_def chronicle_def)

text \<open>
  What the sidecar gets from this control plane: a pull fails or reads one state of the database,
  and every event is one that was sent on its stream; any of them may be missing, repeated or late.
\<close>

definition honest_pull :: "(string \<rightharpoonup> int64) \<Rightarrow> string \<Rightarrow> sys \<Rightarrow> pulled \<Rightarrow> bool" where
  "honest_pull keys key s p = (case p of Inl _ \<Rightarrow> True
     | Inr snap \<Rightarrow> \<exists>db \<in> set (sy_past s).
         PullSnapshot keys (Some key) \<lparr>pe_begin = True, pe_version = db, pe_rules = Some db, pe_dps = Some db\<rparr> = Inr snap)"

fun honest_recv :: "(string \<rightharpoonup> int64) \<Rightarrow> string \<Rightarrow> sys \<Rightarrow> recv \<Rightarrow> bool" where
  "honest_recv keys key s (RecvEvent ev p now) \<longleftrightarrow> honest_pull keys key s p \<and> ev \<in> set (sy_out s)"
| "honest_recv keys key s (RecvErr _) \<longleftrightarrow> True"

definition honest_attempt :: "(string \<rightharpoonup> int64) \<Rightarrow> string \<Rightarrow> sys \<Rightarrow> attempt \<Rightarrow> bool" where
  "honest_attempt keys key s a \<longleftrightarrow> honest_pull keys key s (cn_pull (at_connection a)) \<and>
     list_all (honest_recv keys key s) (cn_stream (at_connection a))"

lemma honest_pull_true:
  assumes "chronicle app v0 F n s" "n < 2 ^ 64" "keys key = Some app" "honest_pull keys key s p"
  shows "true_pull (history app v0 F n X) p"
proof (cases p)
  case (Inr snap)
  then obtain db where db: "db \<in> set (sy_past s)"
      "PullSnapshot keys (Some key) \<lparr>pe_begin = True, pe_version = db, pe_rules = Some db, pe_dps = Some db\<rparr> = Inr snap"
    using assms(4) by (auto simp: honest_pull_def)
  from pulled_rules [OF db(2) assms(3)] obtain ks where ks: "snapshotFromProto snap = Inr ks"
      "s_Version ks = ps_Version snap" "set (s_Rules ks) = rules_of db app" "ReadCurrentVersion db app = Inr (ps_Version snap)"
    by auto
  obtain k where k: "k \<le> n" "version_of db app = Some (v0 + of_nat k)" "rules_of db app = rules_of (F k) app"
    using assms(1) db(1) unfolding chronicle_def by metis
  have "ps_Version snap = v0 + of_nat k" using ks(4) k(2) by (auto simp: ReadCurrentVersion_def version_of_def split: option.splits)
  with ks k history_at [OF k(1) assms(2)] Inr show ?thesis by (simp add: true_pull_def true_snapshot_def)
qed (simp add: true_pull_def)

lemma stored_delta_true:
  assumes "chronicle app v0 F n s" "n < 2 ^ 64" "stored_delta dec (sy_db s) app pd" "\<And>m m'. dec m = Some m' \<Longrightarrow> m' = m"
  shows "true_delta (history app v0 F n X) pd"
proof -
  obtain r where r: "r \<in> set (policy_outbox (sy_db s))" "ob_app r = app" "ob_delta r = pd"
    using assms(3,4) by (auto simp: stored_delta_def)
  then obtain k where k: "k < n" "leads app pd (F k) (F (Suc k))" using assms(1) unfolding chronicle_def by metis
  then obtain d where d: "pd = DeltaToProto d" "version_of (F (Suc k)) app = Some (d_Version d)"
      "fold change_rules (kernel_changes d) (rules_of (F k) app) = rules_of (F (Suc k)) app"
    by (auto simp: leads_def)
  have "version_of (F (Suc k)) app = Some (v0 + of_nat (Suc k))" using assms(1) k(1) by (simp add: chronicle_def)
  with d(2) have v: "d_Version d = v0 + of_nat (Suc k)" "d_Version d - 1 = v0 + of_nat k" by (auto simp: algebra_simps)
  have "history app v0 F n X (d_Version d) = rules_of (F (Suc k)) app" "history app v0 F n X (d_Version d - 1) = rules_of (F k) app"
    using history_at [of "Suc k" n app v0 F X] history_at [of k n app v0 F X] k(1) assms(2) v by simp_all
  with d show ?thesis by (simp add: true_delta_def deltaFromProto_DeltaToProto)
qed

lemma honest_attempt_true:
  assumes "chronicle app v0 F n s" "n < 2 ^ 64" "keys key = Some app" "sys_fed dec app s"
    and "\<And>m m'. dec m = Some m' \<Longrightarrow> m' = m" "honest_attempt keys key s a"
  shows "true_attempt (history app v0 F n X) a"
proof -
  have "true_recv (history app v0 F n X) r" if "honest_recv keys key s r" for r
  proof (cases r)
    case (RecvEvent ev p now)
    have "true_delta (history app v0 F n X) d" if "ev = EvDelta d" for d
    proof (rule stored_delta_true [OF assms(1,2) _ assms(5)])
      show "stored_delta dec (sy_db s) app d" using assms(4) that \<open>honest_recv keys key s r\<close> RecvEvent by (simp add: sys_fed_def)
    qed
    then show ?thesis
      using RecvEvent that honest_pull_true [where keys = keys and key = key, OF assms(1-3)] by (auto split: sync_event.splits)
  qed simp
  then show ?thesis
    using assms(6) honest_pull_true [where keys = keys and key = key, OF assms(1-3)] by (auto simp: true_attempt_def honest_attempt_def list_all_iff)
qed

lemma foreign_row:
  "\<not> in_domain d {p_row [] (d @ ''x'') [] [] ''allow''}" "\<forall>r \<in> {p_row [] (d @ ''x'') [] [] ''allow''}. wf_row r"
  by (simp_all add: in_domain_def p_row_def domainValue_def wf_row_def)

lemma sidecar_follows_control_plane_core:
  fixes C :: "'ce casbin" and A :: "'t applier"
  assumes "casbin_enforcer C pol grp fresh lvl"
    and "governed db" "version_of db app = Some v0" "\<forall>r \<in> set (policy_outbox db). ob_app r \<noteq> app"
    and "keys key = Some app" "\<And>m m'. dec m = Some m' \<Longrightarrow> m' = m"
    and "list_all act_ok acts" "length acts < 2 ^ 63"
    and "sys_run pg dec keys key acts (sys_init db bufSize) = s"
    and "list_all (honest_attempt keys key s) as"
    and "snd (sync_Run C A rng as bo (sync_New (kernel_New d ce t))) = c" "e_ready (sc_engine c)"
  shows "\<exists>dbk \<in> set (sy_past s). version_of dbk app = Some (e_version (sc_engine c)) \<and>
    fst (Engine_Enforce C (sc_engine c) sub d obj act) = Inr (rules_allow lvl (set (ProjectApp dbk app)) sub d obj act)"
proof -
  obtain F n where c: "chronicle app v0 F n s" and fed: "sys_fed dec app s"
    using sys_run_inv [where keys = keys and key = key, OF assms(2-5,7), of pg dec bufSize] assms(9) by auto
  have "length (sy_past s) \<le> Suc (length acts)"
    using sys_run_past [of pg dec keys key acts "sys_init db bufSize"] assms(9) by (simp add: sys_init_def)
  then have n: "n < 2 ^ 64" using c assms(8) by (simp add: chronicle_def)
  have true: "list_all (true_attempt (history app v0 F n X)) as" for X
    using assms(10) honest_attempt_true [where keys = keys and key = key, OF c n assms(5) fed assms(6)] by (simp add: list_all_iff)
  note core = replica_decides_committed_version_core [OF assms(1) history_rows [OF c] true assms(11,12)]
  let ?v = "e_version (sc_engine c)"
  have range: "unat (?v - v0) \<le> n"
  proof (rule ccontr)
    assume "\<not> unat (?v - v0) \<le> n"
    with core [of "{p_row [] (d @ ''x'') [] [] ''allow''}"] foreign_row show False by (simp add: history_def)
  qed
  let ?db = "F (unat (?v - v0))"
  have "?db \<in> set (sy_past s)" "governed ?db" "version_of ?db app = Some ?v"
    using c range by (simp_all add: chronicle_def)
  moreover from core [of "{}" sub obj act] range
  have "fst (Engine_Enforce C (sc_engine c) sub d obj act) = Inr (rules_allow lvl (rules_of ?db app) sub d obj act)"
    by (simp add: history_def)
  ultimately show ?thesis by (auto simp: governed_def consistent_def)
qed

section \<open>A run of the parts\<close>

text \<open>An application whose sidecar reads one snapshot and two events, and a store with one data policy.\<close>

definition shop_acts :: "sys_act list" where
  "shop_acts =
     [AWrite demo_env 1 (WCreateRole ''clerk'' ''Clerk''),
      AWrite demo_env 1 (WUpsertPermission ''read'' ''order'' ''get'' ''api'' ''Read''),
      AWrite demo_env 1 (WGrant 1 1 ''allow''), AOpen 1 True, AWrite demo_env 1 (WBind ''eve'' 1),
      ADrain fine_env, ADeliver 0, ADeliver 1, ATurn SelEvent True True, ATurn SelEvent True True]"

definition shop_keys :: "string \<rightharpoonup> int64" where
  "shop_keys = [''AK'' \<mapsto> 1]"

definition shop_sys :: sys where
  "shop_sys = sys_run demo_pg Some shop_keys ''AK'' shop_acts (sys_init shop_db 8)"

definition shop_snapshot :: pulled where
  "shop_snapshot = (case PullSnapshot shop_keys (Some ''AK'')
       \<lparr>pe_begin = True, pe_version = sy_past shop_sys ! 3, pe_rules = Some (sy_past shop_sys ! 3),
        pe_dps = Some (sy_past shop_sys ! 3)\<rparr> of Inl _ \<Rightarrow> Inl () | Inr snap \<Rightarrow> Inr snap)"

definition shop_attempts :: "attempt list" where
  "shop_attempts =
     [\<lparr>at_cancelled = False,
       at_connection = \<lparr>cn_pull = shop_snapshot, cn_now = 1, cn_subscribe = True,
          cn_stream = map (\<lambda>ev. RecvEvent ev (Inl ()) 2) (sy_out shop_sys)\<rparr>,
       at_slept = True\<rparr>]"

definition shop_client :: "(ref_ce, unit) sync_client" where
  "shop_client = snd (sync_Run (ref_casbin 10) noopApplier (\<lambda>_. 0) shop_attempts (newBackoff 0 0)
     (sync_New (kernel_New ''shop'' \<lparr>rc_pol = [], rc_grp = []\<rparr> ())))"

lemma shop_acts_ok: "list_all act_ok shop_acts"
  by (simp add: shop_acts_def text_ok_def label_ok_def key_sep_def)

lemma shop_honest: "list_all (honest_attempt shop_keys ''AK'' shop_sys) shop_attempts"
  by code_simp

lemma shop_ready:
  "e_ready (sc_engine shop_client)" "e_version (sc_engine shop_client) = 2"
  "fst (Engine_Enforce (ref_casbin 10) (sc_engine shop_client) ''eve'' ''shop'' ''order'' ''get'') = Inr True"
  by code_simp+

definition policy_db :: db where
  "policy_db = shop_db\<lparr>data_policies := [\<lparr>dr_app = 1, dr_policy = zero_data_policy\<lparr>dp_ID := 5, dp_Resource := ''order''\<rparr>,
     dr_source = ''manual'', dr_version = 1\<rparr>]\<rparr>"

lemma policy_db_delete:
  "case exec demo_pg demo_env 1 (WDeleteDataPolicy 5) policy_db of (Inr (Some d), db') \<Rightarrow> data_policies db' = [] | _ \<Rightarrow> False"
  by code_simp

end
