(* ===== verification/Effperm.thy ===== *)
theory Effperm
  imports System "HOL-Library.Product_Lexorder"
begin

text \<open>
  What a user may do, why, and what a change would do (\<^verbatim>\<open>internal/controlplane/effperm\<close> and its handlers in
  \<^verbatim>\<open>mgmt/effective.go\<close>, \<^verbatim>\<open>decision.go\<close>, \<^verbatim>\<open>preview_filter.go\<close>, \<^verbatim>\<open>role_graph.go\<close>): the control plane reads an
  application's policy, loads it into a kernel and a table of its own (theories \<open>Kernel\<close> and \<open>Table\<close>), asks them
  and throws them away. The lemmas show that these reports agree with what a sidecar decides, and that a
  simulated binding is what the binding does. Go's string order is the order of bytes; the database's order of
  user names is taken to be the same, and only the order of the reported users depends on it.
\<close>

section \<open>Results\<close>

record perm =
  pe_Resource :: string
  pe_Action :: string

record data_view =
  dv_Resource :: string
  dv_Match :: string
  dv_Predicate :: string

record eff_result =
  er_Roles :: "string list"
  er_Permissions :: "perm list"
  er_DataViews :: "data_view list"

datatype eff_error =
    EffRead
  | EffKernel kernel_error
  | EffFilter filter_error
  | EffInvalid string
  | EffPanic

section \<open>A transient engine\<close>

text \<open>
  The states of the database that the queries of one read transaction see: it runs at the default
  isolation, so each query has its own. \<^const>\<open>None\<close> is a query that fails.
\<close>

record policy_reads =
  rd_domain :: "db option"
  rd_rules :: "db option"
  rd_policies :: "db option"
  rd_users :: "db option"

definition readAppPolicy :: "policy_reads \<Rightarrow> int64 \<Rightarrow> (eff_error, string \<times> rule list \<times> data_policy list) res" where
  "readAppPolicy tx appID =
     (case rd_domain tx of
        None \<Rightarrow> Inl EffRead
      | Some db \<Rightarrow>
          (case applications db appID of
             None \<Rightarrow> Inl EffRead
           | Some a \<Rightarrow>
               (case rd_rules tx of
                  None \<Rightarrow> Inl EffRead
                | Some db2 \<Rightarrow>
                    (case rd_policies tx of
                       None \<Rightarrow> Inl EffRead
                     | Some db3 \<Rightarrow> Inr (ap_domain a, ReadAppRules db2 appID, ReadAppDataPolicies db3 appID)))))"

definition to_kernel_policy :: "data_policy \<Rightarrow> kdata_policy" where
  "to_kernel_policy d = \<lparr>kdp_ID = dp_ID d, kdp_SubjectType = dp_SubjectType d, kdp_SubjectID = dp_SubjectID d,
     kdp_Resource = dp_Resource d, kdp_Condition = dp_Condition d, kdp_Effect = dp_Effect d\<rparr>"

definition toSnapshot :: "rule list \<Rightarrow> data_policy list \<Rightarrow> snapshot" where
  "toSnapshot rules dps = \<lparr>s_Version = 1, s_Rules = rules, s_DataPolicies = map to_kernel_policy dps\<rparr>"

text \<open>\<open>ce\<close> is the empty enforcer a new kernel is built on. A table that panicked takes the process with it.\<close>

definition buildEngineFrom ::
    "'ce casbin \<Rightarrow> 'ce \<Rightarrow> string \<Rightarrow> rule list \<Rightarrow> data_policy list \<Rightarrow>
     (eff_error, ('ce, table option) engine \<times> table) res" where
  "buildEngineFrom C ce domain rules dps =
     (case Engine_ApplySnapshot C tableApplier (toSnapshot rules dps) (kernel_New domain ce (Some NewTable)) of
        (err, eng) \<Rightarrow>
          (case e_applier eng of
             None \<Rightarrow> Inl EffPanic
           | Some t \<Rightarrow> (case err of Some k \<Rightarrow> Inl (EffKernel k) | None \<Rightarrow> Inr (eng, t))))"

section \<open>Effective permissions\<close>

definition perm_key :: "perm \<Rightarrow> string \<times> string" where
  "perm_key p = (pe_Resource p, pe_Action p)"

definition perm_cands :: "rule list \<Rightarrow> perm list" where
  "perm_cands rules = dedup (map (\<lambda>r. \<lparr>pe_Resource = V2 r, pe_Action = V3 r\<rparr>) (filter (\<lambda>r. Ptype r = ''p'') rules))"

definition computePerms ::
    "'ce casbin \<Rightarrow> rule list \<Rightarrow> string \<Rightarrow> string \<Rightarrow> ('ce, 't) engine \<Rightarrow> (eff_error, perm list \<times> ('ce, 't) engine) res" where
  "computePerms C rules domain user eng =
     (let cands = perm_cands rules
      in if cands = [] then Inr ([], eng)
         else case Engine_BatchEnforce C eng (map (\<lambda>c. [user, domain, pe_Resource c, pe_Action c]) cands) of
                (_, Some k, _) \<Rightarrow> Inl (EffKernel k)
              | (results, None, eng') \<Rightarrow> Inr (sort_key perm_key (map fst (filter snd (zip cands results))), eng'))"

definition view_of :: "string \<Rightarrow> symbolic_result \<Rightarrow> data_view" where
  "view_of res sr =
     (case sr of
        SymAll \<Rightarrow> \<lparr>dv_Resource = res, dv_Match = ''all'', dv_Predicate = []\<rparr>
      | SymNone \<Rightarrow> \<lparr>dv_Resource = res, dv_Match = ''none'', dv_Predicate = []\<rparr>
      | SymConditional b \<Rightarrow> \<lparr>dv_Resource = res, dv_Match = ''conditional'', dv_Predicate = b\<rparr>)"

definition symbolic_view ::
    "(jval \<Rightarrow> string) \<Rightarrow> resolver \<Rightarrow> table \<Rightarrow> string \<Rightarrow> string \<Rightarrow> string \<Rightarrow> (eff_error, data_view) res" where
  "symbolic_view sprintV rr t user domain resource =
     (case FilterSymbolic sprintV rr t user domain resource of Inl e \<Rightarrow> Inl (EffFilter e) | Inr sr \<Rightarrow> Inr (view_of resource sr))"

definition computeViews ::
    "(jval \<Rightarrow> string) \<Rightarrow> resolver \<Rightarrow> table \<Rightarrow> data_policy list \<Rightarrow> string \<Rightarrow> string \<Rightarrow> (eff_error, data_view list) res" where
  "computeViews sprintV rr t dps domain user =
     mapM (symbolic_view sprintV rr t user domain) (sort (dedup (map dp_Resource dps)))"

definition computeResult ::
    "'ce casbin \<Rightarrow> (jval \<Rightarrow> string) \<Rightarrow> table \<Rightarrow> rule list \<Rightarrow> data_policy list \<Rightarrow> string \<Rightarrow> string \<Rightarrow> ('ce, 't) engine \<Rightarrow>
     (eff_error, eff_result \<times> ('ce, 't) engine) res" where
  "computeResult C sprintV t rules dps domain user eng =
     (case Engine_GetImplicitRolesForUser C eng user domain of
        Inl k \<Rightarrow> Inl (EffKernel k)
      | Inr rs \<Rightarrow>
          (case computePerms C rules domain user eng of
             Inl e \<Rightarrow> Inl e
           | Inr (perms, eng') \<Rightarrow>
               (case computeViews sprintV (Engine_GetImplicitRolesForUser C eng') t dps domain user of
                  Inl e \<Rightarrow> Inl e
                | Inr views \<Rightarrow> Inr (\<lparr>er_Roles = sort rs, er_Permissions = perms, er_DataViews = views\<rparr>, eng'))))"

definition Compute ::
    "'ce casbin \<Rightarrow> (jval \<Rightarrow> string) \<Rightarrow> 'ce \<Rightarrow> policy_reads \<Rightarrow> int64 \<Rightarrow> string \<Rightarrow> (eff_error, eff_result) res" where
  "Compute C sprintV ce tx appID user =
     (case readAppPolicy tx appID of
        Inl e \<Rightarrow> Inl e
      | Inr (domain, rules, dps) \<Rightarrow>
          (case buildEngineFrom C ce domain rules dps of
             Inl e \<Rightarrow> Inl e
           | Inr (eng, t) \<Rightarrow>
               (case computeResult C sprintV t rules dps domain user eng of Inl e \<Rightarrow> Inl e | Inr (r, _) \<Rightarrow> Inr r)))"

section \<open>Explaining one decision\<close>

definition ReasonAllowGranted :: string where "ReasonAllowGranted = ''ALLOW_GRANTED''"
definition ReasonDenyOverridden :: string where "ReasonDenyOverridden = ''DENY_OVERRIDDEN''"
definition ReasonDenyNoMatch :: string where "ReasonDenyNoMatch = ''DENY_NO_MATCH''"

record deciding_rule =
  dr_Subject :: string
  dr_Resource :: string
  dr_Action :: string
  dr_Effect :: string

record explanation =
  ex_Allowed :: bool
  ex_Reason :: string
  ex_DecidingRule :: "deciding_rule option"
  ex_DecidingRole :: string
  ex_Roles :: "string list"
  ex_DataScope :: data_view

definition decided_by :: "string list \<Rightarrow> deciding_rule option" where
  "decided_by rule =
     (case rule of
        [] \<Rightarrow> None
      | sub # _ \<Rightarrow>
          if length rule \<ge> 5
          then Some \<lparr>dr_Subject = sub, dr_Resource = rule ! 2, dr_Action = rule ! 3, dr_Effect = rule ! 4\<rparr>
          else Some \<lparr>dr_Subject = sub, dr_Resource = [], dr_Action = [], dr_Effect = []\<rparr>)"

definition Explain ::
    "'ce casbin \<Rightarrow> (jval \<Rightarrow> string) \<Rightarrow> 'ce \<Rightarrow> policy_reads \<Rightarrow> int64 \<Rightarrow> string \<Rightarrow> string \<Rightarrow> string \<Rightarrow> (eff_error, explanation) res" where
  "Explain C sprintV ce tx appID user resource act =
     (case readAppPolicy tx appID of
        Inl e \<Rightarrow> Inl e
      | Inr (domain, rules, dps) \<Rightarrow>
          (case buildEngineFrom C ce domain rules dps of
             Inl e \<Rightarrow> Inl e
           | Inr (eng, t) \<Rightarrow>
               (case Engine_GetImplicitRolesForUser C eng user domain of
                  Inl k \<Rightarrow> Inl (EffKernel k)
                | Inr rs \<Rightarrow>
                    (case Engine_EnforceEx C eng user domain resource act of
                       Inl k \<Rightarrow> Inl (EffKernel k)
                     | Inr (allowed, rule) \<Rightarrow>
                         (case symbolic_view sprintV (Engine_GetImplicitRolesForUser C eng) t user domain resource of
                            Inl e \<Rightarrow> Inl e
                          | Inr view \<Rightarrow>
                              Inr \<lparr>ex_Allowed = allowed,
                                ex_Reason = (if rule = [] then ReasonDenyNoMatch
                                             else if allowed then ReasonAllowGranted else ReasonDenyOverridden),
                                ex_DecidingRule = decided_by rule,
                                ex_DecidingRole = (case rule of [] \<Rightarrow> [] | sub # _ \<Rightarrow> sub),
                                ex_Roles = sort rs, ex_DataScope = view\<rparr>)))))"

definition PreviewFilter ::
    "'ce casbin \<Rightarrow> 'ce \<Rightarrow> policy_reads \<Rightarrow> int64 \<Rightarrow> string \<Rightarrow> string \<Rightarrow> attrs \<Rightarrow> (eff_error, sql_result) res" where
  "PreviewFilter C ce tx appID subject resource at =
     (case readAppPolicy tx appID of
        Inl e \<Rightarrow> Inl e
      | Inr (domain, rules, dps) \<Rightarrow>
          (case buildEngineFrom C ce domain rules dps of
             Inl e \<Rightarrow> Inl e
           | Inr (eng, t) \<Rightarrow>
               (case FilterSQL (Engine_GetImplicitRolesForUser C eng) t subject domain resource at of
                  Inl e \<Rightarrow> Inl (EffFilter e)
                | Inr r \<Rightarrow> Inr r)))"

section \<open>What would a change do\<close>

record change =
  ch_Type :: string
  ch_UserID :: string
  ch_Resource :: string
  ch_Action :: string

record subject_diff =
  sd_UserID :: string
  sd_AddedPermissions :: "perm list"
  sd_RemovedPermissions :: "perm list"
  sd_AddedDataViews :: "data_view list"
  sd_RemovedDataViews :: "data_view list"

definition nonEmpty :: "subject_diff \<Rightarrow> bool" where
  "nonEmpty d \<longleftrightarrow> sd_AddedPermissions d \<noteq> [] \<or> sd_RemovedPermissions d \<noteq> [] \<or>
     sd_AddedDataViews d \<noteq> [] \<or> sd_RemovedDataViews d \<noteq> []"

definition permDiff :: "perm list \<Rightarrow> perm list \<Rightarrow> perm list" where
  "permDiff a b = filter (\<lambda>p. p \<notin> set b) a"

definition viewDiff :: "data_view list \<Rightarrow> data_view list \<Rightarrow> data_view list" where
  "viewDiff a b = filter (\<lambda>v. v \<notin> set b) a"

fun users_loop :: "'ce casbin \<Rightarrow> ('ce, 't) engine \<Rightarrow> string \<Rightarrow> string \<Rightarrow> string list \<Rightarrow> (eff_error, string list) res" where
  "users_loop C eng domain roleCode [] = Inr []"
| "users_loop C eng domain roleCode (uid # uids) =
     (case Engine_GetImplicitRolesForUser C eng uid domain of
        Inl k \<Rightarrow> Inl (EffKernel k)
      | Inr rs \<Rightarrow>
          (case users_loop C eng domain roleCode uids of
             Inl e \<Rightarrow> Inl e
           | Inr rest \<Rightarrow> Inr (if roleCode \<in> set rs then uid # rest else rest)))"

definition usersWithRole ::
    "'ce casbin \<Rightarrow> policy_reads \<Rightarrow> ('ce, 't) engine \<Rightarrow> int64 \<Rightarrow> string \<Rightarrow> string \<Rightarrow> (eff_error, string list) res" where
  "usersWithRole C tx eng appID domain roleCode =
     (case rd_users tx of
        None \<Rightarrow> Inl EffRead
      | Some db \<Rightarrow>
          users_loop C eng domain roleCode
            (sort (remdups (map ub_user (filter (\<lambda>b. ub_app b = appID) (user_role_bindings db))))))"

text \<open>The row that the change would add, and the users it would touch.\<close>

definition synthetic ::
    "'ce casbin \<Rightarrow> policy_reads \<Rightarrow> ('ce, 't) engine \<Rightarrow> int64 \<Rightarrow> string \<Rightarrow> string \<Rightarrow> change \<Rightarrow>
     (eff_error, rule list \<times> string list) res" where
  "synthetic C tx eng appID domain roleCode ch =
     (if ch_Type ch = ''bind_user'' then
        (if ch_UserID ch = [] then Inl (EffInvalid ''UserID is required'')
         else Inr ([g_row (ch_UserID ch) roleCode domain], [ch_UserID ch]))
      else if ch_Type ch = ''add_capability'' then
        (if ch_Resource ch = [] \<or> ch_Action ch = [] then Inl (EffInvalid ''Resource and Action are required'')
         else case usersWithRole C tx eng appID domain roleCode of
                Inl e \<Rightarrow> Inl e
              | Inr subjects \<Rightarrow> Inr ([p_row roleCode domain (ch_Resource ch) (ch_Action ch) ''allow''], subjects))
      else Inl (EffInvalid ''unknown change type''))"

definition subject_diff_of :: "string \<Rightarrow> eff_result \<Rightarrow> eff_result \<Rightarrow> subject_diff" where
  "subject_diff_of uid base hypo =
     \<lparr>sd_UserID = uid,
      sd_AddedPermissions = permDiff (er_Permissions hypo) (er_Permissions base),
      sd_RemovedPermissions = permDiff (er_Permissions base) (er_Permissions hypo),
      sd_AddedDataViews = viewDiff (er_DataViews hypo) (er_DataViews base),
      sd_RemovedDataViews = viewDiff (er_DataViews base) (er_DataViews hypo)\<rparr>"

fun diff_loop ::
    "(string \<Rightarrow> 'e \<Rightarrow> (eff_error, eff_result \<times> 'e) res) \<Rightarrow> (string \<Rightarrow> 'e \<Rightarrow> (eff_error, eff_result \<times> 'e) res) \<Rightarrow>
     string list \<Rightarrow> 'e \<Rightarrow> 'e \<Rightarrow> (eff_error, subject_diff list) res" where
  "diff_loop base hypo [] be he = Inr []"
| "diff_loop base hypo (uid # uids) be he =
     (case base uid be of
        Inl e \<Rightarrow> Inl e
      | Inr (b, be') \<Rightarrow>
          (case hypo uid he of
             Inl e \<Rightarrow> Inl e
           | Inr (h, he') \<Rightarrow>
               (case diff_loop base hypo uids be' he' of
                  Inl e \<Rightarrow> Inl e
                | Inr rest \<Rightarrow>
                    Inr (if nonEmpty (subject_diff_of uid b h) then subject_diff_of uid b h # rest else rest))))"

definition Simulate ::
    "'ce casbin \<Rightarrow> (jval \<Rightarrow> string) \<Rightarrow> 'ce \<Rightarrow> policy_reads \<Rightarrow> int64 \<Rightarrow> string \<Rightarrow> change \<Rightarrow> (eff_error, subject_diff list) res" where
  "Simulate C sprintV ce tx appID roleCode ch =
     (case readAppPolicy tx appID of
        Inl e \<Rightarrow> Inl e
      | Inr (domain, rules, dps) \<Rightarrow>
          (case buildEngineFrom C ce domain rules dps of
             Inl e \<Rightarrow> Inl e
           | Inr (baseEng, baseTable) \<Rightarrow>
               (case synthetic C tx baseEng appID domain roleCode ch of
                  Inl e \<Rightarrow> Inl e
                | Inr (added, subjects) \<Rightarrow>
                    (case buildEngineFrom C ce domain (rules @ added) dps of
                       Inl e \<Rightarrow> Inl e
                     | Inr (hypoEng, hypoTable) \<Rightarrow>
                         diff_loop (computeResult C sprintV baseTable rules dps domain)
                           (computeResult C sprintV hypoTable (rules @ added) dps domain) subjects baseEng hypoEng))))"

section \<open>The handlers\<close>

type_synonym eff_status = "grpc_code \<times> string"

definition GetEffectivePermissions ::
    "'ce casbin \<Rightarrow> (jval \<Rightarrow> string) \<Rightarrow> 'ce \<Rightarrow> policy_reads option \<Rightarrow> int64 \<Rightarrow> string \<Rightarrow> (eff_status, eff_result) res" where
  "GetEffectivePermissions C sprintV ce begin_tx appID user =
     (if user = [] then Inl (InvalidArgument, ''user_id required'')
      else case begin_tx of
        None \<Rightarrow> Inl (Internal, ''begin read tx'')
      | Some tx \<Rightarrow>
          (case Compute C sprintV ce tx appID user of Inl _ \<Rightarrow> Inl (Internal, ''effective permissions'') | Inr r \<Rightarrow> Inr r))"

definition ExplainDecision ::
    "'ce casbin \<Rightarrow> (jval \<Rightarrow> string) \<Rightarrow> 'ce \<Rightarrow> policy_reads option \<Rightarrow> int64 \<Rightarrow> string \<Rightarrow> string \<Rightarrow> string \<Rightarrow> (eff_status, explanation) res" where
  "ExplainDecision C sprintV ce begin_tx appID user resource act =
     (if user = [] then Inl (InvalidArgument, ''user_id required'')
      else if resource = [] \<or> act = [] then Inl (InvalidArgument, ''resource and action required'')
      else case begin_tx of
        None \<Rightarrow> Inl (Internal, ''begin read tx'')
      | Some tx \<Rightarrow>
          (case Explain C sprintV ce tx appID user resource act of Inl _ \<Rightarrow> Inl (Internal, ''explain decision'') | Inr x \<Rightarrow> Inr x))"

definition PreviewDataFilter ::
    "'ce casbin \<Rightarrow> (jval \<Rightarrow> string) \<Rightarrow> 'ce \<Rightarrow> policy_reads option \<Rightarrow> int64 \<Rightarrow> string \<Rightarrow> string \<Rightarrow> (string \<rightharpoonup> string) \<Rightarrow>
     (eff_status, string \<times> string list) res" where
  "PreviewDataFilter C sprintV ce begin_tx appID subject resource at =
     (if subject = [] \<or> resource = [] then Inl (InvalidArgument, ''subject and resource required'')
      else case begin_tx of
        None \<Rightarrow> Inl (Internal, ''begin read tx'')
      | Some tx \<Rightarrow>
          (case PreviewFilter C ce tx appID subject resource (\<lambda>k. map_option JStr (at k)) of
             Inl (EffFilter (CondError (ErrMissingVar _))) \<Rightarrow> Inl (InvalidArgument, ''missing attribute'')
           | Inl _ \<Rightarrow> Inl (Internal, ''preview data filter'')
           | Inr r \<Rightarrow> Inr (SQL r, map (\<lambda>v. case v of JStr s \<Rightarrow> s | _ \<Rightarrow> sprintV v) (Args r))))"

datatype role_change_type = BIND_USER | ADD_CAPABILITY | UNSPECIFIED

definition SimulateRoleChange ::
    "'ce casbin \<Rightarrow> (jval \<Rightarrow> string) \<Rightarrow> 'ce \<Rightarrow> db option \<Rightarrow> policy_reads option \<Rightarrow> int64 \<Rightarrow> int64 \<Rightarrow> role_change_type \<Rightarrow>
     string \<Rightarrow> string \<Rightarrow> string \<Rightarrow> (eff_status, subject_diff list) res" where
  "SimulateRoleChange C sprintV ce read begin_tx appID roleID ct userID resource act =
     (case read of
        None \<Rightarrow> Inl (Internal, ''read role'')
      | Some db \<Rightarrow>
          (case filter (\<lambda>r. rl_id r = roleID \<and> rl_app r = appID) (roles db) of
             [] \<Rightarrow> Inl (NotFound, ''role not found'')
           | role # _ \<Rightarrow>
               (case (case ct of
                        BIND_USER \<Rightarrow>
                          if userID = [] then Inl (InvalidArgument, ''user_id required'')
                          else Inr \<lparr>ch_Type = ''bind_user'', ch_UserID = userID, ch_Resource = [], ch_Action = []\<rparr>
                      | ADD_CAPABILITY \<Rightarrow>
                          if resource = [] \<or> act = [] then Inl (InvalidArgument, ''resource/action required'')
                          else Inr \<lparr>ch_Type = ''add_capability'', ch_UserID = [], ch_Resource = resource, ch_Action = act\<rparr>
                      | UNSPECIFIED \<Rightarrow> Inl (InvalidArgument, ''unknown change_type'')) of
                  Inl e \<Rightarrow> Inl e
                | Inr ch \<Rightarrow>
                    (case begin_tx of
                       None \<Rightarrow> Inl (Internal, ''begin read tx'')
                     | Some tx \<Rightarrow>
                         (case Simulate C sprintV ce tx appID (rl_code role) ch of
                            Inl _ \<Rightarrow> Inl (Internal, ''simulate'')
                          | Inr diffs \<Rightarrow> Inr diffs)))))"

section \<open>What a transient engine answers\<close>

definition allowed_perms :: "nat \<Rightarrow> rule set \<Rightarrow> string \<Rightarrow> string \<Rightarrow> perm set" where
  "allowed_perms lvl R user d = {p. rules_allow lvl R user d (pe_Resource p) (pe_Action p)}"

definition implied_roles :: "rule set \<Rightarrow> string \<Rightarrow> string \<Rightarrow> string set" where
  "implied_roles R d u = {r. r \<noteq> u \<and> (u, r) \<in> {(a, b). \<exists>g \<in> R. Ptype g = ''g'' \<and> V0 g = a \<and> V1 g = b \<and> V2 g = d}\<^sup>+}"

lemma perm_key_inj: "inj perm_key"
  by (auto simp: inj_def perm_key_def)

lemma set_perm_cands: "set (perm_cands rules) = {\<lparr>pe_Resource = V2 r, pe_Action = V3 r\<rparr> | r. r \<in> set rules \<and> Ptype r = ''p''}"
  by (auto simp: perm_cands_def)

lemma allowed_is_cand: "allowed_perms lvl (set rules) user d \<subseteq> set (perm_cands rules)"
proof
  fix p
  assume "p \<in> allowed_perms lvl (set rules) user d"
  then obtain r where "r \<in> set rules" "Ptype r = ''p''" "V2 r = pe_Resource p" "V3 r = pe_Action p"
    by (auto simp: allowed_perms_def rules_allow_def granted_def)
  then show "p \<in> set (perm_cands rules)" unfolding set_perm_cands by (cases p) force
qed

text \<open>A list that is sorted and without repetitions is determined by its elements.\<close>

lemma sorted_by_key_unique:
  assumes "inj f" "sorted (map f xs)" "distinct xs" "sorted (map f ys)" "distinct ys" "set xs = set ys"
  shows "xs = ys"
proof -
  have "map f xs = map f ys"
    using assms by (intro sorted_distinct_set_unique) (auto simp: distinct_map intro: inj_on_subset)
  with assms(1) show ?thesis by (simp add: inj_map_eq_map)
qed

lemma filter_zip_map: "map fst (filter snd (zip xs (map f xs))) = filter f xs"
  by (induction xs) auto

context casbin_enforcer
begin

text \<open>The engine holds the rules \<open>R\<close>, is ready, and serves the domain \<open>d\<close>.\<close>

definition serving :: "string \<Rightarrow> rule set \<Rightarrow> ('ce, 't) engine \<Rightarrow> bool" where
  "serving d R e \<longleftrightarrow> represents (e_ce e) R \<and> fresh (e_ce e) \<and> e_ready e \<and> e_domain e = d"

lemma batch_rows_serving:
  "serving d R e \<Longrightarrow> serving d R (snd (snd (batch_rows C reqs acc e)))"
proof (induction reqs arbitrary: acc e)
  case (Cons r reqs)
  have "serving d R (e\<lparr>e_ce := snd (ce_Enforce C r (e_ce e))\<rparr>)"
    using Cons.prems enforce_state [of r "e_ce e"] by (auto simp: serving_def represents_def)
  with Cons.IH show ?case by (auto split: prod.splits sum.splits)
qed simp

lemma serving_roles:
  assumes "serving d R e" "\<forall>r \<in> R. wf_row r"
  shows "\<exists>rs. Engine_GetImplicitRolesForUser C e u d = Inr rs \<and> set rs = implied_roles R d u"
proof -
  obtain rs where rs: "ce_GetImplicitRolesForUser C u d (e_ce e) = Inr rs"
      "set rs = {r. r \<noteq> u \<and> (u, r) \<in> {(a, b). [a, b, d] \<in> grp (e_ce e)}\<^sup>+}"
    using implicit_roles by blast
  have "{(a, b). [a, b, d] \<in> grp (e_ce e)} = {(a, b). \<exists>g \<in> R. Ptype g = ''g'' \<and> V0 g = a \<and> V1 g = b \<and> V2 g = d}"
    using assms by (auto simp: serving_def represents_def g_rows_def wf_row_g_values image_iff)
  with rs assms(1) show ?thesis by (auto simp: Engine_GetImplicitRolesForUser_def serving_def implied_roles_def)
qed

lemma computePerms_exact:
  assumes "serving d (set rules) e" "\<forall>r \<in> set rules. wf_row r"
  shows "\<exists>ps e'. computePerms C rules d user e = Inr (ps, e') \<and> serving d (set rules) e' \<and>
    sorted (map perm_key ps) \<and> distinct ps \<and> set ps = allowed_perms lvl (set rules) user d"
proof (cases "perm_cands rules = []")
  case True
  then have "allowed_perms lvl (set rules) user d = {}" using allowed_is_cand [of lvl rules user d] by simp
  with True assms(1) show ?thesis by (auto simp: computePerms_def)
next
  case False
  let ?cs = "perm_cands rules"
  let ?reqs = "map (\<lambda>c. (user, d, pe_Resource c, pe_Action c)) ?cs"
  let ?ok = "\<lambda>c. rules_allow lvl (set rules) user d (pe_Resource c) (pe_Action c)"
  obtain e' where b: "batch_rows C (map (\<lambda>(s, d, ob, a). [s, d, ob, a]) ?reqs) [] e =
      ([] @ map (\<lambda>(s, d, ob, a). rules_allow lvl (set rules) s d ob a) ?reqs, None, e')"
    using batch_rows_decides [of e "set rules" ?reqs "[]"] assms by (auto simp: serving_def)
  from b have run: "Engine_BatchEnforce C e (map (\<lambda>c. [user, d, pe_Resource c, pe_Action c]) ?cs) = (map ?ok ?cs, None, e')"
    using assms(1) by (simp add: Engine_BatchEnforce_def serving_def comp_def)
  moreover have "serving d (set rules) e'"
    using batch_rows_serving [OF assms(1), of "map (\<lambda>(s, d, ob, a). [s, d, ob, a]) ?reqs" "[]"] unfolding b by simp
  moreover have "set (filter ?ok ?cs) = allowed_perms lvl (set rules) user d"
    using allowed_is_cand [of lvl rules user d] by (auto simp: allowed_perms_def)
  moreover have "distinct (filter ?ok ?cs)" by (simp add: perm_cands_def)
  ultimately show ?thesis using False by (simp add: computePerms_def filter_zip_map)
qed

lemma buildEngineFrom_serving:
  assumes "buildEngineFrom C ce d rules dps = Inr (e, t)"
  shows "serving d (set rules) e" "append_all (map to_kernel_policy dps) Map.empty = Some t"
proof -
  have snap: "Engine_ApplySnapshot C tableApplier (toSnapshot rules dps) (kernel_New d ce (Some NewTable)) = (None, e)"
      and t: "e_applier e = Some t"
    using assms by (auto simp: buildEngineFrom_def split: prod.splits option.splits)
  have "e_ready e \<and> e_domain e = d \<and> e_applier e = append_all (map to_kernel_policy dps) Map.empty"
    using snap by (auto simp: Engine_ApplySnapshot_def kernel_New_def toSnapshot_def tableApplier_def Table_ApplySnapshot_def Let_def
        split: if_splits prod.splits option.splits)
  with ApplySnapshot_represents [OF snap] t show "serving d (set rules) e" "append_all (map to_kernel_policy dps) Map.empty = Some t"
    by (simp_all add: serving_def toSnapshot_def)
qed

end

section \<open>Views depend on the set of roles only\<close>

lemma subjectMatches_set: "set rs = set rs' \<Longrightarrow> subjectMatches s user rs = subjectMatches s user rs'"
  by (simp add: subjectMatches_def)

lemma select_loop_set:
  assumes "set rs = set rs'"
  shows "select_loop user rs b al dn = select_loop user rs' b al dn"
  using subjectMatches_set [OF assms, of _ user]
  by (induction b arbitrary: al dn) (simp_all cong: option.case_cong)

lemma symbolic_view_set:
  assumes "rr user d = Inr rs" "rr' user d = Inr rs'" "set rs = set rs'"
  shows "symbolic_view sprintV rr t user d res = symbolic_view sprintV rr' t user d res"
proof -
  have "selectAndMerge rr t user d res = selectAndMerge rr' t user d res"
    using assms(1,2) select_loop_set [OF assms(3), of user] by (cases "Lookup t res") (simp add: selectAndMerge_def)
  then show ?thesis by (simp add: symbolic_view_def FilterSymbolic_def)
qed

lemma computeViews_set:
  assumes "rr user d = Inr rs" "rr' user d = Inr rs'" "set rs = set rs'"
  shows "computeViews sprintV rr t dps d user = computeViews sprintV rr' t dps d user"
proof -
  have "symbolic_view sprintV rr t user d = symbolic_view sprintV rr' t user d"
    using symbolic_view_set [where rr = rr and rr' = rr', OF assms] by (intro ext)
  then show ?thesis by (simp add: computeViews_def)
qed

lemma symbolic_view_resource: "symbolic_view sprintV rr t user d res = Inr v \<Longrightarrow> dv_Resource v = res"
  by (auto simp: symbolic_view_def view_of_def split: sum.splits symbolic_result.splits)

lemma computeViews_resources:
  assumes "computeViews sprintV rr t dps d user = Inr vs"
  shows "map dv_Resource vs = sort (dedup (map dp_Resource dps))"
proof -
  have "list_all2 P xs ys \<Longrightarrow> (\<And>x y. P x y \<Longrightarrow> dv_Resource y = x) \<Longrightarrow> map dv_Resource ys = xs"
    for P and xs and ys :: "data_view list"
    by (induction rule: list_all2_induct) auto
  from this [OF _ symbolic_view_resource] assms show ?thesis by (simp add: computeViews_def mapM_Ok_iff)
qed

lemma renderSymbolic_total:
  "renderable c \<Longrightarrow> \<exists>b. renderSymbolic sprintV c = Inr b"
  "list_all renderable cs \<Longrightarrow> \<exists>b. symbolic_children sprintV sep first cs = Inr b"
proof (induction sprintV c and sprintV sep first cs rule: renderSymbolic_symbolic_children.induct)
  case (2 sprintV op cs field v)
  show ?case
  proof (cases "isLogicalOp op")
    case True
    then consider "op = OpAnd \<or> op = OpOr" | c cs' where "op = OpNot" "cs = c # cs'"
      using "2.prems" by (cases cs) (auto simp: isLogicalOp_def)
    then show ?thesis
    proof cases
      case 1
      with 2 True obtain b where "symbolic_children sprintV (if op = OpOr then '' OR '' else '' AND '') True cs = Inr b" by auto
      with 1 show ?thesis by simp
    next
      case (2 c cs')
      moreover have "op \<noteq> OpAnd" "op \<noteq> OpOr" using 2(1) by (simp_all add: op_defs)
      moreover obtain b where "renderSymbolic sprintV c = Inr b" using "2.IH"(2) "2.prems" True calculation by auto
      ultimately show ?thesis by simp
    qed
  next
    case False
    then show ?thesis by (simp add: isLogicalOp_def)
  qed
next
  case (4 sprintV sep first c cs)
  then obtain b bs where "renderSymbolic sprintV c = Inr b" "symbolic_children sprintV sep False cs = Inr bs" by auto
  then show ?case by simp
qed auto

text \<open>A stored policy that applies to the user and did not parse.\<close>

definition poisoned_for :: "table \<Rightarrow> string \<Rightarrow> string set \<Rightarrow> bool" where
  "poisoned_for t user R \<longleftrightarrow> (\<exists>res b. t res = Some b \<and> (\<exists>s \<in> set b. st_parseErr s \<noteq> None \<and>
     (st_subjectType s = SubjectUser \<and> st_subjectID s = user \<or> st_subjectType s = SubjectRole \<and> st_subjectID s \<in> R)))"

lemma symbolic_view_Ok:
  assumes "holds_policies t ps" "rr user d = Inr rs"
  shows "(\<exists>v. symbolic_view sprintV rr t user d res = Inr v) \<longleftrightarrow>
    (\<forall>b. t res = Some b \<longrightarrow> (\<forall>s \<in> set b. subjectMatches s user rs \<longrightarrow> st_parseErr s = None))"
proof (cases "t res")
  case None
  then have "selectAndMerge rr t user d res = Inr ModeNoFilter" by (simp add: selectAndMerge_Ok)
  with None show ?thesis by (simp add: symbolic_view_def FilterSymbolic_def)
next
  case (Some b)
  let ?m = "matching user rs b"
  show ?thesis
  proof (cases "\<forall>s \<in> set ?m. st_parseErr s = None")
    case True
    let ?p = "if conds_of False ?m = [] then ModeDenyAll else ModeTree (merged (conds_of False ?m) (conds_of True ?m))"
    have "selectAndMerge rr t user d res = Inr ?p" using True Some assms(2) by (simp add: selectAndMerge_Ok)
    moreover have "\<exists>x. renderSymbolic sprintV (merged (conds_of False ?m) (conds_of True ?m)) = Inr x" if "conds_of False ?m \<noteq> []"
      using conds_of_renderable [OF assms(1) Some True] that by (intro renderSymbolic_total(1) merged_renderable)
    ultimately have "\<exists>v. symbolic_view sprintV rr t user d res = Inr v"
      by (auto simp: symbolic_view_def FilterSymbolic_def)
    with True Some show ?thesis by (simp add: matching_def)
  next
    case False
    then have "selectAndMerge rr t user d res \<noteq> Inr p" for p using Some assms(2) by (simp add: selectAndMerge_Ok)
    then have "\<not> (\<exists>v. symbolic_view sprintV rr t user d res = Inr v)"
      by (auto simp: symbolic_view_def FilterSymbolic_def split: sum.splits)
    with False Some show ?thesis by (auto simp: matching_def)
  qed
qed

lemma mapM_Ok_ex: "(\<exists>ys. mapM f xs = Inr ys) \<longleftrightarrow> (\<forall>x \<in> set xs. \<exists>y. f x = Inr y)"
  by (induction xs) (auto split: sum.splits)

lemma computeViews_Ok:
  assumes "holds_policies t (map to_kernel_policy dps)" "rr user d = Inr rs" "set rs = R"
  shows "(\<exists>vs. computeViews sprintV rr t dps d user = Inr vs) \<longleftrightarrow> \<not> poisoned_for t user R"
proof -
  have "t res = Some b \<Longrightarrow> res \<in> dp_Resource ` set dps" for res b
    using assms(1) by (auto simp: holds_policies_def policies_for_def to_kernel_policy_def filter_empty_conv split: if_splits)
  then have all: "(\<forall>res \<in> dp_Resource ` set dps. \<forall>b. t res = Some b \<longrightarrow> Q b) \<longleftrightarrow> (\<forall>res b. t res = Some b \<longrightarrow> Q b)" for Q
    by blast
  have subj: "subjectMatches s user rs \<longleftrightarrow>
      st_subjectType s = SubjectUser \<and> st_subjectID s = user \<or> st_subjectType s = SubjectRole \<and> st_subjectID s \<in> R" for s
    using assms(3) by (auto simp: subjectMatches_def SubjectUser_def SubjectRole_def)
  have "(\<exists>vs. computeViews sprintV rr t dps d user = Inr vs) \<longleftrightarrow>
      (\<forall>res \<in> dp_Resource ` set dps. \<forall>b. t res = Some b \<longrightarrow> (\<forall>s \<in> set b. subjectMatches s user rs \<longrightarrow> st_parseErr s = None))"
    using symbolic_view_Ok [where rr = rr, OF assms(1,2)] by (simp add: computeViews_def mapM_Ok_ex)
  also have "\<dots> \<longleftrightarrow> \<not> poisoned_for t user R" unfolding all poisoned_for_def subj by (auto simp del: not_None_eq)
  finally show ?thesis .
qed

section \<open>Results\<close>

context casbin_enforcer
begin

lemma computeResult_exact:
  assumes "serving d (set rules) e" "\<forall>r \<in> set rules. wf_row r" "holds_policies t (map to_kernel_policy dps)"
  shows "case computeResult C sprintV t rules dps d user e of
      Inl _ \<Rightarrow> poisoned_for t user (implied_roles (set rules) d user)
    | Inr (r, e') \<Rightarrow> \<not> poisoned_for t user (implied_roles (set rules) d user) \<and> serving d (set rules) e' \<and>
        sorted (er_Roles r) \<and> set (er_Roles r) = implied_roles (set rules) d user \<and>
        sorted (map perm_key (er_Permissions r)) \<and> distinct (er_Permissions r) \<and>
        set (er_Permissions r) = allowed_perms lvl (set rules) user d \<and>
        computeViews sprintV (Engine_GetImplicitRolesForUser C e) t dps d user = Inr (er_DataViews r)"
proof -
  obtain ps e' where ps: "computePerms C rules d user e = Inr (ps, e')" "serving d (set rules) e'"
      "sorted (map perm_key ps)" "distinct ps" "set ps = allowed_perms lvl (set rules) user d"
    using computePerms_exact [OF assms(1,2)] by blast
  obtain rs where rs: "Engine_GetImplicitRolesForUser C e user d = Inr rs" "set rs = implied_roles (set rules) d user"
    using serving_roles [OF assms(1,2)] by blast
  obtain rs' where rs': "Engine_GetImplicitRolesForUser C e' user d = Inr rs'" "set rs' = implied_roles (set rules) d user"
    using serving_roles [OF ps(2) assms(2)] by blast
  have "computeViews sprintV (Engine_GetImplicitRolesForUser C e') t dps d user =
      computeViews sprintV (Engine_GetImplicitRolesForUser C e) t dps d user"
    by (rule computeViews_set [where rr = "Engine_GetImplicitRolesForUser C e'" and rr' = "Engine_GetImplicitRolesForUser C e",
        OF rs'(1) rs(1)]) (simp add: rs(2) rs'(2))
  moreover have "(\<exists>vs. computeViews sprintV (Engine_GetImplicitRolesForUser C e) t dps d user = Inr vs) \<longleftrightarrow>
      \<not> poisoned_for t user (implied_roles (set rules) d user)"
    by (rule computeViews_Ok [where rr = "Engine_GetImplicitRolesForUser C e", OF assms(3) rs])
  ultimately show ?thesis
    using ps rs by (auto simp: computeResult_def split: sum.splits)
qed

text \<open>Engines that hold the same rules give the same permissions and the same views.\<close>

lemma computeResult_same:
  assumes "serving d (set rules) e" "serving d (set rules') e'" "set rules' = set rules" "\<forall>r \<in> set rules. wf_row r"
    and "holds_policies t (map to_kernel_policy dps)"
    and "computeResult C sprintV t rules dps d user e = Inr (r, e1)" "computeResult C sprintV t rules' dps d user e' = Inr (r', e1')"
  shows "er_Permissions r' = er_Permissions r \<and> er_DataViews r' = er_DataViews r"
proof -
  obtain rs rs' where rs: "Engine_GetImplicitRolesForUser C e user d = Inr rs" "Engine_GetImplicitRolesForUser C e' user d = Inr rs'"
      "set rs = set rs'"
    using serving_roles [OF assms(1,4), of user] serving_roles [OF assms(2), of user] assms(3,4) by auto
  have "computeViews sprintV (Engine_GetImplicitRolesForUser C e) t dps d user =
      computeViews sprintV (Engine_GetImplicitRolesForUser C e') t dps d user"
    by (rule computeViews_set [where rr = "Engine_GetImplicitRolesForUser C e" and rr' = "Engine_GetImplicitRolesForUser C e'", OF rs])
  then show ?thesis
    using computeResult_exact [where sprintV = sprintV and user = user, OF assms(1,4,5)]
      computeResult_exact [where sprintV = sprintV and user = user, OF assms(2) _ assms(5)] assms(3,4,6,7)
    by (auto intro: sorted_by_key_unique [OF perm_key_inj])
qed

lemma Compute_result:
  assumes "readAppPolicy tx app = Inr (d, rules, dps)" "buildEngineFrom C ce d rules dps = Inr (e, t)"
  shows "Compute C sprintV ce tx app user = Inr r \<longleftrightarrow> (\<exists>e'. computeResult C sprintV t rules dps d user e = Inr (r, e'))"
  using assms by (auto simp: Compute_def split: sum.splits)

end

section \<open>Reports on a store in good order\<close>

text \<open>A read transaction that sees one state of the database.\<close>

definition at_state :: "db \<Rightarrow> policy_reads" where
  "at_state db = \<lparr>rd_domain = Some db, rd_rules = Some db, rd_policies = Some db, rd_users = Some db\<rparr>"

lemma read_at_state:
  "applications db app = Some a \<Longrightarrow> readAppPolicy (at_state db) app = Inr (ap_domain a, ReadAppRules db app, ReadAppDataPolicies db app)"
  by (simp add: readAppPolicy_def at_state_def)

lemma append_all_parses: "append_all qs t = Some t' \<Longrightarrow> list_all parses qs"
  by (induction qs arbitrary: t) (auto simp: append_stored_def parses_def split: option.splits)

lemma append_all_holds:
  assumes "append_all qs Map.empty = Some t"
  shows "holds_policies t qs"
proof -
  have "holds_policies Map.empty []" by (simp add: holds_policies_def policies_for_def)
  from holds_append_all [OF this append_all_parses [OF assms]] assms show ?thesis by auto
qed

lemma governed_rules: "governed db \<Longrightarrow> set (ReadAppRules db app) = set (ProjectApp db app)"
  by (simp add: governed_def consistent_def rules_of_def)

lemma governed_wf: "governed db \<Longrightarrow> \<forall>r \<in> set (ReadAppRules db app). wf_row r"
  using governed_wf_rows by (auto simp: rules_of_def)

text \<open>
  C38. The effective permissions of a user are exactly what a sidecar would allow under the policy
  in the database: the listed permissions are the resources and actions that the projected rules
  allow the user, the listed roles are those the user has directly or by inheritance, both sorted,
  and there is one data view for every resource with a data policy. The report is refused exactly
  if a data policy that applies to the user does not parse, never shortened.
\<close>

theorem effective_permissions_exact:
  assumes "casbin_enforcer C pol grp fresh lvl" and "governed db" and "applications db app = Some a"
    and "buildEngineFrom C ce (ap_domain a) (ReadAppRules db app) (ReadAppDataPolicies db app) = Inr (e, t)"
  shows "case Compute C sprintV ce (at_state db) app user of
      Inl _ \<Rightarrow> poisoned_for t user (implied_roles (set (ProjectApp db app)) (ap_domain a) user)
    | Inr r \<Rightarrow> \<not> poisoned_for t user (implied_roles (set (ProjectApp db app)) (ap_domain a) user) \<and>
        sorted (er_Roles r) \<and> set (er_Roles r) = implied_roles (set (ProjectApp db app)) (ap_domain a) user \<and>
        sorted (map perm_key (er_Permissions r)) \<and> distinct (er_Permissions r) \<and>
        set (er_Permissions r) = {p. rules_allow lvl (set (ProjectApp db app)) user (ap_domain a) (pe_Resource p) (pe_Action p)} \<and>
        map dv_Resource (er_DataViews r) = sort (dedup (map dp_Resource (ReadAppDataPolicies db app)))"
proof -
  have serving: "casbin_enforcer.serving pol grp fresh (ap_domain a) (set (ReadAppRules db app)) e"
      and t: "append_all (map to_kernel_policy (ReadAppDataPolicies db app)) Map.empty = Some t"
    using casbin_enforcer.buildEngineFrom_serving [OF assms(1,4)] by blast+
  show ?thesis
    using casbin_enforcer.computeResult_exact [OF assms(1) serving governed_wf [OF assms(2)] append_all_holds [OF t], where sprintV = sprintV and user = user]
      governed_rules [OF assms(2), of app] computeViews_resources read_at_state [OF assms(3)] assms(4)
    by (auto simp: Compute_def allowed_perms_def split: sum.splits)
qed

section \<open>A simulated binding\<close>

lemma bind_projects:
  assumes "governed db" "applications db app = Some a" "role \<in> set (roles db)" "rl_id role = roleID"
    and "InsertUserRoleBinding app user roleID db = Inr db1"
  shows "set (ProjectApp db1 app) = insert (g_row user (rl_code role) (ap_domain a)) (set (ProjectApp db app))"
proof -
  have uniq: "r = role" if "r \<in> set (roles db)" "rl_id r = roleID" for r
    using that assms(1,3,4) by (auto simp: governed_def schema_ok_def distinct_map dest: inj_onD)
  have same: "project_p db1 app = project_p db app" "project_g_inherit db1 app = project_g_inherit db app"
      "applications db1 = applications db" "roles db1 = roles db"
    using assms(5) by (auto simp: InsertUserRoleBinding_def project_p_def project_g_inherit_def
        split: if_splits cong: if_cong)
  have "u_source db1 app b r \<longleftrightarrow> u_source db app b r \<or> b = \<lparr>ub_app = app, ub_user = user, ub_role = roleID\<rparr> \<and> r = role" for b r
  proof (cases "\<exists>b \<in> set (user_role_bindings db). ub_app b = app \<and> ub_user b = user \<and> ub_role b = roleID")
    case True
    then obtain b' where b': "b' \<in> set (user_role_bindings db)" "ub_app b' = app" "ub_user b' = user" "ub_role b' = roleID" by blast
    then have "b' = \<lparr>ub_app = app, ub_user = user, ub_role = roleID\<rparr>" by (intro binding_row.equality) simp_all
    with True b'(1) assms show ?thesis by (auto simp: InsertUserRoleBinding_def u_source_def)
  next
    case False
    let ?new = "\<lparr>ub_app = app, ub_user = user, ub_role = roleID\<rparr>"
    from False have bs: "user_role_bindings db1 = user_role_bindings db @ [\<lparr>ub_app = app, ub_user = user, ub_role = roleID\<rparr>]"
      using assms(5) by (auto simp: InsertUserRoleBinding_def split: if_splits)
    have "u_source db1 app b r \<longleftrightarrow> u_source db app b r \<or> b = ?new \<and> r \<in> set (roles db) \<and> rl_id r = roleID"
      unfolding u_source_def same(4) bs by (cases "b = ?new") (simp_all, blast)
    with uniq assms(3,4) show ?thesis by blast
  qed
  then have "set (project_g_user db1 app) = insert (g_row user (rl_code role) (ap_domain a)) (set (project_g_user db app))"
    using assms(2) same(3)
    by (auto simp: set_project) (intro exI [of _ "\<lparr>ub_app = app, ub_user = user, ub_role = roleID\<rparr>"] exI [of _ role], simp)
  with same show ?thesis by (auto simp: ProjectApp_def)
qed

lemma bind_commits:
  assumes "governed db" "text_ok user" "BindUserRole E app user roleID db = (Inr d, db')"
  shows "governed db' \<and> (\<exists>db1. InsertUserRoleBinding app user roleID db = Inr db1 \<and> ProjectApp db' = ProjectApp db1 \<and>
    ReadAppDataPolicies db' = ReadAppDataPolicies db \<and> map_option ap_domain (applications db' app) = map_option ap_domain (applications db app))"
proof -
  obtain x where ex: "exec undefined E app (WBind user roleID) db = (Inr x, db')"
    using assms(3) by (cases d) (auto simp: outcome_def)
  then have gov: "governed db'" using exec_governed [OF assms(1), of "WBind user roleID" undefined E app] assms(2) by simp
  obtain v cs db1 where m: "mutation_of undefined app v (WBind user roleID) db = Inr (cs, db1)" "same_business db1 db'"
    using exec_business [OF ex] by blast
  then have ins: "InsertUserRoleBinding app user roleID db = Inr db1" by (auto simp: effect_def done_res_def split: sum.splits)
  then have "data_policies db1 = data_policies db" "applications db1 = applications db"
    by (auto simp: InsertUserRoleBinding_def split: if_splits)
  then have "data_policies db' = data_policies db" "map_option ap_domain (applications db' app) = map_option ap_domain (applications db app)"
    using m(2) by (auto simp: same_business_def fun_eq_iff)
  with gov ins same_business_project [OF m(2)] show ?thesis by (auto simp: ReadAppDataPolicies_def fun_eq_iff)
qed


section \<open>Explanations\<close>

context casbin_enforcer
begin

lemma EnforceEx_explains:
  assumes "serving d R e" "\<forall>r \<in> R. wf_row r" "Engine_EnforceEx C e user d res act = Inr (allowed, rule)"
  shows "allowed \<longleftrightarrow> rules_allow lvl R user d res act"
    and "rule = [] \<longleftrightarrow> \<not> granted lvl R ''allow'' user d res act \<and> \<not> granted lvl R ''deny'' user d res act"
    and "rule \<noteq> [] \<Longrightarrow> \<exists>r \<in> R. Ptype r = ''p'' \<and> V1 r = d \<and> V2 r = res \<and> V3 r = act \<and> rule = [V0 r, V1 r, V2 r, V3 r, V4 r] \<and>
      has_role lvl R d user (V0 r) \<and> V4 r = (if allowed then ''allow'' else ''deny'')"
proof -
  let ?P = "rule_values ` p_rows R" and ?G = "rule_values ` g_rows R" and ?req = "[user, d, res, act]"
  have rep: "pol (e_ce e) = ?P" "grp (e_ce e) = ?G" using assms(1) by (simp_all add: serving_def represents_def)
  have "ce_EnforceEx C ?req (e_ce e) = Inr (allowed, rule)"
    using assms(1,3) by (auto simp: Engine_EnforceEx_def serving_def split: sum.splits)
  moreover have "well_sized (pol (e_ce e))" using rep(1) well_sized_rows [OF assms(2)] by simp
  ultimately have law: "allowed = model_allows lvl ?P ?G ?req"
      "rule = [] \<longleftrightarrow> \<not> (\<exists>p \<in> ?P. matches lvl ?G ?req p \<and> last p \<in> {''allow'', ''deny''})"
      "rule \<noteq> [] \<Longrightarrow> rule \<in> ?P \<and> matches lvl ?G ?req rule \<and> last rule = (if model_allows lvl ?P ?G ?req then ''allow'' else ''deny'')"
    using enforce_ex [of "e_ce e" ?req] unfolding rep by auto
  show 1: "allowed \<longleftrightarrow> rules_allow lvl R user d res act" using law(1) model_allows_rules [OF assms(2)] by simp
  show "rule = [] \<longleftrightarrow> \<not> granted lvl R ''allow'' user d res act \<and> \<not> granted lvl R ''deny'' user d res act"
    unfolding law(2) matched_granted [OF assms(2), symmetric] by auto
  assume "rule \<noteq> []"
  from law(3) [OF this] obtain r where r: "r \<in> R" "Ptype r = ''p''" "rule = rule_values r"
    by (auto simp: p_rows_def)
  with assms(2) have vs: "rule = [V0 r, V1 r, V2 r, V3 r, V4 r]" by (simp add: wf_row_p_values)
  with law(3) [OF \<open>rule \<noteq> []\<close>] law(1) r(1,2) has_role_link [OF assms(2)]
  show "\<exists>r \<in> R. Ptype r = ''p'' \<and> V1 r = d \<and> V2 r = res \<and> V3 r = act \<and> rule = [V0 r, V1 r, V2 r, V3 r, V4 r] \<and>
      has_role lvl R d user (V0 r) \<and> V4 r = (if allowed then ''allow'' else ''deny'')"
    by (intro bexI [of _ r]) (auto simp: matches_def)
qed

end

text \<open>
  C7. The explanation of a decision is the decision: on a store in good order it allows exactly what
  the projected rules allow, it calls a refusal overridden exactly if a deny rule of one of the user's
  roles matched, and the rule it names is in force, belongs to a role of the user, is about this
  resource and action, and has the effect that decided.
\<close>

theorem explanation_is_the_decision:
  assumes "casbin_enforcer C pol grp fresh lvl" and "governed db" and "applications db app = Some a"
    and "Explain C sprintV ce (at_state db) app user res act = Inr x"
  shows "let R = set (ProjectApp db app); d = ap_domain a; ok = rules_allow lvl R user d res act in
    ex_Allowed x = ok \<and>
    ex_Reason x = (if ok then ReasonAllowGranted else if granted lvl R ''deny'' user d res act then ReasonDenyOverridden else ReasonDenyNoMatch) \<and>
    (case ex_DecidingRule x of
       None \<Rightarrow> ex_Reason x = ReasonDenyNoMatch
     | Some dr \<Rightarrow> ex_Reason x \<noteq> ReasonDenyNoMatch \<and> dr_Resource dr = res \<and> dr_Action dr = act \<and>
         dr_Effect dr = (if ok then ''allow'' else ''deny'') \<and> has_role lvl R d user (dr_Subject dr) \<and>
         p_row (dr_Subject dr) d res act (dr_Effect dr) \<in> R)"
proof -
  let ?R = "set (ProjectApp db app)" and ?d = "ap_domain a"
  obtain e t allowed rule where e: "buildEngineFrom C ce ?d (ReadAppRules db app) (ReadAppDataPolicies db app) = Inr (e, t)"
      and ex: "Engine_EnforceEx C e user ?d res act = Inr (allowed, rule)"
      and x: "ex_Allowed x = allowed" "ex_DecidingRule x = decided_by rule"
        "ex_Reason x = (if rule = [] then ReasonDenyNoMatch else if allowed then ReasonAllowGranted else ReasonDenyOverridden)"
    using assms(4) read_at_state [OF assms(3)] by (auto simp: Explain_def split: sum.splits)
  have wf: "\<forall>r \<in> ?R. wf_row r" using governed_wf [OF assms(2)] governed_rules [OF assms(2)] by simp
  have "casbin_enforcer.serving pol grp fresh ?d ?R e"
    using casbin_enforcer.buildEngineFrom_serving(1) [OF assms(1) e] governed_rules [OF assms(2)] by simp
  note fact = casbin_enforcer.EnforceEx_explains [OF assms(1) this wf ex]
  have reasons: "ReasonAllowGranted \<noteq> ReasonDenyNoMatch" "ReasonDenyOverridden \<noteq> ReasonDenyNoMatch"
    by (simp_all add: ReasonAllowGranted_def ReasonDenyOverridden_def ReasonDenyNoMatch_def)
  show ?thesis
  proof (cases "rule = []")
    case True
    with x fact(1,2) show ?thesis by (simp add: decided_by_def rules_allow_def)
  next
    case False
    from fact(3) [OF False] obtain r where r: "r \<in> ?R" "Ptype r = ''p''" "V1 r = ?d" "V2 r = res" "V3 r = act"
        "rule = [V0 r, V1 r, V2 r, V3 r, V4 r]" "has_role lvl ?R ?d user (V0 r)" "V4 r = (if allowed then ''allow'' else ''deny'')" by blast
    then have "p_row (V0 r) ?d res act (V4 r) = r" using wf by (intro rule.equality) (auto simp: p_row_def wf_row_def)
    moreover have "allowed \<or> granted lvl ?R ''deny'' user ?d res act" using r(1-5,7,8) by (auto simp: granted_def)
    ultimately show ?thesis using x r fact(1) reasons False by (cases allowed) (simp_all add: decided_by_def Let_def)
  qed
qed

section \<open>An example\<close>

definition eff_writes :: "(env \<times> int64 \<times> wcmd) list" where
  "eff_writes =
     [(demo_env, 1, WCreateRole ''clerk'' ''Clerk''), (demo_env, 1, WCreateRole ''boss'' ''Boss''),
      (demo_env, 1, WUpsertPermission ''read'' ''order'' ''get'' ''api'' ''Read''), (demo_env, 1, WGrant 1 1 ''allow''),
      (demo_env, 1, WAddInheritance 2 1),
      (demo_env, 1, WUpsertDataPolicy \<lparr>dp_ID = 0, dp_SubjectType = ''role'', dp_SubjectID = ''clerk'', dp_Resource = ''order'',
         dp_Condition = ''{\"op\":\"EQ\",\"field\":\"region\",\"value\":\"$user.region\"}'', dp_Effect = ''allow'', dp_Description = []\<rparr>)]"

definition eff_db :: db where
  "eff_db = run_writes demo_pg eff_writes shop_db"

definition eff_ce :: ref_ce where
  "eff_ce = \<lparr>rc_pol = [], rc_grp = []\<rparr>"

lemma eff_db_governed: "governed eff_db"
  unfolding eff_db_def
  by (rule run_writes_invariant [where P = governed, OF shop_db_start(3)])
    (auto simp: eff_writes_def text_ok_def label_ok_def key_sep_def intro!: exec_governed)

definition bound_db :: db where
  "bound_db = snd (BindUserRole demo_env 1 ''eve'' 2 eff_db)"

lemma not_isl_Inr: "\<not> isl x \<Longrightarrow> \<exists>y. x = Inr y"
  by (cases x) simp_all

lemma bound_db_bind: "\<exists>d. BindUserRole demo_env 1 ''eve'' 2 eff_db = (Inr d, bound_db)"
proof -
  have "\<not> isl (fst (BindUserRole demo_env 1 ''eve'' 2 eff_db))" by code_simp
  then show ?thesis unfolding bound_db_def by (metis not_isl_Inr prod.collapse)
qed

lemma bound_db_governed: "governed bound_db"
  using bound_db_bind bind_commits [OF eff_db_governed, of "''eve''"] by (auto simp: text_ok_def key_sep_def)

definition eff_before :: eff_result where
  "eff_before = \<lparr>er_Roles = [], er_Permissions = [],
     er_DataViews = [\<lparr>dv_Resource = ''order'', dv_Match = ''none'', dv_Predicate = []\<rparr>]\<rparr>"

definition eff_after :: eff_result where
  "eff_after = \<lparr>er_Roles = [''boss'', ''clerk''], er_Permissions = [\<lparr>pe_Resource = ''order'', pe_Action = ''get''\<rparr>],
     er_DataViews = [\<lparr>dv_Resource = ''order'', dv_Match = ''conditional'', dv_Predicate = ''region = $user.region''\<rparr>]\<rparr>"

lemma eff_runs:
  "Compute (ref_casbin 10) (\<lambda>_. []) eff_ce (at_state eff_db) 1 ''eve'' = Inr eff_before"
  "Compute (ref_casbin 10) (\<lambda>_. []) eff_ce (at_state bound_db) 1 ''eve'' = Inr eff_after"
  by code_simp+

definition bind_eve :: change where
  "bind_eve = \<lparr>ch_Type = ''bind_user'', ch_UserID = ''eve'', ch_Resource = [], ch_Action = []\<rparr>"


lemma bound_app: "applications bound_db 1 = Some (the (applications bound_db 1))" "ap_domain (the (applications bound_db 1)) = ''shop''"
  by code_simp+

theorem effective_permissions_exact_witness:
  "set (er_Permissions eff_after) =
     {p. rules_allow 10 (set (ProjectApp bound_db 1)) ''eve'' ''shop'' (pe_Resource p) (pe_Action p)} \<and>
   implied_roles (set (ProjectApp bound_db 1)) ''shop'' ''eve'' = {''boss'', ''clerk''} \<and>
   map dv_Resource (er_DataViews eff_after) = [''order'']"
proof -
  obtain e t where "buildEngineFrom (ref_casbin 10) eff_ce (ap_domain (the (applications bound_db 1)))
      (ReadAppRules bound_db 1) (ReadAppDataPolicies bound_db 1) = Inr (e, t)"
    using eff_runs(2) read_at_state [OF bound_app(1)] by (auto simp: Compute_def split: sum.splits)
  from effective_permissions_exact [OF ref.casbin_enforcer_axioms bound_db_governed bound_app(1) this,
      where sprintV = "\<lambda>_. []" and user = "''eve''"]
  show ?thesis unfolding eff_runs(2) bound_app(2) by (auto simp: eff_after_def)
qed

theorem explanation_is_the_decision_witness:
  "\<exists>x dr. Explain (ref_casbin 10) (\<lambda>_. []) eff_ce (at_state bound_db) 1 ''eve'' ''order'' ''get'' = Inr x \<and>
     ex_DecidingRule x = Some dr \<and> dr_Subject dr = ''clerk'' \<and>
     rules_allow 10 (set (ProjectApp bound_db 1)) ''eve'' ''shop'' ''order'' ''get'' \<and>
     p_row ''clerk'' ''shop'' ''order'' ''get'' ''allow'' \<in> set (ProjectApp bound_db 1)"
proof -
  let ?x = "Explain (ref_casbin 10) (\<lambda>_. []) eff_ce (at_state bound_db) 1 ''eve'' ''order'' ''get''"
  have "case ?x of Inr x \<Rightarrow> ex_Allowed x \<and> map_option dr_Subject (ex_DecidingRule x) = Some ''clerk'' | Inl _ \<Rightarrow> False" by code_simp
  then obtain x dr where x: "?x = Inr x" "ex_Allowed x" "ex_DecidingRule x = Some dr" "dr_Subject dr = ''clerk''"
    by (auto split: sum.splits)
  from explanation_is_the_decision [OF ref.casbin_enforcer_axioms bound_db_governed bound_app(1) x(1)] x(2-4)
  show ?thesis unfolding bound_app(2) using x(1) by (auto simp: Let_def split: if_splits)
qed

end
