(* ===== verification/Auth.thy ===== *)
theory Auth
  imports Prelude
begin

text \<open>
  Request authentication (\<^verbatim>\<open>internal/auth\<close>, \<^verbatim>\<open>internal/controlplane/restgw/auth.go\<close>) and the secrets behind it
  (\<^verbatim>\<open>internal/crypto\<close>, \<^verbatim>\<open>internal/controlplane/secret\<close>, the operator resolver of \<^verbatim>\<open>adminauthz\<close>): the signing
  strings of the gRPC and the REST interface, the interceptors, and the credentials of a sidecar. The
  message authentication code, the digest and the cipher are parameters of the model; the lemmas show
  that a signed request is accepted inside the window and that a signature is bound to what it signs.
\<close>

section \<open>Signatures\<close>

type_synonym mac = "string \<Rightarrow> string \<Rightarrow> string"

definition newline :: char where
  "newline = CHR 0x0A"

definition signingString :: "string \<Rightarrow> int64 \<Rightarrow> string \<Rightarrow> string" where
  "signingString appID unixTS method = appID @ [newline] @ show_id unixTS @ [newline] @ method"

definition hex_digit :: "nat \<Rightarrow> char" where
  "hex_digit n = (if n < 10 then char_of (48 + n) else char_of (87 + n))"

definition EncodeToString :: "string \<Rightarrow> string" where
  "EncodeToString bs = concat (map (\<lambda>c. [hex_digit (of_char c div 16), hex_digit (of_char c mod 16)]) bs)"

definition Sign :: "mac \<Rightarrow> string \<Rightarrow> string \<Rightarrow> int64 \<Rightarrow> string \<Rightarrow> string" where
  "Sign hmac secret appID unixTS method = EncodeToString (hmac secret (signingString appID unixTS method))"

definition Verify :: "mac \<Rightarrow> string \<Rightarrow> string \<Rightarrow> int64 \<Rightarrow> string \<Rightarrow> string \<Rightarrow> bool" where
  "Verify hmac secret appID unixTS method gotHex \<longleftrightarrow> Sign hmac secret appID unixTS method = gotHex"

definition signingStringREST :: "string \<Rightarrow> int64 \<Rightarrow> string \<Rightarrow> string \<Rightarrow> string \<Rightarrow> string" where
  "signingStringREST who unixTS httpMethod target bodySHA256Hex =
     who @ [newline] @ show_id unixTS @ [newline] @ httpMethod @ [newline] @ target @ [newline] @ bodySHA256Hex"

definition SignREST :: "mac \<Rightarrow> string \<Rightarrow> string \<Rightarrow> int64 \<Rightarrow> string \<Rightarrow> string \<Rightarrow> string \<Rightarrow> string" where
  "SignREST hmac secret who unixTS httpMethod target bodySHA256Hex =
     EncodeToString (hmac secret (signingStringREST who unixTS httpMethod target bodySHA256Hex))"

definition VerifyREST :: "mac \<Rightarrow> string \<Rightarrow> string \<Rightarrow> int64 \<Rightarrow> string \<Rightarrow> string \<Rightarrow> string \<Rightarrow> string \<Rightarrow> bool" where
  "VerifyREST hmac secret who unixTS httpMethod target bodySHA256Hex gotHex \<longleftrightarrow>
     SignREST hmac secret who unixTS httpMethod target bodySHA256Hex = gotHex"

text \<open>A byte above 126 is part of a rune above 126, so the test on runes is a test on bytes.\<close>

definition ValidPrincipal :: "string \<Rightarrow> bool" where
  "ValidPrincipal s \<longleftrightarrow> s \<noteq> [] \<and> list_all (\<lambda>c. 0x21 \<le> (of_char c :: nat) \<and> (of_char c :: nat) \<le> 0x7e) s"

section \<open>Time stamps\<close>

definition is_digit :: "char \<Rightarrow> bool" where
  "is_digit c \<longleftrightarrow> 48 \<le> (of_char c :: nat) \<and> (of_char c :: nat) \<le> 57"

definition digits_value :: "string \<Rightarrow> nat" where
  "digits_value ds = foldl (\<lambda>n c. 10 * n + (of_char c - 48)) 0 ds"

text \<open>\<^verbatim>\<open>strconv.ParseInt(s, 10, 64)\<close>: an optional sign, then digits whose value fits.\<close>

definition ParseInt :: "string \<Rightarrow> int64 option" where
  "ParseInt s =
     (let neg = (take 1 s = ''-''); ds = (if take 1 s = ''-'' \<or> take 1 s = ''+'' then drop 1 s else s)
      in if ds = [] \<or> \<not> list_all is_digit ds then None
         else let v = digits_value ds
              in if neg then (if v \<le> 2 ^ 63 then Some (word_of_int (- int v)) else None)
                 else (if v < 2 ^ 63 then Some (word_of_int (int v)) else None))"

text \<open>
  Times are nanoseconds since the Unix epoch. \<^verbatim>\<open>time.Unix\<close> counts seconds from the year 1 in 64 bits.
\<close>

definition time_Unix :: "int64 \<Rightarrow> int" where
  "time_Unix ts = 10 ^ 9 * (wrap64 (sint ts + 62135596800) - 62135596800)"

definition MaxClockSkew :: int where
  "MaxClockSkew = 5 * 60 * 10 ^ 9"

definition out_of_window :: "int \<Rightarrow> int64 \<Rightarrow> bool" where
  "out_of_window now ts \<longleftrightarrow> (let d = time_Sub now (time_Unix ts) in d > MaxClockSkew \<or> d < - MaxClockSkew)"

section \<open>Authentication\<close>

definition MDAppID :: string where "MDAppID = ''x-sydom-app-id''"
definition MDTimestamp :: string where "MDTimestamp = ''x-sydom-timestamp''"
definition MDSignature :: string where "MDSignature = ''x-sydom-signature''"

type_synonym metadata = "string \<rightharpoonup> string list"
type_synonym status = "grpc_code \<times> string"
type_synonym secret_resolver = "string \<Rightarrow> string option"

definition first_value :: "metadata \<Rightarrow> string \<Rightarrow> string" where
  "first_value md key = (case md key of Some (v # _) \<Rightarrow> v | _ \<Rightarrow> [])"

definition validAppID :: "string \<Rightarrow> bool" where
  "validAppID s = ValidPrincipal s"

definition authenticate ::
    "mac \<Rightarrow> secret_resolver \<Rightarrow> metadata option \<Rightarrow> string \<Rightarrow> int \<Rightarrow> (status, string) res" where
  "authenticate hmac resolver ctx method now =
     (case ctx of
        None \<Rightarrow> Inl (Unauthenticated, ''missing metadata'')
      | Some md \<Rightarrow>
          (let appID = first_value md MDAppID; tsStr = first_value md MDTimestamp; sig = first_value md MDSignature
           in if appID = [] \<or> tsStr = [] \<or> sig = [] then Inl (Unauthenticated, ''missing auth fields'')
              else if \<not> validAppID appID then Inl (Unauthenticated, ''invalid app id'')
              else case ParseInt tsStr of
                None \<Rightarrow> Inl (Unauthenticated, ''bad timestamp'')
              | Some ts \<Rightarrow>
                  if out_of_window now ts then Inl (Unauthenticated, ''timestamp out of window'')
                  else case resolver appID of
                    None \<Rightarrow> Inl (Unauthenticated, ''authentication failed'')
                  | Some secret \<Rightarrow>
                      if secret = [] \<or> \<not> Verify hmac secret appID ts method sig
                      then Inl (Unauthenticated, ''authentication failed'')
                      else Inr appID))"

text \<open>The interceptors run the handler with the application they authenticated, or not at all.\<close>

definition UnaryServerInterceptor ::
    "mac \<Rightarrow> secret_resolver \<Rightarrow> string \<Rightarrow> int \<Rightarrow> (string option \<Rightarrow> 'q \<Rightarrow> (status, 'r) res) \<Rightarrow> metadata option \<Rightarrow> 'q \<Rightarrow>
     (status, 'r) res" where
  "UnaryServerInterceptor hmac resolver fullMethod now handler ctx req =
     (case authenticate hmac resolver ctx fullMethod now of
        Inl e \<Rightarrow> Inl e
      | Inr appID \<Rightarrow> handler (Some appID) req)"

definition UnaryServerInterceptorExempt ::
    "mac \<Rightarrow> secret_resolver \<Rightarrow> string set \<Rightarrow> string \<Rightarrow> int \<Rightarrow> (string option \<Rightarrow> 'q \<Rightarrow> (status, 'r) res) \<Rightarrow>
     metadata option \<Rightarrow> 'q \<Rightarrow> (status, 'r) res" where
  "UnaryServerInterceptorExempt hmac resolver exempt fullMethod now handler ctx req =
     (if fullMethod \<in> exempt then handler None req
      else UnaryServerInterceptor hmac resolver fullMethod now handler ctx req)"

definition StreamServerInterceptor ::
    "mac \<Rightarrow> secret_resolver \<Rightarrow> string \<Rightarrow> int \<Rightarrow> (string option \<Rightarrow> (status, 'r) res) \<Rightarrow> metadata option \<Rightarrow> (status, 'r) res" where
  "StreamServerInterceptor hmac resolver fullMethod now handler ctx =
     (case authenticate hmac resolver ctx fullMethod now of
        Inl e \<Rightarrow> Inl e
      | Inr appID \<Rightarrow> handler (Some appID))"

section \<open>The credentials of a sidecar\<close>

record per_rpc =
  pr_appID :: string
  pr_secret :: string
  pr_secure :: bool

fun after_first :: "string \<Rightarrow> string \<Rightarrow> string option" where
  "after_first pat [] = (if pat = [] then Some [] else None)"
| "after_first pat (c # cs) = (if take (length pat) (c # cs) = pat then Some (drop (length pat) (c # cs)) else after_first pat cs)"

definition methodFromURI :: "string \<Rightarrow> string" where
  "methodFromURI uri =
     (case after_first ''://'' uri of
        None \<Rightarrow> uri
      | Some rest \<Rightarrow> (let path = dropWhile (\<lambda>c. c \<noteq> CHR ''/'') rest in if path = [] then uri else path))"

text \<open>\<open>ri\<close> is the method of the request info, if there is one; \<open>now\<close> is what the clock reads.\<close>

definition GetRequestMetadata :: "mac \<Rightarrow> per_rpc \<Rightarrow> string option \<Rightarrow> string list \<Rightarrow> int \<Rightarrow> metadata" where
  "GetRequestMetadata hmac c ri uri now =
     (let method = (case ri of
            Some m \<Rightarrow> if m \<noteq> [] then m else (case uri of u # _ \<Rightarrow> methodFromURI u | [] \<Rightarrow> [])
          | None \<Rightarrow> (case uri of u # _ \<Rightarrow> methodFromURI u | [] \<Rightarrow> []));
          ts = word_of_int (now div 10 ^ 9)
      in [MDAppID \<mapsto> [pr_appID c], MDTimestamp \<mapsto> [show_id ts],
          MDSignature \<mapsto> [Sign hmac (pr_secret c) (pr_appID c) ts method]])"

section \<open>Requests to the REST gateway\<close>

record http_request =
  hr_Principal :: string
  hr_Timestamp :: string
  hr_Signature :: string
  hr_Method :: string
  hr_RequestURI :: string

definition authenticateHTTP ::
    "mac \<Rightarrow> (string \<Rightarrow> string) \<Rightarrow> secret_resolver \<Rightarrow> http_request \<Rightarrow> string \<Rightarrow> int \<Rightarrow> (status, string) res" where
  "authenticateHTTP hmac sha256 resolver r body now =
     (let who = hr_Principal r; tsStr = hr_Timestamp r; sig = hr_Signature r
      in if who = [] \<or> tsStr = [] \<or> sig = [] then Inl (Unauthenticated, ''missing auth fields'')
         else if \<not> ValidPrincipal who then Inl (Unauthenticated, ''invalid principal'')
         else case ParseInt tsStr of
           None \<Rightarrow> Inl (Unauthenticated, ''bad timestamp'')
         | Some ts \<Rightarrow>
             if out_of_window now ts then Inl (Unauthenticated, ''timestamp out of window'')
             else case resolver who of
               None \<Rightarrow> Inl (Unauthenticated, ''authentication failed'')
             | Some secret \<Rightarrow>
                 if secret = [] \<or> \<not> VerifyREST hmac secret who ts (hr_Method r) (hr_RequestURI r) (EncodeToString (sha256 body)) sig
                 then Inl (Unauthenticated, ''authentication failed'')
                 else Inr who)"

section \<open>Secrets at rest\<close>

text \<open>
  AES-GCM is a parameter: \<open>seal key nonce plain\<close> is the cipher text with its tag, \<open>unseal key nonce ct\<close> the
  plain text if the tag fits.
\<close>

definition KeySize :: nat where "KeySize = 32"
definition NonceSize :: nat where "NonceSize = 12"
definition Overhead :: nat where "Overhead = 16"

datatype crypto_error = ErrKeySize | ErrCiphertext | OpenFailed | RandFailed

definition Encrypt ::
    "(string \<Rightarrow> string \<Rightarrow> string \<Rightarrow> string) \<Rightarrow> string option \<Rightarrow> string \<Rightarrow> string \<Rightarrow> (crypto_error, string) res" where
  "Encrypt seal rnd key plaintext =
     (if length key \<noteq> KeySize then Inl ErrKeySize
      else case rnd of None \<Rightarrow> Inl RandFailed | Some nonce \<Rightarrow> Inr (nonce @ seal key nonce plaintext))"

definition Decrypt ::
    "(string \<Rightarrow> string \<Rightarrow> string \<Rightarrow> string option) \<Rightarrow> string \<Rightarrow> string \<Rightarrow> (crypto_error, string) res" where
  "Decrypt unseal key blob =
     (if length key \<noteq> KeySize then Inl ErrKeySize
      else if length blob < NonceSize + Overhead then Inl ErrCiphertext
      else case unseal key (take NonceSize blob) (drop NonceSize blob) of
             None \<Rightarrow> Inl OpenFailed
           | Some p \<Rightarrow> Inr p)"

text \<open>\<open>rows\<close> is the column \<^verbatim>\<open>app_secret_enc\<close> by application key.\<close>

definition ResolveSecret ::
    "(string \<Rightarrow> string \<Rightarrow> string \<Rightarrow> string option) \<Rightarrow> string \<Rightarrow> (string \<rightharpoonup> string) \<Rightarrow> secret_resolver" where
  "ResolveSecret unseal masterKey rows appID =
     (case rows appID of
        None \<Rightarrow> None
      | Some enc \<Rightarrow> (case Decrypt unseal masterKey enc of Inl _ \<Rightarrow> None | Inr p \<Rightarrow> Some p))"

text \<open>Only an operator whose status is 1 has a secret; \<open>rows\<close> are the columns \<^verbatim>\<open>secret_enc, status\<close>.\<close>

definition OperatorResolver_ResolveSecret ::
    "(string \<Rightarrow> string \<Rightarrow> string \<Rightarrow> string option) \<Rightarrow> string \<Rightarrow> (string \<rightharpoonup> string \<times> int) \<Rightarrow> secret_resolver" where
  "OperatorResolver_ResolveSecret unseal masterKey rows who =
     (case rows who of
        None \<Rightarrow> None
      | Some (enc, status) \<Rightarrow>
          if status \<noteq> 1 then None
          else (case Decrypt unseal masterKey enc of Inl _ \<Rightarrow> None | Inr p \<Rightarrow> Some p))"

lemma Decrypt_Encrypt:
  assumes "Encrypt seal (Some nonce) key plain = Inr blob" "length nonce = NonceSize"
    and "unseal key nonce (seal key nonce plain) = Some plain" "length (seal key nonce plain) = length plain + Overhead"
  shows "Decrypt unseal key blob = Inr plain"
  using assms by (auto simp: Encrypt_def Decrypt_def split: if_splits)

section \<open>Decimal texts\<close>

lemma nat_digits_digits: "list_all is_digit (nat_digits n) \<and> nat_digits n \<noteq> []"
proof (induction n rule: nat_digits.induct)
  case (1 n)
  have "is_digit (char_of (48 + k))" if "k < 10" for k :: nat using that by (simp add: is_digit_def)
  with 1 show ?case by (auto simp: nat_digits.simps [of n])
qed

lemma digits_value_snoc: "digits_value (ds @ [c]) = 10 * digits_value ds + (of_char c - 48)"
  by (simp add: digits_value_def)

lemma digits_value_nat_digits: "digits_value (nat_digits n) = n"
proof (induction n rule: nat_digits.induct)
  case (1 n)
  have "(of_char (char_of (48 + k) :: char) :: nat) = 48 + k" if "k < 10" for k :: nat using that by simp
  with 1 show ?case
    by (subst nat_digits.simps) (auto simp: digits_value_snoc, simp add: digits_value_def)
qed

lemma is_digit_not:
  "\<not> is_digit (CHR ''-'')" "\<not> is_digit (CHR ''+'')" "\<not> is_digit newline"
  by (simp_all add: is_digit_def newline_def)

lemma take1_digits: "list_all is_digit ds \<Longrightarrow> take 1 ds \<noteq> ''-'' \<and> take 1 ds \<noteq> ''+''"
  using is_digit_not by (cases ds) auto

lemma sint_range: "- (2 ^ 63) \<le> sint (i :: int64)" "sint (i :: int64) < 2 ^ 63"
  using sint_ge [of i] sint_lt [of i] by simp_all

lemma ParseInt_show_id: "ParseInt (show_id i) = Some i"
proof (cases "sint i < 0")
  case True
  have "nat (- sint i) \<le> 2 ^ 63" using sint_range(1) [of i] by simp
  with True nat_digits_digits [of "nat (- sint i)"] show ?thesis
    by (simp add: show_id_def ParseInt_def digits_value_nat_digits Let_def)
next
  case False
  have "nat (sint i) < 2 ^ 63" using sint_range(2) [of i] False by (simp add: nat_less_iff)
  with False nat_digits_digits [of "nat (sint i)"] take1_digits [of "nat_digits (nat (sint i))"] show ?thesis
    by (simp add: show_id_def ParseInt_def digits_value_nat_digits Let_def)
qed

lemma show_id_clean: "newline \<notin> set (show_id i)"
  using nat_digits_digits is_digit_not(3) by (auto simp: show_id_def list_all_iff newline_def)

lemma show_id_inj: "show_id i = show_id j \<longleftrightarrow> i = j"
  using ParseInt_show_id by (metis option.inject)

section \<open>What a signature is bound to\<close>

lemma split_at:
  assumes "x \<notin> set a" "x \<notin> set b"
  shows "a @ x # as = b @ x # bs \<longleftrightarrow> a = b \<and> as = bs"
  using assms
proof (induction a arbitrary: b)
  case Nil
  then show ?case by (cases b) auto
next
  case (Cons y a)
  then show ?case by (cases b) auto
qed

lemma ValidPrincipal_clean: "ValidPrincipal s \<Longrightarrow> newline \<notin> set s"
  by (auto simp: ValidPrincipal_def list_all_iff newline_def)

lemma signingString_inj:
  assumes "ValidPrincipal a" "ValidPrincipal b"
  shows "signingString a t m = signingString b u n \<longleftrightarrow> a = b \<and> t = u \<and> m = n"
  using ValidPrincipal_clean [OF assms(1)] ValidPrincipal_clean [OF assms(2)]
  by (simp add: signingString_def split_at show_id_clean show_id_inj)

lemma signingStringREST_inj:
  assumes "ValidPrincipal a" "ValidPrincipal b" "newline \<notin> set m" "newline \<notin> set n"
    and "newline \<notin> set x" "newline \<notin> set y"
  shows "signingStringREST a t m x h = signingStringREST b u n y k \<longleftrightarrow> a = b \<and> t = u \<and> m = n \<and> x = y \<and> h = k"
  using ValidPrincipal_clean [OF assms(1)] ValidPrincipal_clean [OF assms(2)] assms(3-6)
  by (simp add: signingStringREST_def split_at show_id_clean show_id_inj)

lemma hex_digit_inj: "m < 16 \<Longrightarrow> n < 16 \<Longrightarrow> hex_digit m = hex_digit n \<Longrightarrow> m = n"
  by (auto simp: hex_digit_def take_bit_eq_mod split: if_splits dest!: arg_cong [of _ _ "of_char :: char \<Rightarrow> nat"])

lemma EncodeToString_simps:
  "EncodeToString [] = []"
  "EncodeToString (c # cs) = hex_digit (of_char c div 16) # hex_digit (of_char c mod 16) # EncodeToString cs"
  by (simp_all add: EncodeToString_def)

lemma hex_pair_inj:
  assumes "hex_digit (of_char c div 16) = hex_digit (of_char d div 16)"
    and "hex_digit (of_char c mod 16) = hex_digit (of_char d mod 16)"
  shows "c = d"
proof -
  have "(of_char x :: nat) < 256" for x :: char by (metis of_char_mod_256 mod_less_divisor zero_less_numeral)
  then have "(of_char x :: nat) div 16 < 16" for x :: char by (simp add: less_mult_imp_div_less)
  then have "(of_char c :: nat) div 16 = of_char d div 16" by (rule hex_digit_inj) (use assms \<open>\<And>x. of_char x div 16 < 16\<close> in auto)
  moreover have "(of_char c :: nat) mod 16 = of_char d mod 16" by (rule hex_digit_inj) (use assms in auto)
  ultimately have "(of_char c :: nat) = of_char d" by (metis div_mult_mod_eq)
  then show ?thesis by simp
qed

lemma EncodeToString_inj: "EncodeToString a = EncodeToString b \<Longrightarrow> a = b"
proof (induction a arbitrary: b)
  case Nil
  then show ?case by (cases b) (simp_all add: EncodeToString_simps)
next
  case (Cons c a)
  then obtain d b' where b: "b = d # b'" by (cases b) (simp_all add: EncodeToString_simps)
  with Cons.prems have "c = d" "EncodeToString a = EncodeToString b'"
    by (auto simp: EncodeToString_simps intro: hex_pair_inj)
  with Cons.IH b show ?case by simp
qed

section \<open>Authentication is sound and complete\<close>

lemma authenticate_Ok:
  "authenticate hmac resolver ctx method now = Inr app \<longleftrightarrow>
     (\<exists>md ts secret. ctx = Some md \<and> app = first_value md MDAppID \<and> ValidPrincipal app \<and>
        ParseInt (first_value md MDTimestamp) = Some ts \<and> \<not> out_of_window now ts \<and>
        resolver app = Some secret \<and> secret \<noteq> [] \<and> first_value md MDSignature \<noteq> [] \<and>
        first_value md MDSignature = Sign hmac secret app ts method)"
proof -
  have "ParseInt [] = None" by (simp add: ParseInt_def)
  moreover have "\<not> ValidPrincipal []" by (simp add: ValidPrincipal_def)
  ultimately show ?thesis
    unfolding authenticate_def validAppID_def Verify_def Let_def
    by (cases ctx) (auto split: option.splits if_splits)
qed

lemma authenticateHTTP_Ok:
  "authenticateHTTP hmac sha256 resolver r body now = Inr who \<longleftrightarrow>
     (\<exists>ts secret. who = hr_Principal r \<and> ValidPrincipal who \<and> ParseInt (hr_Timestamp r) = Some ts \<and> \<not> out_of_window now ts \<and>
        resolver who = Some secret \<and> secret \<noteq> [] \<and> hr_Signature r \<noteq> [] \<and>
        hr_Signature r = SignREST hmac secret who ts (hr_Method r) (hr_RequestURI r) (EncodeToString (sha256 body)))"
proof -
  have "ParseInt [] = None" by (simp add: ParseInt_def)
  moreover have "\<not> ValidPrincipal []" by (simp add: ValidPrincipal_def)
  ultimately show ?thesis
    unfolding authenticateHTTP_def VerifyREST_def Let_def
    by (auto split: option.splits if_splits)
qed

lemma window_Unix:
  assumes "0 \<le> cnow" "cnow < 2 ^ 62" "- MaxClockSkew \<le> now - cnow" "now - cnow + 10 ^ 9 \<le> MaxClockSkew"
  shows "\<not> out_of_window now (word_of_int (cnow div 10 ^ 9))"
proof -
  let ?s = "cnow div 10 ^ 9"
  have s: "0 \<le> ?s" "?s < 2 ^ 62" using assms(1,2) by (auto simp: pos_imp_zdiv_nonneg_iff intro: le_less_trans [OF zdiv_mono2])
  then have "sint (word_of_int ?s :: int64) = ?s" by (simp add: sint_sbintrunc' signed_take_bit_int_eq_self)
  moreover have "wrap64 (?s + 62135596800) = ?s + 62135596800" using s by (intro wrap64_id) (simp add: int64_range_def)
  ultimately have unix: "time_Unix (word_of_int ?s) = 10 ^ 9 * ?s" by (simp add: time_Unix_def)
  have "10 ^ 9 * ?s \<le> cnow" "cnow < 10 ^ 9 * ?s + 10 ^ 9"
    using div_mult_mod_eq [of cnow "10 ^ 9"] pos_mod_bound [of "10 ^ 9 :: int" cnow] pos_mod_sign [of "10 ^ 9 :: int" cnow]
    by (simp_all add: mult.commute)
  with assms(3,4) have "- MaxClockSkew \<le> now - 10 ^ 9 * ?s" "now - 10 ^ 9 * ?s \<le> MaxClockSkew" by linarith+
  then show ?thesis unfolding out_of_window_def unix time_Sub_def by (simp add: MaxClockSkew_def Let_def)
qed

lemma signed_request_core:
  assumes "ValidPrincipal (pr_appID c)" and "pr_secret c \<noteq> []" and "resolver (pr_appID c) = Some (pr_secret c)"
    and "method \<noteq> []" and "\<And>k m. hmac k m \<noteq> []"
    and "0 \<le> cnow" and "cnow < 2 ^ 62" and "- MaxClockSkew \<le> now - cnow" and "now - cnow + 10 ^ 9 \<le> MaxClockSkew"
  shows "authenticate hmac resolver (Some (GetRequestMetadata hmac c (Some method) uri cnow)) method now = Inr (pr_appID c)"
proof -
  have md: "MDAppID \<noteq> MDTimestamp" "MDAppID \<noteq> MDSignature" "MDTimestamp \<noteq> MDSignature"
    by (simp_all add: MDAppID_def MDTimestamp_def MDSignature_def)
  have "EncodeToString (hmac k m) \<noteq> []" for k m using assms(5) [of k m] EncodeToString_inj [of "hmac k m" "[]"]
    by (auto simp: EncodeToString_simps)
  with assms(1-4) window_Unix [OF assms(6-9)] md show ?thesis
    unfolding authenticate_Ok
    by (auto simp: GetRequestMetadata_def first_value_def Let_def ParseInt_show_id Sign_def)
qed

text \<open>
  C39. A request that a sidecar signs for a method is authenticated as its application by every server
  that knows the secret, if the server's clock is at most five minutes behind and at most five minutes
  less a second ahead of the sidecar's when it reads it.
\<close>

theorem signed_request_is_authenticated:
  assumes "ValidPrincipal (pr_appID c)" and "pr_secret c \<noteq> []" and "resolver (pr_appID c) = Some (pr_secret c)"
    and "method \<noteq> []" and "\<And>k m. hmac k m \<noteq> []"
    and "0 \<le> cnow" and "cnow < 2 ^ 62" and "- MaxClockSkew \<le> now - cnow" and "now - cnow + 10 ^ 9 \<le> MaxClockSkew"
  shows "authenticate hmac resolver (Some (GetRequestMetadata hmac c (Some method) uri cnow)) method now = Inr (pr_appID c)"
  using assms by (rule signed_request_core [where resolver = resolver])

definition collision :: "(string \<Rightarrow> string) \<Rightarrow> string \<Rightarrow> string \<Rightarrow> bool" where
  "collision f x y \<longleftrightarrow> x \<noteq> y \<and> f x = f y"

text \<open>Over gRPC a signature is bound to the application, the second and the method.\<close>

lemma rpc_signature_is_bound:
  assumes "authenticate hmac resolver (Some md) method now = Inr app"
    and "authenticate hmac resolver (Some md') method' now' = Inr app'"
    and "first_value md MDSignature = first_value md' MDSignature" and "resolver app' = resolver app"
  shows "\<exists>secret ts ts'. resolver app = Some secret \<and> secret \<noteq> [] \<and>
    ParseInt (first_value md MDTimestamp) = Some ts \<and> ParseInt (first_value md' MDTimestamp) = Some ts' \<and>
    ((app = app' \<and> ts = ts' \<and> method = method') \<or>
     collision (hmac secret) (signingString app ts method) (signingString app' ts' method'))"
proof -
  from assms(1) obtain ts secret where 1: "ValidPrincipal app" "ParseInt (first_value md MDTimestamp) = Some ts" "resolver app = Some secret"
      "secret \<noteq> []" "first_value md MDSignature = Sign hmac secret app ts method" by (auto simp: authenticate_Ok)
  from assms(2) obtain ts' secret' where 2: "ValidPrincipal app'" "ParseInt (first_value md' MDTimestamp) = Some ts'" "resolver app' = Some secret'"
      "first_value md' MDSignature = Sign hmac secret' app' ts' method'" by (auto simp: authenticate_Ok)
  have "hmac secret (signingString app ts method) = hmac secret (signingString app' ts' method')"
    using 1 2 assms(3,4) by (auto simp: Sign_def dest: EncodeToString_inj)
  with 1 2 signingString_inj [OF 1(1) 2(1)] show ?thesis by (auto simp: collision_def)
qed


text \<open>A stand-in for the message authentication code: the key, the message and a mark.\<close>

definition toy_mac :: mac where
  "toy_mac k m = k @ m @ ''!''"

definition demo_rpc :: per_rpc where
  "demo_rpc = \<lparr>pr_appID = ''shop'', pr_secret = ''s3cret'', pr_secure = True\<rparr>"

definition demo_secrets :: secret_resolver where
  "demo_secrets = [''shop'' \<mapsto> ''s3cret'', ''root'' \<mapsto> ''t0p'']"

theorem signed_request_is_authenticated_witness:
  "authenticate toy_mac demo_secrets (Some (GetRequestMetadata toy_mac demo_rpc (Some ''/sync/Pull'') [] (1700000000 * 10 ^ 9)))
     ''/sync/Pull'' (1700000010 * 10 ^ 9) = Inr ''shop''"
proof -
  have "ValidPrincipal (pr_appID demo_rpc)" by (simp add: ValidPrincipal_def demo_rpc_def)
  moreover have "demo_secrets (pr_appID demo_rpc) = Some (pr_secret demo_rpc)" "pr_secret demo_rpc \<noteq> []"
    by (simp_all add: demo_secrets_def demo_rpc_def)
  moreover have "toy_mac k m \<noteq> []" for k m by (simp add: toy_mac_def)
  ultimately have "authenticate toy_mac demo_secrets
      (Some (GetRequestMetadata toy_mac demo_rpc (Some ''/sync/Pull'') [] (1700000000 * 10 ^ 9))) ''/sync/Pull'' (1700000010 * 10 ^ 9) =
      Inr (pr_appID demo_rpc)"
    by (intro signed_request_is_authenticated) (simp_all add: MaxClockSkew_def)
  then show ?thesis by (simp add: demo_rpc_def)
qed

definition demo_http :: http_request where
  "demo_http = \<lparr>hr_Principal = ''root'', hr_Timestamp = show_id 1700000000,
     hr_Signature = SignREST toy_mac ''t0p'' ''root'' 1700000000 ''POST'' ''/v1/roles'' (EncodeToString ''{}''),
     hr_Method = ''POST'', hr_RequestURI = ''/v1/roles''\<rparr>"


end
