(* ===== verification/Go_Time.thy ===== *)
theory Go_Time
  imports Prelude
begin

text \<open>
  Calendar time as \<^verbatim>\<open>time.Time\<close> has it in UTC: a date of the Gregorian calendar and the nanoseconds since
  midnight. \<open>AddDate\<close> is the method of the standard library that the billing of a plan uses: it adds to the
  fields and lets \<^verbatim>\<open>time.Date\<close> bring them back into range, so a day that a month does not have runs over
  into the next one.
\<close>

record go_time =
  gt_year :: int
  gt_month :: int
  gt_day :: int
  gt_nano :: int

definition leap_year :: "int \<Rightarrow> bool" where
  "leap_year y \<longleftrightarrow> y mod 4 = 0 \<and> (y mod 100 \<noteq> 0 \<or> y mod 400 = 0)"

definition days_in :: "int \<Rightarrow> int \<Rightarrow> int" where
  "days_in y m =
     (if m = 2 then (if leap_year y then 29 else 28) else if m \<in> {4, 6, 9, 11} then 30 else 31)"

lemma days_in_bounds: "28 \<le> days_in y m" "days_in y m \<le> 31"
  by (auto simp: days_in_def)

function norm_day :: "int \<Rightarrow> int \<Rightarrow> int \<Rightarrow> int \<times> int \<times> int" where
  "norm_day y m d =
     (if d \<le> days_in y m then (y, m, d)
      else if m = 12 then norm_day (y + 1) 1 (d - 31)
      else norm_day y (m + 1) (d - days_in y m))"
  by pat_completeness auto
termination
proof (relation "measure (\<lambda>(y, m, d). nat d)", goal_cases)
  case (3 y m d)
  then show ?case using days_in_bounds [of y m] by simp
qed (auto simp: days_in_def)

declare norm_day.simps [simp del]

definition AddDate :: "go_time \<Rightarrow> int \<Rightarrow> int \<Rightarrow> go_time" where
  "AddDate t years months =
     (let m0 = gt_month t + months - 1
      in case norm_day (gt_year t + years + m0 div 12) (m0 mod 12 + 1) (gt_day t) of
           (y, m, d) \<Rightarrow> t\<lparr>gt_year := y, gt_month := m, gt_day := d\<rparr>)"

definition valid_time :: "go_time \<Rightarrow> bool" where
  "valid_time t \<longleftrightarrow> gt_month t \<in> {1..12} \<and> gt_day t \<in> {1..days_in (gt_year t) (gt_month t)} \<and> gt_nano t \<in> {0..<86400 * 10 ^ 9}"

text \<open>\<^verbatim>\<open>t.Before(u)\<close>\<close>

definition Before :: "go_time \<Rightarrow> go_time \<Rightarrow> bool" where
  "Before t u \<longleftrightarrow> gt_year t < gt_year u \<or> gt_year t = gt_year u \<and>
     (gt_month t < gt_month u \<or> gt_month t = gt_month u \<and>
       (gt_day t < gt_day u \<or> gt_day t = gt_day u \<and> gt_nano t < gt_nano u))"

lemma norm_day_small:
  assumes "1 \<le> m" "m \<le> 12" "1 \<le> d" "d \<le> 31"
  shows "norm_day y m d =
    (if d \<le> days_in y m then (y, m, d) else (y, m + 1, d - days_in y m))"
proof (cases "d \<le> days_in y m")
  case True
  then show ?thesis by (simp add: norm_day.simps)
next
  case False
  with assms have m: "m \<noteq> 12" "d - days_in y m \<le> 31" by (auto simp: days_in_def)
  have "d - days_in y m \<le> days_in y (m + 1)" using assms days_in_bounds [of y m] days_in_bounds [of y "m + 1"] by linarith
  then have "norm_day y (m + 1) (d - days_in y m) = (y, m + 1, d - days_in y m)" by (simp add: norm_day.simps)
  with False m show ?thesis by (subst norm_day.simps) simp
qed

lemma AddDate_fields:
  assumes "valid_time t"
  shows "AddDate t 1 0 = (if gt_day t \<le> days_in (gt_year t + 1) (gt_month t)
           then t\<lparr>gt_year := gt_year t + 1\<rparr>
           else t\<lparr>gt_year := gt_year t + 1, gt_month := gt_month t + 1, gt_day := gt_day t - days_in (gt_year t + 1) (gt_month t)\<rparr>)"
    and "gt_month t < 12 \<Longrightarrow> AddDate t 0 1 = (if gt_day t \<le> days_in (gt_year t) (gt_month t + 1)
           then t\<lparr>gt_month := gt_month t + 1\<rparr>
           else t\<lparr>gt_month := gt_month t + 2, gt_day := gt_day t - days_in (gt_year t) (gt_month t + 1)\<rparr>)"
    and "gt_month t = 12 \<Longrightarrow> AddDate t 0 1 = t\<lparr>gt_year := gt_year t + 1, gt_month := 1\<rparr>"
proof -
  have r: "1 \<le> gt_month t" "gt_month t \<le> 12" "1 \<le> gt_day t" "gt_day t \<le> 31"
    using assms days_in_bounds [of "gt_year t" "gt_month t"] by (auto simp: valid_time_def)
  have m: "(gt_month t - 1) div 12 = 0" "(gt_month t - 1) mod 12 = gt_month t - 1" using r by simp_all
  show "AddDate t 1 0 = (if gt_day t \<le> days_in (gt_year t + 1) (gt_month t)
           then t\<lparr>gt_year := gt_year t + 1\<rparr>
           else t\<lparr>gt_year := gt_year t + 1, gt_month := gt_month t + 1, gt_day := gt_day t - days_in (gt_year t + 1) (gt_month t)\<rparr>)"
    using r by (simp add: AddDate_def m norm_day_small Let_def)
  show "AddDate t 0 1 = (if gt_day t \<le> days_in (gt_year t) (gt_month t + 1)
           then t\<lparr>gt_month := gt_month t + 1\<rparr>
           else t\<lparr>gt_month := gt_month t + 2, gt_day := gt_day t - days_in (gt_year t) (gt_month t + 1)\<rparr>)" if "gt_month t < 12"
    using r that by (simp add: AddDate_def norm_day_small Let_def)
  show "AddDate t 0 1 = t\<lparr>gt_year := gt_year t + 1, gt_month := 1\<rparr>" if "gt_month t = 12"
    using r that by (simp add: AddDate_def norm_day_small Let_def days_in_def)
qed

text \<open>A period of a month or a year is a valid time and ends after it starts.\<close>

lemma AddDate_later:
  assumes "valid_time t"
  shows "Before t (AddDate t 1 0) \<and> valid_time (AddDate t 1 0)"
    and "Before t (AddDate t 0 1) \<and> valid_time (AddDate t 0 1)"
proof -
  have r: "1 \<le> gt_month t" "gt_month t \<le> 12" "1 \<le> gt_day t" "gt_day t \<le> 31"
    using assms days_in_bounds [of "gt_year t" "gt_month t"] by (auto simp: valid_time_def)
  show "Before t (AddDate t 1 0) \<and> valid_time (AddDate t 1 0)"
    using assms r by (auto simp: AddDate_fields Before_def valid_time_def days_in_def split: if_splits)
  show "Before t (AddDate t 0 1) \<and> valid_time (AddDate t 0 1)"
  proof (cases "gt_month t = 12")
    case True
    with assms r show ?thesis by (auto simp: AddDate_fields Before_def valid_time_def days_in_def)
  next
    case False
    with r have "gt_month t < 12" by simp
    with assms r show ?thesis by (auto simp: AddDate_fields Before_def valid_time_def days_in_def split: if_splits)
  qed
qed

end
