(* ===== verification/Admin_Authz.thy ===== *)
theory Admin_Authz
  imports Casbin Store Auth Go_Time
begin

text \<open>
  The authorization of the control plane itself: the operators, their admin roles and grants
  (\<open>internal/controlplane/adminauthz\<close>: \<open>store.go\<close>, \<open>membership.go\<close>, \<open>operator.go\<close>, \<open>audit.go\<close>),
  the enforcer over them with its versioned reload (\<open>enforcer.go\<close>), the table of the guarded
  calls and the two interceptors in front of the management service (\<open>mgmt/authz.go\<close>), and the
  registration of tenants and the invitation of members with the quota of a plan
  (\<open>mgmt/accounts.go\<close>, \<open>store/quota.go\<close>). The theorems show that a call admitted by the chain is
  covered by a grant in the domain of the tenant that owns the application, that an invitation
  stays within the plan, and two defects of the code.
\<close>

section \<open>Tables\<close>

record operator_row =
  op_id :: int64
  op_principal :: string
  op_secret :: string
  op_status :: int
  op_email :: "string option"

record admin_role_row =
  ar_id :: int64
  ar_code :: string
  ar_name :: string

record admin_grant_row =
  ag_role :: int64
  ag_domain :: string
  ag_resource :: string
  ag_action :: string

record subject_role_row =
  sr_operator :: int64
  sr_role :: int64
  sr_domain :: string

record membership_row =
  mb_tenant :: int64
  mb_operator :: int64
  mb_tier :: int

record plan_row =
  pl_id :: int64
  pl_name :: string
  pl_max_applications :: int
  pl_max_members :: int
  pl_price_cents :: int64
  pl_currency :: string
  pl_billing_period :: string

record tenant_row =
  tn_id :: int64
  tn_name :: string
  tn_plan :: int64

record subscription_row =
  sb_tenant :: int64
  sb_status :: string
  sb_start :: go_time
  sb_end :: "go_time option"

record application_row =
  aw_id :: int64
  aw_tenant :: int64
  aw_domain :: string
  aw_name :: string
  aw_app_key :: string
  aw_secret :: string
  aw_status :: int
  aw_version :: int64

text \<open>The JSON text of a change in an audit row is left out.\<close>

record admin_audit_row =
  aa_tenant :: "int64 option"
  aa_operator :: string
  aa_action :: string
  aa_entityType :: string
  aa_entityID :: "string option"
  aa_version :: "int64 option"

record admin_db =
  ad_operators :: "operator_row list"
  ad_roles :: "admin_role_row list"
  ad_grants :: "admin_grant_row list"
  ad_subjects :: "subject_role_row list"
  ad_memberships :: "membership_row list"
  ad_tenants :: "tenant_row list"
  ad_plans :: "plan_row list"
  ad_subscriptions :: "subscription_row list"
  ad_apps :: "application_row list"
  ad_audit :: "admin_audit_row list"
  ad_version :: "int64 option"

text \<open>The identity values the database hands out, and its clock.\<close>

record admin_pg =
  apg_id :: "admin_db \<Rightarrow> int64"
  apg_now :: go_time

section \<open>Statements\<close>

definition InsertOperator :: "admin_pg \<Rightarrow> string \<Rightarrow> string \<Rightarrow> admin_db \<Rightarrow> (db_error, int64 \<times> admin_db) res" where
  "InsertOperator pg who secretEnc db =
     (let i = apg_id pg db
      in if \<exists>r \<in> set (ad_operators db). op_principal r = who \<or> op_id r = i then Inl UniqueViolation
         else Inr (i, db\<lparr>ad_operators := ad_operators db @
                [\<lparr>op_id = i, op_principal = who, op_secret = secretEnc, op_status = 1, op_email = None\<rparr>]\<rparr>))"

definition Admin_InsertRole :: "admin_pg \<Rightarrow> string \<Rightarrow> string \<Rightarrow> admin_db \<Rightarrow> (db_error, int64 \<times> admin_db) res" where
  "Admin_InsertRole pg cd name db =
     (let i = apg_id pg db
      in if \<exists>r \<in> set (ad_roles db). ar_code r = cd \<or> ar_id r = i then Inl UniqueViolation
         else Inr (i, db\<lparr>ad_roles := ad_roles db @ [\<lparr>ar_id = i, ar_code = cd, ar_name = name\<rparr>]\<rparr>))"

definition InsertRoleGrant :: "int64 \<Rightarrow> string \<Rightarrow> string \<Rightarrow> string \<Rightarrow> admin_db \<Rightarrow> (db_error, admin_db) res" where
  "InsertRoleGrant roleID domain resource action db =
     (let row = \<lparr>ag_role = roleID, ag_domain = domain, ag_resource = resource, ag_action = action\<rparr>
      in if row \<in> set (ad_grants db) then Inr db
         else if roleID \<notin> ar_id ` set (ad_roles db) then Inl ForeignKeyViolation
         else Inr (db\<lparr>ad_grants := ad_grants db @ [row]\<rparr>))"

definition InsertSubjectRole :: "int64 \<Rightarrow> int64 \<Rightarrow> string \<Rightarrow> admin_db \<Rightarrow> (db_error, admin_db) res" where
  "InsertSubjectRole operatorID roleID domain db =
     (let row = \<lparr>sr_operator = operatorID, sr_role = roleID, sr_domain = domain\<rparr>
      in if row \<in> set (ad_subjects db) then Inr db
         else if operatorID \<notin> op_id ` set (ad_operators db) \<or> roleID \<notin> ar_id ` set (ad_roles db) then Inl ForeignKeyViolation
         else Inr (db\<lparr>ad_subjects := ad_subjects db @ [row]\<rparr>))"

definition DeleteRoleGrant :: "int64 \<Rightarrow> string \<Rightarrow> string \<Rightarrow> string \<Rightarrow> admin_db \<Rightarrow> (db_error, admin_db) res" where
  "DeleteRoleGrant roleID domain resource action db =
     (let row = \<lparr>ag_role = roleID, ag_domain = domain, ag_resource = resource, ag_action = action\<rparr>
      in if row \<notin> set (ad_grants db) then Inl StoreNotFound
         else Inr (db\<lparr>ad_grants := filter (\<lambda>r. r \<noteq> row) (ad_grants db)\<rparr>))"

definition DeleteSubjectRole :: "int64 \<Rightarrow> int64 \<Rightarrow> string \<Rightarrow> admin_db \<Rightarrow> (db_error, admin_db) res" where
  "DeleteSubjectRole operatorID roleID domain db =
     (let row = \<lparr>sr_operator = operatorID, sr_role = roleID, sr_domain = domain\<rparr>
      in if row \<notin> set (ad_subjects db) then Inl StoreNotFound
         else Inr (db\<lparr>ad_subjects := filter (\<lambda>r. r \<noteq> row) (ad_subjects db)\<rparr>))"

definition LoadPolicyRows :: "admin_db \<Rightarrow> string list list" where
  "LoadPolicyRows db = concat (map (\<lambda>g. map (\<lambda>r. [ar_code r, ag_domain g, ag_resource g, ag_action g])
     (filter (\<lambda>r. ar_id r = ag_role g) (ad_roles db))) (ad_grants db))"

definition LoadGroupingRows :: "admin_db \<Rightarrow> string list list" where
  "LoadGroupingRows db = concat (map (\<lambda>s. concat (map (\<lambda>o'. map (\<lambda>r. [op_principal o', ar_code r, sr_domain s])
     (filter (\<lambda>r. ar_id r = sr_role s) (ad_roles db))) (filter (\<lambda>o'. op_id o' = sr_operator s) (ad_operators db)))) (ad_subjects db))"

definition ReadPolicyVersion :: "admin_db \<Rightarrow> (db_error, int64) res" where
  "ReadPolicyVersion db = (case ad_version db of None \<Rightarrow> Inl NoRows | Some v \<Rightarrow> Inr v)"

definition BumpPolicyVersion :: "admin_db \<Rightarrow> (db_error, admin_db) res" where
  "BumpPolicyVersion db =
     (case ad_version db of None \<Rightarrow> Inl StoreNotFound | Some v \<Rightarrow> Inr (db\<lparr>ad_version := Some (v + 1)\<rparr>))"

definition InsertMembership :: "int64 \<Rightarrow> int64 \<Rightarrow> int \<Rightarrow> admin_db \<Rightarrow> (db_error, bool \<times> admin_db) res" where
  "InsertMembership tenantID operatorID tier db =
     (if \<exists>m \<in> set (ad_memberships db). mb_tenant m = tenantID \<and> mb_operator m = operatorID then Inr (False, db)
      else if tenantID \<notin> tn_id ` set (ad_tenants db) \<or> operatorID \<notin> op_id ` set (ad_operators db) then Inl ForeignKeyViolation
      else Inr (True, db\<lparr>ad_memberships := ad_memberships db @
             [\<lparr>mb_tenant = tenantID, mb_operator = operatorID, mb_tier = tier\<rparr>]\<rparr>))"

definition TierOwner :: int where "TierOwner = 1"
definition TierAdmin :: int where "TierAdmin = 2"

definition IsOperatingPlane :: "admin_db \<Rightarrow> string \<Rightarrow> bool" where
  "IsOperatingPlane db who \<longleftrightarrow>
     (\<exists>s \<in> set (ad_subjects db). \<exists>o' \<in> set (ad_operators db). op_id o' = sr_operator s \<and> op_principal o' = who \<and> sr_domain s = ''*'')"

definition EnsureOperator :: "admin_pg \<Rightarrow> string \<Rightarrow> string \<Rightarrow> admin_db \<Rightarrow> (db_error, (int64 \<times> bool) \<times> admin_db) res" where
  "EnsureOperator pg who secretEnc db =
     (case filter (\<lambda>o'. op_principal o' = who) (ad_operators db) of
        o' # _ \<Rightarrow> Inr ((op_id o', False), db)
      | [] \<Rightarrow> (case InsertOperator pg who secretEnc db of Inl e \<Rightarrow> Inl e | Inr (i, db') \<Rightarrow> Inr ((i, True), db')))"

definition TenantDomain :: "int64 \<Rightarrow> string" where
  "TenantDomain tenantID = ''t:'' @ show_id tenantID"

definition tenant_admin_code :: "int64 \<Rightarrow> string" where
  "tenant_admin_code tenantID = ''tenant-admin-'' @ show_id tenantID"

text \<open>The display name of the role is left out.\<close>

definition BindTenantAdminTx :: "admin_pg \<Rightarrow> int64 \<Rightarrow> int64 \<Rightarrow> admin_db \<Rightarrow> (db_error, admin_db) res" where
  "BindTenantAdminTx pg tenantID operatorID db =
     (case (case filter (\<lambda>r. ar_code r = tenant_admin_code tenantID) (ad_roles db) of
              r # _ \<Rightarrow> Inr (ar_id r, db)
            | [] \<Rightarrow> Admin_InsertRole pg (tenant_admin_code tenantID) [] db) of
        Inl e \<Rightarrow> Inl e
      | Inr (roleID, db1) \<Rightarrow>
          (case InsertRoleGrant roleID (TenantDomain tenantID) ''*'' ''*'' db1 of
             Inl e \<Rightarrow> Inl e
           | Inr db2 \<Rightarrow> InsertSubjectRole operatorID roleID (TenantDomain tenantID) db2))"

definition nullStr :: "string \<Rightarrow> string option" where
  "nullStr s = (if s = [] then None else Some s)"

definition InsertAdminAudit ::
    "int64 option \<Rightarrow> string \<Rightarrow> string \<Rightarrow> string \<Rightarrow> string \<Rightarrow> int64 option \<Rightarrow> admin_db \<Rightarrow> admin_db" where
  "InsertAdminAudit tenantID operator action entityType entityID adminVersion db =
     db\<lparr>ad_audit := ad_audit db @ [\<lparr>aa_tenant = tenantID, aa_operator = operator, aa_action = action,
       aa_entityType = entityType, aa_entityID = nullStr entityID, aa_version = adminVersion\<rparr>]\<rparr>"

section \<open>The decision model\<close>

text \<open>\<^verbatim>\<open>r = sub, dom, tdom, res, act\<close> and \<^verbatim>\<open>p = sub, dom, res, act\<close>, line by line.\<close>

definition admin_matches :: "nat \<Rightarrow> string list set \<Rightarrow> string list \<Rightarrow> string list \<Rightarrow> bool" where
  "admin_matches lvl G req p \<longleftrightarrow>
     (case (req, p) of
        ([sub, dm, tdom, res, act], [psub, pdom, pres, pact]) \<Rightarrow>
          (role_link lvl G dm sub psub \<or> role_link lvl G tdom sub psub \<or> role_link lvl G ''*'' sub psub) \<and>
          (pdom = dm \<or> pdom = tdom \<or> pdom = ''*'') \<and> (pres = res \<or> pres = ''*'') \<and> (pact = act \<or> pact = ''*'')
      | _ \<Rightarrow> False)"

definition admin_allows :: "nat \<Rightarrow> string list set \<Rightarrow> string list set \<Rightarrow> string list \<Rightarrow> bool" where
  "admin_allows lvl P G req \<longleftrightarrow> (\<exists>p \<in> P. admin_matches lvl G req p)"

text \<open>
  The evaluation engine is the third-party package again: loading rows into an engine, and deciding a
  request. \<open>admin_casbin\<close> states what the program relies on.
\<close>

record 'ce admin_engine =
  ae_LoadPolicy :: "string list list \<Rightarrow> string list list \<Rightarrow> 'ce \<Rightarrow> (casbin_error, 'ce) res"
  ae_Enforce :: "string list \<Rightarrow> 'ce \<Rightarrow> (casbin_error, bool) res"

section \<open>The enforcer\<close>

record 'ce admin_enforcer =
  en_e :: 'ce
  en_loadedV :: int64

datatype admin_error = AdminDb db_error | AdminCasbin casbin_error

text \<open>\<open>db1\<close> is the database when the rows are loaded, \<open>db2\<close> the one when the version is read.\<close>

definition NewEnforcer :: "'ce admin_engine \<Rightarrow> 'ce \<Rightarrow> admin_db \<Rightarrow> admin_db \<Rightarrow> (admin_error, 'ce admin_enforcer) res" where
  "NewEnforcer A ce db1 db2 =
     (case ae_LoadPolicy A (LoadPolicyRows db1) (LoadGroupingRows db1) ce of
        Inl e \<Rightarrow> Inl (AdminCasbin e)
      | Inr ce' \<Rightarrow>
          (case ReadPolicyVersion db2 of Inl e \<Rightarrow> Inl (AdminDb e) | Inr v \<Rightarrow> Inr \<lparr>en_e = ce', en_loadedV = v\<rparr>))"

definition Enforcer_Enforce ::
    "'ce admin_engine \<Rightarrow> admin_db \<Rightarrow> admin_db \<Rightarrow> string list \<Rightarrow> 'ce admin_enforcer \<Rightarrow> (admin_error, bool) res \<times> 'ce admin_enforcer" where
  "Enforcer_Enforce A db1 db2 req en =
     (case ReadPolicyVersion db1 of
        Inl e \<Rightarrow> (Inl (AdminDb e), en)
      | Inr cur \<Rightarrow>
          (case (if cur \<noteq> en_loadedV en
                 then (case ae_LoadPolicy A (LoadPolicyRows db2) (LoadGroupingRows db2) (en_e en) of
                         Inl e \<Rightarrow> Inl e
                       | Inr ce' \<Rightarrow> Inr \<lparr>en_e = ce', en_loadedV = cur\<rparr>)
                 else Inr en) of
             Inl e \<Rightarrow> (Inl (AdminCasbin e), en)
           | Inr en' \<Rightarrow>
               (case ae_Enforce A req (en_e en') of Inl e \<Rightarrow> (Inl (AdminCasbin e), en') | Inr b \<Rightarrow> (Inr b, en'))))"

definition app_of :: "admin_db \<Rightarrow> int64 \<Rightarrow> application_row option" where
  "app_of db appID = (case filter (\<lambda>a. aw_id a = appID) (ad_apps db) of a # _ \<Rightarrow> Some a | [] \<Rightarrow> None)"

definition TenantDomainOf :: "admin_db \<Rightarrow> int64 \<Rightarrow> (db_error, string) res" where
  "TenantDomainOf db appID = (case app_of db appID of None \<Rightarrow> Inl NoRows | Some a \<Rightarrow> Inr (TenantDomain (aw_tenant a)))"

section \<open>Authorization of a call\<close>

datatype rule_scope = ScopeSystem | ScopeApp | ScopeTenant | ScopeSelf

record rpc_rule =
  ru_resource :: string
  ru_action :: string
  ru_isWrite :: bool
  ru_scope :: rule_scope

text \<open>A request may have an application and a tenant.\<close>

record admin_request =
  rq_app :: "uint64 option"
  rq_tenant :: "uint64 option"

definition service :: string where
  "service = ''/sydom.admin.v1.AdminService/''"

definition UnauthenticatedMethods :: "string set" where
  "UnauthenticatedMethods = {service @ ''RegisterTenant''}"

definition rule_rows :: "(string \<times> string \<times> string \<times> bool \<times> rule_scope) list" where
  "rule_rows =
     [(''CreateRole'', ''role'', ''create'', True, ScopeApp),
      (''CreateBusinessRole'', ''role'', ''create'', True, ScopeApp),
      (''ListTemplates'', ''template'', ''read'', False, ScopeApp),
      (''ApplyTemplate'', ''template'', ''apply'', True, ScopeApp),
      (''SaveAppAsTemplate'', ''template'', ''create'', False, ScopeApp),
      (''ListTenantTemplates'', ''template'', ''read'', False, ScopeTenant),
      (''GetTenantTemplate'', ''template'', ''read'', False, ScopeTenant),
      (''ApplyTenantTemplate'', ''template'', ''apply'', True, ScopeApp),
      (''DeleteTenantTemplate'', ''template'', ''delete'', False, ScopeTenant),
      (''DeleteRole'', ''role'', ''delete'', True, ScopeApp),
      (''UpsertPermission'', ''permission'', ''update'', True, ScopeApp),
      (''GrantPermission'', ''grant'', ''create'', True, ScopeApp),
      (''RevokePermission'', ''grant'', ''delete'', True, ScopeApp),
      (''AddRoleInheritance'', ''inheritance'', ''create'', True, ScopeApp),
      (''RemoveRoleInheritance'', ''inheritance'', ''delete'', True, ScopeApp),
      (''BindUserRole'', ''binding'', ''create'', True, ScopeApp),
      (''UnbindUserRole'', ''binding'', ''delete'', True, ScopeApp),
      (''UpsertDataPolicy'', ''data_policy'', ''update'', True, ScopeApp),
      (''DeleteDataPolicy'', ''data_policy'', ''delete'', True, ScopeApp),
      (''CreateApplication'', ''application'', ''create'', False, ScopeTenant),
      (''SetApplicationStatus'', ''application'', ''update'', False, ScopeApp),
      (''ListApplications'', ''application'', ''read'', False, ScopeTenant),
      (''GetTenantUsage'', ''application'', ''read'', False, ScopeTenant),
      (''ChangeTenantPlan'', ''billing'', ''update'', False, ScopeSystem),
      (''ConfigureTenantIdp'', ''sso'', ''update'', False, ScopeTenant),
      (''GetTenantIdp'', ''sso'', ''read'', False, ScopeTenant),
      (''DeleteTenantIdp'', ''sso'', ''delete'', False, ScopeTenant),
      (''GetApplication'', ''application'', ''read'', False, ScopeApp),
      (''CreateOperator'', ''admin'', ''create'', False, ScopeSystem),
      (''SetOperatorStatus'', ''admin'', ''update'', False, ScopeSystem),
      (''SetOperatorEmail'', ''admin'', ''update'', False, ScopeSystem),
      (''CreateAdminRole'', ''admin'', ''create'', False, ScopeSystem),
      (''GrantAdminRole'', ''admin'', ''update'', False, ScopeSystem),
      (''BindOperatorRole'', ''admin'', ''update'', False, ScopeSystem),
      (''RevokeAdminGrant'', ''admin'', ''update'', False, ScopeSystem),
      (''UnbindOperatorRole'', ''admin'', ''update'', False, ScopeSystem),
      (''ResetOperatorSecret'', ''admin'', ''update'', False, ScopeSystem),
      (''RotateApplicationSecret'', ''application'', ''update'', False, ScopeApp),
      (''GetRoleGraph'', ''role'', ''read'', False, ScopeApp),
      (''ListRoles'', ''role'', ''read'', False, ScopeApp),
      (''ListPermissions'', ''permission'', ''read'', False, ScopeApp),
      (''ListGrants'', ''grant'', ''read'', False, ScopeApp),
      (''ListRoleInheritances'', ''inheritance'', ''read'', False, ScopeApp),
      (''ListUserBindings'', ''binding'', ''read'', False, ScopeApp),
      (''ListDataPolicies'', ''data_policy'', ''read'', False, ScopeApp),
      (''GetEffectivePermissions'', ''effective_permission'', ''read'', False, ScopeApp),
      (''ExplainDecision'', ''effective_permission'', ''read'', False, ScopeApp),
      (''SimulateRoleChange'', ''effective_permission'', ''read'', False, ScopeApp),
      (''PreviewDataFilter'', ''effective_permission'', ''read'', False, ScopeApp),
      (''QueryAuditLog'', ''audit'', ''read'', False, ScopeApp),
      (''QueryAdminAuditLog'', ''audit'', ''read'', False, ScopeTenant),
      (''ListOperators'', ''admin'', ''read'', False, ScopeSystem),
      (''ListAdminRoles'', ''admin'', ''read'', False, ScopeSystem),
      (''ListMyTenants'', [], [], False, ScopeSelf),
      (''InviteMember'', ''member'', ''create'', False, ScopeTenant),
      (''ListMembers'', ''member'', ''read'', False, ScopeTenant),
      (''ExportAppPolicy'', ''policy/export'', ''read'', False, ScopeApp),
      (''ImportAppPolicy'', ''policy/import'', ''update'', True, ScopeApp),
      (''BatchUnbindUserRole'', ''binding'', ''delete'', True, ScopeApp),
      (''BatchRevokePermission'', ''grant'', ''delete'', True, ScopeApp),
      (''BatchRemoveRoleInheritance'', ''inheritance'', ''delete'', True, ScopeApp),
      (''BatchDeleteRole'', ''role'', ''delete'', True, ScopeApp),
      (''BatchDeleteDataPolicy'', ''data_policy'', ''delete'', True, ScopeApp)]"

definition ruleTable :: "string \<Rightarrow> rpc_rule option" where
  "ruleTable fullMethod = map_of (map (\<lambda>(m, r, a, w, s).
     (service @ m, \<lparr>ru_resource = r, ru_action = a, ru_isWrite = w, ru_scope = s\<rparr>)) rule_rows) fullMethod"

definition DomainOfAppID :: "int64 \<Rightarrow> string" where
  "DomainOfAppID appID = show_id appID"

type_synonym admin_status = "grpc_code \<times> string"

definition domains_of :: "admin_db \<Rightarrow> rule_scope \<Rightarrow> admin_request \<Rightarrow> (admin_status, string \<times> string) res" where
  "domains_of db scope req =
     (case scope of
        ScopeApp \<Rightarrow>
          (case rq_app req of
             None \<Rightarrow> Inl (Internal, ''request missing app_id'')
           | Some appID \<Rightarrow>
               (case TenantDomainOf db appID of
                  Inl _ \<Rightarrow> Inl (PermissionDenied, ''permission denied'')
                | Inr td \<Rightarrow> Inr (DomainOfAppID appID, td)))
      | ScopeTenant \<Rightarrow>
          (case rq_tenant req of
             None \<Rightarrow> Inl (Internal, ''request missing tenant_id'')
           | Some tid \<Rightarrow> if tid = 0 then Inr (''*'', ''*'') else Inr (TenantDomain tid, TenantDomain tid))
      | _ \<Rightarrow> Inr (''*'', ''*''))"

definition AuthorizeRule ::
    "'ce admin_engine \<Rightarrow> admin_db \<Rightarrow> admin_db \<Rightarrow> string \<Rightarrow> string \<Rightarrow> admin_request \<Rightarrow> 'ce admin_enforcer \<Rightarrow>
     (admin_status, string) res \<times> 'ce admin_enforcer" where
  "AuthorizeRule A db1 db2 fullMethod who req en =
     (case ruleTable fullMethod of
        None \<Rightarrow> (Inl (PermissionDenied, ''unknown method''), en)
      | Some rule \<Rightarrow>
          if ru_scope rule = ScopeSelf then (Inr who, en)
          else case domains_of db1 (ru_scope rule) req of
            Inl e \<Rightarrow> (Inl e, en)
          | Inr (domain, tdom) \<Rightarrow>
              (case Enforcer_Enforce A db1 db2 [who, domain, tdom, ru_resource rule, ru_action rule] en of
                 (Inr True, en') \<Rightarrow> (Inr who, en')
               | (_, en') \<Rightarrow> (Inl (PermissionDenied, ''permission denied''), en')))"

definition CheckStatusWrite :: "admin_db \<Rightarrow> string \<Rightarrow> admin_request \<Rightarrow> admin_status option" where
  "CheckStatusWrite db fullMethod req =
     (case ruleTable fullMethod of
        None \<Rightarrow> None
      | Some rule \<Rightarrow>
          if \<not> ru_isWrite rule then None
          else case rq_app req of
            None \<Rightarrow> None
          | Some appID \<Rightarrow>
              (case app_of db appID of
                 None \<Rightarrow> Some (NotFound, ''unknown application'')
               | Some a \<Rightarrow> if aw_status a \<noteq> 1 then Some (FailedPrecondition, ''application disabled'') else None))"

text \<open>The two interceptors in the order in which the server chains them; \<open>handler\<close> gets the operator.\<close>

definition admin_chain ::
    "'ce admin_engine \<Rightarrow> admin_db \<Rightarrow> admin_db \<Rightarrow> string \<Rightarrow> string option \<Rightarrow> admin_request \<Rightarrow>
     (string option \<Rightarrow> (admin_status, 'r) res) \<Rightarrow> 'ce admin_enforcer \<Rightarrow> (admin_status, 'r) res \<times> 'ce admin_enforcer" where
  "admin_chain A db1 db2 fullMethod ctx req handler en =
     (if fullMethod \<in> UnauthenticatedMethods then
        (case CheckStatusWrite db2 fullMethod req of Some e \<Rightarrow> (Inl e, en) | None \<Rightarrow> (handler None, en))
      else case ctx of
        None \<Rightarrow> (Inl (Unauthenticated, ''missing operator identity''), en)
      | Some who \<Rightarrow>
          (case AuthorizeRule A db1 db2 fullMethod who req en of
             (Inl e, en') \<Rightarrow> (Inl e, en')
           | (Inr op, en') \<Rightarrow>
               (case CheckStatusWrite db2 fullMethod req of Some e \<Rightarrow> (Inl e, en') | None \<Rightarrow> (handler (Some op), en'))))"

section \<open>Accounts\<close>

text \<open>
  What a transaction needs from outside: the master key, the random secret (\<^const>\<open>None\<close> if there is no randomness), its
  encryption under the master key, the lower case of a text that is not ASCII, and whether the transaction begins and commits.
\<close>

record tx_env =
  te_masterKey :: string
  te_secret :: "string option"
  te_encrypt :: "string \<Rightarrow> (crypto_error, string) res"
  te_lower :: "string \<Rightarrow> string"
  te_begin :: bool
  te_commit :: bool

definition genSecret :: "tx_env \<Rightarrow> string option" where
  "genSecret X = map_option EncodeToString (te_secret X)"

text \<open>A new tenant has plan 1, the default of the column, and an active subscription without an end.\<close>

definition insert_tenant :: "admin_pg \<Rightarrow> string \<Rightarrow> admin_db \<Rightarrow> (db_error, int64 \<times> admin_db) res" where
  "insert_tenant pg name db =
     (let i = apg_id pg db
      in if \<exists>t \<in> set (ad_tenants db). tn_name t = name \<or> tn_id t = i then Inl UniqueViolation
         else Inr (i, db\<lparr>ad_tenants := ad_tenants db @ [\<lparr>tn_id = i, tn_name = name, tn_plan = 1\<rparr>]\<rparr>))"

definition insert_subscription :: "admin_pg \<Rightarrow> int64 \<Rightarrow> admin_db \<Rightarrow> (db_error, admin_db) res" where
  "insert_subscription pg tenantID db =
     (if tenantID \<in> sb_tenant ` set (ad_subscriptions db) then Inl UniqueViolation
      else Inr (db\<lparr>ad_subscriptions := ad_subscriptions db @
             [\<lparr>sb_tenant = tenantID, sb_status = ''active'', sb_start = apg_now pg, sb_end = None\<rparr>]\<rparr>))"

definition taken :: "string \<Rightarrow> db_error \<Rightarrow> admin_status" where
  "taken msg e = (if e = UniqueViolation then (AlreadyExists, msg) else (Internal, []))"

definition internal :: "db_error \<Rightarrow> admin_status" where
  "internal e = (Internal, [])"

definition bindE :: "('e, 'a) res \<Rightarrow> ('e \<Rightarrow> 'f) \<Rightarrow> ('a \<Rightarrow> ('f, 'b) res) \<Rightarrow> ('f, 'b) res" where
  "bindE r err f = (case r of Inl e \<Rightarrow> Inl (err e) | Inr x \<Rightarrow> f x)"

text \<open>The statements of a registration, in one transaction; the answer is the tenant and the secret.\<close>

definition register_tx :: "admin_pg \<Rightarrow> string \<Rightarrow> string \<Rightarrow> string \<Rightarrow> admin_db \<Rightarrow> (admin_status, int64 \<times> admin_db) res" where
  "register_tx pg tenantName owner enc db =
     bindE (insert_tenant pg tenantName db) (taken ''tenant name taken'') (\<lambda>(tenantID, db1).
     bindE (InsertOperator pg owner enc db1) (taken ''principal taken'') (\<lambda>(opID, db2).
     bindE (InsertMembership tenantID opID TierOwner db2) internal (\<lambda>(_, db3).
     bindE (BindTenantAdminTx pg tenantID opID db3) internal (\<lambda>db4.
     bindE (insert_subscription pg tenantID db4) internal (\<lambda>db5.
     bindE (BumpPolicyVersion db5) internal (\<lambda>db6.
     bindE (ReadPolicyVersion db6) internal (\<lambda>ver.
     Inr (tenantID, InsertAdminAudit (Some tenantID) owner ''register'' ''tenant'' (show_id tenantID) (Some ver) db6))))))))"

definition RegisterTenant ::
    "admin_pg \<Rightarrow> tx_env \<Rightarrow> string \<Rightarrow> string \<Rightarrow> admin_db \<Rightarrow> (admin_status, int64 \<times> string) res \<times> admin_db" where
  "RegisterTenant pg X tenantName owner db =
     (if tenantName = [] \<or> \<not> ValidPrincipal owner
      then (Inl (InvalidArgument, ''tenant_name and valid owner_principal required''), db)
      else case genSecret X of
        None \<Rightarrow> (Inl (Internal, []), db)
      | Some secret \<Rightarrow>
          (case te_encrypt X secret of
             Inl _ \<Rightarrow> (Inl (Internal, []), db)
           | Inr enc \<Rightarrow>
               if \<not> te_begin X then (Inl (Internal, []), db)
               else (case register_tx pg tenantName owner enc db of
                       Inl e \<Rightarrow> (Inl e, db)
                     | Inr (tenantID, db') \<Rightarrow>
                         if te_commit X then (Inr (tenantID, secret), db') else (Inl (Internal, []), db))))"

text \<open>The two numbers are \<open>MaxApplications\<close> and \<open>MaxMembers\<close>.\<close>

definition TenantPlanLimits :: "admin_db \<Rightarrow> int64 \<Rightarrow> (db_error, int \<times> int) res" where
  "TenantPlanLimits db tenantID =
     (case concat (map (\<lambda>t. map (\<lambda>p. (pl_max_applications p, pl_max_members p))
             (filter (\<lambda>p. pl_id p = tn_plan t) (ad_plans db))) (filter (\<lambda>t. tn_id t = tenantID) (ad_tenants db))) of
        pl # _ \<Rightarrow> Inr pl
      | [] \<Rightarrow> Inl StoreNotFound)"

definition CountApplications :: "admin_db \<Rightarrow> int64 \<Rightarrow> nat" where
  "CountApplications db tenantID = length (filter (\<lambda>a. aw_tenant a = tenantID) (ad_apps db))"

definition CountMembers :: "admin_db \<Rightarrow> int64 \<Rightarrow> nat" where
  "CountMembers db tenantID = length (filter (\<lambda>m. mb_tenant m = tenantID) (ad_memberships db))"

definition invite_tx ::
    "admin_pg \<Rightarrow> string \<Rightarrow> int64 \<Rightarrow> string \<Rightarrow> string \<Rightarrow> admin_db \<Rightarrow> (admin_status, (int64 \<times> bool) \<times> admin_db) res" where
  "invite_tx pg operator tenantID who enc db =
     bindE (TenantPlanLimits db tenantID) (\<lambda>_. (InvalidArgument, ''unknown tenant'')) (\<lambda>(_, maxMembers).
     bindE (EnsureOperator pg who enc db) internal (\<lambda>((opID, created), db1).
     bindE (InsertMembership tenantID opID TierAdmin db1) internal (\<lambda>(inserted, db2).
     if \<not> inserted then Inl (AlreadyExists, ''already a member'')
     else if int (CountMembers db1 tenantID) \<ge> maxMembers then Inl (ResourceExhausted, ''member quota reached'')
     else
     bindE (BindTenantAdminTx pg tenantID opID db2) internal (\<lambda>db3.
     bindE (BumpPolicyVersion db3) internal (\<lambda>db4.
     bindE (ReadPolicyVersion db4) internal (\<lambda>ver.
     Inr ((opID, created), InsertAdminAudit (Some tenantID) operator ''invite'' ''membership'' (show_id opID) (Some ver) db4)))))))"

definition InviteMember ::
    "admin_pg \<Rightarrow> tx_env \<Rightarrow> string \<Rightarrow> int64 \<Rightarrow> string \<Rightarrow> admin_db \<Rightarrow>
     (admin_status, int64 \<times> string option) res \<times> admin_db" where
  "InviteMember pg X operator tenantID who db =
     (if \<not> ValidPrincipal who then (Inl (InvalidArgument, ''valid principal required''), db)
      else case genSecret X of
        None \<Rightarrow> (Inl (Internal, []), db)
      | Some secret \<Rightarrow>
          (case te_encrypt X secret of
             Inl _ \<Rightarrow> (Inl (Internal, []), db)
           | Inr enc \<Rightarrow>
               if \<not> te_begin X then (Inl (Internal, []), db)
               else (case invite_tx pg operator tenantID who enc db of
                       Inl e \<Rightarrow> (Inl e, db)
                     | Inr ((opID, created), db') \<Rightarrow>
                         if te_commit X then (Inr (opID, if created then Some secret else None), db')
                         else (Inl (Internal, []), db))))"

definition EnsureRootOperator ::
    "admin_pg \<Rightarrow> tx_env \<Rightarrow> string \<Rightarrow> string \<Rightarrow> admin_db \<Rightarrow> db_error option \<times> admin_db" where
  "EnsureRootOperator pg X who secret db =
     (if length (te_masterKey X) \<noteq> KeySize then (Some TxFailed, db)
      else if \<exists>o' \<in> set (ad_operators db). op_principal o' = who then (None, db)
      else case te_encrypt X secret of
        Inl _ \<Rightarrow> (Some TxFailed, db)
      | Inr enc \<Rightarrow>
          if \<not> te_begin X then (Some TxFailed, db)
          else (case bindE (InsertOperator pg who enc db) (\<lambda>e. e) (\<lambda>(opID, db1).
                  bindE (case filter (\<lambda>r. ar_code r = ''super-admin'') (ad_roles db1) of r # _ \<Rightarrow> Inr (ar_id r) | [] \<Rightarrow> Inl NoRows)
                    (\<lambda>e. e) (\<lambda>superID.
                  bindE (InsertSubjectRole opID superID ''*'' db1) (\<lambda>e. e) BumpPolicyVersion)) of
                  Inl e \<Rightarrow> (Some e, db)
                | Inr db' \<Rightarrow> if te_commit X then (None, db') else (Some TxFailed, db)))"

definition EnsureTenantAdmin ::
    "admin_pg \<Rightarrow> tx_env \<Rightarrow> int64 \<Rightarrow> string \<Rightarrow> string \<Rightarrow> admin_db \<Rightarrow> db_error option \<times> admin_db" where
  "EnsureTenantAdmin pg X tenantID who secret db =
     (if length (te_masterKey X) \<noteq> KeySize \<or> \<not> te_begin X then (Some TxFailed, db)
      else case (case filter (\<lambda>o'. op_principal o' = who) (ad_operators db) of
             o' # _ \<Rightarrow> Inr (op_id o', db)
           | [] \<Rightarrow> (case te_encrypt X secret of Inl _ \<Rightarrow> Inl TxFailed | Inr enc \<Rightarrow> InsertOperator pg who enc db)) of
        Inl e \<Rightarrow> (Some e, db)
      | Inr (opID, db1) \<Rightarrow>
          (case bindE (InsertMembership tenantID opID TierOwner db1) (\<lambda>e. e) (\<lambda>(_, db2).
                bindE (BindTenantAdminTx pg tenantID opID db2) (\<lambda>e. e) BumpPolicyVersion) of
             Inl e \<Rightarrow> (Some e, db)
           | Inr db' \<Rightarrow> if te_commit X then (None, db') else (Some TxFailed, db)))"

section \<open>Who is authorized\<close>

locale admin_casbin =
  fixes A :: "'ce admin_engine" and holds :: "'ce \<Rightarrow> string list set \<times> string list set" and lvl :: nat
  assumes load: "ae_LoadPolicy A P G ce = Inr ce' \<Longrightarrow> holds ce' = (set P, set G)"
    and loads: "\<forall>p \<in> set P. length p = 4 \<Longrightarrow> \<forall>g \<in> set G. length g = 3 \<Longrightarrow> \<exists>ce'. ae_LoadPolicy A P G ce = Inr ce'"
    and enforce: "length req = 5 \<Longrightarrow> ae_Enforce A req ce = Inr (admin_allows lvl (fst (holds ce)) (snd (holds ce)) req)"
begin

lemma loads_rows: "\<exists>ce'. ae_LoadPolicy A (LoadPolicyRows db) (LoadGroupingRows db) ce = Inr ce'"
  by (rule loads) (auto simp: LoadPolicyRows_def LoadGroupingRows_def)

definition synced :: "admin_db \<Rightarrow> 'ce admin_enforcer \<Rightarrow> bool" where
  "synced db en \<longleftrightarrow> (ad_version db = Some (en_loadedV en) \<longrightarrow> holds (en_e en) = (set (LoadPolicyRows db), set (LoadGroupingRows db)))"

lemma Enforce_current:
  assumes "synced db en" "length req = 5" "ad_version db = Some v"
  shows "fst (Enforcer_Enforce A db db req en) = Inr (admin_allows lvl (set (LoadPolicyRows db)) (set (LoadGroupingRows db)) req)"
proof (cases "v = en_loadedV en")
  case True
  with assms enforce [OF assms(2)] show ?thesis by (simp add: Enforcer_Enforce_def ReadPolicyVersion_def synced_def)
next
  case False
  obtain ce' where "ae_LoadPolicy A (LoadPolicyRows db) (LoadGroupingRows db) (en_e en) = Inr ce'" using loads_rows by blast
  with False assms(3) load [OF this] enforce [OF assms(2)] show ?thesis by (simp add: Enforcer_Enforce_def ReadPolicyVersion_def)
qed

lemma Authorize_iff:
  assumes "synced db en" "ruleTable m = Some rule" "ru_scope rule \<noteq> ScopeSelf" "domains_of db (ru_scope rule) req = Inr (dm, tdom)"
  shows "fst (AuthorizeRule A db db m who req en) = Inr who' \<longleftrightarrow> who' = who \<and> ad_version db \<noteq> None \<and>
    admin_allows lvl (set (LoadPolicyRows db)) (set (LoadGroupingRows db)) [who, dm, tdom, ru_resource rule, ru_action rule]"
proof (cases "ad_version db")
  case None
  then show ?thesis using assms by (simp add: AuthorizeRule_def Enforcer_Enforce_def ReadPolicyVersion_def)
next
  case (Some v)
  let ?req = "[who, dm, tdom, ru_resource rule, ru_action rule]"
  obtain out en' where e: "Enforcer_Enforce A db db ?req en = (out, en')" by (metis surj_pair)
  with Enforce_current [OF assms(1) _ Some, of ?req]
  have "out = Inr (admin_allows lvl (set (LoadPolicyRows db)) (set (LoadGroupingRows db)) ?req)" by simp
  with e assms Some show ?thesis by (auto simp: AuthorizeRule_def split: bool.splits)
qed

lemma Authorize_app:
  assumes "synced db en" "ruleTable m = Some rule" "ru_scope rule = ScopeApp" "rq_app req = Some a"
    and "fst (AuthorizeRule A db db m who req en) = Inr who'"
  shows "who' = who \<and> (\<exists>app. app_of db a = Some app \<and> admin_allows lvl (set (LoadPolicyRows db)) (set (LoadGroupingRows db))
      [who, show_id a, TenantDomain (aw_tenant app), ru_resource rule, ru_action rule])"
proof -
  from assms(2-5) obtain app where t: "app_of db a = Some app"
    by (auto simp: AuthorizeRule_def domains_of_def TenantDomainOf_def split: option.splits)
  with assms(3,4) have "domains_of db (ru_scope rule) req = Inr (show_id a, TenantDomain (aw_tenant app))"
    by (simp add: domains_of_def TenantDomainOf_def DomainOfAppID_def)
  with t show ?thesis using Authorize_iff [OF assms(1,2)] assms(3,5) by simp
qed

end

lemma link_case: "(case g of [a, b, d] \<Rightarrow> Q a b d | _ \<Rightarrow> False) \<longleftrightarrow> (\<exists>a b d. g = [a, b, d] \<and> Q a b d)"
  by (auto split: list.splits)

lemma role_link_first: "role_link lvl G d u r \<Longrightarrow> u = r \<or> (\<exists>b. [u, b, d] \<in> G)"
  by (cases lvl) (auto simp: link_case)

lemma admin_allows_needs:
  assumes "admin_allows lvl P G [who, dm, tdom, res, act]"
  shows "(\<exists>p \<in> P. hd p = who) \<or> (\<exists>b d. [who, b, d] \<in> G \<and> d \<in> {dm, tdom, ''*''})"
proof -
  obtain p where p: "p \<in> P" "admin_matches lvl G [who, dm, tdom, res, act] p" using assms by (auto simp: admin_allows_def)
  from p(2) obtain psub rest where "p = psub # rest"
      "role_link lvl G dm who psub \<or> role_link lvl G tdom who psub \<or> role_link lvl G ''*'' who psub"
    by (auto simp: admin_matches_def split: list.splits)
  with p(1) role_link_first [of lvl G _ who psub] show ?thesis by fastforce
qed

definition bound_in :: "admin_db \<Rightarrow> string \<Rightarrow> string set \<Rightarrow> bool" where
  "bound_in db who doms \<longleftrightarrow> (\<exists>s \<in> set (ad_subjects db). \<exists>o' \<in> set (ad_operators db).
     op_id o' = sr_operator s \<and> op_principal o' = who \<and> sr_domain s \<in> doms)"

lemma LoadGroupingRows_bound: "[who, b, d] \<in> set (LoadGroupingRows db) \<Longrightarrow> d \<in> D \<Longrightarrow> bound_in db who D"
  by (auto simp: LoadGroupingRows_def bound_in_def)

lemma LoadPolicyRows_code: "p \<in> set (LoadPolicyRows db) \<Longrightarrow> hd p \<in> ar_code ` set (ad_roles db)"
  by (auto simp: LoadPolicyRows_def)

lemma allows_bound:
  assumes "admin_allows lvl (set (LoadPolicyRows db)) (set (LoadGroupingRows db)) [who, dm, tdom, res, act]"
  shows "bound_in db who {dm, tdom, ''*''} \<or> who \<in> ar_code ` set (ad_roles db)"
  using admin_allows_needs [OF assms] LoadGroupingRows_bound [of who _ _ db "{dm, tdom, ''*''}"] LoadPolicyRows_code by blast

text \<open>
  C20. A call on an application is authorized only for an operator who is bound to a role in that
  application, in its tenant or everywhere, or whose name is the code of a role; tenants are isolated
  from each other up to that exception.
\<close>

theorem authorized_only_in_tenant:
  assumes "admin_casbin A holds lvl"
    and "ad_version db = Some (en_loadedV en) \<Longrightarrow> holds (en_e en) = (set (LoadPolicyRows db), set (LoadGroupingRows db))"
    and "ruleTable m = Some rule" and "ru_scope rule = ScopeApp"
    and "rq_app req = Some a" and "fst (AuthorizeRule A db db m who req en) = Inr who'"
  shows "who' = who \<and> (\<exists>app. app_of db a = Some app \<and>
    (bound_in db who {show_id a, TenantDomain (aw_tenant app), ''*''} \<or> who \<in> ar_code ` set (ad_roles db)))"
proof -
  have "admin_casbin.synced holds db en" using assms(1,2) by (simp add: admin_casbin.synced_def)
  from admin_casbin.Authorize_app [OF assms(1) this assms(3-6)] allows_bound show ?thesis by blast
qed

section \<open>Registrations\<close>

lemma bindE_Ok: "bindE r err f = Inr y \<longleftrightarrow> (\<exists>x. r = Inr x \<and> f x = Inr y)"
  by (cases r) (simp_all add: bindE_def)

text \<open>Statements that only add rows, and leave the version alone.\<close>

definition extends_rows :: "admin_db \<Rightarrow> admin_db \<Rightarrow> bool" where
  "extends_rows db db' \<longleftrightarrow> set (ad_roles db) \<subseteq> set (ad_roles db') \<and> set (ad_grants db) \<subseteq> set (ad_grants db') \<and>
     set (ad_operators db) \<subseteq> set (ad_operators db') \<and> set (ad_subjects db) \<subseteq> set (ad_subjects db') \<and> ad_version db' = ad_version db"

lemma extends_trans: "extends_rows a b \<Longrightarrow> extends_rows b c \<Longrightarrow> extends_rows a c"
  by (auto simp: extends_rows_def)

lemma extends_statements:
  "insert_tenant pg n db = Inr (i, db') \<Longrightarrow> extends_rows db db'"
  "InsertOperator pg w e db = Inr (i, db') \<Longrightarrow> extends_rows db db'"
  "InsertMembership t i k db = Inr (b, db') \<Longrightarrow> extends_rows db db'"
  "Admin_InsertRole pg cd n db = Inr (i, db') \<Longrightarrow> extends_rows db db'"
  "InsertRoleGrant r d x y db = Inr db' \<Longrightarrow> extends_rows db db'"
  "InsertSubjectRole i r d db = Inr db' \<Longrightarrow> extends_rows db db'"
  "insert_subscription pg t db = Inr db' \<Longrightarrow> extends_rows db db'"
  "EnsureOperator pg w e db = Inr (ib, db') \<Longrightarrow> extends_rows db db'"
  by (auto simp: extends_rows_def insert_tenant_def InsertOperator_def InsertMembership_def Admin_InsertRole_def
      InsertRoleGrant_def InsertSubjectRole_def insert_subscription_def EnsureOperator_def Let_def
      split: if_splits list.splits sum.splits prod.splits)

lemma extends_bind: "BindTenantAdminTx pg t i db = Inr db' \<Longrightarrow> extends_rows db db'"
  by (auto simp: BindTenantAdminTx_def split: list.splits sum.splits
      dest!: extends_statements(4,5,6)) (meson extends_trans)+

lemma register_extends:
  assumes "RegisterTenant pg X n owner db = (Inr (t, secret), db')"
  shows "\<exists>db1 v. extends_rows db db1 \<and> ad_version db = Some v \<and> ad_version db' = Some (v + 1) \<and>
    ad_roles db' = ad_roles db1 \<and> ad_grants db' = ad_grants db1 \<and> ad_operators db' = ad_operators db1 \<and> ad_subjects db' = ad_subjects db1"
proof -
  obtain enc where "register_tx pg n owner enc db = Inr (t, db')"
    using assms by (auto simp: RegisterTenant_def split: if_splits option.splits sum.splits)
  then obtain db1 db2 db3 db4 db5 db6 opID b ver where
    st: "insert_tenant pg n db = Inr (t, db1)" "InsertOperator pg owner enc db1 = Inr (opID, db2)"
      "InsertMembership t opID TierOwner db2 = Inr (b, db3)" "BindTenantAdminTx pg t opID db3 = Inr db4"
      "insert_subscription pg t db4 = Inr db5" "BumpPolicyVersion db5 = Inr db6"
      "db' = InsertAdminAudit (Some t) owner ''register'' ''tenant'' (show_id t) (Some ver) db6"
    by (auto simp: register_tx_def bindE_Ok)
  have "extends_rows db db5"
    using extends_statements(1) [OF st(1)] extends_statements(2) [OF st(2)] extends_statements(3) [OF st(3)]
      extends_bind [OF st(4)] extends_statements(7) [OF st(5)] by (meson extends_trans)
  moreover obtain v where "ad_version db5 = Some v" "db6 = db5\<lparr>ad_version := Some (v + 1)\<rparr>"
    using st(6) by (auto simp: BumpPolicyVersion_def split: option.splits)
  ultimately show ?thesis using st(7) by (intro exI [of _ db5] exI [of _ v]) (auto simp: InsertAdminAudit_def extends_rows_def)
qed

lemma LoadPolicyRows_I:
  assumes "\<lparr>ar_id = i, ar_code = cd, ar_name = n\<rparr> \<in> set (ad_roles db)"
    and "\<lparr>ag_role = i, ag_domain = d, ag_resource = r, ag_action = a\<rparr> \<in> set (ad_grants db)"
  shows "[cd, d, r, a] \<in> set (LoadPolicyRows db)"
proof -
  have pick: "x \<in> set xs \<Longrightarrow> P x \<Longrightarrow> f x \<in> set (map f (filter P xs))" for x :: admin_role_row and xs P and f :: "_ \<Rightarrow> string list"
    by simp
  have join: "g \<in> set gs \<Longrightarrow> y \<in> set (h g) \<Longrightarrow> y \<in> set (concat (map h gs))" for g :: admin_grant_row and gs y and h :: "_ \<Rightarrow> string list list"
    by (simp only: set_concat set_map) blast
  show ?thesis
    unfolding LoadPolicyRows_def
    using join [OF assms(2), of _ "\<lambda>g. map (\<lambda>r. [ar_code r, ag_domain g, ag_resource g, ag_action g]) (filter (\<lambda>r. ar_id r = ag_role g) (ad_roles db))"]
      pick [OF assms(1), of "\<lambda>r. ar_id r = i" "\<lambda>r'. [ar_code r', d, r, a]"]
    by simp
qed

lemma role_link_refl: "role_link lvl G d u u"
  by (cases lvl) simp_all

text \<open>
  C25. Anyone can become a platform administrator: a registration needs no credentials and may choose
  the principal \<^verbatim>\<open>super-admin\<close>, which is the code of the built-in role; the model's \<^verbatim>\<open>g\<close> holds between a name
  and itself, so the new owner is authorized for every call, in every tenant.
\<close>

theorem registered_owner_may_be_super_admin:
  assumes "admin_casbin A holds lvl"
    and "\<lparr>ar_id = i, ar_code = ''super-admin'', ar_name = name\<rparr> \<in> set (ad_roles db)"
    and "\<lparr>ag_role = i, ag_domain = ''*'', ag_resource = ''*'', ag_action = ''*''\<rparr> \<in> set (ad_grants db)"
    and "RegisterTenant pg X tenant ''super-admin'' db = (Inr (t, secret), db')"
    and "ad_version db = Some (en_loadedV en)"
    and "ruleTable m = Some rule" and "ru_scope rule \<noteq> ScopeSelf" and "domains_of db' (ru_scope rule) req = Inr (dm, tdom)"
  shows "fst (AuthorizeRule A db' db' m ''super-admin'' req en) = Inr ''super-admin''"
proof -
  obtain db1 where ext: "extends_rows db db1" "ad_version db' = Some (en_loadedV en + 1)"
      "ad_roles db' = ad_roles db1" "ad_grants db' = ad_grants db1"
    using register_extends [OF assms(4)] assms(5) by auto
  then have synced: "admin_casbin.synced holds db' en" by (simp add: admin_casbin.synced_def [OF assms(1)])
  have "[''super-admin'', ''*'', ''*'', ''*''] \<in> set (LoadPolicyRows db')"
    by (rule LoadPolicyRows_I) (use assms(2,3) ext in \<open>auto simp: extends_rows_def\<close>)
  then have "admin_allows lvl (set (LoadPolicyRows db')) (set (LoadGroupingRows db'))
      [''super-admin'', dm, tdom, ru_resource rule, ru_action rule]"
    unfolding admin_allows_def by (rule bexI [rotated]) (simp add: admin_matches_def role_link_refl)
  with admin_casbin.Authorize_iff [OF assms(1) synced assms(6,7,8)] ext(2) show ?thesis by simp
qed

section \<open>Further facts\<close>

text \<open>
  A new enforcer loads the rows first and reads the version afterwards: a write between the two is
  taken for loaded, and the enforcer goes on deciding by the old rows until the next write.
\<close>

theorem new_enforcer_may_miss_a_write:
  assumes "admin_casbin A holds lvl" "NewEnforcer A ce db db' = Inr en" "RegisterTenant pg X n owner db = (Inr (t, secret), db')"
  shows "ad_version db' = Some (en_loadedV en) \<and> holds (en_e en) = (set (LoadPolicyRows db), set (LoadGroupingRows db))"
  using assms(2) admin_casbin.load [OF assms(1)]
  by (auto simp: NewEnforcer_def ReadPolicyVersion_def split: sum.splits option.splits)

text \<open>An invitation never takes a tenant over its limit of members.\<close>

lemma count_members_other:
  "EnsureOperator pg w e db = Inr (ib, db') \<Longrightarrow> CountMembers db' t = CountMembers db t"
  "BindTenantAdminTx pg t' i db = Inr db' \<Longrightarrow> CountMembers db' t = CountMembers db t"
  by (auto simp: CountMembers_def EnsureOperator_def InsertOperator_def BindTenantAdminTx_def Admin_InsertRole_def
      InsertRoleGrant_def InsertSubjectRole_def Let_def split: if_splits list.splits sum.splits prod.splits)

lemma invitation_within_quota:
  assumes "InviteMember pg X operator t who db = (Inr (i, s), db')"
  shows "\<exists>apps limit. TenantPlanLimits db t = Inr (apps, limit) \<and> int (CountMembers db' t) \<le> limit \<and> CountMembers db' t = Suc (CountMembers db t)"
proof -
  obtain enc created where "invite_tx pg operator t who enc db = Inr ((i, created), db')"
    using assms by (auto simp: InviteMember_def split: if_splits option.splits sum.splits)
  then obtain apps limit db1 db2 db3 db4 ver where
    st: "TenantPlanLimits db t = Inr (apps, limit)" "EnsureOperator pg who enc db = Inr ((i, created), db1)"
      "InsertMembership t i TierAdmin db1 = Inr (True, db2)" "\<not> int (CountMembers db1 t) \<ge> limit"
      "BindTenantAdminTx pg t i db2 = Inr db3" "BumpPolicyVersion db3 = Inr db4"
      "db' = InsertAdminAudit (Some t) operator ''invite'' ''membership'' (show_id i) (Some ver) db4"
    by (auto simp: invite_tx_def bindE_Ok split: if_splits)
  have "CountMembers db2 t = Suc (CountMembers db1 t)"
    using st(3) by (auto simp: InsertMembership_def CountMembers_def split: if_splits)
  moreover have "CountMembers db' t = CountMembers db3 t"
    using st(6,7) by (auto simp: BumpPolicyVersion_def InsertAdminAudit_def CountMembers_def split: option.splits)
  ultimately show ?thesis using st(1,4) count_members_other(1) [OF st(2)] count_members_other(2) [OF st(5)] by auto
qed

section \<open>An engine that runs the model\<close>

definition ref_engine :: "(string list list \<times> string list list) admin_engine" where
  "ref_engine = \<lparr>ae_LoadPolicy = (\<lambda>P G ce. Inr (P, G)), ae_Enforce = (\<lambda>req (P, G). Inr (admin_allows 10 (set P) (set G) req))\<rparr>"

definition ref_holds :: "string list list \<times> string list list \<Rightarrow> string list set \<times> string list set" where
  "ref_holds ce = (set (fst ce), set (snd ce))"

interpretation ref_admin: admin_casbin ref_engine ref_holds 10
  by unfold_locales (auto simp: ref_engine_def ref_holds_def split: prod.splits)

definition demo_apg :: admin_pg where
  "demo_apg = \<lparr>apg_id = (\<lambda>db. of_nat (2 + length (ad_tenants db) + length (ad_operators db) + length (ad_roles db))), apg_now = \<lparr>gt_year = 2026, gt_month = 1, gt_day = 31, gt_nano = 0\<rparr>\<rparr>"

definition demo_tx :: tx_env where
  "demo_tx = \<lparr>te_masterKey = replicate 32 CHR ''k'', te_secret = Some ''s'', te_encrypt = Inr, te_lower = (\<lambda>s. s), te_begin = True, te_commit = True\<rparr>"

definition seed_db :: admin_db where
  "seed_db = \<lparr>ad_operators = [], ad_roles = [\<lparr>ar_id = 1, ar_code = ''super-admin'', ar_name = []\<rparr>],
     ad_grants = [\<lparr>ag_role = 1, ag_domain = ''*'', ag_resource = ''*'', ag_action = ''*''\<rparr>], ad_subjects = [], ad_memberships = [],
     ad_tenants = [], ad_plans = [\<lparr>pl_id = 1, pl_name = ''free'', pl_max_applications = 3, pl_max_members = 3, pl_price_cents = 0, pl_currency = ''CNY'', pl_billing_period = ''month''\<rparr>],
     ad_subscriptions = [], ad_apps = [\<lparr>aw_id = 5, aw_tenant = 3, aw_domain = ''acme'', aw_name = ''shop'', aw_app_key = ''AK'',
       aw_secret = [], aw_status = 1, aw_version = 0\<rparr>], ad_audit = [], ad_version = Some 0\<rparr>"

definition alice_db :: admin_db where
  "alice_db = snd (RegisterTenant demo_apg demo_tx ''acme'' ''alice'' seed_db)"

definition seed_en :: "(string list list \<times> string list list) admin_enforcer" where
  "seed_en = \<lparr>en_e = (LoadPolicyRows seed_db, LoadGroupingRows seed_db), en_loadedV = 0\<rparr>"

definition create_role_rule :: rpc_rule where
  "create_role_rule = \<lparr>ru_resource = ''role'', ru_action = ''create'', ru_isWrite = True, ru_scope = ScopeApp\<rparr>"

lemma create_role_rule: "ruleTable (service @ ''CreateRole'') = Some create_role_rule"
  by code_simp

lemma alice_may_create:
  "fst (AuthorizeRule ref_engine alice_db alice_db (service @ ''CreateRole'') ''alice'' \<lparr>rq_app = Some 5, rq_tenant = None\<rparr> seed_en) = Inr ''alice''"
  "CheckStatusWrite alice_db (service @ ''CreateRole'') \<lparr>rq_app = Some 5, rq_tenant = None\<rparr> = None" "ad_version alice_db = Some 1"
  by code_simp+

theorem authorized_only_in_tenant_witness:
  "fst (AuthorizeRule ref_engine alice_db alice_db (service @ ''CreateRole'') ''alice'' \<lparr>rq_app = Some 5, rq_tenant = None\<rparr> seed_en) = Inr ''alice'' \<and>
   (\<exists>app. app_of alice_db 5 = Some app \<and>
     (bound_in alice_db ''alice'' {show_id 5, TenantDomain (aw_tenant app), ''*''} \<or> ''alice'' \<in> ar_code ` set (ad_roles alice_db)))"
proof -
  have "ad_version alice_db \<noteq> Some (en_loadedV seed_en)" using alice_may_create(3) by (simp add: seed_en_def)
  then show ?thesis
    using authorized_only_in_tenant [OF ref_admin.admin_casbin_axioms, of alice_db seed_en "service @ ''CreateRole''" create_role_rule
        "\<lparr>rq_app = Some 5, rq_tenant = None\<rparr>" 5 "''alice''" "''alice''"] create_role_rule alice_may_create(1)
    by (simp add: create_role_rule_def)
qed

theorem registered_owner_may_be_super_admin_witness:
  "fst (AuthorizeRule ref_engine (snd (RegisterTenant demo_apg demo_tx ''evil'' ''super-admin'' seed_db))
     (snd (RegisterTenant demo_apg demo_tx ''evil'' ''super-admin'' seed_db)) (service @ ''CreateOperator'') ''super-admin''
     \<lparr>rq_app = None, rq_tenant = None\<rparr> seed_en) = Inr ''super-admin''"
proof -
  let ?db = "snd (RegisterTenant demo_apg demo_tx ''evil'' ''super-admin'' seed_db)"
  have "fst (RegisterTenant demo_apg demo_tx ''evil'' ''super-admin'' seed_db) = Inr (3, ''73'')" by code_simp
  then have reg: "RegisterTenant demo_apg demo_tx ''evil'' ''super-admin'' seed_db = (Inr (3, ''73''), ?db)" by (metis prod.collapse)
  have rule: "ruleTable (service @ ''CreateOperator'') =
      Some \<lparr>ru_resource = ''admin'', ru_action = ''create'', ru_isWrite = False, ru_scope = ScopeSystem\<rparr>" by code_simp
  show ?thesis
    by (rule registered_owner_may_be_super_admin [OF ref_admin.admin_casbin_axioms _ _ reg _ rule])
      (simp_all add: seed_db_def seed_en_def domains_of_def)
qed
end
