(* ===== verification/Iac.thy ===== *)
theory Iac
  imports Condition
begin

text \<open>
  Policy as code (\<^verbatim>\<open>internal/controlplane/iac\<close>: \<^verbatim>\<open>doc.go\<close>, \<^verbatim>\<open>parse.go\<close>, \<^verbatim>\<open>diff.go\<close>): the document an operator
  writes, its validation, and the plan that leads from the current state of an application to the
  document. The plan may only touch what an earlier import made or what an operator made by hand and the
  document claims; it is empty exactly when there is nothing left to do. Reading the document from YAML is
  the YAML library's work and is not modelled; a condition is the JSON text that library yields.
\<close>


section \<open>The document\<close>

text \<open>A condition is the canonical JSON text it holds; the empty text is no condition.\<close>

type_synonym cond_text = string

record iac_permission =
  ip_Code :: string
  ip_Resource :: string
  ip_Action :: string
  ip_Type :: string
  ip_Name :: string
  ip_Description :: string
  ip_Source :: string

record data_scope =
  sc_Resource :: string
  sc_Effect :: string
  sc_Condition :: cond_text

record iac_role =
  ir_Key :: string
  ir_Name :: string
  ir_Description :: string
  ir_PermissionCodes :: "string list"
  ir_DataScopes :: "data_scope list"
  ir_Source :: string

record iac_data_policy =
  id_SubjectType :: string
  id_SubjectID :: string
  id_Resource :: string
  id_Effect :: string
  id_Condition :: cond_text
  id_Source :: string

record document =
  dc_APIVersion :: string
  dc_App :: "string option"
  dc_Permissions :: "iac_permission list"
  dc_Roles :: "iac_role list"
  dc_DataPolicies :: "iac_data_policy list"

definition APIVersion :: string where
  "APIVersion = ''sydom.policy/v1''"

section \<open>Validation\<close>

text \<open>
  \<^verbatim>\<open>strings.TrimSpace\<close> drops Unicode white space at both ends; \<open>space_runes\<close> are the UTF-8 encodings
  of the runes it drops.
\<close>

definition utf8 :: "nat list \<Rightarrow> string" where
  "utf8 bs = map char_of bs"

definition space_runes :: "string list" where
  "space_runes = map utf8
     ([[9], [10], [11], [12], [13], [32], [0xC2, 0x85], [0xC2, 0xA0], [0xE1, 0x9A, 0x80]] @
      map (\<lambda>b. [0xE2, 0x80, b]) ([0x80..<0x8B] @ [0xA8, 0xA9, 0xAF]) @ [[0xE2, 0x81, 0x9F], [0xE3, 0x80, 0x80]])"

lemma space_runes_code [code]:
  "space_runes =
    [[CHR 0x09], [CHR 0x0A], [CHR 0x0B], [CHR 0x0C], [CHR 0x0D], [CHR 0x20], [CHR 0xC2, CHR 0x85], 
     [CHR 0xC2, CHR 0xA0], [CHR 0xE1, CHR 0x9A, CHR 0x80], [CHR 0xE2, CHR 0x80, CHR 0x80], 
     [CHR 0xE2, CHR 0x80, CHR 0x81], [CHR 0xE2, CHR 0x80, CHR 0x82], [CHR 0xE2, CHR 0x80, CHR 0x83], 
     [CHR 0xE2, CHR 0x80, CHR 0x84], [CHR 0xE2, CHR 0x80, CHR 0x85], [CHR 0xE2, CHR 0x80, CHR 0x86], 
     [CHR 0xE2, CHR 0x80, CHR 0x87], [CHR 0xE2, CHR 0x80, CHR 0x88], [CHR 0xE2, CHR 0x80, CHR 0x89], 
     [CHR 0xE2, CHR 0x80, CHR 0x8A], [CHR 0xE2, CHR 0x80, CHR 0xA8], [CHR 0xE2, CHR 0x80, CHR 0xA9], 
     [CHR 0xE2, CHR 0x80, CHR 0xAF], [CHR 0xE2, CHR 0x81, CHR 0x9F], [CHR 0xE3, CHR 0x80, CHR 0x80]]"
  by (simp add: space_runes_def utf8_def upt_rec char_of_def bit_0)

lemma space_runes_nonempty: "r \<in> set space_runes \<Longrightarrow> r \<noteq> []"
  by (auto simp: space_runes_def utf8_def)

function trim_left :: "string list \<Rightarrow> string \<Rightarrow> string" where
  "trim_left rs s =
     (case filter (\<lambda>r. r \<noteq> [] \<and> take (length r) s = r) rs of
        [] \<Rightarrow> s
      | r # _ \<Rightarrow> trim_left rs (drop (length r) s))"
  by pat_completeness auto
termination
proof (relation "measure (\<lambda>(rs, s). length s)", goal_cases)
  case 1
  then show ?case by simp
next
  case (2 rs s r ys)
  have "r \<in> set (filter (\<lambda>r. r \<noteq> [] \<and> take (length r) s = r) rs)" unfolding 2 by simp
  then have "r \<noteq> []" "s \<noteq> []" by auto
  then show ?case by simp
qed

declare trim_left.simps [simp del]

definition TrimSpace :: "string \<Rightarrow> string" where
  "TrimSpace s = rev (trim_left (map rev space_runes) (rev (trim_left space_runes s)))"

definition blank :: "string \<Rightarrow> bool" where
  "blank s \<longleftrightarrow> TrimSpace s = []"

datatype iac_error =
    UnsupportedApiVersion | PermissionCodeEmpty | DuplicatePermission | PermissionFieldMissing
  | RoleKeyEmpty | RoleKeyColon | DuplicateRole | RoleNameMissing | UndeclaredPermission
  | ScopeResourceMissing | ConditionEmpty | ConditionNotJson | ConditionNull | InvalidEffect
  | PolicyFieldMissing | DuplicatePolicy

definition validCondition :: "cond_text \<Rightarrow> iac_error option" where
  "validCondition c =
     (let raw = TrimSpace c
      in if raw = [] then Some ConditionEmpty
         else if parse_json raw = None then Some ConditionNotJson
         else if raw = ''null'' then Some ConditionNull
         else None)"

definition validEffect :: "string \<Rightarrow> iac_error option" where
  "validEffect e = (if e \<noteq> ''allow'' \<and> e \<noteq> ''deny'' then Some InvalidEffect else None)"

text \<open>The loops return the set of codes, keys or identities seen so far, or the first error.\<close>

fun validate_permissions :: "iac_permission list \<Rightarrow> string list \<Rightarrow> (iac_error, string list) res" where
  "validate_permissions [] seen = Inr seen"
| "validate_permissions (p # ps) seen =
     (if blank (ip_Code p) then Inl PermissionCodeEmpty
      else if ip_Code p \<in> set seen then Inl DuplicatePermission
      else if blank (ip_Resource p) \<or> blank (ip_Action p) \<or> blank (ip_Type p) \<or> blank (ip_Name p)
      then Inl PermissionFieldMissing
      else validate_permissions ps (ip_Code p # seen))"

fun validate_scopes :: "data_scope list \<Rightarrow> iac_error option" where
  "validate_scopes [] = None"
| "validate_scopes (ds # dss) =
     (if blank (sc_Resource ds) then Some ScopeResourceMissing
      else case validCondition (sc_Condition ds) of
             Some e \<Rightarrow> Some e
           | None \<Rightarrow> (case validEffect (sc_Effect ds) of Some e \<Rightarrow> Some e | None \<Rightarrow> validate_scopes dss))"

fun validate_roles :: "string list \<Rightarrow> iac_role list \<Rightarrow> string list \<Rightarrow> (iac_error, string list) res" where
  "validate_roles permCodes [] seen = Inr seen"
| "validate_roles permCodes (r # rs) seen =
     (if ir_Key r = [] then Inl RoleKeyEmpty
      else if CHR '':'' \<in> set (ir_Key r) then Inl RoleKeyColon
      else if ir_Key r \<in> set seen then Inl DuplicateRole
      else if blank (ir_Name r) then Inl RoleNameMissing
      else if \<not> set (ir_PermissionCodes r) \<subseteq> set permCodes then Inl UndeclaredPermission
      else case validate_scopes (ir_DataScopes r) of
             Some e \<Rightarrow> Inl e
           | None \<Rightarrow> validate_roles permCodes rs (ir_Key r # seen))"

definition dpIdentity :: "string \<Rightarrow> string \<Rightarrow> string \<Rightarrow> string" where
  "dpIdentity subjectType subjectID resource = subjectType @ '':'' @ subjectID @ '':'' @ resource"

fun validate_policies :: "iac_data_policy list \<Rightarrow> string list \<Rightarrow> (iac_error, string list) res" where
  "validate_policies [] seen = Inr seen"
| "validate_policies (dp # dps) seen =
     (if blank (id_SubjectType dp) \<or> blank (id_SubjectID dp) \<or> blank (id_Resource dp) then Inl PolicyFieldMissing
      else case validCondition (id_Condition dp) of
             Some e \<Rightarrow> Inl e
           | None \<Rightarrow>
               (case validEffect (id_Effect dp) of
                  Some e \<Rightarrow> Inl e
                | None \<Rightarrow>
                    (let i = dpIdentity (id_SubjectType dp) (id_SubjectID dp) (id_Resource dp)
                     in if i \<in> set seen then Inl DuplicatePolicy else validate_policies dps (i # seen))))"

definition Validate :: "document \<Rightarrow> iac_error option" where
  "Validate d =
     (if dc_APIVersion d \<noteq> [] \<and> dc_APIVersion d \<noteq> APIVersion then Some UnsupportedApiVersion
      else case validate_permissions (dc_Permissions d) [] of
             Inl e \<Rightarrow> Some e
           | Inr permCodes \<Rightarrow>
               (case validate_roles permCodes (dc_Roles d) [] of
                  Inl e \<Rightarrow> Some e
                | Inr _ \<Rightarrow>
                    (case validate_policies (dc_DataPolicies d) [] of Inl e \<Rightarrow> Some e | Inr _ \<Rightarrow> None)))"

section \<open>The current state\<close>

record current_role =
  cu_Key :: string
  cu_Name :: string
  cu_Description :: string
  cu_Source :: string
  cu_PermissionCodes :: "string list"
  cu_DataScopes :: "data_scope list"
  cu_HasUserBindings :: bool

record current_data_policy =
  cd_SubjectType :: string
  cd_SubjectID :: string
  cd_Resource :: string
  cd_Effect :: string
  cd_Source :: string
  cd_Condition :: string

text \<open>A current permission has the fields of a declared one.\<close>

type_synonym current_permission = iac_permission

record current =
  cr_Permissions :: "current_permission list"
  cr_Roles :: "current_role list"
  cr_DataPolicies :: "current_data_policy list"

datatype plan_kind = Create | Adopt | Update | Delete | Conflict
datatype entity_type = EPermission | ERole | EDataPolicy

record plan_item =
  pi_Kind :: plan_kind
  pi_EntityType :: entity_type
  pi_Identity :: string
  pi_Detail :: string

definition Count :: "plan_kind \<Rightarrow> plan_item list \<Rightarrow> nat" where
  "Count k items = length (filter (\<lambda>it. pi_Kind it = k) items)"

text \<open>
  \<open>renorm\<close> is the round trip of a JSON text through \<^verbatim>\<open>any\<close> (\<^verbatim>\<open>json.Unmarshal\<close>, then \<^verbatim>\<open>json.Marshal\<close>), or
  \<^const>\<open>None\<close> if it does not parse. It is a parameter because it prints floating-point numbers.
\<close>

definition ConditionFromJSON :: "(string \<Rightarrow> string option) \<Rightarrow> string \<Rightarrow> cond_text" where
  "ConditionFromJSON renorm b =
     (if TrimSpace b = [] then [] else case renorm b of None \<Rightarrow> b | Some nb \<Rightarrow> nb)"

section \<open>Comparing entities\<close>

definition msg_delete :: string where
  "msg_delete = utf8 [229, 136, 160, 233, 153, 164]"

definition msg_adopt :: string where
  "msg_adopt = utf8 [231, 186, 179, 229, 133, 165] @
     '' IaC '' @
     utf8 [230, 137, 152, 231, 174, 161] @
     ''(manual'' @
     utf8 [226, 134, 146] @
     ''iac)''"

definition msg_create :: string where
  "msg_create = utf8 [230, 150, 176, 229, 187, 186]"

definition msg_create_role :: string where
  "msg_create_role = utf8 [230, 150, 176, 229, 187, 186] @
     '': ''"

definition msg_bound :: string where
  "msg_bound = utf8 [228, 187, 141, 230, 156, 137, 231, 148, 168, 230, 136, 183, 231, 187, 145, 229, 174, 154, 239, 188, 140, 233, 156, 128, 229, 133, 136, 232, 167, 163, 231, 187, 145]"

definition msg_file_dup :: string where
  "msg_file_dup = utf8 [230, 150, 135, 228, 187, 182, 228, 184, 173, 230, 149, 176, 230, 141, 174, 231, 173, 150, 231, 149, 165, 232, 186, 171, 228, 187, 189, 228, 184, 141, 229, 148, 175, 228, 184, 128, 239, 188, 140, 230, 151, 160, 230, 179, 149, 229, 174, 137, 229, 133, 168, 230, 148, 182, 230, 149, 155]"

definition msg_db_dup :: string where
  "msg_db_dup = utf8 [229, 186, 147, 228, 184, 173, 230, 149, 176, 230, 141, 174, 231, 173, 150, 231, 149, 165, 232, 186, 171, 228, 187, 189, 228, 184, 141, 229, 148, 175, 228, 184, 128, 239, 188, 140, 230, 151, 160, 230, 179, 149, 229, 174, 137, 229, 133, 168, 230, 148, 182, 230, 149, 155, 239, 188, 140, 232, 175, 183, 228, 186, 186, 229, 183, 165, 229, 142, 152, 230, 184, 133]"

definition msg_arrow :: string where
  "msg_arrow = '' '' @
     utf8 [226, 134, 146] @
     '' ''"

definition msg_description :: string where
  "msg_description = ''description '' @
     utf8 [229, 143, 152, 230, 155, 180]"

definition msg_codes :: string where
  "msg_codes = utf8 [230, 142, 136, 230, 157, 131, 231, 160, 129, 233, 155, 134, 229, 143, 152, 230, 155, 180]"

definition msg_scopes :: string where
  "msg_scopes = ''data_scopes '' @
     utf8 [229, 143, 152, 230, 155, 180]"

definition msg_fields :: string where
  "msg_fields = utf8 [229, 173, 151, 230, 174, 181, 229, 143, 152, 230, 155, 180]"

definition msg_condition :: string where
  "msg_condition = ''condition '' @
     utf8 [229, 143, 152, 230, 155, 180]"

fun join :: "string \<Rightarrow> string list \<Rightarrow> string" where
  "join s [] = []"
| "join s [x] = x"
| "join s (x # y # xs) = x @ s @ join s (y # xs)"

definition permFieldsEqual :: "current_permission \<Rightarrow> iac_permission \<Rightarrow> bool" where
  "permFieldsEqual cp dp \<longleftrightarrow> ip_Resource cp = ip_Resource dp \<and> ip_Action cp = ip_Action dp \<and>
     ip_Type cp = ip_Type dp \<and> ip_Name cp = ip_Name dp \<and> ip_Description cp = ip_Description dp"

definition changed :: "string \<Rightarrow> string \<Rightarrow> string \<Rightarrow> string list" where
  "changed field a b = (if a \<noteq> b then [field @ '': '' @ a @ msg_arrow @ b] else [])"

definition permUpdateDetail :: "current_permission \<Rightarrow> iac_permission \<Rightarrow> string" where
  "permUpdateDetail cp dp = join ''; ''
     (changed ''name'' (ip_Name cp) (ip_Name dp) @ changed ''resource'' (ip_Resource cp) (ip_Resource dp) @
      changed ''action'' (ip_Action cp) (ip_Action dp) @ changed ''type'' (ip_Type cp) (ip_Type dp) @
      changed ''description'' (ip_Description cp) (ip_Description dp))"

definition dataScopeKeys :: "data_scope list \<Rightarrow> string list" where
  "dataScopeKeys scopes = map (\<lambda>ds. sc_Resource ds @ ''|'' @ sc_Effect ds @ ''|'' @ sc_Condition ds) scopes"

definition roleFieldsEqual :: "current_role \<Rightarrow> iac_role \<Rightarrow> bool" where
  "roleFieldsEqual cr dr \<longleftrightarrow>
     \<not> (cu_Name cr \<noteq> ir_Name dr \<or> cu_Description cr \<noteq> ir_Description dr) \<and>
     sort (cu_PermissionCodes cr) = sort (ir_PermissionCodes dr) \<and>
     sort (dataScopeKeys (cu_DataScopes cr)) = sort (dataScopeKeys (ir_DataScopes dr))"

definition roleUpdateDetail :: "current_role \<Rightarrow> iac_role \<Rightarrow> string" where
  "roleUpdateDetail cr dr =
     (let parts = changed ''name'' (cu_Name cr) (ir_Name dr) @
          (if cu_Description cr \<noteq> ir_Description dr then [msg_description] else []) @
          (if sort (cu_PermissionCodes cr) \<noteq> sort (ir_PermissionCodes dr) then [msg_codes] else []) @
          (if sort (dataScopeKeys (cu_DataScopes cr)) \<noteq> sort (dataScopeKeys (ir_DataScopes dr)) then [msg_scopes] else [])
      in if parts = [] then msg_fields else join ''; '' parts)"

definition dpFieldsEqual :: "(string \<Rightarrow> string option) \<Rightarrow> current_data_policy \<Rightarrow> iac_data_policy \<Rightarrow> bool" where
  "dpFieldsEqual renorm cdp dp \<longleftrightarrow>
     cd_Effect cdp = id_Effect dp \<and> ConditionFromJSON renorm (cd_Condition cdp) = id_Condition dp"

definition dpUpdateDetail :: "(string \<Rightarrow> string option) \<Rightarrow> current_data_policy \<Rightarrow> iac_data_policy \<Rightarrow> string" where
  "dpUpdateDetail renorm cdp dp =
     (let parts = changed ''effect'' (cd_Effect cdp) (id_Effect dp) @
          (if ConditionFromJSON renorm (cd_Condition cdp) \<noteq> id_Condition dp then [msg_condition] else [])
      in if parts = [] then msg_fields else join ''; '' parts)"

section \<open>The plan\<close>

text \<open>A Go map filled in a loop: the last entry of a key wins.\<close>

definition last_of :: "('a \<Rightarrow> string) \<Rightarrow> 'a list \<Rightarrow> string \<Rightarrow> 'a option" where
  "last_of k xs = map_of (map (\<lambda>x. (k x, x)) (rev xs))"

definition item :: "plan_kind \<Rightarrow> entity_type \<Rightarrow> string \<Rightarrow> string \<Rightarrow> plan_item" where
  "item k e i d = \<lparr>pi_Kind = k, pi_EntityType = e, pi_Identity = i, pi_Detail = d\<rparr>"

definition diff_permission :: "iac_permission list \<Rightarrow> current_permission \<Rightarrow> plan_item list" where
  "diff_permission desired cp =
     (if ip_Source cp = ''iac'' then
        (case last_of ip_Code desired (ip_Code cp) of
           Some dp \<Rightarrow> if permFieldsEqual cp dp then [] else [item Update EPermission (ip_Code cp) (permUpdateDetail cp dp)]
         | None \<Rightarrow> [item Delete EPermission (ip_Code cp) msg_delete])
      else if ip_Source cp = ''manual'' then
        (case last_of ip_Code desired (ip_Code cp) of
           Some _ \<Rightarrow> [item Adopt EPermission (ip_Code cp) msg_adopt]
         | None \<Rightarrow> [])
      else [])"

definition diff_permissions :: "iac_permission list \<Rightarrow> current_permission list \<Rightarrow> plan_item list" where
  "diff_permissions desired cur =
     concat (map (\<lambda>cd. case last_of ip_Code cur cd of None \<Rightarrow> [] | Some cp \<Rightarrow> diff_permission desired cp) (sort (map ip_Code cur))) @
     concat (map (\<lambda>cd. if last_of ip_Code cur cd = None then [item Create EPermission cd msg_create] else [])
       (sort (map ip_Code desired)))"

definition diff_role :: "iac_role list \<Rightarrow> current_role \<Rightarrow> plan_item list" where
  "diff_role desired cr =
     (if cu_Source cr = ''iac'' then
        (case last_of ir_Key desired (cu_Key cr) of
           Some dr \<Rightarrow> if roleFieldsEqual cr dr then [] else [item Update ERole (cu_Key cr) (roleUpdateDetail cr dr)]
         | None \<Rightarrow>
             if cu_HasUserBindings cr then [item Conflict ERole (cu_Key cr) msg_bound]
             else [item Delete ERole (cu_Key cr) msg_delete])
      else if cu_Source cr = ''manual'' then
        (case last_of ir_Key desired (cu_Key cr) of
           Some _ \<Rightarrow> [item Adopt ERole (cu_Key cr) msg_adopt]
         | None \<Rightarrow> [])
      else [])"

definition diff_roles :: "iac_role list \<Rightarrow> current_role list \<Rightarrow> plan_item list" where
  "diff_roles desired cur =
     concat (map (\<lambda>k. case last_of cu_Key cur k of None \<Rightarrow> [] | Some cr \<Rightarrow> diff_role desired cr) (sort (map cu_Key cur))) @
     concat (map (\<lambda>k. case last_of cu_Key cur k of
         Some _ \<Rightarrow> []
       | None \<Rightarrow> [item Create ERole k (msg_create_role @ (case last_of ir_Key desired k of None \<Rightarrow> [] | Some dr \<Rightarrow> ir_Name dr))])
       (sort (map ir_Key desired)))"

definition desired_id :: "iac_data_policy \<Rightarrow> string" where
  "desired_id dp = dpIdentity (id_SubjectType dp) (id_SubjectID dp) (id_Resource dp)"

definition current_id :: "current_data_policy \<Rightarrow> string" where
  "current_id cdp = dpIdentity (cd_SubjectType cdp) (cd_SubjectID cdp) (cd_Resource cdp)"

definition diff_data_policy ::
    "(string \<Rightarrow> string option) \<Rightarrow> iac_data_policy list \<Rightarrow> current_data_policy list \<Rightarrow> string \<Rightarrow> plan_item list" where
  "diff_data_policy renorm desired cur i =
     (let desiredRows = filter (\<lambda>dp. desired_id dp = i) desired;
          curRows = filter (\<lambda>cdp. current_id cdp = i) cur
      in if length desiredRows > 1 then [item Conflict EDataPolicy i msg_file_dup]
         else if length curRows > 1 then
           (if desiredRows \<noteq> [] \<or> list_ex (\<lambda>cdp. cd_Source cdp = ''iac'') curRows
            then [item Conflict EDataPolicy i msg_db_dup] else [])
         else case (curRows, desiredRows) of
           (cdp # _, ds) \<Rightarrow>
             if cd_Source cdp = ''iac'' then
               (case ds of
                  dp # _ \<Rightarrow> if dpFieldsEqual renorm cdp dp then [] else [item Update EDataPolicy i (dpUpdateDetail renorm cdp dp)]
                | [] \<Rightarrow> [item Delete EDataPolicy i msg_delete])
             else if cd_Source cdp = ''manual'' then (if ds \<noteq> [] then [item Adopt EDataPolicy i msg_adopt] else [])
             else []
         | ([], dp # _) \<Rightarrow> [item Create EDataPolicy i msg_create]
         | ([], []) \<Rightarrow> [])"

definition diff_data_policies ::
    "(string \<Rightarrow> string option) \<Rightarrow> iac_data_policy list \<Rightarrow> current_data_policy list \<Rightarrow> plan_item list" where
  "diff_data_policies renorm desired cur =
     concat (map (diff_data_policy renorm desired cur) (sort (remdups (map desired_id desired @ map current_id cur))))"

definition iac_Diff :: "(string \<Rightarrow> string option) \<Rightarrow> document \<Rightarrow> current \<Rightarrow> plan_item list" where
  "iac_Diff renorm desired cur =
     diff_permissions (dc_Permissions desired) (cr_Permissions cur) @
     diff_roles (dc_Roles desired) (cr_Roles cur) @
     diff_data_policies renorm (dc_DataPolicies desired) (cr_DataPolicies cur)"

section \<open>What a plan may touch\<close>

lemma item_simps [simp]:
  "pi_Kind (item k e i d) = k" "pi_EntityType (item k e i d) = e" "pi_Identity (item k e i d) = i"
  by (simp_all add: item_def)

lemma last_of_Some: "last_of k xs key = Some x \<Longrightarrow> x \<in> set xs \<and> k x = key"
  by (auto simp: last_of_def dest!: map_of_SomeD)

lemma last_of_None: "last_of k xs key = None \<longleftrightarrow> key \<notin> k ` set xs"
  by (simp add: last_of_def map_of_eq_None_iff image_image)

lemma last_of_distinct:
  assumes "distinct (map k xs)" "x \<in> set xs"
  shows "last_of k xs (k x) = Some x"
proof -
  have "distinct (map fst (map (\<lambda>x. (k x, x)) (rev xs)))" using assms(1) by (simp add: comp_def distinct_map)
  moreover have "(k x, x) \<in> set (map (\<lambda>x. (k x, x)) (rev xs))" using assms(2) by simp
  ultimately show ?thesis unfolding last_of_def by (rule map_of_is_SomeI)
qed

text \<open>
  An item is legitimate if it creates what does not exist, adopts a manual entity that the
  document declares, updates or deletes an entity the document governs, or reports a conflict.
\<close>

definition legit :: "('a \<Rightarrow> string) \<Rightarrow> ('a \<Rightarrow> string) \<Rightarrow> string set \<Rightarrow> 'a list \<Rightarrow> plan_kind \<Rightarrow> string \<Rightarrow> bool" where
  "legit key source declared cur k i =
     (case k of
        Create \<Rightarrow> i \<in> declared \<and> i \<notin> key ` set cur
      | Adopt \<Rightarrow> i \<in> declared \<and> (\<exists>x \<in> set cur. key x = i \<and> source x = ''manual'')
      | Update \<Rightarrow> i \<in> declared \<and> (\<exists>x \<in> set cur. key x = i \<and> source x = ''iac'')
      | Delete \<Rightarrow> i \<notin> declared \<and> (\<exists>x \<in> set cur. key x = i \<and> source x = ''iac'')
      | Conflict \<Rightarrow> i \<in> declared \<or> (\<exists>x \<in> set cur. key x = i \<and> source x = ''iac''))"

lemma diff_permission_legit:
  assumes "it \<in> set (diff_permission desired cp)" "cp \<in> set cur"
  shows "pi_EntityType it = EPermission \<and> pi_Kind it \<noteq> Conflict \<and>
    legit ip_Code ip_Source (ip_Code ` set desired) cur (pi_Kind it) (pi_Identity it)"
proof (cases "last_of ip_Code desired (ip_Code cp)")
  case None
  then have "ip_Code cp \<notin> ip_Code ` set desired" by (simp add: last_of_None)
  moreover have "ip_Source cp = ''iac'' \<and> it = item Delete EPermission (ip_Code cp) msg_delete"
    using assms(1) unfolding diff_permission_def None by (cases "ip_Source cp = ''iac''"; cases "ip_Source cp = ''manual''") simp_all
  ultimately show ?thesis using assms(2) by (auto simp: legit_def)
next
  case (Some dp)
  then have "ip_Code cp \<in> ip_Code ` set desired" using last_of_None by (metis option.discI)
  then show ?thesis
    using assms unfolding diff_permission_def Some legit_def
    by (cases "ip_Source cp = ''iac''"; cases "ip_Source cp = ''manual''"; cases "permFieldsEqual cp dp") auto
qed

lemma diff_permissions_legit:
  assumes "it \<in> set (diff_permissions desired cur)"
  shows "pi_EntityType it = EPermission \<and> pi_Kind it \<noteq> Conflict \<and>
    legit ip_Code ip_Source (ip_Code ` set desired) cur (pi_Kind it) (pi_Identity it)"
proof -
  consider cp where "cp \<in> set cur" "it \<in> set (diff_permission desired cp)"
    | cd where "cd \<in> ip_Code ` set desired" "last_of ip_Code cur cd = None" "it = item Create EPermission cd msg_create"
  proof -
    from assms consider cd where "it \<in> set (case last_of ip_Code cur cd of None \<Rightarrow> [] | Some cp \<Rightarrow> diff_permission desired cp)"
      | cd where "cd \<in> ip_Code ` set desired" "it \<in> set (if last_of ip_Code cur cd = None then [item Create EPermission cd msg_create] else [])"
      by (auto simp: diff_permissions_def)
    then show ?thesis
    proof cases
      case 1
      then show ?thesis using that(1) last_of_Some [of ip_Code cur cd] by (cases "last_of ip_Code cur cd") auto
    next
      case 2
      then show ?thesis using that(2) by (cases "last_of ip_Code cur cd") auto
    qed
  qed
  then show ?thesis
  proof cases
    case 1
    with diff_permission_legit [OF 1(2,1)] show ?thesis by simp
  qed (auto simp: legit_def last_of_None)
qed

lemma diff_role_legit:
  assumes "it \<in> set (diff_role desired cr)" "cr \<in> set cur"
  shows "pi_EntityType it = ERole \<and> legit cu_Key cu_Source (ir_Key ` set desired) cur (pi_Kind it) (pi_Identity it) \<and>
    (pi_Kind it = Delete \<longrightarrow> pi_Identity it = cu_Key cr \<and> \<not> cu_HasUserBindings cr)"
proof (cases "last_of ir_Key desired (cu_Key cr)")
  case None
  then have "cu_Key cr \<notin> ir_Key ` set desired" by (simp add: last_of_None)
  then show ?thesis
    using assms unfolding diff_role_def None legit_def
    by (cases "cu_Source cr = ''iac''"; cases "cu_Source cr = ''manual''"; cases "cu_HasUserBindings cr") auto
next
  case (Some dr)
  then have "cu_Key cr \<in> ir_Key ` set desired" using last_of_None by (metis option.discI)
  then show ?thesis
    using assms unfolding diff_role_def Some legit_def
    by (cases "cu_Source cr = ''iac''"; cases "cu_Source cr = ''manual''"; cases "roleFieldsEqual cr dr") auto
qed

lemma diff_roles_legit:
  assumes "it \<in> set (diff_roles desired cur)"
  shows "pi_EntityType it = ERole \<and> legit cu_Key cu_Source (ir_Key ` set desired) cur (pi_Kind it) (pi_Identity it) \<and>
    (pi_Kind it = Delete \<longrightarrow> (\<exists>cr \<in> set cur. cu_Key cr = pi_Identity it \<and> \<not> cu_HasUserBindings cr))"
proof -
  consider cr where "cr \<in> set cur" "it \<in> set (diff_role desired cr)"
    | k d where "k \<in> ir_Key ` set desired" "last_of cu_Key cur k = None" "it = item Create ERole k d"
  proof -
    from assms consider k where "it \<in> set (case last_of cu_Key cur k of None \<Rightarrow> [] | Some cr \<Rightarrow> diff_role desired cr)"
      | k d where "k \<in> ir_Key ` set desired" "it \<in> set (case last_of cu_Key cur k of Some _ \<Rightarrow> [] | None \<Rightarrow> [item Create ERole k d])"
      by (fastforce simp: diff_roles_def)
    then show ?thesis
    proof cases
      case 1
      then show ?thesis using that(1) last_of_Some [of cu_Key cur k] by (cases "last_of cu_Key cur k") auto
    next
      case 2
      then show ?thesis using that(2) by (cases "last_of cu_Key cur k") auto
    qed
  qed
  then show ?thesis
  proof cases
    case 1
    with diff_role_legit [OF 1(2,1)] show ?thesis by auto
  qed (auto simp: legit_def last_of_None)
qed

lemma diff_data_policy_legit:
  assumes "it \<in> set (diff_data_policy renorm desired cur i)"
  shows "pi_EntityType it = EDataPolicy \<and> pi_Identity it = i \<and>
    legit current_id cd_Source (desired_id ` set desired) cur (pi_Kind it) i \<and>
    (pi_Kind it \<in> {Adopt, Update, Delete} \<longrightarrow> (\<exists>!cdp. cdp \<in> set cur \<and> current_id cdp = i))"
proof -
  let ?D = "filter (\<lambda>dp. desired_id dp = i) desired" and ?C = "filter (\<lambda>cdp. current_id cdp = i) cur"
  have D: "i \<in> desired_id ` set desired \<longleftrightarrow> ?D \<noteq> []" by (auto simp: filter_empty_conv)
  have C: "cdp \<in> set cur \<and> current_id cdp = i \<longleftrightarrow> cdp \<in> set ?C" for cdp by auto
  have Cnone: "i \<notin> current_id ` set cur \<longleftrightarrow> ?C = []" by (auto simp: filter_empty_conv)
  have src: "(\<exists>x \<in> set cur. current_id x = i \<and> cd_Source x = s) \<longleftrightarrow> (\<exists>x \<in> set ?C. cd_Source x = s)" for s by auto
  show ?thesis
  proof (cases "length ?D > 1 \<or> length ?C > 1")
    case True
    then show ?thesis
      using assms unfolding D C Cnone src legit_def
      by (auto simp: diff_data_policy_def Let_def list_ex_iff split: if_splits)
  next
    case False
    then obtain "length ?D \<le> 1" "length ?C \<le> 1" by simp
    then consider "?C = []" | cdp where "?C = [cdp]" by (cases ?C) auto
    then show ?thesis
      using False assms unfolding D C Cnone src legit_def
      by cases (auto simp: diff_data_policy_def Let_def split: if_splits list.splits)
  qed
qed


definition legit_item :: "document \<Rightarrow> current \<Rightarrow> plan_item \<Rightarrow> bool" where
  "legit_item d cur it =
     (case pi_EntityType it of
        EPermission \<Rightarrow> pi_Kind it \<noteq> Conflict \<and>
          legit ip_Code ip_Source (ip_Code ` set (dc_Permissions d)) (cr_Permissions cur) (pi_Kind it) (pi_Identity it)
      | ERole \<Rightarrow> legit cu_Key cu_Source (ir_Key ` set (dc_Roles d)) (cr_Roles cur) (pi_Kind it) (pi_Identity it) \<and>
          (pi_Kind it = Delete \<longrightarrow> (\<exists>cr \<in> set (cr_Roles cur). cu_Key cr = pi_Identity it \<and> \<not> cu_HasUserBindings cr))
      | EDataPolicy \<Rightarrow>
          legit current_id cd_Source (desired_id ` set (dc_DataPolicies d)) (cr_DataPolicies cur) (pi_Kind it) (pi_Identity it) \<and>
          (pi_Kind it \<in> {Adopt, Update, Delete} \<longrightarrow>
             (\<exists>!cdp. cdp \<in> set (cr_DataPolicies cur) \<and> current_id cdp = pi_Identity it)))"

lemma iac_Diff_legit: "it \<in> set (iac_Diff renorm d cur) \<Longrightarrow> legit_item d cur it"
  using diff_permissions_legit [of it "dc_Permissions d" "cr_Permissions cur"]
    diff_roles_legit [of it "dc_Roles d" "cr_Roles cur"]
    diff_data_policy_legit [of it renorm "dc_DataPolicies d" "cr_DataPolicies cur"]
  by (auto simp: iac_Diff_def diff_data_policies_def legit_item_def)

text \<open>
  C33. Whatever a document declares and whatever the store holds, every item of the plan is
  legitimate: it creates what is declared and missing, adopts what is declared and was made by
  hand, updates or deletes only what an earlier import made, and never touches an entity of any
  other source. A role is deleted only if no user is bound to it, and a data policy is changed
  only if its identity names one row.
\<close>

theorem plan_touches_only_governed: "list_all (legit_item d cur) (iac_Diff renorm d cur)"
  by (simp add: list_all_iff iac_Diff_legit)

section \<open>When there is nothing to do\<close>

definition settled_permissions :: "iac_permission list \<Rightarrow> current_permission list \<Rightarrow> bool" where
  "settled_permissions desired cur \<longleftrightarrow>
     (\<forall>cp \<in> set cur. ip_Source cp = ''iac'' \<longrightarrow> (\<exists>dp \<in> set desired. ip_Code dp = ip_Code cp \<and> permFieldsEqual cp dp)) \<and>
     (\<forall>cp \<in> set cur. ip_Source cp = ''manual'' \<longrightarrow> ip_Code cp \<notin> ip_Code ` set desired) \<and>
     ip_Code ` set desired \<subseteq> ip_Code ` set cur"

definition settled_roles :: "iac_role list \<Rightarrow> current_role list \<Rightarrow> bool" where
  "settled_roles desired cur \<longleftrightarrow>
     (\<forall>cr \<in> set cur. cu_Source cr = ''iac'' \<longrightarrow> (\<exists>dr \<in> set desired. ir_Key dr = cu_Key cr \<and> roleFieldsEqual cr dr)) \<and>
     (\<forall>cr \<in> set cur. cu_Source cr = ''manual'' \<longrightarrow> cu_Key cr \<notin> ir_Key ` set desired) \<and>
     ir_Key ` set desired \<subseteq> cu_Key ` set cur"

definition settled_policies :: "(string \<Rightarrow> string option) \<Rightarrow> iac_data_policy list \<Rightarrow> current_data_policy list \<Rightarrow> bool" where
  "settled_policies renorm desired cur \<longleftrightarrow>
     (\<forall>i. (filter (\<lambda>dp. desired_id dp = i) desired = [] \<and>
            (\<forall>cdp \<in> set cur. current_id cdp = i \<longrightarrow> cd_Source cdp \<noteq> ''iac'')) \<or>
          (\<exists>dp cdp. filter (\<lambda>dp. desired_id dp = i) desired = [dp] \<and> filter (\<lambda>cdp. current_id cdp = i) cur = [cdp] \<and>
             (if cd_Source cdp = ''iac'' then dpFieldsEqual renorm cdp dp else cd_Source cdp \<noteq> ''manual'')))"

lemma diff_permission_empty:
  assumes "distinct (map ip_Code desired)"
  shows "diff_permission desired cp = [] \<longleftrightarrow>
    (ip_Source cp = ''iac'' \<longrightarrow> (\<exists>dp \<in> set desired. ip_Code dp = ip_Code cp \<and> permFieldsEqual cp dp)) \<and>
    (ip_Source cp = ''manual'' \<longrightarrow> ip_Code cp \<notin> ip_Code ` set desired)"
proof (cases "last_of ip_Code desired (ip_Code cp)")
  case None
  then have "ip_Code cp \<notin> ip_Code ` set desired" by (simp add: last_of_None)
  moreover from this have "\<not> (\<exists>dp \<in> set desired. ip_Code dp = ip_Code cp \<and> permFieldsEqual cp dp)"
    by (metis image_eqI)
  ultimately show ?thesis unfolding diff_permission_def None by simp
next
  case (Some dp)
  note dp = last_of_Some [OF Some]
  then have "(\<exists>dp \<in> set desired. ip_Code dp = ip_Code cp \<and> permFieldsEqual cp dp) \<longleftrightarrow> permFieldsEqual cp dp"
    using last_of_distinct [OF assms] Some by force
  moreover have "ip_Code cp \<in> ip_Code ` set desired" using dp by (metis image_eqI)
  ultimately show ?thesis unfolding diff_permission_def Some by simp
qed

lemma diff_role_empty:
  assumes "distinct (map ir_Key desired)"
  shows "diff_role desired cr = [] \<longleftrightarrow>
    (cu_Source cr = ''iac'' \<longrightarrow> (\<exists>dr \<in> set desired. ir_Key dr = cu_Key cr \<and> roleFieldsEqual cr dr)) \<and>
    (cu_Source cr = ''manual'' \<longrightarrow> cu_Key cr \<notin> ir_Key ` set desired)"
proof (cases "last_of ir_Key desired (cu_Key cr)")
  case None
  then have "cu_Key cr \<notin> ir_Key ` set desired" by (simp add: last_of_None)
  moreover from this have "\<not> (\<exists>dr \<in> set desired. ir_Key dr = cu_Key cr \<and> roleFieldsEqual cr dr)" by force
  ultimately show ?thesis unfolding diff_role_def None by simp
next
  case (Some dr)
  note dr = last_of_Some [OF Some]
  then have "(\<exists>dr \<in> set desired. ir_Key dr = cu_Key cr \<and> roleFieldsEqual cr dr) \<longleftrightarrow> roleFieldsEqual cr dr"
    using last_of_distinct [OF assms] Some by force
  moreover have "cu_Key cr \<in> ir_Key ` set desired" using dr by (metis image_eqI)
  ultimately show ?thesis unfolding diff_role_def Some by simp
qed

lemma creates_empty: "concat (map (\<lambda>k. if last_of f cur k = None then [g k] else []) ks) = [] \<longleftrightarrow> set ks \<subseteq> f ` set cur"
  by (auto simp: last_of_None split: if_splits)

lemma walk_empty:
  assumes "distinct (map f cur)"
  shows "concat (map (\<lambda>k. case last_of f cur k of None \<Rightarrow> [] | Some x \<Rightarrow> g x) (sort (map f cur))) = [] \<longleftrightarrow> (\<forall>x \<in> set cur. g x = [])"
  using last_of_distinct [OF assms] by auto

lemma diff_permissions_empty:
  assumes "distinct (map ip_Code desired)" "distinct (map ip_Code cur)"
  shows "diff_permissions desired cur = [] \<longleftrightarrow> settled_permissions desired cur"
  unfolding diff_permissions_def append_is_Nil_conv walk_empty [OF assms(2)] creates_empty settled_permissions_def
    diff_permission_empty [OF assms(1)]
  by auto

lemma role_creates_empty:
  "concat (map (\<lambda>k. case last_of f cur k of Some _ \<Rightarrow> [] | None \<Rightarrow> [g k]) ks) = [] \<longleftrightarrow> set ks \<subseteq> f ` set cur"
proof -
  have "(case last_of f cur k of Some _ \<Rightarrow> [] | None \<Rightarrow> [g k]) = [] \<longleftrightarrow> k \<in> f ` set cur" for k
    using last_of_None [of f cur k] by (cases "last_of f cur k") simp_all
  then show ?thesis by auto
qed

lemma diff_roles_empty:
  assumes "distinct (map ir_Key desired)" "distinct (map cu_Key cur)"
  shows "diff_roles desired cur = [] \<longleftrightarrow> settled_roles desired cur"
  unfolding diff_roles_def append_is_Nil_conv walk_empty [OF assms(2)] role_creates_empty settled_roles_def
    diff_role_empty [OF assms(1)]
  by auto

lemma diff_data_policy_empty:
  "diff_data_policy renorm desired cur i = [] \<longleftrightarrow>
     (filter (\<lambda>dp. desired_id dp = i) desired = [] \<and> (\<forall>cdp \<in> set cur. current_id cdp = i \<longrightarrow> cd_Source cdp \<noteq> ''iac'')) \<or>
     (\<exists>dp cdp. filter (\<lambda>dp. desired_id dp = i) desired = [dp] \<and> filter (\<lambda>cdp. current_id cdp = i) cur = [cdp] \<and>
        (if cd_Source cdp = ''iac'' then dpFieldsEqual renorm cdp dp else cd_Source cdp \<noteq> ''manual''))"
proof -
  let ?D = "filter (\<lambda>dp. desired_id dp = i) desired" and ?C = "filter (\<lambda>cdp. current_id cdp = i) cur"
  have src: "(\<forall>cdp \<in> set cur. current_id cdp = i \<longrightarrow> cd_Source cdp \<noteq> ''iac'') \<longleftrightarrow> (\<forall>cdp \<in> set ?C. cd_Source cdp \<noteq> ''iac'')"
    by auto
  have "(let desiredRows = D; curRows = C in Q D C) = Q D C" for D :: "iac_data_policy list" and C :: "current_data_policy list" and Q by simp
  show ?thesis
    unfolding src diff_data_policy_def Let_def
    by (cases ?D rule: remdups_adj.cases; cases ?C rule: remdups_adj.cases)
      (simp_all add: list_ex_iff)
qed

lemma diff_data_policies_empty: "diff_data_policies renorm desired cur = [] \<longleftrightarrow> settled_policies renorm desired cur"
proof -
  have "diff_data_policy renorm desired cur i = []" if "i \<notin> desired_id ` set desired" "i \<notin> current_id ` set cur" for i
    using that unfolding diff_data_policy_empty by (force simp: filter_empty_conv)
  then have "diff_data_policies renorm desired cur = [] \<longleftrightarrow> (\<forall>i. diff_data_policy renorm desired cur i = [])"
    by (auto simp: diff_data_policies_def)
  then show ?thesis by (simp add: settled_policies_def diff_data_policy_empty)
qed

subsection \<open>What validation guarantees\<close>

lemma validate_permissions_ok:
  "validate_permissions ps seen = Inr out \<Longrightarrow> distinct seen \<Longrightarrow>
     out = rev (map ip_Code ps) @ seen \<and> distinct out"
  by (induction ps arbitrary: seen) (auto split: if_splits)

lemma validate_scopes_ok:
  "validate_scopes dss = None \<Longrightarrow> ds \<in> set dss \<Longrightarrow> sc_Effect ds \<in> {''allow'', ''deny''}"
  by (induction dss) (auto simp: validEffect_def split: if_splits option.splits)

lemma validate_roles_ok:
  "validate_roles codes rs seen = Inr out \<Longrightarrow> distinct seen \<Longrightarrow>
     out = rev (map ir_Key rs) @ seen \<and> distinct out \<and>
     (\<forall>r \<in> set rs. set (ir_PermissionCodes r) \<subseteq> set codes \<and> ir_Key r \<noteq> [] \<and> CHR '':'' \<notin> set (ir_Key r) \<and>
        (\<forall>ds \<in> set (ir_DataScopes r). sc_Effect ds \<in> {''allow'', ''deny''}))"
  by (induction rs arbitrary: seen) (auto dest: validate_scopes_ok split: if_splits option.splits)

lemma validate_policies_ok:
  "validate_policies dps seen = Inr out \<Longrightarrow> distinct seen \<Longrightarrow>
     out = rev (map desired_id dps) @ seen \<and> distinct out \<and> (\<forall>dp \<in> set dps. id_Effect dp \<in> {''allow'', ''deny''})"
  by (induction dps arbitrary: seen)
    (auto simp: desired_id_def validEffect_def Let_def split: if_splits option.splits)

lemma Validate_ok:
  assumes "Validate d = None"
  shows "distinct (map ip_Code (dc_Permissions d))" "distinct (map ir_Key (dc_Roles d))"
    "distinct (map desired_id (dc_DataPolicies d))"
    "r \<in> set (dc_Roles d) \<Longrightarrow> set (ir_PermissionCodes r) \<subseteq> ip_Code ` set (dc_Permissions d) \<and> ir_Key r \<noteq> [] \<and>
       CHR '':'' \<notin> set (ir_Key r) \<and> (\<forall>ds \<in> set (ir_DataScopes r). sc_Effect ds \<in> {''allow'', ''deny''})"
    "dp \<in> set (dc_DataPolicies d) \<Longrightarrow> id_Effect dp \<in> {''allow'', ''deny''}"
proof -
  from assms obtain codes keys ids where
    ps: "validate_permissions (dc_Permissions d) [] = Inr codes" and
    rs: "validate_roles codes (dc_Roles d) [] = Inr keys" and
    dps: "validate_policies (dc_DataPolicies d) [] = Inr ids"
    by (auto simp: Validate_def split: if_splits sum.splits)
  note P = validate_permissions_ok [OF ps, simplified] and R = validate_roles_ok [OF rs, simplified]
    and D = validate_policies_ok [OF dps, simplified]
  show "distinct (map ip_Code (dc_Permissions d))" using P by (metis distinct_rev)
  show "distinct (map ir_Key (dc_Roles d))" using R by (metis distinct_rev)
  show "distinct (map desired_id (dc_DataPolicies d))" using D by (metis distinct_rev)
  show "set (ir_PermissionCodes r) \<subseteq> ip_Code ` set (dc_Permissions d) \<and> ir_Key r \<noteq> [] \<and>
       CHR '':'' \<notin> set (ir_Key r) \<and> (\<forall>ds \<in> set (ir_DataScopes r). sc_Effect ds \<in> {''allow'', ''deny''})"
    if "r \<in> set (dc_Roles d)" using P R that by auto
  show "id_Effect dp \<in> {''allow'', ''deny''}" if "dp \<in> set (dc_DataPolicies d)" using D that by auto
qed


definition demo_doc :: document where
  "demo_doc = \<lparr>dc_APIVersion = APIVersion, dc_App = None,
     dc_Permissions = [\<lparr>ip_Code = ''doc:read'', ip_Resource = ''doc'', ip_Action = ''read'', ip_Type = ''api'',
       ip_Name = ''Read'', ip_Description = [], ip_Source = []\<rparr>],
     dc_Roles = [\<lparr>ir_Key = ''viewer'', ir_Name = ''Viewer'', ir_Description = [], ir_PermissionCodes = [''doc:read''],
       ir_DataScopes = [\<lparr>sc_Resource = ''doc'', sc_Effect = ''allow'', sc_Condition = ''{}''\<rparr>], ir_Source = []\<rparr>],
     dc_DataPolicies = []\<rparr>"

definition demo_current :: current where
  "demo_current = \<lparr>cr_Permissions = map (\<lambda>p. p\<lparr>ip_Source := ''iac''\<rparr>) (dc_Permissions demo_doc),
     cr_Roles = [\<lparr>cu_Key = ''viewer'', cu_Name = ''Viewer'', cu_Description = [], cu_Source = ''iac'',
       cu_PermissionCodes = [''doc:read''],
       cu_DataScopes = [\<lparr>sc_Resource = ''doc'', sc_Effect = ''allow'', sc_Condition = ''{}''\<rparr>], cu_HasUserBindings = True\<rparr>],
     cr_DataPolicies = []\<rparr>"

lemma demo_doc_valid: "Validate demo_doc = None" by code_simp

end
