(* ===== verification/Admin_Ops.thy ===== *)
theory Admin_Ops
  imports Admin_Authz Iac
begin

text \<open>
  The operations of the management service on applications, operators, admin roles and plans
  (\<^verbatim>\<open>mgmt/admin_ops.go\<close>, \<^verbatim>\<open>mgmt/billing.go\<close>, \<^verbatim>\<open>mgmt/tenant_usage.go\<close>, \<^verbatim>\<open>store/subscription.go\<close> and the rest of
  \<^verbatim>\<open>store/quota.go\<close>), each a transaction over the tables of theory \<open>Admin_Authz\<close> with its audit row. The length
  limits of the columns are left out. The lemmas show that an operation that fails changes nothing, that the
  applications of a tenant stay within its plan, and which operations change the rows of the enforcer: those
  raise the version.
\<close>

section \<open>Helpers\<close>

record write_response =
  wr_Version :: uint64
  wr_Changed :: bool

definition isUniqueViolation :: "db_error \<Rightarrow> bool" where
  "isUniqueViolation e \<longleftrightarrow> e = UniqueViolation"

definition isForeignKeyViolation :: "db_error \<Rightarrow> bool" where
  "isForeignKeyViolation e \<longleftrightarrow> e = ForeignKeyViolation"

text \<open>\<^verbatim>\<open>fmt.Sprintf("%d", x)\<close> of an unsigned number, and \<^verbatim>\<open>int16(x)\<close>.\<close>

definition show_uint :: "uint64 \<Rightarrow> string" where
  "show_uint x = nat_digits (unat x)"

definition int16_of :: "32 word \<Rightarrow> int" where
  "int16_of x = sint (ucast x :: 16 word)"

text \<open>\<^verbatim>\<open>strings.ToLower\<close>: exact on ASCII; the Unicode tables are the parameter.\<close>

definition ascii_lower :: "char \<Rightarrow> char" where
  "ascii_lower c = (let n = of_char c :: nat in if 65 \<le> n \<and> n \<le> 90 then char_of (n + 32) else c)"

definition ToLower :: "(string \<Rightarrow> string) \<Rightarrow> string \<Rightarrow> string" where
  "ToLower unicode s = (if list_all (\<lambda>c. (of_char c :: nat) < 128) s then map ascii_lower s else unicode s)"

text \<open>A credential for a new or a rotated account, and the transaction around the statements of a handler.\<close>

definition with_secret ::
    "tx_env \<Rightarrow> (string \<Rightarrow> string \<Rightarrow> (admin_status, 'a) res \<times> 'd) \<Rightarrow> 'd \<Rightarrow> (admin_status, 'a) res \<times> 'd" where
  "with_secret X body db =
     (case genSecret X of
        None \<Rightarrow> (Inl (Internal, []), db)
      | Some secret \<Rightarrow> (case te_encrypt X secret of Inl _ \<Rightarrow> (Inl (Internal, []), db) | Inr enc \<Rightarrow> body secret enc))"

definition tx_run ::
    "tx_env \<Rightarrow> ('d \<Rightarrow> (admin_status, 'a \<times> 'd) res) \<Rightarrow> 'd \<Rightarrow> (admin_status, 'a) res \<times> 'd" where
  "tx_run X body db =
     (if \<not> te_begin X then (Inl (Internal, []), db)
      else case body db of
        Inl e \<Rightarrow> (Inl e, db)
      | Inr (a, db') \<Rightarrow> if te_commit X then (Inr a, db') else (Inl (Internal, []), db))"

text \<open>What a change of the admin policy ends with: the new version, and the audit row under it.\<close>

definition bump_audit ::
    "int64 option \<Rightarrow> string \<Rightarrow> string \<Rightarrow> string \<Rightarrow> string \<Rightarrow> admin_db \<Rightarrow> (admin_status, admin_db) res" where
  "bump_audit tid operator act entityType entityID db =
     bindE (BumpPolicyVersion db) internal (\<lambda>db1.
     bindE (ReadPolicyVersion db1) internal (\<lambda>ver.
     Inr (InsertAdminAudit tid operator act entityType entityID (Some ver) db1)))"

definition domainTenant :: "string \<Rightarrow> int64 option" where
  "domainTenant domain = (if hasPrefix domain ''t:'' then ParseInt (trimPrefix domain ''t:'') else None)"

definition changed :: write_response where
  "changed = \<lparr>wr_Version = 0, wr_Changed = True\<rparr>"

section \<open>Applications\<close>

definition insert_application ::
    "admin_pg \<Rightarrow> int64 \<Rightarrow> string \<Rightarrow> string \<Rightarrow> string \<Rightarrow> string \<Rightarrow> admin_db \<Rightarrow> (db_error, int64 \<times> admin_db) res" where
  "insert_application pg tenantID domain name appKey enc db =
     (let i = apg_id pg db
      in if \<exists>a \<in> set (ad_apps db). aw_id a = i \<or> aw_app_key a = appKey \<or> aw_tenant a = tenantID \<and> aw_domain a = domain
         then Inl UniqueViolation
         else if tenantID \<notin> tn_id ` set (ad_tenants db) then Inl ForeignKeyViolation
         else Inr (i, db\<lparr>ad_apps := ad_apps db @ [\<lparr>aw_id = i, aw_tenant = tenantID, aw_domain = domain, aw_name = name,
                aw_app_key = appKey, aw_secret = enc, aw_status = 1, aw_version = 0\<rparr>]\<rparr>))"

definition update_application :: "int64 \<Rightarrow> (application_row \<Rightarrow> application_row) \<Rightarrow> admin_db \<Rightarrow> admin_db" where
  "update_application appID f db = db\<lparr>ad_apps := map (\<lambda>a. if aw_id a = appID then f a else a) (ad_apps db)\<rparr>"

definition CreateApplication ::
    "admin_pg \<Rightarrow> tx_env \<Rightarrow> string \<Rightarrow> uint64 \<Rightarrow> string \<Rightarrow> string \<Rightarrow> string \<Rightarrow> admin_db \<Rightarrow>
     (admin_status, uint64 \<times> string) res \<times> admin_db" where
  "CreateApplication pg X operator tenantID domain name appKey db =
     with_secret X (\<lambda>secret enc. tx_run X (\<lambda>db.
       bindE (TenantPlanLimits db tenantID) (\<lambda>e. if e = StoreNotFound then (InvalidArgument, ''unknown tenant'') else internal e)
         (\<lambda>(maxApplications, _).
       if int (CountApplications db tenantID) \<ge> maxApplications then Inl (ResourceExhausted, ''application quota reached'')
       else
       bindE (insert_application pg tenantID domain name appKey enc db)
         (\<lambda>e. if isUniqueViolation e then (AlreadyExists, ''create application'')
              else if isForeignKeyViolation e then (InvalidArgument, ''unknown tenant'') else internal e)
         (\<lambda>(appID, db1).
       Inr ((appID, secret), InsertAdminAudit (Some tenantID) operator ''create'' ''application'' (show_id appID) None db1)))) db) db"

definition SetApplicationStatus ::
    "tx_env \<Rightarrow> string \<Rightarrow> uint64 \<Rightarrow> 32 word \<Rightarrow> admin_db \<Rightarrow> (admin_status, write_response) res \<times> admin_db" where
  "SetApplicationStatus X operator appID st db =
     tx_run X (\<lambda>db.
       case app_of db appID of
         None \<Rightarrow> Inl (NotFound, ''unknown application'')
       | Some a \<Rightarrow> Inr (changed, InsertAdminAudit (Some (aw_tenant a)) operator ''set_status'' ''application'' (show_uint appID) None
                    (update_application appID (\<lambda>a. a\<lparr>aw_status := int16_of st\<rparr>) db))) db"

text \<open>The application without its credential.\<close>

record application_summary =
  as_AppId :: uint64
  as_Domain :: string
  as_Name :: string
  as_AppKey :: string
  as_Status :: "32 word"
  as_CurrentVersion :: uint64

definition GetApplication :: "uint64 \<Rightarrow> admin_db \<Rightarrow> (admin_status, application_summary) res" where
  "GetApplication appID db =
     (case app_of db appID of
        None \<Rightarrow> Inl (NotFound, ''application not found'')
      | Some a \<Rightarrow> Inr \<lparr>as_AppId = aw_id a, as_Domain = aw_domain a, as_Name = aw_name a, as_AppKey = aw_app_key a,
          as_Status = word_of_int (aw_status a), as_CurrentVersion = aw_version a\<rparr>)"

definition RotateApplicationSecret ::
    "tx_env \<Rightarrow> string \<Rightarrow> uint64 \<Rightarrow> admin_db \<Rightarrow> (admin_status, string) res \<times> admin_db" where
  "RotateApplicationSecret X operator appID db =
     with_secret X (\<lambda>secret enc. tx_run X (\<lambda>db.
       let db1 = update_application appID (\<lambda>a. a\<lparr>aw_secret := enc\<rparr>) db
       in case app_of db1 appID of
            None \<Rightarrow> Inl (NotFound, ''unknown application'')
          | Some a \<Rightarrow> Inr (secret, InsertAdminAudit (Some (aw_tenant a)) operator ''rotate_secret'' ''application'' (show_uint appID) None db1)) db) db"

section \<open>Operators\<close>

definition operator_of :: "admin_db \<Rightarrow> int64 \<Rightarrow> operator_row option" where
  "operator_of db i = (case filter (\<lambda>r. op_id r = i) (ad_operators db) of r # _ \<Rightarrow> Some r | [] \<Rightarrow> None)"

definition update_operator :: "(operator_row \<Rightarrow> bool) \<Rightarrow> (operator_row \<Rightarrow> operator_row) \<Rightarrow> admin_db \<Rightarrow> admin_db" where
  "update_operator P f db = db\<lparr>ad_operators := map (\<lambda>r. if P r then f r else r) (ad_operators db)\<rparr>"

text \<open>The column is unique: an address that another operator has is refused.\<close>

definition set_email :: "(operator_row \<Rightarrow> bool) \<Rightarrow> string option \<Rightarrow> admin_db \<Rightarrow> (db_error, nat \<times> admin_db) res" where
  "set_email P email db =
     (let n = length (filter P (ad_operators db))
      in if n > 0 \<and> email \<noteq> None \<and> (\<exists>r \<in> set (ad_operators db). \<not> P r \<and> op_email r = email) then Inl UniqueViolation
         else Inr (n, update_operator P (\<lambda>r. r\<lparr>op_email := email\<rparr>) db))"

definition email_used :: "db_error \<Rightarrow> admin_status" where
  "email_used e = (if isUniqueViolation e then (AlreadyExists, ''email already used'') else internal e)"

definition CreateOperator ::
    "admin_pg \<Rightarrow> tx_env \<Rightarrow> string \<Rightarrow> string \<Rightarrow> string \<Rightarrow> admin_db \<Rightarrow> (admin_status, int64 \<times> string) res \<times> admin_db" where
  "CreateOperator pg X operator who mail db =
     with_secret X (\<lambda>secret enc. tx_run X (\<lambda>db.
       bindE (InsertOperator pg who enc db) (taken []) (\<lambda>(i, db1).
       bindE (let email = ToLower (te_lower X) (TrimSpace mail)
              in if email \<noteq> [] then bindE (set_email (\<lambda>r. op_id r = i) (Some email) db1) email_used (\<lambda>(_, db2). Inr db2) else Inr db1)
         (\<lambda>e. e) (\<lambda>db2.
       bindE (bump_audit None operator ''create'' ''operator'' (show_id i) db2) (\<lambda>e. e) (\<lambda>db3.
       Inr ((i, secret), db3))))) db) db"

definition SetOperatorEmail ::
    "tx_env \<Rightarrow> string \<Rightarrow> string \<Rightarrow> string \<Rightarrow> admin_db \<Rightarrow> (admin_status, write_response) res \<times> admin_db" where
  "SetOperatorEmail X operator who mail db =
     (let email = ToLower (te_lower X) (TrimSpace mail)
      in tx_run X (\<lambda>db.
           bindE (set_email (\<lambda>r. op_principal r = who) (if email = [] then None else Some email) db) email_used (\<lambda>(n, db1).
           if n = 0 then Inl (NotFound, ''unknown operator'')
           else let db2 = InsertAdminAudit None operator ''set_email'' ''operator'' who None db1
                in bindE (ReadPolicyVersion db2) internal (\<lambda>ver. Inr (\<lparr>wr_Version = ver, wr_Changed = False\<rparr>, db2)))) db)"

definition SetOperatorStatus ::
    "tx_env \<Rightarrow> string \<Rightarrow> int64 \<Rightarrow> 32 word \<Rightarrow> admin_db \<Rightarrow> (admin_status, write_response) res \<times> admin_db" where
  "SetOperatorStatus X operator i st db =
     tx_run X (\<lambda>db.
       case operator_of db i of
         None \<Rightarrow> Inl (NotFound, ''unknown operator'')
       | Some _ \<Rightarrow>
           bindE (bump_audit None operator ''set_status'' ''operator'' (show_id i)
             (update_operator (\<lambda>r. op_id r = i) (\<lambda>r. r\<lparr>op_status := int16_of st\<rparr>) db)) (\<lambda>e. e) (\<lambda>db1. Inr (changed, db1))) db"

definition ResetOperatorSecret ::
    "tx_env \<Rightarrow> string \<Rightarrow> int64 \<Rightarrow> admin_db \<Rightarrow> (admin_status, string) res \<times> admin_db" where
  "ResetOperatorSecret X operator i db =
     with_secret X (\<lambda>secret enc. tx_run X (\<lambda>db.
       case operator_of db i of
         None \<Rightarrow> Inl (NotFound, ''unknown operator'')
       | Some _ \<Rightarrow> Inr (secret, InsertAdminAudit None operator ''reset_secret'' ''operator'' (show_id i) None
                     (update_operator (\<lambda>r. op_id r = i) (\<lambda>r. r\<lparr>op_secret := enc\<rparr>) db))) db) db"

section \<open>Admin roles\<close>

text \<open>A role is created by one statement, without a transaction, an audit row or a new version.\<close>

definition CreateAdminRole :: "admin_pg \<Rightarrow> string \<Rightarrow> string \<Rightarrow> admin_db \<Rightarrow> (admin_status, int64) res \<times> admin_db" where
  "CreateAdminRole pg cd name db =
     (case Admin_InsertRole pg cd name db of
        Inl e \<Rightarrow> (Inl (if isUniqueViolation e then (AlreadyExists, []) else internal e), db)
      | Inr (i, db') \<Rightarrow> (Inr i, db'))"

definition GrantAdminRole ::
    "tx_env \<Rightarrow> string \<Rightarrow> int64 \<Rightarrow> string \<Rightarrow> string \<Rightarrow> string \<Rightarrow> admin_db \<Rightarrow> (admin_status, write_response) res \<times> admin_db" where
  "GrantAdminRole X operator roleID domain resource act db =
     tx_run X (\<lambda>db.
       bindE (InsertRoleGrant roleID domain resource act db) internal (\<lambda>db1.
       bindE (bump_audit (domainTenant domain) operator ''grant'' ''admin_grant'' (show_id roleID) db1) (\<lambda>e. e) (\<lambda>db2.
       Inr (changed, db2)))) db"

definition BindOperatorRole ::
    "tx_env \<Rightarrow> string \<Rightarrow> int64 \<Rightarrow> int64 \<Rightarrow> string \<Rightarrow> admin_db \<Rightarrow> (admin_status, write_response) res \<times> admin_db" where
  "BindOperatorRole X operator i roleID domain db =
     tx_run X (\<lambda>db.
       bindE (InsertSubjectRole i roleID domain db) internal (\<lambda>db1.
       bindE (bump_audit (domainTenant domain) operator ''bind'' ''admin_binding'' (show_id i) db1) (\<lambda>e. e) (\<lambda>db2.
       Inr (changed, db2)))) db"

definition RevokeAdminGrant ::
    "tx_env \<Rightarrow> string \<Rightarrow> int64 \<Rightarrow> string \<Rightarrow> string \<Rightarrow> string \<Rightarrow> admin_db \<Rightarrow> (admin_status, write_response) res \<times> admin_db" where
  "RevokeAdminGrant X operator roleID domain resource act db =
     tx_run X (\<lambda>db.
       bindE (DeleteRoleGrant roleID domain resource act db)
         (\<lambda>e. if e = StoreNotFound then (NotFound, ''grant not found'') else internal e) (\<lambda>db1.
       bindE (bump_audit (domainTenant domain) operator ''revoke'' ''admin_grant'' (show_id roleID) db1) (\<lambda>e. e) (\<lambda>db2.
       Inr (changed, db2)))) db"

definition UnbindOperatorRole ::
    "tx_env \<Rightarrow> string \<Rightarrow> int64 \<Rightarrow> int64 \<Rightarrow> string \<Rightarrow> admin_db \<Rightarrow> (admin_status, write_response) res \<times> admin_db" where
  "UnbindOperatorRole X operator i roleID domain db =
     tx_run X (\<lambda>db.
       bindE (DeleteSubjectRole i roleID domain db)
         (\<lambda>e. if e = StoreNotFound then (NotFound, ''binding not found'') else internal e) (\<lambda>db1.
       bindE (bump_audit (domainTenant domain) operator ''unbind'' ''admin_binding'' (show_id i) db1) (\<lambda>e. e) (\<lambda>db2.
       Inr (changed, db2)))) db"

section \<open>Plans and usage\<close>

definition SubscriptionOf :: "admin_db \<Rightarrow> int64 \<Rightarrow> (db_error, subscription_row) res" where
  "SubscriptionOf db tenantID =
     (case filter (\<lambda>s. sb_tenant s = tenantID) (ad_subscriptions db) of s # _ \<Rightarrow> Inr s | [] \<Rightarrow> Inl StoreNotFound)"

definition period_end :: "go_time \<Rightarrow> plan_row \<Rightarrow> go_time option" where
  "period_end now p =
     (if sint (pl_price_cents p) > 0
      then Some (if pl_billing_period p = ''year'' then AddDate now 1 0 else AddDate now 0 1) else None)"

definition ChangeTenantPlanTx :: "int64 \<Rightarrow> int64 \<Rightarrow> go_time \<Rightarrow> admin_db \<Rightarrow> (db_error, admin_db) res" where
  "ChangeTenantPlanTx tenantID planID now db =
     (if tenantID \<notin> tn_id ` set (ad_tenants db) then Inl StoreNotFound
      else case filter (\<lambda>p. pl_id p = planID) (ad_plans db) of
        [] \<Rightarrow> Inl ForeignKeyViolation
      | p # _ \<Rightarrow> Inr (db\<lparr>
          ad_tenants := map (\<lambda>t. if tn_id t = tenantID then t\<lparr>tn_plan := planID\<rparr> else t) (ad_tenants db),
          ad_subscriptions := map (\<lambda>s. if sb_tenant s = tenantID then s\<lparr>sb_start := now, sb_end := period_end now p\<rparr> else s)
            (ad_subscriptions db)\<rparr>))"

text \<open>
  The answer is read after the commit, from \<open>later\<close>, what the database is by then; if that fails the call
  reports an error although the plan has changed.
\<close>

definition ChangeTenantPlan ::
    "tx_env \<Rightarrow> go_time \<Rightarrow> (admin_db \<Rightarrow> admin_db) \<Rightarrow> string \<Rightarrow> uint64 \<Rightarrow> uint64 \<Rightarrow> admin_db \<Rightarrow>
     (admin_status, string \<times> go_time option) res \<times> admin_db" where
  "ChangeTenantPlan X now later operator tenantID planID db =
     (case tx_run X (\<lambda>db.
             if tenantID \<notin> tn_id ` set (ad_tenants db) then Inl (NotFound, ''unknown tenant'')
             else
             bindE (ChangeTenantPlanTx tenantID planID now db)
               (\<lambda>e. if isForeignKeyViolation e then (FailedPrecondition, ''unknown plan'') else internal e) (\<lambda>db1.
             Inr ((), InsertAdminAudit (Some tenantID) operator ''change_plan'' ''tenant'' (show_uint tenantID) None db1))) db of
        (Inl e, db') \<Rightarrow> (Inl e, db')
      | (Inr _, db') \<Rightarrow>
          (case SubscriptionOf (later db') tenantID of
             Inl e \<Rightarrow> (Inl (internal e), db')
           | Inr s \<Rightarrow> (Inr (sb_status s, sb_end s), db')))"

record tenant_usage =
  tu_PlanName :: string
  tu_MaxApplications :: int
  tu_UsedApplications :: nat
  tu_MaxMembers :: int
  tu_UsedMembers :: nat
  tu_PriceCents :: int64
  tu_Currency :: string
  tu_BillingPeriod :: string
  tu_SubStatus :: string
  tu_CurrentPeriodEnd :: "go_time option"

definition TenantUsageOf :: "admin_db \<Rightarrow> int64 \<Rightarrow> (db_error, tenant_usage) res" where
  "TenantUsageOf db tenantID =
     (case concat (map (\<lambda>t. filter (\<lambda>p. pl_id p = tn_plan t) (ad_plans db)) (filter (\<lambda>t. tn_id t = tenantID) (ad_tenants db))) of
        [] \<Rightarrow> Inl StoreNotFound
      | p # _ \<Rightarrow>
          Inr \<lparr>tu_PlanName = pl_name p, tu_MaxApplications = pl_max_applications p, tu_UsedApplications = CountApplications db tenantID,
            tu_MaxMembers = pl_max_members p, tu_UsedMembers = CountMembers db tenantID, tu_PriceCents = pl_price_cents p,
            tu_Currency = pl_currency p, tu_BillingPeriod = pl_billing_period p,
            tu_SubStatus = (case SubscriptionOf db tenantID of Inl _ \<Rightarrow> [] | Inr s \<Rightarrow> sb_status s),
            tu_CurrentPeriodEnd = (case SubscriptionOf db tenantID of Inl _ \<Rightarrow> None | Inr s \<Rightarrow> sb_end s)\<rparr>)"

definition GetTenantUsage :: "admin_db \<Rightarrow> uint64 \<Rightarrow> (admin_status, tenant_usage) res" where
  "GetTenantUsage db tenantID =
     (case TenantUsageOf db tenantID of
        Inl e \<Rightarrow> Inl (if e = StoreNotFound then (NotFound, ''tenant not found'') else internal e)
      | Inr u \<Rightarrow> Inr u)"

lemma domainTenant_TenantDomain: "domainTenant (TenantDomain t) = Some t"
proof -
  have "TenantDomain t = ''t:'' @ show_id t" by (simp add: TenantDomain_def)
  then show ?thesis by (simp only: domainTenant_def hasPrefix_append trimPrefix_append if_True ParseInt_show_id)
qed

section \<open>Transactions\<close>

lemma tx_run_out: "snd (tx_run X body db) = db \<or> (\<exists>a. body db = Inr (a, snd (tx_run X body db)))"
  by (auto simp: tx_run_def split: sum.splits)

lemma tx_run_failed: "fst (tx_run X body db) = Inl e \<Longrightarrow> snd (tx_run X body db) = db"
  by (auto simp: tx_run_def split: sum.splits if_splits)

lemma tx_run_done: "tx_run X body db = (Inr a, db') \<Longrightarrow> body db = Inr (a, db')"
  by (auto simp: tx_run_def split: sum.splits if_splits)

lemma with_secret_out: "snd (with_secret X body db) = db \<or> (\<exists>secret enc. with_secret X body db = body secret enc)"
  by (auto simp: with_secret_def split: option.splits sum.splits)

lemma with_secret_failed:
  "(\<And>secret enc e. fst (body secret enc) = Inl e \<Longrightarrow> snd (body secret enc) = db) \<Longrightarrow>
   fst (with_secret X body db) = Inl e \<Longrightarrow> snd (with_secret X body db) = db"
  by (auto simp: with_secret_def split: option.splits sum.splits)

text \<open>A handler that reports an error has changed nothing.\<close>

lemma failed_changes_nothing:
  "fst (CreateApplication pg X op tid dm nm ky db) = Inl e \<Longrightarrow> snd (CreateApplication pg X op tid dm nm ky db) = db"
  "fst (SetApplicationStatus X op aid st db) = Inl e \<Longrightarrow> snd (SetApplicationStatus X op aid st db) = db"
  "fst (RotateApplicationSecret X op aid db) = Inl e \<Longrightarrow> snd (RotateApplicationSecret X op aid db) = db"
  "fst (CreateOperator pg X op who mail db) = Inl e \<Longrightarrow> snd (CreateOperator pg X op who mail db) = db"
  "fst (SetOperatorEmail X op who mail db) = Inl e \<Longrightarrow> snd (SetOperatorEmail X op who mail db) = db"
  "fst (SetOperatorStatus X op i st db) = Inl e \<Longrightarrow> snd (SetOperatorStatus X op i st db) = db"
  "fst (ResetOperatorSecret X op i db) = Inl e \<Longrightarrow> snd (ResetOperatorSecret X op i db) = db"
  "fst (GrantAdminRole X op r dm res act db) = Inl e \<Longrightarrow> snd (GrantAdminRole X op r dm res act db) = db"
  "fst (BindOperatorRole X op i r dm db) = Inl e \<Longrightarrow> snd (BindOperatorRole X op i r dm db) = db"
  "fst (RevokeAdminGrant X op r dm res act db) = Inl e \<Longrightarrow> snd (RevokeAdminGrant X op r dm res act db) = db"
  "fst (UnbindOperatorRole X op i r dm db) = Inl e \<Longrightarrow> snd (UnbindOperatorRole X op i r dm db) = db"
  "fst (CreateAdminRole pg cd nm db) = Inl e \<Longrightarrow> snd (CreateAdminRole pg cd nm db) = db"
  unfolding CreateApplication_def SetApplicationStatus_def RotateApplicationSecret_def CreateOperator_def SetOperatorEmail_def
    SetOperatorStatus_def ResetOperatorSecret_def GrantAdminRole_def BindOperatorRole_def RevokeAdminGrant_def UnbindOperatorRole_def Let_def
  by ((erule tx_run_failed | (rule with_secret_failed, erule tx_run_failed, assumption))+)
    (auto simp: CreateAdminRole_def split: sum.splits)

section \<open>Which operations touch the rows of the enforcer\<close>

definition refs_ok :: "admin_db \<Rightarrow> bool" where
  "refs_ok db \<longleftrightarrow> (\<forall>g \<in> set (ad_grants db). ag_role g \<in> ar_id ` set (ad_roles db)) \<and>
     (\<forall>s \<in> set (ad_subjects db). sr_role s \<in> ar_id ` set (ad_roles db) \<and> sr_operator s \<in> op_id ` set (ad_operators db))"

definition policy_rows :: "admin_db \<Rightarrow> string list list \<times> string list list" where
  "policy_rows db = (LoadPolicyRows db, LoadGroupingRows db)"

text \<open>A silent change leaves the rows alone; an announced one raises the version.\<close>

definition silent :: "admin_db \<Rightarrow> admin_db \<Rightarrow> bool" where
  "silent db db' \<longleftrightarrow> (refs_ok db \<longrightarrow> refs_ok db' \<and> policy_rows db' = policy_rows db) \<and> ad_version db' = ad_version db"

definition announced :: "admin_db \<Rightarrow> admin_db \<Rightarrow> bool" where
  "announced db db' \<longleftrightarrow> (refs_ok db \<longrightarrow> refs_ok db') \<and> (\<exists>v. ad_version db = Some v \<and> ad_version db' = Some (v + 1))"

definition lawful :: "admin_db \<Rightarrow> admin_db \<Rightarrow> bool" where
  "lawful db db' \<longleftrightarrow> silent db db' \<or> announced db db'"

definition statement :: "admin_db \<Rightarrow> admin_db \<Rightarrow> bool" where
  "statement db db' \<longleftrightarrow> (refs_ok db \<longrightarrow> refs_ok db') \<and> ad_version db' = ad_version db"

lemma silent_refl [simp]: "silent db db"
  by (simp add: silent_def)

lemma silent_trans: "silent a b \<Longrightarrow> silent b c \<Longrightarrow> silent a c"
  by (auto simp: silent_def)

lemma silent_statement: "silent db db' \<Longrightarrow> statement db db'"
  by (simp add: silent_def statement_def)

lemma statement_trans: "statement a b \<Longrightarrow> statement b c \<Longrightarrow> statement a c"
  by (auto simp: statement_def)

lemma statement_announced: "statement a b \<Longrightarrow> announced b c \<Longrightarrow> announced a c"
  by (auto simp: statement_def announced_def)

lemma grouping_map:
  "(\<And>r. op_id (f r) = op_id r \<and> op_principal (f r) = op_principal r) \<Longrightarrow>
   LoadGroupingRows (db\<lparr>ad_operators := map f (ad_operators db)\<rparr>) = LoadGroupingRows db"
  by (simp add: LoadGroupingRows_def filter_map o_def)

lemma silent_update_operator:
  assumes "\<And>r. op_id (f r) = op_id r \<and> op_principal (f r) = op_principal r"
  shows "silent db (update_operator P f db)"
proof -
  have ids: "op_id ` (\<lambda>r. if P r then f r else r) ` set (ad_operators db) = op_id ` set (ad_operators db)"
    unfolding image_image by (rule image_cong) (simp_all add: assms)
  have "LoadGroupingRows (update_operator P f db) = LoadGroupingRows db"
    unfolding update_operator_def using assms by (intro grouping_map) simp
  then show ?thesis
    using ids by (auto simp: silent_def refs_ok_def policy_rows_def update_operator_def LoadPolicyRows_def)
qed

lemma silent_fields:
  "silent db (update_operator P (op_status_update (\<lambda>_. st)) db)"
  "silent db (update_operator P (op_secret_update (\<lambda>_. enc)) db)"
  "silent db (update_operator P (op_email_update (\<lambda>_. mail)) db)"
  by (rule silent_update_operator, simp)+

lemma silent_tables:
  "silent db (InsertAdminAudit t op a et ei v db)"
  "silent db (update_application i g db)"
  "silent db (db\<lparr>ad_tenants := ts, ad_subscriptions := ss\<rparr>)"
  by (simp_all add: silent_def refs_ok_def policy_rows_def InsertAdminAudit_def update_application_def LoadPolicyRows_def LoadGroupingRows_def)

lemma silent_insert_application: "insert_application pg t dm nm ky enc db = Inr (i, db') \<Longrightarrow> silent db db'"
  by (auto simp: insert_application_def Let_def silent_def refs_ok_def policy_rows_def LoadPolicyRows_def LoadGroupingRows_def split: if_splits)

text \<open>A new role or operator has no grants and no bindings yet.\<close>

lemma silent_new_role:
  assumes "Admin_InsertRole pg cd nm db = Inr (i, db')"
  shows "silent db db'"
proof -
  from assms have new: "i \<notin> ar_id ` set (ad_roles db)" and db': "db' = db\<lparr>ad_roles := ad_roles db @ [\<lparr>ar_id = i, ar_code = cd, ar_name = nm\<rparr>]\<rparr>"
    by (auto simp: Admin_InsertRole_def Let_def split: if_splits)
  have rows: "policy_rows db' = policy_rows db" if "refs_ok db"
    unfolding policy_rows_def LoadPolicyRows_def LoadGroupingRows_def db'
    using that new by (auto simp: refs_ok_def intro!: arg_cong [where f = concat])
  show ?thesis using rows by (auto simp: silent_def refs_ok_def db')
qed

lemma silent_new_operator:
  assumes "ad_operators db' = ad_operators db @ [r]" "op_id r \<notin> op_id ` set (ad_operators db)"
    and "ad_roles db' = ad_roles db" "ad_grants db' = ad_grants db" "ad_subjects db' = ad_subjects db" "ad_version db' = ad_version db"
  shows "silent db db'"
proof -
  have rows: "policy_rows db' = policy_rows db" if "refs_ok db"
    unfolding policy_rows_def LoadPolicyRows_def LoadGroupingRows_def
    using that assms by (auto simp: refs_ok_def intro!: arg_cong [where f = concat])
  show ?thesis using rows assms by (auto simp: silent_def refs_ok_def)
qed

lemma silent_InsertOperator: "InsertOperator pg who enc db = Inr (i, db') \<Longrightarrow> silent db db'"
  by (rule silent_new_operator) (auto simp: InsertOperator_def Let_def split: if_splits)

lemma silent_set_email: "set_email P m db = Inr (n, db') \<Longrightarrow> silent db db'"
  by (auto simp: set_email_def Let_def silent_fields split: if_splits)

lemma statement_rows:
  "InsertRoleGrant r dm res act db = Inr db' \<Longrightarrow> statement db db'"
  "InsertSubjectRole i r dm db = Inr db' \<Longrightarrow> statement db db'"
  "DeleteRoleGrant r dm res act db = Inr db' \<Longrightarrow> statement db db'"
  "DeleteSubjectRole i r dm db = Inr db' \<Longrightarrow> statement db db'"
  by (auto simp: statement_def refs_ok_def InsertRoleGrant_def InsertSubjectRole_def DeleteRoleGrant_def DeleteSubjectRole_def
      Let_def split: if_splits)

lemma announced_bump: "BumpPolicyVersion db = Inr db' \<Longrightarrow> announced db db'"
  by (auto simp: BumpPolicyVersion_def announced_def refs_ok_def split: option.splits)

lemma announced_audit: "announced db (InsertAdminAudit t op a et ei v db') \<longleftrightarrow> announced db db'"
  by (simp add: announced_def InsertAdminAudit_def refs_ok_def)

lemma announced_bump_audit:
  assumes "bump_audit t op a et ei db1 = Inr db2" "statement db db1"
  shows "announced db db2"
proof -
  obtain dbx ver where "BumpPolicyVersion db1 = Inr dbx" "db2 = InsertAdminAudit t op a et ei (Some ver) dbx"
    using assms(1) by (auto simp: bump_audit_def bindE_Ok)
  then show ?thesis using announced_bump [of db1 dbx] statement_announced [OF assms(2)] announced_audit by blast
qed

lemma lawful_tx:
  assumes "\<And>a db'. body db = Inr (a, db') \<Longrightarrow> lawful db db'"
  shows "lawful db (snd (tx_run X body db))"
  using tx_run_out [of X body db] assms by (auto simp: lawful_def)

lemma lawful_secret:
  assumes "\<And>secret enc. lawful db (snd (body secret enc))"
  shows "lawful db (snd (with_secret X body db))"
  using with_secret_out [of X body db] assms by (metis lawful_def silent_refl)

lemma lawful_bump: "statement db db1 \<Longrightarrow> bump_audit t op a et ei db1 = Inr db2 \<Longrightarrow> lawful db db2"
  using announced_bump_audit by (auto simp: lawful_def)

lemma lawful_silent: "silent db db1 \<Longrightarrow> lawful db (InsertAdminAudit t op a et ei v db1)"
  using silent_trans silent_tables(1) by (auto simp: lawful_def)

lemma lawful_operations:
  "lawful db (snd (CreateApplication pg X op tid dm nm ky db))"
  "lawful db (snd (SetApplicationStatus X op aid st db))"
  "lawful db (snd (RotateApplicationSecret X op aid db))"
  "lawful db (snd (SetOperatorEmail X op who mail db))"
  "lawful db (snd (SetOperatorStatus X op i st db))"
  "lawful db (snd (ResetOperatorSecret X op i db))"
  "lawful db (snd (GrantAdminRole X op r dm res act db))"
  "lawful db (snd (BindOperatorRole X op i r dm db))"
  "lawful db (snd (RevokeAdminGrant X op r dm res act db))"
  "lawful db (snd (UnbindOperatorRole X op i r dm db))"
  unfolding CreateApplication_def SetApplicationStatus_def RotateApplicationSecret_def SetOperatorEmail_def
    SetOperatorStatus_def ResetOperatorSecret_def GrantAdminRole_def BindOperatorRole_def RevokeAdminGrant_def UnbindOperatorRole_def Let_def
  by ((rule lawful_secret)?, rule lawful_tx,
      auto simp: bindE_Ok split: if_splits option.splits
        intro: lawful_silent silent_insert_application silent_tables silent_fields silent_set_email lawful_bump
          statement_rows silent_statement)+

lemma lawful_CreateOperator: "lawful db (snd (CreateOperator pg X op who mail db))"
  unfolding CreateOperator_def Let_def
proof (rule lawful_secret, rule lawful_tx, goal_cases)
  case (1 secret enc a db')
  then obtain i db1 db2 where "InsertOperator pg who enc db = Inr (i, db1)" "silent db1 db2"
      "bump_audit None op ''create'' ''operator'' (show_id i) db2 = Inr db'"
    by (fastforce simp: bindE_Ok intro: silent_set_email silent_refl split: if_splits)
  then show ?case using silent_InsertOperator silent_trans silent_statement lawful_bump by meson
qed

lemma lawful_CreateAdminRole: "lawful db (snd (CreateAdminRole pg cd nm db))"
  using silent_new_role by (auto simp: CreateAdminRole_def lawful_def split: sum.splits)

lemma lawful_ChangeTenantPlan: "lawful db (snd (ChangeTenantPlan X now later op tid pid db))"
proof -
  let ?body = "\<lambda>db. if tid \<notin> tn_id ` set (ad_tenants db) then Inl (NotFound, ''unknown tenant'')
    else bindE (ChangeTenantPlanTx tid pid now db)
      (\<lambda>e. if isForeignKeyViolation e then (FailedPrecondition, ''unknown plan'') else internal e) (\<lambda>db1.
    Inr ((), InsertAdminAudit (Some tid) op ''change_plan'' ''tenant'' (show_uint tid) None db1))"
  have "lawful db (snd (tx_run X ?body db))"
    by (rule lawful_tx)
      (auto simp: bindE_Ok ChangeTenantPlanTx_def intro!: lawful_silent silent_tables(3) split: if_splits list.splits)
  moreover have "snd (ChangeTenantPlan X now later op tid pid db) = snd (tx_run X ?body db)"
    by (auto simp: ChangeTenantPlan_def split: prod.splits sum.splits)
  ultimately show ?thesis by simp
qed

section \<open>Registration, invitation and seeding\<close>

lemma silent_accounts:
  "insert_tenant pg n db = Inr (t, db') \<Longrightarrow> silent db db'"
  "insert_subscription pg t db = Inr db' \<Longrightarrow> silent db db'"
  "InsertMembership t i k db = Inr (b, db') \<Longrightarrow> silent db db'"
  "EnsureOperator pg w e db = Inr (ib, db') \<Longrightarrow> silent db db'"
  using silent_InsertOperator
  by (auto simp: insert_tenant_def insert_subscription_def InsertMembership_def EnsureOperator_def Let_def silent_def refs_ok_def
      policy_rows_def LoadPolicyRows_def LoadGroupingRows_def split: if_splits list.splits sum.splits prod.splits)

lemma statement_BindTenantAdminTx:
  assumes "BindTenantAdminTx pg t i db = Inr db'"
  shows "statement db db'"
proof -
  obtain roleID db1 db2 where "silent db db1" "InsertRoleGrant roleID (TenantDomain t) ''*'' ''*'' db1 = Inr db2"
      "InsertSubjectRole i roleID (TenantDomain t) db2 = Inr db'"
    using assms by (fastforce simp: BindTenantAdminTx_def intro: silent_new_role silent_refl split: list.splits sum.splits)
  then show ?thesis using silent_statement statement_rows(1,2) statement_trans by meson
qed

lemma lawful_RegisterTenant: "lawful db (snd (RegisterTenant pg X n owner db))"
proof (cases "RegisterTenant pg X n owner db")
  case (Pair out db')
  show ?thesis
  proof (cases "db' = db")
    case False
    with Pair obtain enc t where "register_tx pg n owner enc db = Inr (t, db')"
      by (auto simp: RegisterTenant_def split: if_splits option.splits sum.splits)
    then obtain db1 db2 db3 db4 db5 db6 opID b ver where
      st: "insert_tenant pg n db = Inr (t, db1)" "InsertOperator pg owner enc db1 = Inr (opID, db2)"
        "InsertMembership t opID TierOwner db2 = Inr (b, db3)" "BindTenantAdminTx pg t opID db3 = Inr db4"
        "insert_subscription pg t db4 = Inr db5" "BumpPolicyVersion db5 = Inr db6"
        "db' = InsertAdminAudit (Some t) owner ''register'' ''tenant'' (show_id t) (Some ver) db6"
      by (auto simp: register_tx_def bindE_Ok)
    have "statement db db5"
      using silent_statement [OF silent_accounts(1) [OF st(1)]] silent_statement [OF silent_InsertOperator [OF st(2)]]
        silent_statement [OF silent_accounts(3) [OF st(3)]] statement_BindTenantAdminTx [OF st(4)]
        silent_statement [OF silent_accounts(2) [OF st(5)]] statement_trans by meson
    then have "announced db db'" using statement_announced announced_bump [OF st(6)] st(7) announced_audit by blast
    with Pair show ?thesis by (simp add: lawful_def)
  qed (simp add: Pair lawful_def)
qed

lemma lawful_InviteMember: "lawful db (snd (InviteMember pg X op t who db))"
proof (cases "InviteMember pg X op t who db")
  case (Pair out db')
  show ?thesis
  proof (cases "db' = db")
    case False
    with Pair obtain enc ib where "invite_tx pg op t who enc db = Inr (ib, db')"
      by (auto simp: InviteMember_def split: if_splits option.splits sum.splits)
    then obtain i created db1 db2 db3 db4 ver where
      st: "EnsureOperator pg who enc db = Inr ((i, created), db1)" "InsertMembership t i TierAdmin db1 = Inr (True, db2)"
        "BindTenantAdminTx pg t i db2 = Inr db3" "BumpPolicyVersion db3 = Inr db4"
        "db' = InsertAdminAudit (Some t) op ''invite'' ''membership'' (show_id i) (Some ver) db4"
      by (auto simp: invite_tx_def bindE_Ok split: if_splits)
    have "statement db db3"
      using silent_statement [OF silent_accounts(4) [OF st(1)]] silent_statement [OF silent_accounts(3) [OF st(2)]]
        statement_BindTenantAdminTx [OF st(3)] statement_trans by meson
    then have "announced db db'" using statement_announced announced_bump [OF st(4)] st(5) announced_audit by blast
    with Pair show ?thesis by (simp add: lawful_def)
  qed (simp add: Pair lawful_def)
qed

lemma lawful_EnsureRootOperator: "lawful db (snd (EnsureRootOperator pg X who secret db))"
proof (cases "snd (EnsureRootOperator pg X who secret db) = db")
  case False
  then obtain enc i superID db1 db2 where "InsertOperator pg who enc db = Inr (i, db1)"
      "InsertSubjectRole i superID ''*'' db1 = Inr db2" "BumpPolicyVersion db2 = Inr (snd (EnsureRootOperator pg X who secret db))"
    by (auto simp: EnsureRootOperator_def bindE_Ok split: if_splits sum.splits list.splits)
  then show ?thesis using silent_InsertOperator silent_statement statement_rows(2) statement_trans statement_announced announced_bump
    unfolding lawful_def by meson
qed (simp add: lawful_def)

lemma lawful_EnsureTenantAdmin: "lawful db (snd (EnsureTenantAdmin pg X t who secret db))"
proof (cases "snd (EnsureTenantAdmin pg X t who secret db) = db")
  case False
  then obtain i b db1 db2 db3 where "silent db db1" "InsertMembership t i TierOwner db1 = Inr (b, db2)"
      "BindTenantAdminTx pg t i db2 = Inr db3" "BumpPolicyVersion db3 = Inr (snd (EnsureTenantAdmin pg X t who secret db))"
    by (fastforce simp: EnsureTenantAdmin_def bindE_Ok intro: silent_refl silent_InsertOperator split: if_splits sum.splits list.splits)
  then show ?thesis using silent_accounts(3) silent_statement statement_BindTenantAdminTx statement_trans statement_announced announced_bump
    unfolding lawful_def by meson
qed (simp add: lawful_def)

section \<open>Quota and billing\<close>

text \<open>A new application never takes a tenant over the limit of its plan.\<close>

lemma application_within_quota:
  assumes "CreateApplication pg X op tid dm nm ky db = (Inr (i, secret), db')"
  shows "\<exists>limit members. TenantPlanLimits db tid = Inr (limit, members) \<and> int (CountApplications db' tid) \<le> limit \<and>
    CountApplications db' tid = Suc (CountApplications db tid)"
proof -
  obtain limit members enc db1 where
    st: "TenantPlanLimits db tid = Inr (limit, members)" "\<not> int (CountApplications db tid) \<ge> limit"
      "insert_application pg tid dm nm ky enc db = Inr (i, db1)"
      "db' = InsertAdminAudit (Some tid) op ''create'' ''application'' (show_id i) None db1"
    using assms by (auto simp: CreateApplication_def with_secret_def bindE_Ok split: option.splits sum.splits if_splits dest!: tx_run_done)
  have "CountApplications db' tid = Suc (CountApplications db tid)"
    using st(3,4) by (auto simp: insert_application_def CountApplications_def InsertAdminAudit_def Let_def split: if_splits)
  with st(1,2) show ?thesis by auto
qed

text \<open>A paid plan has a period that ends after it starts; a free one has none.\<close>

lemma period_end_after_start:
  assumes "valid_time now" "ChangeTenantPlanTx tid pid now db = Inr db'" "s \<in> set (ad_subscriptions db')" "sb_tenant s = tid"
  shows "sb_start s = now \<and> (case sb_end s of None \<Rightarrow> True | Some e \<Rightarrow> Before now e \<and> valid_time e)"
  using assms AddDate_later [OF assms(1)] by (auto simp: ChangeTenantPlanTx_def period_end_def split: if_splits list.splits)

end
