(* ===== verification/Oidc.thy ===== *)
theory Oidc
  imports Condition Auth
begin

text \<open>
  The relying party of OpenID Connect (\<^verbatim>\<open>internal/oidc\<close>): reading the key set of a provider, and the verification
  of an ID token with its fixed order of checks. The signature schemes and the digest are parameters; what the
  provider answers over HTTP is an argument. The theorems state exactly which tokens are accepted.
\<close>

section \<open>Base64\<close>

definition b64url_value :: "char \<Rightarrow> nat option" where
  "b64url_value c =
     (if within c 65 90 then Some (code c - 65)
      else if within c 97 122 then Some (code c - 71)
      else if within c 48 57 then Some (code c + 4)
      else if c = CHR ''-'' then Some 62
      else if c = CHR ''_'' then Some 63
      else None)"

fun b64_bytes :: "nat list \<Rightarrow> nat list option" where
  "b64_bytes (a # b # c # d # r) =
     map_option ((@) [4 * a + b div 16, (b mod 16) * 16 + c div 4, (c mod 4) * 64 + d]) (b64_bytes r)"
| "b64_bytes [a, b, c] = Some [4 * a + b div 16, (b mod 16) * 16 + c div 4]"
| "b64_bytes [a, b] = Some [4 * a + b div 16]"
| "b64_bytes [a] = None"
| "b64_bytes [] = Some []"

text \<open>\<^verbatim>\<open>base64.RawURLEncoding.DecodeString\<close>: no padding, line ends are skipped, spare bits are ignored.\<close>

definition RawURL_DecodeString :: "string \<Rightarrow> string option" where
  "RawURL_DecodeString s =
     (case those (map b64url_value (filter (\<lambda>c. c \<noteq> CHR 0x0A \<and> c \<noteq> CHR 0x0D) s)) of
        None \<Rightarrow> None
      | Some vs \<Rightarrow> map_option (map char_of) (b64_bytes vs))"

definition b64url_char :: "nat \<Rightarrow> char" where
  "b64url_char n =
     (if n < 26 then char_of (n + 65) else if n < 52 then char_of (n + 71) else if n < 62 then char_of (n - 4)
      else if n = 62 then CHR ''-'' else CHR ''_'')"

fun b64_sextets :: "nat list \<Rightarrow> nat list" where
  "b64_sextets (a # b # c # r) = [a div 4, (a mod 4) * 16 + b div 16, (b mod 16) * 4 + c div 64, c mod 64] @ b64_sextets r"
| "b64_sextets [a, b] = [a div 4, (a mod 4) * 16 + b div 16, (b mod 16) * 4]"
| "b64_sextets [a] = [a div 4, (a mod 4) * 16]"
| "b64_sextets [] = []"

text \<open>\<^verbatim>\<open>base64.RawURLEncoding.EncodeToString\<close>\<close>

definition RawURL_EncodeToString :: "string \<Rightarrow> string" where
  "RawURL_EncodeToString bs = map b64url_char (b64_sextets (map code bs))"

text \<open>\<^verbatim>\<open>new(big.Int).SetBytes\<close>\<close>

definition SetBytes :: "string \<Rightarrow> nat" where
  "SetBytes bs = foldl (\<lambda>n c. 256 * n + code c) 0 bs"

section \<open>Decoding\<close>

fun decode_bool :: "jval \<Rightarrow> bool \<Rightarrow> bool option" where
  "decode_bool (JBool b) old = Some b"
| "decode_bool JNull old = Some old"
| "decode_bool _ old = None"

text \<open>A number that is not the literal of an \<^verbatim>\<open>int64\<close> is refused.\<close>

fun decode_int64 :: "jval \<Rightarrow> int \<Rightarrow> int option" where
  "decode_int64 (JNum n) old = map_option sint (ParseInt n)"
| "decode_int64 JNull old = Some old"
| "decode_int64 _ old = None"

text \<open>\<^verbatim>\<open>audience\<close>: a string or a list of strings; \<^verbatim>\<open>null\<close> reads as one empty string.\<close>

fun decode_audience :: "jval \<Rightarrow> string list option" where
  "decode_audience (JStr s) = Some [s]"
| "decode_audience JNull = Some [[]]"
| "decode_audience (JArr vs) = those (map (\<lambda>v. decode_string v []) vs)"
| "decode_audience _ = None"

record token_header =
  th_alg :: string
  th_kid :: string

fun header_members :: "(string \<times> jval) list \<Rightarrow> token_header \<Rightarrow> token_header option" where
  "header_members [] h = Some h"
| "header_members ((k, v) # kvs) h =
     (case (if names_field k ''alg'' then map_option (\<lambda>s. h\<lparr>th_alg := s\<rparr>) (decode_string v (th_alg h))
            else if names_field k ''kid'' then map_option (\<lambda>s. h\<lparr>th_kid := s\<rparr>) (decode_string v (th_kid h))
            else Some h) of
        None \<Rightarrow> None
      | Some h' \<Rightarrow> header_members kvs h')"

text \<open>An object fills the members of a struct, \<^verbatim>\<open>null\<close> leaves it, anything else is an error.\<close>

definition decode_struct :: "((string \<times> jval) list \<Rightarrow> 's \<Rightarrow> 's option) \<Rightarrow> 's \<Rightarrow> string \<Rightarrow> 's option" where
  "decode_struct members zero text =
     (case parse_json text of
        Some (JObj kvs) \<Rightarrow> members kvs zero
      | Some JNull \<Rightarrow> Some zero
      | _ \<Rightarrow> None)"

record id_claims =
  cl_Iss :: string
  cl_Sub :: string
  cl_Email :: string
  cl_EmailVerified :: bool
  cl_Exp :: int
  cl_Iat :: int
  cl_Aud :: "string list"
  cl_Nonce :: string

definition zero_claims :: id_claims where
  "zero_claims = \<lparr>cl_Iss = [], cl_Sub = [], cl_Email = [], cl_EmailVerified = False, cl_Exp = 0, cl_Iat = 0, cl_Aud = [], cl_Nonce = []\<rparr>"

fun claim_members :: "(string \<times> jval) list \<Rightarrow> id_claims \<Rightarrow> id_claims option" where
  "claim_members [] c = Some c"
| "claim_members ((k, v) # kvs) c =
     (case (if names_field k ''iss'' then map_option (\<lambda>s. c\<lparr>cl_Iss := s\<rparr>) (decode_string v (cl_Iss c))
            else if names_field k ''sub'' then map_option (\<lambda>s. c\<lparr>cl_Sub := s\<rparr>) (decode_string v (cl_Sub c))
            else if names_field k ''email'' then map_option (\<lambda>s. c\<lparr>cl_Email := s\<rparr>) (decode_string v (cl_Email c))
            else if names_field k ''email_verified'' then map_option (\<lambda>b. c\<lparr>cl_EmailVerified := b\<rparr>) (decode_bool v (cl_EmailVerified c))
            else if names_field k ''exp'' then map_option (\<lambda>n. c\<lparr>cl_Exp := n\<rparr>) (decode_int64 v (cl_Exp c))
            else if names_field k ''iat'' then map_option (\<lambda>n. c\<lparr>cl_Iat := n\<rparr>) (decode_int64 v (cl_Iat c))
            else if names_field k ''aud'' then map_option (\<lambda>a. c\<lparr>cl_Aud := a\<rparr>) (decode_audience v)
            else if names_field k ''nonce'' then map_option (\<lambda>s. c\<lparr>cl_Nonce := s\<rparr>) (decode_string v (cl_Nonce c))
            else Some c) of
        None \<Rightarrow> None
      | Some c' \<Rightarrow> claim_members kvs c')"

section \<open>Key sets\<close>

datatype public_key = RSAKey (rsa_N: nat) (rsa_E: int) | ECKey (ec_X: nat) (ec_Y: nat)

type_synonym jwks = "string \<rightharpoonup> public_key"

record jwk_entry =
  jk_kty :: string
  jk_kid :: string
  jk_crv :: string
  jk_n :: string
  jk_e :: string
  jk_x :: string
  jk_y :: string

definition zero_jwk :: jwk_entry where
  "zero_jwk = \<lparr>jk_kty = [], jk_kid = [], jk_crv = [], jk_n = [], jk_e = [], jk_x = [], jk_y = []\<rparr>"

fun jwk_members :: "(string \<times> jval) list \<Rightarrow> jwk_entry \<Rightarrow> jwk_entry option" where
  "jwk_members [] j = Some j"
| "jwk_members ((k, v) # kvs) j =
     (case (if names_field k ''kty'' then map_option (\<lambda>s. j\<lparr>jk_kty := s\<rparr>) (decode_string v (jk_kty j))
            else if names_field k ''kid'' then map_option (\<lambda>s. j\<lparr>jk_kid := s\<rparr>) (decode_string v (jk_kid j))
            else if names_field k ''crv'' then map_option (\<lambda>s. j\<lparr>jk_crv := s\<rparr>) (decode_string v (jk_crv j))
            else if names_field k ''n'' then map_option (\<lambda>s. j\<lparr>jk_n := s\<rparr>) (decode_string v (jk_n j))
            else if names_field k ''e'' then map_option (\<lambda>s. j\<lparr>jk_e := s\<rparr>) (decode_string v (jk_e j))
            else if names_field k ''x'' then map_option (\<lambda>s. j\<lparr>jk_x := s\<rparr>) (decode_string v (jk_x j))
            else if names_field k ''y'' then map_option (\<lambda>s. j\<lparr>jk_y := s\<rparr>) (decode_string v (jk_y j))
            else Some j) of
        None \<Rightarrow> None
      | Some j' \<Rightarrow> jwk_members kvs j')"

text \<open>
  The document has one member, the list of keys. A repeated list is decoded into the elements that the slice
  and its backing array already hold; the number is the length in use.
\<close>

fun jwks_elems :: "jval list \<Rightarrow> jwk_entry list \<Rightarrow> jwk_entry list option" where
  "jwks_elems [] olds = Some olds"
| "jwks_elems (v # vs) olds =
     (let old = (case olds of [] \<Rightarrow> zero_jwk | j # _ \<Rightarrow> j)
      in case (case v of JObj kvs \<Rightarrow> jwk_members kvs old | JNull \<Rightarrow> Some old | _ \<Rightarrow> None) of
           None \<Rightarrow> None
         | Some j \<Rightarrow> map_option ((#) j) (jwks_elems vs (tl olds)))"

fun jwks_members :: "(string \<times> jval) list \<Rightarrow> jwk_entry list \<times> nat \<Rightarrow> (jwk_entry list \<times> nat) option" where
  "jwks_members [] buf = Some buf"
| "jwks_members ((k, v) # kvs) buf =
     (case (if names_field k ''keys''
            then (case v of
                    JArr vs \<Rightarrow> if vs = [] then Some ([], 0) else map_option (\<lambda>js. (js, length vs)) (jwks_elems vs (fst buf))
                  | JNull \<Rightarrow> Some ([], 0)
                  | _ \<Rightarrow> None)
            else Some buf) of
        None \<Rightarrow> None
      | Some buf' \<Rightarrow> jwks_members kvs buf')"

fun collect_keys :: "jwk_entry list \<Rightarrow> jwks \<Rightarrow> jwks option" where
  "collect_keys [] keys = Some keys"
| "collect_keys (k # ks) keys =
     (if jk_kty k = ''RSA'' then
        (case (RawURL_DecodeString (jk_n k), RawURL_DecodeString (jk_e k)) of
           (Some nb, Some eb) \<Rightarrow> collect_keys ks (keys(jk_kid k \<mapsto> RSAKey (SetBytes nb) (wrap64 (int (SetBytes eb)))))
         | _ \<Rightarrow> None)
      else if jk_kty k = ''EC'' \<and> jk_crv k = ''P-256'' then
        (case (RawURL_DecodeString (jk_x k), RawURL_DecodeString (jk_y k)) of
           (Some xb, Some yb) \<Rightarrow> collect_keys ks (keys(jk_kid k \<mapsto> ECKey (SetBytes xb) (SetBytes yb)))
         | _ \<Rightarrow> None)
      else collect_keys ks keys)"

definition ParseJWKS :: "string \<Rightarrow> jwks option" where
  "ParseJWKS body = (case decode_struct jwks_members ([], 0) body of None \<Rightarrow> None | Some (js, n) \<Rightarrow> collect_keys (take n js) Map.empty)"

section \<open>Verification\<close>

record oidc_crypto =
  oc_sha256 :: "string \<Rightarrow> string"
  oc_rsa :: "nat \<Rightarrow> int \<Rightarrow> string \<Rightarrow> string \<Rightarrow> bool"
  oc_ecdsa :: "nat \<Rightarrow> nat \<Rightarrow> string \<Rightarrow> nat \<Rightarrow> nat \<Rightarrow> bool"

datatype oidc_error =
    MalformedJwt | HeaderDecode | HeaderParse | ErrUnsupportedAlg | ErrUnknownKID | ErrBadSignature
  | PayloadDecode | PayloadParse | IssuerMismatch | AudienceMismatch | TokenExpired | IssuedInFuture | NonceMismatch

definition leewaySeconds :: int where
  "leewaySeconds = 60"

record verify_params =
  vp_Issuer :: string
  vp_ClientID :: string
  vp_Nonce :: string

text \<open>\<^verbatim>\<open>strings.Split(s, ".")\<close>\<close>

fun split_dots :: "string \<Rightarrow> string list" where
  "split_dots [] = [[]]"
| "split_dots (c # s) =
     (if c = CHR ''.'' then [] # split_dots s
      else case split_dots s of [] \<Rightarrow> [[c]] | p # ps \<Rightarrow> (c # p) # ps)"

definition signature_error :: "oidc_crypto \<Rightarrow> string \<Rightarrow> public_key \<Rightarrow> string \<Rightarrow> string \<Rightarrow> oidc_error option" where
  "signature_error K alg key digest sig =
     (if alg = ''RS256'' then
        (case key of
           ECKey _ _ \<Rightarrow> Some ErrUnsupportedAlg
         | RSAKey n e \<Rightarrow> if oc_rsa K n e digest sig then None else Some ErrBadSignature)
      else
        (case key of
           RSAKey _ _ \<Rightarrow> Some ErrUnsupportedAlg
         | ECKey x y \<Rightarrow>
             if length sig \<noteq> 64 then Some ErrBadSignature
             else if oc_ecdsa K x y digest (SetBytes (take 32 sig)) (SetBytes (drop 32 sig)) then None else Some ErrBadSignature))"

definition claims_error :: "verify_params \<Rightarrow> int \<Rightarrow> id_claims \<Rightarrow> oidc_error option" where
  "claims_error p nowUnix rc =
     (if cl_Iss rc \<noteq> vp_Issuer p then Some IssuerMismatch
      else if vp_ClientID p \<notin> set (cl_Aud rc) then Some AudienceMismatch
      else if nowUnix > wrap64 (cl_Exp rc + leewaySeconds) then Some TokenExpired
      else if cl_Iat rc \<noteq> 0 \<and> cl_Iat rc > wrap64 (nowUnix + leewaySeconds) then Some IssuedInFuture
      else if cl_Nonce rc \<noteq> vp_Nonce p then Some NonceMismatch
      else None)"

definition VerifyIDToken ::
    "oidc_crypto \<Rightarrow> string \<Rightarrow> jwks \<Rightarrow> verify_params \<Rightarrow> int \<Rightarrow> (oidc_error, id_claims) res" where
  "VerifyIDToken K rawIDToken keys p nowUnix =
     (case split_dots rawIDToken of
        [p0, p1, p2] \<Rightarrow>
          (case RawURL_DecodeString p0 of
             None \<Rightarrow> Inl HeaderDecode
           | Some headerBytes \<Rightarrow>
               (case decode_struct header_members \<lparr>th_alg = [], th_kid = []\<rparr> headerBytes of
                  None \<Rightarrow> Inl HeaderParse
                | Some hdr \<Rightarrow>
                    if th_alg hdr \<noteq> ''RS256'' \<and> th_alg hdr \<noteq> ''ES256'' then Inl ErrUnsupportedAlg
                    else case keys (th_kid hdr) of
                      None \<Rightarrow> Inl ErrUnknownKID
                    | Some key \<Rightarrow>
                        (case RawURL_DecodeString p2 of
                           None \<Rightarrow> Inl ErrBadSignature
                         | Some sig \<Rightarrow>
                             (case signature_error K (th_alg hdr) key (oc_sha256 K (p0 @ ''.'' @ p1)) sig of
                                Some e \<Rightarrow> Inl e
                              | None \<Rightarrow>
                                  (case RawURL_DecodeString p1 of
                                     None \<Rightarrow> Inl PayloadDecode
                                   | Some payload \<Rightarrow>
                                       (case decode_struct claim_members zero_claims payload of
                                          None \<Rightarrow> Inl PayloadParse
                                        | Some rc \<Rightarrow>
                                            (case claims_error p nowUnix rc of Some e \<Rightarrow> Inl e | None \<Rightarrow> Inr rc)))))))
      | _ \<Rightarrow> Inl MalformedJwt)"

section \<open>Providers\<close>

record provider_config =
  pc_Issuer :: string
  pc_AuthorizationEndpoint :: string
  pc_TokenEndpoint :: string
  pc_JWKSURI :: string

text \<open>
  \<open>answer\<close> is the decoded document that a URL answers with, \<^const>\<open>None\<close> if the request or its decoding fails or the status is
  not 200.
\<close>

fun trim_slashes :: "string \<Rightarrow> string" where
  "trim_slashes [] = []"
| "trim_slashes (c # s) = (case trim_slashes s of [] \<Rightarrow> if c = CHR ''/'' then [] else [c] | s' \<Rightarrow> c # s')"

definition Discover :: "(string \<Rightarrow> provider_config option) \<Rightarrow> string \<Rightarrow> provider_config option" where
  "Discover answer issuer =
     (case answer (trim_slashes issuer @ ''/.well-known/openid-configuration'') of
        None \<Rightarrow> None
      | Some doc \<Rightarrow>
          if pc_Issuer doc \<noteq> issuer then None
          else if pc_AuthorizationEndpoint doc = [] \<or> pc_TokenEndpoint doc = [] \<or> pc_JWKSURI doc = [] then None
          else Some doc)"

text \<open>\<^verbatim>\<open>url.Values\<close>, whose \<open>Encode\<close> sorts by key; the keys here are written in that order.\<close>

definition hex_upper :: "nat \<Rightarrow> char" where
  "hex_upper n = (if n < 10 then char_of (48 + n) else char_of (55 + n))"

definition QueryEscape :: "string \<Rightarrow> string" where
  "QueryEscape s = concat (map (\<lambda>c.
     if within c 65 90 \<or> within c 97 122 \<or> within c 48 57 \<or> c \<in> set ''-_.~'' then [c]
     else if c = CHR '' '' then ''+''
     else [CHR ''%'', hex_upper (code c div 16), hex_upper (code c mod 16)]) s)"

definition Values_Encode :: "(string \<times> string) list \<Rightarrow> string" where
  "Values_Encode kvs = joinStrings ''&'' (map (\<lambda>(k, v). QueryEscape k @ ''='' @ QueryEscape v) kvs)"

definition AuthCodeURL :: "provider_config \<Rightarrow> string \<Rightarrow> string \<Rightarrow> string \<Rightarrow> string \<Rightarrow> string \<Rightarrow> string" where
  "AuthCodeURL p clientID redirectURI state nonce codeChallenge =
     pc_AuthorizationEndpoint p @ (if CHR ''?'' \<in> set (pc_AuthorizationEndpoint p) then ''&'' else ''?'') @
     Values_Encode [(''client_id'', clientID), (''code_challenge'', codeChallenge), (''code_challenge_method'', ''S256''),
       (''nonce'', nonce), (''redirect_uri'', redirectURI), (''response_type'', ''code''), (''scope'', ''openid email''), (''state'', state)]"

definition PKCEChallenge :: "oidc_crypto \<Rightarrow> string \<Rightarrow> string" where
  "PKCEChallenge K verifier = RawURL_EncodeToString (oc_sha256 K verifier)"

text \<open>\<open>answer\<close> is the \<^verbatim>\<open>id_token\<close> of the token response, \<^const>\<open>None\<close> as above.\<close>

definition Exchange ::
    "(string \<Rightarrow> string \<times> string \<Rightarrow> (string \<times> string) list \<Rightarrow> string option) \<Rightarrow> provider_config \<Rightarrow>
     string \<Rightarrow> string \<Rightarrow> string \<Rightarrow> string \<Rightarrow> string \<Rightarrow> string option" where
  "Exchange answer p clientID clientSecret redirectURI cd codeVerifier =
     (case answer (pc_TokenEndpoint p) (clientID, clientSecret)
             [(''grant_type'', ''authorization_code''), (''code'', cd), (''redirect_uri'', redirectURI), (''code_verifier'', codeVerifier)] of
        None \<Rightarrow> None
      | Some tok \<Rightarrow> if tok = [] then None else Some tok)"

text \<open>\<open>answer\<close> is the body that a URL answers with, at most 1 MB of it.\<close>

definition FetchJWKS :: "(string \<Rightarrow> string option) \<Rightarrow> string \<Rightarrow> jwks option" where
  "FetchJWKS answer jwksURI = (case answer jwksURI of None \<Rightarrow> None | Some body \<Rightarrow> ParseJWKS body)"

section \<open>Base64 round trip\<close>

lemma b64url_value_char: "n < 64 \<Longrightarrow> b64url_value (b64url_char n) = Some n"
  by (auto simp: b64url_value_def b64url_char_def within_def take_bit_eq_mod split: if_splits)

lemma b64url_char_line: "n < 64 \<Longrightarrow> b64url_char n \<noteq> CHR 0x0A \<and> b64url_char n \<noteq> CHR 0x0D"
  by (auto simp: b64url_char_def take_bit_eq_mod split: if_splits dest!: arg_cong [of _ _ "of_char :: char \<Rightarrow> nat"])

lemma b64_sextets_small: "\<forall>b \<in> set bs. b < 256 \<Longrightarrow> \<forall>v \<in> set (b64_sextets bs). v < 64"
  by (induction bs rule: b64_sextets.induct) auto

lemma b64_bytes_sextets: "\<forall>b \<in> set bs. b < 256 \<Longrightarrow> b64_bytes (b64_sextets bs) = Some bs"
  by (induction bs rule: b64_sextets.induct) auto

lemma RawURL_no_dot: "CHR ''.'' \<notin> set (RawURL_EncodeToString bs)"
proof -
  have "b64url_char n \<noteq> CHR ''.''" for n
    by (auto simp: b64url_char_def take_bit_eq_mod split: if_splits dest!: arg_cong [of _ _ "of_char :: char \<Rightarrow> nat"])
  then show ?thesis unfolding RawURL_EncodeToString_def set_map by (metis imageE)
qed

lemma those_map_Some: "(\<And>x. x \<in> set xs \<Longrightarrow> f x = Some (g x)) \<Longrightarrow> those (map f xs) = Some (map g xs)"
  by (induction xs) auto

lemma RawURL_roundtrip: "RawURL_DecodeString (RawURL_EncodeToString bs) = Some bs"
proof -
  let ?vs = "b64_sextets (map code bs)"
  have small: "\<forall>v \<in> set ?vs. v < 64" by (rule b64_sextets_small) simp
  then have "filter (\<lambda>c. c \<noteq> CHR 0x0A \<and> c \<noteq> CHR 0x0D) (map b64url_char ?vs) = map b64url_char ?vs"
    using b64url_char_line by (intro filter_True) auto
  moreover have "those (map b64url_value (map b64url_char ?vs)) = Some ?vs"
    using those_map_Some [of ?vs "b64url_value \<circ> b64url_char" id] small b64url_value_char by simp
  moreover have "b64_bytes ?vs = Some (map code bs)" by (rule b64_bytes_sextets) simp
  ultimately show ?thesis by (simp add: RawURL_DecodeString_def RawURL_EncodeToString_def o_def)
qed

section \<open>What is accepted\<close>

lemma split_dots_nonempty [simp]: "split_dots s \<noteq> []"
  by (cases s) (auto split: list.splits)

lemma split_dots_last: "CHR ''.'' \<notin> set s \<Longrightarrow> split_dots s = [s]"
  by (induction s) auto

lemma split_dots_first: "CHR ''.'' \<notin> set p \<Longrightarrow> split_dots (p @ CHR ''.'' # s) = p # split_dots s"
  by (induction p) auto

lemma split_dots_Cons:
  "split_dots s = p # ps \<Longrightarrow> CHR ''.'' \<notin> set p \<and> (case ps of [] \<Rightarrow> s = p | _ \<Rightarrow> \<exists>s'. s = p @ CHR ''.'' # s' \<and> split_dots s' = ps)"
proof (induction s arbitrary: p)
  case (Cons c s)
  show ?case
  proof (cases "c = CHR ''.''")
    case True
    with Cons.prems show ?thesis by (cases ps) auto
  next
    case False
    then obtain q where q: "split_dots s = q # ps" "p = c # q" using Cons.prems by (auto split: list.splits)
    with Cons.IH [OF q(1)] False show ?thesis by (auto split: list.splits)
  qed
qed simp

lemma split_dots_three:
  "split_dots s = [a, b, c] \<longleftrightarrow> s = a @ ''.'' @ b @ ''.'' @ c \<and> CHR ''.'' \<notin> set a \<union> set b \<union> set c"
proof
  assume "split_dots s = [a, b, c]"
  then obtain s1 where 1: "s = a @ CHR ''.'' # s1" "CHR ''.'' \<notin> set a" "split_dots s1 = [b, c]"
    using split_dots_Cons [of s a "[b, c]"] by auto
  from 1(3) obtain s2 where 2: "s1 = b @ CHR ''.'' # s2" "CHR ''.'' \<notin> set b" "split_dots s2 = [c]"
    using split_dots_Cons [of s1 b "[c]"] by auto
  from 2(3) have "s2 = c" "CHR ''.'' \<notin> set c" using split_dots_Cons [of s2 c "[]"] by auto
  with 1 2 show "s = a @ ''.'' @ b @ ''.'' @ c \<and> CHR ''.'' \<notin> set a \<union> set b \<union> set c" by auto
next
  assume "s = a @ ''.'' @ b @ ''.'' @ c \<and> CHR ''.'' \<notin> set a \<union> set b \<union> set c"
  then show "split_dots s = [a, b, c]" by (simp add: split_dots_first split_dots_last)
qed

text \<open>A signature that a key of the set made over the two first parts of a token.\<close>

definition signed_by :: "oidc_crypto \<Rightarrow> jwks \<Rightarrow> string \<Rightarrow> string \<Rightarrow> string \<Rightarrow> bool" where
  "signed_by K keys p0 p1 p2 \<longleftrightarrow> (\<exists>hb hdr sig. RawURL_DecodeString p0 = Some hb \<and>
     decode_struct header_members \<lparr>th_alg = [], th_kid = []\<rparr> hb = Some hdr \<and> RawURL_DecodeString p2 = Some sig \<and>
     (th_alg hdr = ''RS256'' \<and> (\<exists>n e. keys (th_kid hdr) = Some (RSAKey n e) \<and> oc_rsa K n e (oc_sha256 K (p0 @ ''.'' @ p1)) sig) \<or>
      th_alg hdr = ''ES256'' \<and> length sig = 64 \<and> (\<exists>x y. keys (th_kid hdr) = Some (ECKey x y) \<and>
        oc_ecdsa K x y (oc_sha256 K (p0 @ ''.'' @ p1)) (SetBytes (take 32 sig)) (SetBytes (drop 32 sig)))))"

lemma signature_error_None:
  "alg = ''RS256'' \<or> alg = ''ES256'' \<Longrightarrow> signature_error K alg key digest sig = None \<longleftrightarrow>
     alg = ''RS256'' \<and> (\<exists>n e. key = RSAKey n e \<and> oc_rsa K n e digest sig) \<or>
     alg = ''ES256'' \<and> length sig = 64 \<and> (\<exists>x y. key = ECKey x y \<and> oc_ecdsa K x y digest (SetBytes (take 32 sig)) (SetBytes (drop 32 sig)))"
  by (cases key) (auto simp: signature_error_def)

lemma claims_error_None:
  "claims_error p now c = None \<longleftrightarrow> cl_Iss c = vp_Issuer p \<and> vp_ClientID p \<in> set (cl_Aud c) \<and> cl_Nonce c = vp_Nonce p \<and>
     now \<le> wrap64 (cl_Exp c + leewaySeconds) \<and> (cl_Iat c = 0 \<or> cl_Iat c \<le> wrap64 (now + leewaySeconds))"
  by (auto simp: claims_error_def not_less)

lemma VerifyIDToken_iff:
  "VerifyIDToken K raw keys p now = Inr c \<longleftrightarrow>
     (\<exists>p0 p1 p2 payload. raw = p0 @ ''.'' @ p1 @ ''.'' @ p2 \<and> CHR ''.'' \<notin> set p0 \<union> set p1 \<union> set p2 \<and>
        signed_by K keys p0 p1 p2 \<and> RawURL_DecodeString p1 = Some payload \<and>
        decode_struct claim_members zero_claims payload = Some c \<and> claims_error p now c = None)"
  (is "?L \<longleftrightarrow> ?R")
proof
  assume ?L
  then obtain p0 p1 p2 where parts: "split_dots raw = [p0, p1, p2]"
    by (auto simp: VerifyIDToken_def split: list.splits)
  with \<open>?L\<close> obtain hb hdr key sig payload where
    st: "RawURL_DecodeString p0 = Some hb" "decode_struct header_members \<lparr>th_alg = [], th_kid = []\<rparr> hb = Some hdr"
      "th_alg hdr = ''RS256'' \<or> th_alg hdr = ''ES256''" "keys (th_kid hdr) = Some key" "RawURL_DecodeString p2 = Some sig"
      "signature_error K (th_alg hdr) key (oc_sha256 K (p0 @ ''.'' @ p1)) sig = None" "RawURL_DecodeString p1 = Some payload"
      "decode_struct claim_members zero_claims payload = Some c" "claims_error p now c = None"
    by (auto simp: VerifyIDToken_def split: option.splits if_splits)
  have "signed_by K keys p0 p1 p2"
    unfolding signed_by_def using st(1,2,4,5) st(6) [unfolded signature_error_None [OF st(3)]] by blast
  with st(7-9) parts [unfolded split_dots_three] show ?R by blast
next
  assume ?R
  then obtain p0 p1 p2 payload where parts: "split_dots raw = [p0, p1, p2]" and s: "signed_by K keys p0 p1 p2"
    and rest: "RawURL_DecodeString p1 = Some payload" "decode_struct claim_members zero_claims payload = Some c" "claims_error p now c = None"
    unfolding split_dots_three by blast
  from s obtain hb hdr sig key where "RawURL_DecodeString p0 = Some hb"
      "decode_struct header_members \<lparr>th_alg = [], th_kid = []\<rparr> hb = Some hdr" "RawURL_DecodeString p2 = Some sig"
      "th_alg hdr = ''RS256'' \<or> th_alg hdr = ''ES256''" "keys (th_kid hdr) = Some key"
      "signature_error K (th_alg hdr) key (oc_sha256 K (p0 @ ''.'' @ p1)) sig = None"
    unfolding signed_by_def by (auto simp: signature_error_None)
  with parts rest show ?L by (auto simp: VerifyIDToken_def)
qed

text \<open>A token without a signature, or one under a shared secret, is refused whatever the keys are.\<close>

lemma unsigned_refused:
  assumes "RawURL_DecodeString p0 = Some hb" "decode_struct header_members \<lparr>th_alg = [], th_kid = []\<rparr> hb = Some hdr"
    and "th_alg hdr \<notin> {''RS256'', ''ES256''}" "split_dots raw = [p0, p1, p2]"
  shows "VerifyIDToken K raw keys p now = Inl ErrUnsupportedAlg"
  using assms by (simp add: VerifyIDToken_def)

end
