(* ===== verification/Sso.thy ===== *)
theory Sso
  imports Admin_Ops Oidc
begin

text \<open>
  Single sign-on for tenants: the provider of a tenant and its mail domains (\<^verbatim>\<open>store/tenant_idp.go\<close>,
  \<^verbatim>\<open>mgmt/sso.go\<close>), and the resolution of a login, the mapping of a verified address to an operator and the
  provisioning of new operators (\<^verbatim>\<open>ssologin/ssologin.go\<close>, \<^verbatim>\<open>store/idp_login.go\<close>). A domain of the mail leads to
  one tenant at most; provisioning adds an operator without any binding.
\<close>

section \<open>Tables\<close>

record idp_row =
  ir_TenantID :: int64
  ir_Issuer :: string
  ir_ClientID :: string
  ir_ClientSecretEnc :: string
  ir_Enabled :: bool
  ir_JITEnabled :: bool

record idp_domain =
  im_tenant :: int64
  im_domain :: string

record sso_db =
  ix_admin :: admin_db
  ix_idps :: "idp_row list"
  ix_domains :: "idp_domain list"

section \<open>The provider of a tenant\<close>

definition upsert_idp :: "idp_row \<Rightarrow> sso_db \<Rightarrow> (db_error, sso_db) res" where
  "upsert_idp row db =
     (if ir_TenantID row \<notin> tn_id ` set (ad_tenants (ix_admin db)) then Inl ForeignKeyViolation
      else if \<exists>r \<in> set (ix_idps db). ir_TenantID r = ir_TenantID row
      then Inr (db\<lparr>ix_idps := map (\<lambda>r. if ir_TenantID r = ir_TenantID row then row else r) (ix_idps db)\<rparr>)
      else Inr (db\<lparr>ix_idps := ix_idps db @ [row]\<rparr>))"

definition delete_domains :: "int64 \<Rightarrow> sso_db \<Rightarrow> sso_db" where
  "delete_domains tenantID db = db\<lparr>ix_domains := filter (\<lambda>d. im_tenant d \<noteq> tenantID) (ix_domains db)\<rparr>"

definition insert_domain :: "int64 \<Rightarrow> string \<Rightarrow> sso_db \<Rightarrow> (db_error, sso_db) res" where
  "insert_domain tenantID norm db =
     (if norm \<in> im_domain ` set (ix_domains db) then Inl UniqueViolation
      else if tenantID \<notin> tn_id ` set (ad_tenants (ix_admin db)) then Inl ForeignKeyViolation
      else Inr (db\<lparr>ix_domains := ix_domains db @ [\<lparr>im_tenant = tenantID, im_domain = norm\<rparr>]\<rparr>))"

definition norm_domain :: "(string \<Rightarrow> string) \<Rightarrow> string \<Rightarrow> string" where
  "norm_domain unicode d = ToLower unicode (TrimSpace d)"

fun domains_loop :: "(string \<Rightarrow> string) \<Rightarrow> int64 \<Rightarrow> string list \<Rightarrow> string set \<Rightarrow> sso_db \<Rightarrow> (db_error, sso_db) res" where
  "domains_loop unicode tenantID [] seen db = Inr db"
| "domains_loop unicode tenantID (d # ds) seen db =
     (let norm = norm_domain unicode d
      in if norm \<in> seen then domains_loop unicode tenantID ds seen db
         else case insert_domain tenantID norm db of
           Inl e \<Rightarrow> Inl e
         | Inr db' \<Rightarrow> domains_loop unicode tenantID ds (insert norm seen) db')"

definition UpsertTenantIdpTx :: "(string \<Rightarrow> string) \<Rightarrow> idp_row \<Rightarrow> string list \<Rightarrow> sso_db \<Rightarrow> (db_error, sso_db) res" where
  "UpsertTenantIdpTx unicode row domains db =
     (case upsert_idp row db of
        Inl e \<Rightarrow> Inl e
      | Inr db1 \<Rightarrow> domains_loop unicode (ir_TenantID row) domains {} (delete_domains (ir_TenantID row) db1))"

definition DeleteTenantIdpTx :: "int64 \<Rightarrow> sso_db \<Rightarrow> bool \<times> sso_db" where
  "DeleteTenantIdpTx tenantID db =
     (let db1 = delete_domains tenantID db
      in (tenantID \<in> ir_TenantID ` set (ix_idps db1), db1\<lparr>ix_idps := filter (\<lambda>r. ir_TenantID r \<noteq> tenantID) (ix_idps db1)\<rparr>))"

definition IdPLoginByTenant :: "sso_db \<Rightarrow> int64 \<Rightarrow> idp_row option" where
  "IdPLoginByTenant db tenantID =
     (case filter (\<lambda>r. ir_TenantID r = tenantID) (ix_idps db) of r # _ \<Rightarrow> Some r | [] \<Rightarrow> None)"

definition TenantIdpSecretEnc :: "sso_db \<Rightarrow> int64 \<Rightarrow> string option" where
  "TenantIdpSecretEnc db tenantID = map_option ir_ClientSecretEnc (IdPLoginByTenant db tenantID)"

text \<open>The view without the credential. The order of the domains is that of their bytes.\<close>

record tenant_idp =
  ti_Configured :: bool
  ti_Issuer :: string
  ti_ClientID :: string
  ti_Domains :: "string list"
  ti_Enabled :: bool
  ti_JITEnabled :: bool

definition TenantIdpOf :: "sso_db \<Rightarrow> int64 \<Rightarrow> tenant_idp" where
  "TenantIdpOf db tenantID =
     (case IdPLoginByTenant db tenantID of
        None \<Rightarrow> \<lparr>ti_Configured = False, ti_Issuer = [], ti_ClientID = [], ti_Domains = [], ti_Enabled = False, ti_JITEnabled = False\<rparr>
      | Some r \<Rightarrow> \<lparr>ti_Configured = True, ti_Issuer = ir_Issuer r, ti_ClientID = ir_ClientID r,
          ti_Domains = sort (map im_domain (filter (\<lambda>d. im_tenant d = tenantID) (ix_domains db))),
          ti_Enabled = ir_Enabled r, ti_JITEnabled = ir_JITEnabled r\<rparr>)"

section \<open>Handlers\<close>

definition sso_audit :: "int64 \<Rightarrow> string \<Rightarrow> string \<Rightarrow> sso_db \<Rightarrow> sso_db" where
  "sso_audit tenantID operator act db =
     db\<lparr>ix_admin := InsertAdminAudit (Some tenantID) operator act ''tenant_idp'' (show_uint tenantID) None (ix_admin db)\<rparr>"

record idp_request =
  cr_TenantId :: uint64
  cr_Issuer :: string
  cr_ClientId :: string
  cr_ClientSecret :: string
  cr_Domains :: "string list"
  cr_Enabled :: bool
  cr_JitEnabled :: bool

definition idp_secret :: "tx_env \<Rightarrow> idp_request \<Rightarrow> sso_db \<Rightarrow> (admin_status, string) res" where
  "idp_secret X r db =
     (if cr_ClientSecret r = [] then
        (case TenantIdpSecretEnc db (cr_TenantId r) of
           None \<Rightarrow> Inl (InvalidArgument, ''client_secret required for first configuration'')
         | Some enc \<Rightarrow> Inr enc)
      else (case te_encrypt X (cr_ClientSecret r) of Inl _ \<Rightarrow> Inl (Internal, []) | Inr enc \<Rightarrow> Inr enc))"

definition ConfigureTenantIdp ::
    "tx_env \<Rightarrow> string \<Rightarrow> idp_request \<Rightarrow> sso_db \<Rightarrow> (admin_status, uint64 \<times> bool) res \<times> sso_db" where
  "ConfigureTenantIdp X operator r db =
     (if cr_Issuer r = [] \<or> cr_ClientId r = [] \<or> cr_Domains r = []
      then (Inl (InvalidArgument, ''issuer, client_id, domains required''), db)
      else if \<exists>d \<in> set (cr_Domains r). TrimSpace d = [] then (Inl (InvalidArgument, ''domain must not be empty''), db)
      else tx_run X (\<lambda>db.
        bindE (idp_secret X r db) (\<lambda>e. e) (\<lambda>enc.
        bindE (UpsertTenantIdpTx (te_lower X)
            \<lparr>ir_TenantID = cr_TenantId r, ir_Issuer = cr_Issuer r, ir_ClientID = cr_ClientId r, ir_ClientSecretEnc = enc,
             ir_Enabled = cr_Enabled r, ir_JITEnabled = cr_JitEnabled r\<rparr> (cr_Domains r) db)
          (\<lambda>e. if isUniqueViolation e then (AlreadyExists, ''domain already claimed by another tenant'')
               else if isForeignKeyViolation e then (NotFound, ''unknown tenant'') else internal e) (\<lambda>db1.
        Inr ((cr_TenantId r, cr_Enabled r), sso_audit (cr_TenantId r) operator ''configure_idp'' db1)))) db)"

definition DeleteTenantIdp :: "tx_env \<Rightarrow> string \<Rightarrow> uint64 \<Rightarrow> sso_db \<Rightarrow> (admin_status, write_response) res \<times> sso_db" where
  "DeleteTenantIdp X operator tenantID db =
     tx_run X (\<lambda>db.
       case DeleteTenantIdpTx tenantID db of
         (False, _) \<Rightarrow> Inl (NotFound, ''no idp configured'')
       | (True, db1) \<Rightarrow> Inr (\<lparr>wr_Version = 0, wr_Changed = False\<rparr>, sso_audit tenantID operator ''delete_idp'' db1)) db"

definition GetTenantIdp :: "sso_db \<Rightarrow> uint64 \<Rightarrow> tenant_idp" where
  "GetTenantIdp db tenantID = TenantIdpOf db tenantID"

section \<open>Logins\<close>

definition IdPLoginByDomain :: "sso_db \<Rightarrow> string \<Rightarrow> idp_row option" where
  "IdPLoginByDomain db domain =
     (case concat (map (\<lambda>r. map (\<lambda>_. r) (filter (\<lambda>d. im_tenant d = ir_TenantID r \<and> im_domain d = domain) (ix_domains db))) (ix_idps db)) of
        r # _ \<Rightarrow> Some r
      | [] \<Rightarrow> None)"

record idp_login =
  il_TenantID :: int64
  il_Issuer :: string
  il_ClientID :: string
  il_ClientSecret :: string
  il_Enabled :: bool
  il_JITEnabled :: bool

text \<open>\<open>unseal\<close> is the authenticated decryption, as in theory \<open>Auth\<close>.\<close>

definition decrypt_login :: "(string \<Rightarrow> string \<Rightarrow> string \<Rightarrow> string option) \<Rightarrow> string \<Rightarrow> idp_row \<Rightarrow> (crypto_error, idp_login) res" where
  "decrypt_login unseal masterKey row =
     (case Decrypt unseal masterKey (ir_ClientSecretEnc row) of
        Inl e \<Rightarrow> Inl e
      | Inr plain \<Rightarrow> Inr \<lparr>il_TenantID = ir_TenantID row, il_Issuer = ir_Issuer row, il_ClientID = ir_ClientID row,
          il_ClientSecret = plain, il_Enabled = ir_Enabled row, il_JITEnabled = ir_JITEnabled row\<rparr>)"

definition resolve_row ::
    "(string \<Rightarrow> string \<Rightarrow> string \<Rightarrow> string option) \<Rightarrow> string \<Rightarrow> idp_row option \<Rightarrow> (crypto_error, idp_login option) res" where
  "resolve_row unseal masterKey row =
     (case row of
        None \<Rightarrow> Inr None
      | Some r \<Rightarrow> (case decrypt_login unseal masterKey r of Inl e \<Rightarrow> Inl e | Inr l \<Rightarrow> Inr (Some l)))"

definition ResolveIdPByDomain ::
    "(string \<Rightarrow> string \<Rightarrow> string \<Rightarrow> string option) \<Rightarrow> string \<Rightarrow> sso_db \<Rightarrow> string \<Rightarrow> (crypto_error, idp_login option) res" where
  "ResolveIdPByDomain unseal masterKey db domain = resolve_row unseal masterKey (IdPLoginByDomain db domain)"

definition ResolveIdPByTenant ::
    "(string \<Rightarrow> string \<Rightarrow> string \<Rightarrow> string option) \<Rightarrow> string \<Rightarrow> sso_db \<Rightarrow> int64 \<Rightarrow> (crypto_error, idp_login option) res" where
  "ResolveIdPByTenant unseal masterKey db tenantID = resolve_row unseal masterKey (IdPLoginByTenant db tenantID)"

definition OperatorEmailMatch :: "admin_db \<Rightarrow> int64 \<Rightarrow> string \<Rightarrow> string option" where
  "OperatorEmailMatch db tenantID email =
     (case filter (\<lambda>r. op_email r = Some email \<and> op_status r = 1 \<and>
             (\<exists>m \<in> set (ad_memberships db). mb_operator m = op_id r \<and> mb_tenant m = tenantID)) (ad_operators db) of
        r # _ \<Rightarrow> Some (op_principal r)
      | [] \<Rightarrow> None)"

definition TierMember :: int where "TierMember = 3"

definition InsertJITOperatorTx :: "admin_pg \<Rightarrow> string \<Rightarrow> string \<Rightarrow> admin_db \<Rightarrow> (db_error, int64 \<times> admin_db) res" where
  "InsertJITOperatorTx pg email secretEnc db =
     (let i = apg_id pg db
      in if \<exists>r \<in> set (ad_operators db). op_principal r = email \<or> op_email r = Some email \<or> op_id r = i then Inl UniqueViolation
         else Inr (i, db\<lparr>ad_operators := ad_operators db @
                [\<lparr>op_id = i, op_principal = email, op_secret = secretEnc, op_status = 1, op_email = Some email\<rparr>]\<rparr>))"

definition provision_tx :: "admin_pg \<Rightarrow> tx_env \<Rightarrow> int64 \<Rightarrow> string \<Rightarrow> admin_db \<Rightarrow> (db_error, admin_db) res" where
  "provision_tx pg X tenantID email db =
     (case te_secret X of
        None \<Rightarrow> Inl TxFailed
      | Some secret \<Rightarrow>
          (case te_encrypt X secret of
             Inl _ \<Rightarrow> Inl TxFailed
           | Inr enc \<Rightarrow>
               bindE (InsertJITOperatorTx pg email enc db) (\<lambda>e. e) (\<lambda>(opID, db1).
               bindE (InsertMembership tenantID opID TierMember db1) (\<lambda>e. e) (\<lambda>(_, db2).
               Inr (InsertAdminAudit (Some tenantID) ''sso_jit'' ''jit_provision'' ''operator'' email None db2)))))"

definition ProvisionOperatorForLogin ::
    "admin_pg \<Rightarrow> tx_env \<Rightarrow> int64 \<Rightarrow> string \<Rightarrow> admin_db \<Rightarrow> (db_error, string option) res \<times> admin_db" where
  "ProvisionOperatorForLogin pg X tenantID email db =
     (if \<not> te_begin X then (Inl TxFailed, db)
      else if \<exists>r \<in> set (ad_operators db). op_email r = Some email then (Inr None, db)
      else case provision_tx pg X tenantID email db of
        Inl e \<Rightarrow> (Inl e, db)
      | Inr db' \<Rightarrow> if te_commit X then (Inr (Some email), db') else (Inl TxFailed, db))"

section \<open>One tenant per domain\<close>

definition routes_ok :: "sso_db \<Rightarrow> bool" where
  "routes_ok db \<longleftrightarrow> distinct (map im_domain (ix_domains db)) \<and> distinct (map ir_TenantID (ix_idps db))"

lemma routes_delete: "routes_ok db \<Longrightarrow> routes_ok (delete_domains t db)"
  by (simp add: routes_ok_def delete_domains_def distinct_map_filter)

lemma domains_loop_ok:
  "domains_loop u t ds seen db = Inr db' \<Longrightarrow> routes_ok db \<Longrightarrow>
     routes_ok db' \<and> ix_admin db' = ix_admin db \<and> ix_idps db' = ix_idps db \<and>
     set (ix_domains db') = set (ix_domains db) \<union> {\<lparr>im_tenant = t, im_domain = d\<rparr> |d. d \<in> norm_domain u ` set ds - seen}"
proof (induction ds arbitrary: seen db)
  case (Cons d ds)
  show ?case
  proof (cases "norm_domain u d \<in> seen")
    case True
    with Cons show ?thesis by (auto simp: Let_def)
  next
    case False
    then obtain db1 where ins: "insert_domain t (norm_domain u d) db = Inr db1"
        "domains_loop u t ds (insert (norm_domain u d) seen) db1 = Inr db'"
      using Cons.prems(1) by (auto simp: Let_def split: sum.splits)
    from ins(1) Cons.prems(2) have "routes_ok db1" "ix_admin db1 = ix_admin db" "ix_idps db1 = ix_idps db"
        "set (ix_domains db1) = insert \<lparr>im_tenant = t, im_domain = norm_domain u d\<rparr> (set (ix_domains db))"
      by (auto simp: insert_domain_def routes_ok_def split: if_splits)
    with Cons.IH [OF ins(2)] False show ?thesis by auto
  qed
qed simp

lemma replaced_ids: "map ir_TenantID (map (\<lambda>r. if ir_TenantID r = ir_TenantID row then row else r) rs) = map ir_TenantID rs"
  by (induction rs) auto

lemma upsert_idp_ok: "upsert_idp row db = Inr db' \<Longrightarrow> routes_ok db \<Longrightarrow> routes_ok db' \<and> ix_domains db' = ix_domains db"
proof -
  assume up: "upsert_idp row db = Inr db'" and ok: "routes_ok db"
  show ?thesis
  proof (cases "\<exists>r \<in> set (ix_idps db). ir_TenantID r = ir_TenantID row")
    case True
    with up have "db' = db\<lparr>ix_idps := map (\<lambda>r. if ir_TenantID r = ir_TenantID row then row else r) (ix_idps db)\<rparr>"
      by (simp add: upsert_idp_def split: if_splits)
    with ok show ?thesis by (simp add: routes_ok_def replaced_ids del: map_map)
  next
    case False
    with up have "db' = db\<lparr>ix_idps := ix_idps db @ [row]\<rparr>" by (simp add: upsert_idp_def split: if_splits)
    with False ok show ?thesis by (simp add: routes_ok_def) (metis imageE)
  qed
qed

text \<open>The two handlers keep it that a domain leads to one tenant and a tenant has one provider.\<close>

lemma handlers_keep_routes:
  assumes "routes_ok db"
  shows "routes_ok (snd (ConfigureTenantIdp X op r db))" "routes_ok (snd (DeleteTenantIdp X op t db))"
proof -
  have audit: "routes_ok (sso_audit t op a db') = routes_ok db'" for t op a db' by (simp add: routes_ok_def sso_audit_def)
  have up: "UpsertTenantIdpTx u row ds db = Inr db' \<Longrightarrow> routes_ok db'" for u row ds db'
    using assms domains_loop_ok upsert_idp_ok routes_delete by (fastforce simp: UpsertTenantIdpTx_def split: sum.splits)
  show "routes_ok (snd (ConfigureTenantIdp X op r db))"
    using assms up audit by (auto simp: ConfigureTenantIdp_def tx_run_def bindE_Ok split: sum.splits)
  show "routes_ok (snd (DeleteTenantIdp X op t db))"
    using assms audit routes_delete [OF assms, of t]
    by (auto simp: DeleteTenantIdp_def tx_run_def DeleteTenantIdpTx_def Let_def routes_ok_def distinct_map_filter split: sum.splits bool.splits)
qed

lemma domain_leads_to_owner:
  assumes "routes_ok db" "IdPLoginByDomain db domain = Some r" "IdPLoginByDomain db domain = Some r'"
    and "d \<in> set (ix_domains db)" "im_domain d = domain"
  shows "r = r' \<and> r \<in> set (ix_idps db) \<and> im_tenant d = ir_TenantID r"
proof -
  from assms(2) have "r \<in> set (concat (map (\<lambda>r. map (\<lambda>_. r)
      (filter (\<lambda>d. im_tenant d = ir_TenantID r \<and> im_domain d = domain) (ix_domains db))) (ix_idps db)))"
    by (auto simp: IdPLoginByDomain_def simp del: set_concat set_map split: list.splits)
  then obtain d' where "r \<in> set (ix_idps db)" "d' \<in> set (ix_domains db)" "im_tenant d' = ir_TenantID r" "im_domain d' = domain" by auto
  moreover then have "d' = d" using assms(1,4,5) by (auto simp: routes_ok_def distinct_map inj_on_def)
  ultimately show ?thesis using assms(2,3) by simp
qed

section \<open>Provisioning\<close>

lemma provision_tx_Inr:
  assumes "provision_tx pg X t email db = Inr db'"
  obtains enc i b db1 db2 where "InsertJITOperatorTx pg email enc db = Inr (i, db1)" "InsertMembership t i TierMember db1 = Inr (b, db2)"
    "db' = InsertAdminAudit (Some t) ''sso_jit'' ''jit_provision'' ''operator'' email None db2"
  using assms by (fastforce simp: provision_tx_def bindE_Ok split: option.splits sum.splits)

lemma provision_out:
  "snd (ProvisionOperatorForLogin pg X t email db) = db \<or> provision_tx pg X t email db = Inr (snd (ProvisionOperatorForLogin pg X t email db))"
  by (auto simp: ProvisionOperatorForLogin_def split: sum.splits)

lemma silent_provision: "silent db (snd (ProvisionOperatorForLogin pg X t email db))"
proof (cases "snd (ProvisionOperatorForLogin pg X t email db) = db")
  case False
  with provision_out [of pg X t email db] obtain db' where db': "snd (ProvisionOperatorForLogin pg X t email db) = db'" "provision_tx pg X t email db = Inr db'"
    by auto
  obtain enc i b db1 db2 where st: "InsertJITOperatorTx pg email enc db = Inr (i, db1)" "InsertMembership t i TierMember db1 = Inr (b, db2)"
      "db' = InsertAdminAudit (Some t) ''sso_jit'' ''jit_provision'' ''operator'' email None db2"
    using provision_tx_Inr [OF db'(2)] .
  have "silent db db1" using st(1) by (intro silent_new_operator) (auto simp: InsertJITOperatorTx_def Let_def split: if_splits)
  then have "silent db db2" using silent_accounts(3) [OF st(2)] by (rule silent_trans)
  then show ?thesis unfolding db'(1) st(3) by (rule silent_trans) (rule silent_tables(1))
qed simp

text \<open>Only an address that no operator has is provisioned, as an active member of the tenant without bindings.\<close>

lemma provisioned_member:
  assumes "ProvisionOperatorForLogin pg X t email db = (Inr (Some who), db')"
  shows "who = email \<and> (\<forall>r \<in> set (ad_operators db). op_email r \<noteq> Some email \<and> op_principal r \<noteq> email) \<and>
    OperatorEmailMatch db' t email = Some email \<and> ad_subjects db' = ad_subjects db \<and> ad_grants db' = ad_grants db \<and> ad_roles db' = ad_roles db"
proof -
  from assms have tx: "provision_tx pg X t email db = Inr db'" "who = email"
    by (auto simp: ProvisionOperatorForLogin_def split: if_splits sum.splits)
  obtain enc i b db1 db2 where st: "InsertJITOperatorTx pg email enc db = Inr (i, db1)" "InsertMembership t i TierMember db1 = Inr (b, db2)"
      "db' = InsertAdminAudit (Some t) ''sso_jit'' ''jit_provision'' ''operator'' email None db2"
    using provision_tx_Inr [OF tx(1)] .
  let ?new = "\<lparr>op_id = i, op_principal = email, op_secret = enc, op_status = 1, op_email = Some email\<rparr>"
  from st(1) have 1: "\<forall>r \<in> set (ad_operators db). op_email r \<noteq> Some email \<and> op_principal r \<noteq> email"
      "db1 = db\<lparr>ad_operators := ad_operators db @ [?new]\<rparr>"
    by (auto simp: InsertJITOperatorTx_def Let_def split: if_splits)
  from st(2) have 2: "\<exists>m \<in> set (ad_memberships db2). mb_operator m = i \<and> mb_tenant m = t"
      "ad_operators db2 = ad_operators db1" "ad_subjects db2 = ad_subjects db1" "ad_grants db2 = ad_grants db1" "ad_roles db2 = ad_roles db1"
    by (auto simp: InsertMembership_def split: if_splits)
  have "filter (\<lambda>r. op_email r = Some email \<and> Q r) (ad_operators db) = []" for Q using 1(1) by (auto simp: filter_empty_conv)
  with 1 2 st(3) tx(2) show ?thesis by (simp add: OperatorEmailMatch_def InsertAdminAudit_def)
qed

end
