(* ===== verification/Admin_Sync.thy ===== *)
theory Admin_Sync
  imports Sso
begin

text \<open>
  The enforcer of the control plane under all the operations that write its tables: registration, invitation,
  seeding, the operations of theory \<open>Admin_Ops\<close> and the provisioning of theory \<open>Sso\<close>. Calls and decisions
  interleave: a decision may read the version, and load the rows only after further calls have been committed.
  The result is that a decision always follows the rows that are stored when it begins.
\<close>

section \<open>Calls\<close>

inductive admin_call :: "admin_db \<Rightarrow> admin_db \<Rightarrow> bool" where
  register: "admin_call db (snd (RegisterTenant pg X name owner db))"
| invite: "admin_call db (snd (InviteMember pg X operator t who db))"
| root: "admin_call db (snd (EnsureRootOperator pg X who secret db))"
| tenant_admin: "admin_call db (snd (EnsureTenantAdmin pg X t who secret db))"
| create_application: "admin_call db (snd (CreateApplication pg X operator t domain name key db))"
| application_status: "admin_call db (snd (SetApplicationStatus X operator app st db))"
| rotate_secret: "admin_call db (snd (RotateApplicationSecret X operator app db))"
| create_operator: "admin_call db (snd (CreateOperator pg X operator who mail db))"
| operator_email: "admin_call db (snd (SetOperatorEmail X operator who mail db))"
| operator_status: "admin_call db (snd (SetOperatorStatus X operator i st db))"
| reset_secret: "admin_call db (snd (ResetOperatorSecret X operator i db))"
| create_role: "admin_call db (snd (CreateAdminRole pg cd name db))"
| grant: "admin_call db (snd (GrantAdminRole X operator r domain resource act db))"
| bind: "admin_call db (snd (BindOperatorRole X operator i r domain db))"
| revoke: "admin_call db (snd (RevokeAdminGrant X operator r domain resource act db))"
| unbind: "admin_call db (snd (UnbindOperatorRole X operator i r domain db))"
| change_plan: "admin_call db (snd (ChangeTenantPlan X now later operator t plan db))"
| provision: "admin_call db (snd (ProvisionOperatorForLogin pg X t email db))"

inductive calls :: "nat \<Rightarrow> admin_db \<Rightarrow> admin_db \<Rightarrow> bool" where
  calls_none: "calls 0 db db"
| calls_more: "calls n db db1 \<Longrightarrow> admin_call db1 db2 \<Longrightarrow> calls (Suc n) db db2"

inductive_cases calls_0: "calls 0 db db'"

lemma admin_call_lawful: "admin_call db db' \<Longrightarrow> lawful db db'"
proof (induction rule: admin_call.induct)
  case (provision db pg X t email)
  then show ?case using silent_provision by (simp add: lawful_def)
qed (simp_all add: lawful_operations lawful_CreateOperator lawful_CreateAdminRole lawful_ChangeTenantPlan lawful_RegisterTenant
    lawful_InviteMember lawful_EnsureRootOperator lawful_EnsureTenantAdmin)

text \<open>The version counts the announced changes, and without one the rows are the same.\<close>

lemma calls_version:
  assumes "calls n db db'" "refs_ok db" "ad_version db = Some v"
  shows "refs_ok db' \<and> (\<exists>k \<le> n. ad_version db' = Some (v + of_nat k) \<and> (k = 0 \<longrightarrow> policy_rows db' = policy_rows db))"
  using assms
proof (induction rule: calls.induct)
  case (calls_more n db db1 db2)
  then obtain k where k: "k \<le> n" "ad_version db1 = Some (v + of_nat k)" "k = 0 \<longrightarrow> policy_rows db1 = policy_rows db" "refs_ok db1"
    by auto
  from admin_call_lawful [OF calls_more.hyps(2)] show ?case
  proof (unfold lawful_def, elim disjE)
    assume "silent db1 db2"
    with k show ?thesis by (auto simp: silent_def intro!: exI [of _ k])
  next
    assume "announced db1 db2"
    with k have "refs_ok db2" "ad_version db2 = Some (v + of_nat (Suc k))" by (auto simp: announced_def algebra_simps)
    with k(1) show ?thesis by (intro conjI exI [of _ "Suc k"]) simp_all
  qed
qed (auto intro!: exI [of _ 0])

lemma calls_append: "calls n db1 db2 \<Longrightarrow> calls m db db1 \<Longrightarrow> calls (m + n) db db2"
  by (induction rule: calls.induct) (auto intro: calls.intros)

section \<open>The enforcer among the calls\<close>

inductive admin_sys :: "'ce admin_engine \<Rightarrow> 'ce \<Rightarrow> admin_db \<Rightarrow> nat \<Rightarrow> admin_db \<Rightarrow> 'ce admin_enforcer \<Rightarrow> bool"
  for A :: "'ce admin_engine" and ce :: 'ce and db0 :: admin_db where
  start: "NewEnforcer A ce db0 db0 = Inr en \<Longrightarrow> admin_sys A ce db0 0 db0 en"
| call: "admin_sys A ce db0 n db en \<Longrightarrow> admin_call db db' \<Longrightarrow> admin_sys A ce db0 (Suc n) db' en"
| decide: "admin_sys A ce db0 n db en \<Longrightarrow> calls m db db' \<Longrightarrow> snd (Enforcer_Enforce A db db' req en) = en' \<Longrightarrow> admin_sys A ce db0 (n + m) db' en'"

context admin_casbin
begin

text \<open>The enforcer holds rows that were loaded after its version was read.\<close>

definition fresh_since :: "nat \<Rightarrow> admin_db \<Rightarrow> 'ce admin_enforcer \<Rightarrow> bool" where
  "fresh_since n db en \<longleftrightarrow> (\<exists>i j dbv dbr. i + j \<le> n \<and> calls i dbv dbr \<and> calls j dbr db \<and> refs_ok dbv \<and>
     ad_version dbv = Some (en_loadedV en) \<and> holds (en_e en) = (set (LoadPolicyRows dbr), set (LoadGroupingRows dbr)))"

lemma fresh_since_refs: "fresh_since n db en \<Longrightarrow> refs_ok db \<and> (\<exists>v. ad_version db = Some v)"
  unfolding fresh_since_def using calls_version by metis

lemma fresh_since_calls: "fresh_since n db en \<Longrightarrow> calls m db db' \<Longrightarrow> fresh_since (n + m) db' en"
  unfolding fresh_since_def using calls_append [of m db db'] by (metis add.assoc add_le_mono le_refl)

lemma Enforce_loads:
  assumes "ad_version db = Some cur" "snd (Enforcer_Enforce A db db' req en) = en'" "en' \<noteq> en"
  shows "en_loadedV en' = cur \<and> holds (en_e en') = (set (LoadPolicyRows db'), set (LoadGroupingRows db'))"
  using assms load [of "LoadPolicyRows db'" "LoadGroupingRows db'" "en_e en"]
  by (auto simp: Enforcer_Enforce_def ReadPolicyVersion_def split: sum.splits if_splits)

lemma admin_sys_fresh:
  assumes "admin_sys A ce db0 n db en" "refs_ok db0"
  shows "fresh_since n db en"
  using assms
proof (induction rule: admin_sys.induct)
  case (start en)
  then have "ad_version db0 = Some (en_loadedV en) \<and> holds (en_e en) = (set (LoadPolicyRows db0), set (LoadGroupingRows db0))"
    using load by (auto simp: NewEnforcer_def ReadPolicyVersion_def split: sum.splits option.splits)
  with start.prems show ?case unfolding fresh_since_def by (intro exI [of _ 0] exI [of _ db0]) (auto intro: calls_none)
next
  case (call n db en db')
  then have "calls 1 db db'" using calls_more [OF calls_none] by simp
  with call show ?case using fresh_since_calls by fastforce
next
  case (decide n db en m db' req en')
  show ?case
  proof (cases "en' = en")
    case True
    with decide show ?thesis using fresh_since_calls by simp
  next
    case False
    obtain cur where cur: "ad_version db = Some cur" "refs_ok db" using decide fresh_since_refs by blast
    from Enforce_loads [OF cur(1) decide.hyps(3) False] cur decide.hyps(2) show ?thesis
      unfolding fresh_since_def by (intro exI [of _ m] exI [of _ 0] exI [of _ db] exI [of _ db']) (auto intro: calls_none)
  qed
qed

lemma fresh_since_synced:
  assumes "fresh_since n db en" "n < 2 ^ 64"
  shows "synced db en"
  unfolding synced_def
proof
  assume now: "ad_version db = Some (en_loadedV en)"
  obtain i j dbv dbr where s: "i + j \<le> n" "calls i dbv dbr" "calls j dbr db" "refs_ok dbv"
      "ad_version dbv = Some (en_loadedV en)" "holds (en_e en) = (set (LoadPolicyRows dbr), set (LoadGroupingRows dbr))"
    using assms(1) by (auto simp: fresh_since_def)
  obtain k where k: "refs_ok dbr" "k \<le> i" "ad_version dbr = Some (en_loadedV en + of_nat k)" "k = 0 \<longrightarrow> policy_rows dbr = policy_rows dbv"
    using calls_version [OF s(2,4,5)] by auto
  obtain l where l: "l \<le> j" "ad_version db = Some (en_loadedV en + of_nat k + of_nat l)" "l = 0 \<longrightarrow> policy_rows db = policy_rows dbr"
    using calls_version [OF s(3) k(1,3)] by auto
  from now l(2) have "of_nat (k + l) = (0 :: int64)" by (simp add: add.assoc)
  then have "2 ^ 64 dvd k + l" by (simp only: word_of_nat_eq_0_iff) simp
  moreover have "k + l < 2 ^ 64" using k(2) l(1) s(1) assms(2) by simp
  ultimately have "k + l = 0" by (auto dest!: dvd_imp_le)
  with l(3) s(6) show "holds (en_e en) = (set (LoadPolicyRows db), set (LoadGroupingRows db))" by (simp add: policy_rows_def)
qed

end


section \<open>An example\<close>

text \<open>Alice registers, is authorized, and is unbound from her role.\<close>

definition started_en :: "(string list list \<times> string list list) admin_enforcer" where
  "started_en = \<lparr>en_e = (LoadPolicyRows seed_db, LoadGroupingRows seed_db), en_loadedV = 0\<rparr>"

definition asked :: "string list" where
  "asked = [''alice'', ''5'', ''t:3'', ''role'', ''create'']"

definition alice_en :: "(string list list \<times> string list list) admin_enforcer" where
  "alice_en = snd (Enforcer_Enforce ref_engine alice_db alice_db asked started_en)"

definition unbound_db :: admin_db where
  "unbound_db = snd (UnbindOperatorRole demo_tx ''root'' 4 5 ''t:3'' alice_db)"

lemma demo_run:
  "admin_sys ref_engine ([], []) seed_db 1 alice_db started_en"
  "admin_sys ref_engine ([], []) seed_db 2 unbound_db alice_en"
proof -
  have "NewEnforcer ref_engine ([], []) seed_db seed_db = Inr started_en"
    by (simp add: NewEnforcer_def ref_engine_def ReadPolicyVersion_def started_en_def) (simp add: seed_db_def)
  then have "admin_sys ref_engine ([], []) seed_db 0 seed_db started_en" by (rule start)
  then show alice: "admin_sys ref_engine ([], []) seed_db 1 alice_db started_en"
    unfolding alice_db_def using call [OF _ register] by simp
  from alice have "admin_sys ref_engine ([], []) seed_db (1 + 0) alice_db alice_en"
    using calls_none alice_en_def [symmetric] by (rule decide)
  then show "admin_sys ref_engine ([], []) seed_db 2 unbound_db alice_en" unfolding unbound_db_def using call [OF _ unbind] by (simp add: numeral_2_eq_2)
qed

lemma unbound_db_code [code]:
  "unbound_db = (case DeleteSubjectRole 4 5 ''t:3'' alice_db of Inl _ \<Rightarrow> alice_db
     | Inr db1 \<Rightarrow> (case bump_audit (Some 3) ''root'' ''unbind'' ''admin_binding'' ''4'' db1 of Inl _ \<Rightarrow> alice_db | Inr db2 \<Rightarrow> db2))"
proof -
  have "TenantDomain 3 = ''t:3''" "show_id 4 = ''4''" by code_simp+
  then show ?thesis using domainTenant_TenantDomain [of 3]
    by (simp add: unbound_db_def UnbindOperatorRole_def tx_run_def bindE_def demo_tx_def split: sum.splits)
qed

lemma demo_rows:
  "LoadPolicyRows alice_db = [[''super-admin'', ''*'', ''*'', ''*''], [''tenant-admin-3'', ''t:3'', ''*'', ''*'']]"
  "LoadPolicyRows unbound_db = [[''super-admin'', ''*'', ''*'', ''*''], [''tenant-admin-3'', ''t:3'', ''*'', ''*'']]"
  "LoadGroupingRows alice_db = [[''alice'', ''tenant-admin-3'', ''t:3'']]"
  "LoadGroupingRows unbound_db = []"
  by code_simp+


end
