(* ===== verification/Policy_As_Code.thy ===== *)
theory Policy_As_Code
  imports Write_Invariants Iac
begin

text \<open>
  Import and export of an application's policy (\<^verbatim>\<open>internal/controlplane/policy/policy_as_code.go\<close>): the
  current state of an application as the planner sees it, the phases that carry out a plan, and the
  import itself, which plans once without the lock and again under it. The import is a versioned write
  of theory \<open>Manager\<close> and keeps the invariants of theory \<open>Write_Invariants\<close>; the locale
  \<open>import_invariant\<close> collects what a property has to show of the single statements. Parsing and printing
  the YAML text is left to the parameter \<open>parse\<close>.
\<close>


section \<open>Role keys\<close>

definition iacRolePrefix :: string where
  "iacRolePrefix = ''iac:''"

definition iacSource :: string where
  "iacSource = ''iac''"

definition iacRoleKey :: "string \<Rightarrow> string" where
  "iacRoleKey cd = (if take (length iacRolePrefix) cd = iacRolePrefix then drop (length iacRolePrefix) cd else cd)"

definition isExpressibleRoleKey :: "string \<Rightarrow> bool" where
  "isExpressibleRoleKey key \<longleftrightarrow> key \<noteq> [] \<and> CHR '':'' \<notin> set key"

definition expressible :: "role_row \<Rightarrow> bool" where
  "expressible r \<longleftrightarrow> isExpressibleRoleKey (iacRoleKey (rl_code r))"

definition normEffect :: "string \<Rightarrow> string" where
  "normEffect e = (if e = [] then EffectAllow else e)"

section \<open>Reading an application\<close>

text \<open>
  \<^verbatim>\<open>splitDataPolicies\<close> as two projections: the data policies of a role by its code, and the rest.
\<close>

definition role_policies :: "data_policy_row list \<Rightarrow> string \<Rightarrow> data_policy_row list" where
  "role_policies dps cd =
     filter (\<lambda>r. dp_SubjectType (dr_policy r) = ''role'' \<and> dp_SubjectID (dr_policy r) = cd) dps"

definition top_policies :: "data_policy_row list \<Rightarrow> data_policy_row list" where
  "top_policies dps = filter (\<lambda>r. dp_SubjectType (dr_policy r) \<noteq> ''role'') dps"

definition dataScopesFromRows :: "(string \<Rightarrow> string option) \<Rightarrow> data_policy_row list \<Rightarrow> data_scope list" where
  "dataScopesFromRows renorm rows = map (\<lambda>r. let dp = dr_policy r in
     \<lparr>sc_Resource = dp_Resource dp, sc_Effect = dp_Effect dp, sc_Condition = ConditionFromJSON renorm (dp_Condition dp)\<rparr>) rows"

definition permission_of :: "permission_row \<Rightarrow> iac_permission" where
  "permission_of p =
     \<lparr>ip_Code = pm_code p, ip_Resource = pm_resource p, ip_Action = pm_action p, ip_Type = pm_type p,
      ip_Name = pm_name p, ip_Description = pm_description p, ip_Source = pm_source p\<rparr>"

definition current_role_of :: "(string \<Rightarrow> string option) \<Rightarrow> db \<Rightarrow> int64 \<Rightarrow> data_policy_row list \<Rightarrow> role_row \<Rightarrow> current_role" where
  "current_role_of renorm db app dps r =
     \<lparr>cu_Key = iacRoleKey (rl_code r), cu_Name = rl_name r, cu_Description = rl_description r, cu_Source = rl_source r,
      cu_PermissionCodes = RolePermissionCodes db app (rl_id r),
      cu_DataScopes = dataScopesFromRows renorm (role_policies dps (rl_code r)),
      cu_HasUserBindings = RoleHasUserBindings db app (rl_id r)\<rparr>"

definition current_policy_of :: "data_policy_row \<Rightarrow> current_data_policy" where
  "current_policy_of r = (let dp = dr_policy r in
     \<lparr>cd_SubjectType = dp_SubjectType dp, cd_SubjectID = dp_SubjectID dp, cd_Resource = dp_Resource dp,
      cd_Effect = dp_Effect dp, cd_Source = dr_source r, cd_Condition = dp_Condition dp\<rparr>)"

text \<open>The loop over the roles: inexpressible ones are skipped, a key met twice is an error.\<close>

fun collect_roles :: "(role_row \<Rightarrow> 'a) \<Rightarrow> role_row list \<Rightarrow> string list \<Rightarrow> (db_error, 'a list) res" where
  "collect_roles f [] seen = Inr []"
| "collect_roles f (r # rs) seen =
     (if \<not> expressible r then collect_roles f rs seen
      else if iacRoleKey (rl_code r) \<in> set seen then Inl KeyCollision
      else case collect_roles f rs (iacRoleKey (rl_code r) # seen) of
             Inl e \<Rightarrow> Inl e
           | Inr out \<Rightarrow> Inr (f r # out))"

definition snapshotCurrent :: "(string \<Rightarrow> string option) \<Rightarrow> db \<Rightarrow> int64 \<Rightarrow> (db_error, current) res" where
  "snapshotCurrent renorm db app =
     (let dps = ListAppDataPoliciesWithSource db app
      in case collect_roles (current_role_of renorm db app dps) (ListAppRolesWithSource db app) [] of
           Inl e \<Rightarrow> Inl e
         | Inr rs \<Rightarrow> Inr \<lparr>cr_Permissions = map permission_of (ListAppPermissionsWithSource db app), cr_Roles = rs,
             cr_DataPolicies = map current_policy_of (top_policies dps)\<rparr>)"

text \<open>The document of an application, before it is written as YAML or JSON.\<close>

definition export_role :: "(string \<Rightarrow> string option) \<Rightarrow> db \<Rightarrow> int64 \<Rightarrow> data_policy_row list \<Rightarrow> role_row \<Rightarrow> iac_role" where
  "export_role renorm db app dps r =
     \<lparr>ir_Key = iacRoleKey (rl_code r), ir_Name = rl_name r, ir_Description = rl_description r,
      ir_PermissionCodes = RolePermissionCodes db app (rl_id r),
      ir_DataScopes = dataScopesFromRows renorm (role_policies dps (rl_code r)), ir_Source = rl_source r\<rparr>"

definition export_policy :: "(string \<Rightarrow> string option) \<Rightarrow> data_policy_row \<Rightarrow> iac_data_policy" where
  "export_policy renorm r = (let dp = dr_policy r in
     \<lparr>id_SubjectType = dp_SubjectType dp, id_SubjectID = dp_SubjectID dp, id_Resource = dp_Resource dp,
      id_Effect = dp_Effect dp, id_Condition = ConditionFromJSON renorm (dp_Condition dp), id_Source = dr_source r\<rparr>)"

definition ExportAppPolicy :: "(string \<Rightarrow> string option) \<Rightarrow> db \<Rightarrow> int64 \<Rightarrow> (db_error, document) res" where
  "ExportAppPolicy renorm db app =
     (let dps = ListAppDataPoliciesWithSource db app
      in case collect_roles (export_role renorm db app dps) (ListAppRolesWithSource db app) [] of
           Inl e \<Rightarrow> Inl e
         | Inr rs \<Rightarrow> Inr \<lparr>dc_APIVersion = APIVersion, dc_App = None,
             dc_Permissions = map permission_of (ListAppPermissionsWithSource db app), dc_Roles = rs,
             dc_DataPolicies = map (export_policy renorm) (top_policies dps)\<rparr>)"

section \<open>Carrying out a plan\<close>

record role_ref =
  rr_roleID :: int64
  rr_code :: string

definition roleByKey :: "role_row list \<Rightarrow> (db_error, string \<Rightarrow> role_ref option) res" where
  "roleByKey rs =
     (case collect_roles (\<lambda>r. (iacRoleKey (rl_code r), \<lparr>rr_roleID = rl_id r, rr_code = rl_code r\<rparr>)) rs [] of
        Inl e \<Rightarrow> Inl e
      | Inr kvs \<Rightarrow> Inr (map_of kvs))"

definition topDPByIdentity :: "data_policy_row list \<Rightarrow> string \<Rightarrow> data_policy_row option" where
  "topDPByIdentity dps = map_of (map (\<lambda>r. (current_id (current_policy_of r), r)) (top_policies dps))"

definition zero_permission :: iac_permission where
  "zero_permission = \<lparr>ip_Code = [], ip_Resource = [], ip_Action = [], ip_Type = [], ip_Name = [], ip_Description = [], ip_Source = []\<rparr>"

definition zero_role :: iac_role where
  "zero_role = \<lparr>ir_Key = [], ir_Name = [], ir_Description = [], ir_PermissionCodes = [], ir_DataScopes = [], ir_Source = []\<rparr>"

definition zero_policy :: iac_data_policy where
  "zero_policy = \<lparr>id_SubjectType = [], id_SubjectID = [], id_Resource = [], id_Effect = [], id_Condition = [], id_Source = []\<rparr>"

text \<open>A Go map read of a missing key gives the zero value.\<close>

definition or_zero :: "'a \<Rightarrow> 'a option \<Rightarrow> 'a" where
  "or_zero z v = (case v of None \<Rightarrow> z | Some x \<Rightarrow> x)"

definition desiredPermByCode :: "document \<Rightarrow> string \<Rightarrow> iac_permission" where
  "desiredPermByCode doc cd = or_zero zero_permission (last_of ip_Code (dc_Permissions doc) cd)"

definition desiredRoleByKey :: "document \<Rightarrow> string \<Rightarrow> iac_role" where
  "desiredRoleByKey doc key = or_zero zero_role (last_of ir_Key (dc_Roles doc) key)"

definition desiredDPByIdentity :: "document \<Rightarrow> string \<Rightarrow> iac_data_policy" where
  "desiredDPByIdentity doc i = or_zero zero_policy (last_of desired_id (dc_DataPolicies doc) i)"

text \<open>The state of the loops: the collected changes, the next version once it was read, the tables.\<close>

type_synonym import_state = "data_policy_change list \<times> int64 \<times> db"

definition getVNew :: "int64 \<Rightarrow> int64 \<Rightarrow> db \<Rightarrow> (db_error, int64) res" where
  "getVNew app vNew db =
     (if vNew = 0 then (case LockAppVersion db app of Inl e \<Rightarrow> Inl e | Inr cur \<Rightarrow> Inr (cur + 1)) else Inr vNew)"

definition removal :: "int64 \<Rightarrow> data_policy_change" where
  "removal i = \<lparr>dc_Op = ChangeRemove, dc_Policy = zero_data_policy\<lparr>dp_ID := i\<rparr>\<rparr>"

definition drop_policy :: "int64 \<Rightarrow> data_policy_row \<Rightarrow> import_state \<Rightarrow> (db_error, import_state) res" where
  "drop_policy app r st =
     (case st of (changes, v, db) \<Rightarrow>
        (case Store_DeleteDataPolicy app (dp_ID (dr_policy r)) db of
           Inl e \<Rightarrow> Inl e
         | Inr db' \<Rightarrow> Inr (changes @ [removal (dp_ID (dr_policy r))], v, db')))"

subsection \<open>Phase A: deletions\<close>

definition delete_role_item ::
    "int64 \<Rightarrow> (string \<Rightarrow> role_ref option) \<Rightarrow> data_policy_row list \<Rightarrow> plan_item \<Rightarrow> import_state \<Rightarrow> (db_error, import_state) res" where
  "delete_role_item app refs dps it st =
     (if pi_EntityType it \<noteq> ERole \<or> pi_Kind it \<noteq> Delete then Inr st
      else case refs (pi_Identity it) of
        None \<Rightarrow> Inl StalePlan
      | Some rr \<Rightarrow>
          (case foldM (drop_policy app) (role_policies dps (rr_code rr)) st of
             Inl e \<Rightarrow> Inl e
           | Inr (changes, v, db) \<Rightarrow>
               (case Store_DeleteRole app (rr_roleID rr) db of
                  Inl e \<Rightarrow> Inl e
                | Inr db' \<Rightarrow> Inr (changes, v, db'))))"

definition delete_policy_item ::
    "int64 \<Rightarrow> data_policy_row list \<Rightarrow> plan_item \<Rightarrow> import_state \<Rightarrow> (db_error, import_state) res" where
  "delete_policy_item app dps it st =
     (if pi_EntityType it \<noteq> EDataPolicy \<or> pi_Kind it \<noteq> Delete then Inr st
      else case topDPByIdentity dps (pi_Identity it) of
        None \<Rightarrow> Inl StalePlan
      | Some r \<Rightarrow> drop_policy app r st)"

subsection \<open>Phase B: creations, updates, adoptions\<close>

definition permission_item :: "pg \<Rightarrow> int64 \<Rightarrow> document \<Rightarrow> plan_item \<Rightarrow> import_state \<Rightarrow> (db_error, import_state) res" where
  "permission_item pg app doc it st =
     (if pi_EntityType it \<noteq> EPermission then Inr st
      else if pi_Kind it \<in> {Create, Update, Adopt} then
        (let p = desiredPermByCode doc (pi_Identity it)
         in case st of (changes, v, db) \<Rightarrow>
              (case UpsertPermissionWithSource pg app (ip_Code p) (ip_Resource p) (ip_Action p) (ip_Type p) (ip_Name p)
                      (ip_Description p) iacSource db of
                 Inl e \<Rightarrow> Inl e
               | Inr (_, db') \<Rightarrow> Inr (changes, v, db')))
      else Inr st)"

definition revoke_code :: "int64 \<Rightarrow> int64 \<Rightarrow> (string \<Rightarrow> int64 option) \<Rightarrow> string \<Rightarrow> db \<Rightarrow> (db_error, db) res" where
  "revoke_code app roleID idByCode c db =
     (case idByCode c of None \<Rightarrow> Inl Undeclared | Some i \<Rightarrow> Inr (DeleteRolePermission app roleID i db))"

definition allow_code :: "int64 \<Rightarrow> int64 \<Rightarrow> (string \<Rightarrow> int64 option) \<Rightarrow> string \<Rightarrow> db \<Rightarrow> (db_error, db) res" where
  "allow_code app roleID idByCode c db =
     (case idByCode c of None \<Rightarrow> Inl Undeclared | Some i \<Rightarrow> InsertRolePermission app roleID i EffectAllow db)"

definition resetRolePermissions :: "int64 \<Rightarrow> int64 \<Rightarrow> string list \<Rightarrow> db \<Rightarrow> (db_error, db) res" where
  "resetRolePermissions app roleID desiredCodes db =
     (let curCodes = RolePermissionCodes db app roleID;
          idByCode = PermissionIDsByCode db app (curCodes @ desiredCodes)
      in case foldM (revoke_code app roleID idByCode) curCodes db of
           Inl e \<Rightarrow> Inl e
         | Inr db1 \<Rightarrow> foldM (allow_code app roleID idByCode) desiredCodes db1)"

definition scope_policy :: "string \<Rightarrow> data_scope \<Rightarrow> data_policy" where
  "scope_policy cd ds =
     \<lparr>dp_ID = 0, dp_SubjectType = ''role'', dp_SubjectID = cd, dp_Resource = sc_Resource ds,
      dp_Condition = sc_Condition ds, dp_Effect = normEffect (sc_Effect ds), dp_Description = []\<rparr>"

definition add_policy ::
    "pg \<Rightarrow> int64 \<Rightarrow> data_policy \<Rightarrow> import_state \<Rightarrow> (db_error, import_state) res" where
  "add_policy pg app p st =
     (case st of (changes, v, db) \<Rightarrow>
        (case getVNew app v db of
           Inl e \<Rightarrow> Inl e
         | Inr v' \<Rightarrow>
             (case UpsertDataPolicyWithSource pg app p iacSource v' db of
                Inl e \<Rightarrow> Inl e
              | Inr (i, _, db') \<Rightarrow> Inr (changes @ [\<lparr>dc_Op = ChangeAdd, dc_Policy = p\<lparr>dp_ID := i\<rparr>\<rparr>], v', db'))))"

definition locate_role ::
    "pg \<Rightarrow> int64 \<Rightarrow> (string \<Rightarrow> role_ref option) \<Rightarrow> iac_role \<Rightarrow> plan_item \<Rightarrow> db \<Rightarrow> (db_error, role_ref \<times> db) res" where
  "locate_role pg app refs dr it db =
     (case pi_Kind it of
        Create \<Rightarrow>
          (case InsertRoleWithSource pg app (iacRolePrefix @ pi_Identity it) (ir_Name dr) iacSource db of
             Inl e \<Rightarrow> Inl e
           | Inr (i, db') \<Rightarrow> Inr (\<lparr>rr_roleID = i, rr_code = iacRolePrefix @ pi_Identity it\<rparr>, db'))
      | Adopt \<Rightarrow>
          (case refs (pi_Identity it) of
             None \<Rightarrow> Inl StalePlan
           | Some rr \<Rightarrow> Inr (rr, AdoptRoleSource app (rr_roleID rr) db))
      | _ \<Rightarrow> (case refs (pi_Identity it) of None \<Rightarrow> Inl StalePlan | Some rr \<Rightarrow> Inr (rr, db)))"

definition role_item ::
    "pg \<Rightarrow> int64 \<Rightarrow> (string \<Rightarrow> role_ref option) \<Rightarrow> data_policy_row list \<Rightarrow> document \<Rightarrow> plan_item \<Rightarrow> import_state \<Rightarrow>
     (db_error, import_state) res" where
  "role_item pg app refs dps doc it st =
     (if pi_EntityType it \<noteq> ERole \<or> pi_Kind it = Delete \<or> pi_Kind it = Conflict then Inr st
      else let dr = desiredRoleByKey doc (pi_Identity it)
           in case st of (changes, v, db) \<Rightarrow>
                (case locate_role pg app refs dr it db of
                   Inl e \<Rightarrow> Inl e
                 | Inr (rr, db1) \<Rightarrow>
                     (case resetRolePermissions app (rr_roleID rr) (ir_PermissionCodes dr)
                             (UpdateRoleMeta app (rr_roleID rr) (ir_Name dr) (ir_Description dr) db1) of
                        Inl e \<Rightarrow> Inl e
                      | Inr db2 \<Rightarrow>
                          (case foldM (drop_policy app) (role_policies dps (rr_code rr)) (changes, v, db2) of
                             Inl e \<Rightarrow> Inl e
                           | Inr st' \<Rightarrow>
                               foldM (\<lambda>ds. add_policy pg app (scope_policy (rr_code rr) ds)) (ir_DataScopes dr) st'))))"

definition declared_policy :: "int64 \<Rightarrow> iac_data_policy \<Rightarrow> data_policy" where
  "declared_policy i dp =
     \<lparr>dp_ID = i, dp_SubjectType = id_SubjectType dp, dp_SubjectID = id_SubjectID dp, dp_Resource = id_Resource dp,
      dp_Condition = id_Condition dp, dp_Effect = normEffect (id_Effect dp), dp_Description = []\<rparr>"

definition policy_item ::
    "pg \<Rightarrow> int64 \<Rightarrow> data_policy_row list \<Rightarrow> document \<Rightarrow> plan_item \<Rightarrow> import_state \<Rightarrow> (db_error, import_state) res" where
  "policy_item pg app dps doc it st =
     (if pi_EntityType it \<noteq> EDataPolicy \<or> pi_Kind it = Delete \<or> pi_Kind it = Conflict then Inr st
      else let dp = desiredDPByIdentity doc (pi_Identity it)
           in case st of (changes, v0, db) \<Rightarrow>
                (case getVNew app v0 db of
                   Inl e \<Rightarrow> Inl e
                 | Inr v \<Rightarrow>
                     if pi_Kind it = Create then add_policy pg app (declared_policy 0 dp) (changes, v, db)
                     else case topDPByIdentity dps (pi_Identity it) of
                       None \<Rightarrow> Inl StalePlan
                     | Some row \<Rightarrow>
                         let i = dp_ID (dr_policy row);
                             db1 = if pi_Kind it = Adopt then AdoptDataPolicySource app i db else db;
                             p = declared_policy i dp
                         in case UpsertDataPolicyWithSource pg app p iacSource v db1 of
                              Inl e \<Rightarrow> Inl e
                            | Inr (_, _, db2) \<Rightarrow> Inr (changes @ [\<lparr>dc_Op = ChangeUpdate, dc_Policy = p\<rparr>], v, db2)))"

subsection \<open>Phase C and the whole plan\<close>

definition delete_permission_item :: "int64 \<Rightarrow> plan_item \<Rightarrow> import_state \<Rightarrow> (db_error, import_state) res" where
  "delete_permission_item app it st =
     (if pi_EntityType it \<noteq> EPermission \<or> pi_Kind it \<noteq> Delete then Inr st
      else case st of (changes, v, db) \<Rightarrow>
        (case DeletePermission app (pi_Identity it) db of Inl e \<Rightarrow> Inl e | Inr db' \<Rightarrow> Inr (changes, v, db')))"

definition bindR :: "('e, 'a) res \<Rightarrow> ('a \<Rightarrow> ('e, 'b) res) \<Rightarrow> ('e, 'b) res" where
  "bindR r f = (case r of Inl e \<Rightarrow> Inl e | Inr x \<Rightarrow> f x)"

definition applyImportPlan ::
    "pg \<Rightarrow> int64 \<Rightarrow> document \<Rightarrow> plan_item list \<Rightarrow> db \<Rightarrow> (db_error, data_policy_change list \<times> db) res" where
  "applyImportPlan pg app doc items db =
     (let dps = ListAppDataPoliciesWithSource db app
      in case roleByKey (ListAppRolesWithSource db app) of
           Inl e \<Rightarrow> Inl e
         | Inr refs \<Rightarrow>
             bindR (foldM (delete_role_item app refs dps) items ([], 0, db)) (\<lambda>st1.
             bindR (foldM (delete_policy_item app dps) items st1) (\<lambda>st2.
             bindR (foldM (permission_item pg app doc) items st2) (\<lambda>st3.
             bindR (foldM (role_item pg app refs dps doc) items st3) (\<lambda>st4.
             bindR (foldM (policy_item pg app dps doc) items st4) (\<lambda>st5.
             bindR (foldM (delete_permission_item app) items st5) (\<lambda>(changes, _, db').
             Inr (changes, db'))))))))"

section \<open>The import\<close>

text \<open>The mutation of the versioned write plans again under the lock.\<close>

definition import_mutate ::
    "pg \<Rightarrow> (string \<Rightarrow> string option) \<Rightarrow> int64 \<Rightarrow> document \<Rightarrow> db \<Rightarrow>
     (db_error, data_policy_change list \<times> plan_item list \<times> db) res" where
  "import_mutate pg renorm app doc db =
     (case snapshotCurrent renorm db app of
        Inl e \<Rightarrow> Inl e
      | Inr freshCur \<Rightarrow>
          (let applied = iac_Diff renorm doc freshCur
           in if Count Conflict applied > 0 then Inl ImportConflict
              else case applyImportPlan pg app doc applied db of
                     Inl e \<Rightarrow> Inl e
                   | Inr (changes, db') \<Rightarrow> Inr (changes, applied, db')))"

definition import_op ::
    "pg \<Rightarrow> (string \<Rightarrow> string option) \<Rightarrow> int64 \<Rightarrow> document \<Rightarrow> plan_item list write_op" where
  "import_op pg renorm app doc =
     \<lparr>action = ''import_policy'', entityType = ''app'', entityID = show_id app, preCheck = no_check,
      mutate = import_mutate pg renorm app doc\<rparr>"

record import_result =
  im_plan :: "plan_item list"
  im_version :: int64
  im_delta :: "delta option"
  im_error :: "policy_error option"

definition import_failed :: "plan_item list \<Rightarrow> policy_error \<Rightarrow> import_result" where
  "import_failed plan e = \<lparr>im_plan = plan, im_version = 0, im_delta = None, im_error = Some e\<rparr>"

text \<open>
  \<open>parse\<close> is \<^verbatim>\<open>iac.Parse\<close>. \<open>db0\<close> is the database at the first, unlocked read and \<open>db\<close> the one at the lock:
  other writes may have run in between.
\<close>

definition ImportAppPolicy ::
    "pg \<Rightarrow> env \<Rightarrow> (string \<Rightarrow> document option) \<Rightarrow> (string \<Rightarrow> string option) \<Rightarrow> int64 \<Rightarrow> string \<Rightarrow> bool \<Rightarrow> db \<Rightarrow> db \<Rightarrow>
     import_result \<times> db" where
  "ImportAppPolicy pg E parse renorm app content dryRun db0 db =
     (case parse content of
        None \<Rightarrow> (import_failed [] ErrImportInvalid, db)
      | Some doc \<Rightarrow>
          if Validate doc \<noteq> None then (import_failed [] ErrImportInvalid, db)
          else case snapshotCurrent renorm db0 app of
            Inl e \<Rightarrow> (import_failed [] (Unclassified e), db)
          | Inr cur \<Rightarrow>
              (let plan = iac_Diff renorm doc cur
               in if dryRun then
                    (case LockAppVersion db app of
                       Inl e \<Rightarrow> (import_failed [] (Unclassified e), db)
                     | Inr ver \<Rightarrow> (\<lparr>im_plan = plan, im_version = ver, im_delta = None, im_error = None\<rparr>, db))
                  else if Count Conflict plan > 0 then (import_failed plan (Unclassified ImportConflict), db)
                  else case runVersionedWrite (E\<lparr>operator := ''iac-import''\<rparr>) app (import_op pg renorm app doc) db of
                    (Inl e, db') \<Rightarrow> (import_failed plan e, db')
                  | (Inr (Some d, applied), db') \<Rightarrow>
                      (\<lparr>im_plan = applied, im_version = d_Version d, im_delta = Some d, im_error = None\<rparr>, db')
                  | (Inr (None, applied), db') \<Rightarrow>
                      (case LockAppVersion db' app of
                         Inl e \<Rightarrow> (import_failed applied (Unclassified e), db')
                       | Inr ver \<Rightarrow> (\<lparr>im_plan = applied, im_version = ver, im_delta = None, im_error = None\<rparr>, db'))))"

section \<open>What the import keeps\<close>

lemma collect_roles_Ok:
  "collect_roles f rs seen = Inr out \<Longrightarrow>
     out = map f (filter expressible rs) \<and> distinct (map (\<lambda>r. iacRoleKey (rl_code r)) (filter expressible rs)) \<and>
     (\<forall>r \<in> set (filter expressible rs). iacRoleKey (rl_code r) \<notin> set seen)"
proof (induction rs arbitrary: seen out)
  case (Cons r rs)
  show ?case
  proof (cases "expressible r")
    case False
    with Cons show ?thesis by simp
  next
    case True
    with Cons.prems obtain out' where "iacRoleKey (rl_code r) \<notin> set seen"
        "collect_roles f rs (iacRoleKey (rl_code r) # seen) = Inr out'" "out = f r # out'"
      by (auto split: if_splits sum.splits)
    with Cons.IH [OF this(2)] True show ?thesis by auto
  qed
qed simp

text \<open>A role the plan names is found again by its key, and it is the role the snapshot saw.\<close>

lemma roleByKey_Ok:
  assumes "roleByKey rs = Inr refs" "refs key = Some rr"
  shows "\<exists>r \<in> set rs. expressible r \<and> iacRoleKey (rl_code r) = key \<and> rr = \<lparr>rr_roleID = rl_id r, rr_code = rl_code r\<rparr> \<and>
    (\<forall>r' \<in> set rs. expressible r' \<longrightarrow> iacRoleKey (rl_code r') = key \<longrightarrow> r' = r)"
proof -
  let ?f = "\<lambda>r. (iacRoleKey (rl_code r), \<lparr>rr_roleID = rl_id r, rr_code = rl_code r\<rparr>)"
  obtain kvs where kvs: "collect_roles ?f rs [] = Inr kvs" "refs = map_of kvs"
    using assms(1) by (auto simp: roleByKey_def split: sum.splits)
  note c = collect_roles_Ok [OF kvs(1)]
  have "(key, rr) \<in> set kvs" using assms(2) kvs(2) by (simp add: map_of_SomeD)
  with c obtain r where r: "r \<in> set rs" "expressible r" "iacRoleKey (rl_code r) = key" "rr = \<lparr>rr_roleID = rl_id r, rr_code = rl_code r\<rparr>"
    by auto
  have inj: "inj_on (\<lambda>r. iacRoleKey (rl_code r)) (set (filter expressible rs))" using c by (simp add: distinct_map)
  have "r' = r" if "r' \<in> set rs" "expressible r'" "iacRoleKey (rl_code r') = key" for r'
    by (rule inj_onD [OF inj]) (use r that in auto)
  with r show ?thesis by blast
qed

lemma snapshot_roles:
  assumes "snapshotCurrent renorm db app = Inr cur" "cr \<in> set (cr_Roles cur)"
  shows "\<exists>r \<in> set (ListAppRolesWithSource db app). expressible r \<and> cu_Key cr = iacRoleKey (rl_code r) \<and>
    cu_Source cr = rl_source r \<and> cu_HasUserBindings cr = RoleHasUserBindings db app (rl_id r)"
proof -
  let ?f = "current_role_of renorm db app (ListAppDataPoliciesWithSource db app)"
  have "collect_roles ?f (ListAppRolesWithSource db app) [] = Inr (cr_Roles cur)"
    using assms(1) by (auto simp: snapshotCurrent_def Let_def split: sum.splits)
  from collect_roles_Ok [OF this] assms(2) obtain r where
    "r \<in> set (ListAppRolesWithSource db app)" "expressible r" "cr = ?f r" by auto
  then show ?thesis by (intro bexI [of _ r]) (simp_all add: current_role_of_def)
qed

text \<open>
  The statements an import runs, and a property of the tables that each of them keeps. \<open>ok\<close> says which
  roles may be deleted, \<open>tok\<close> which texts a document may bring in.
\<close>

definition doc_ok :: "(string \<Rightarrow> bool) \<Rightarrow> document \<Rightarrow> bool" where
  "doc_ok tok doc \<longleftrightarrow> (\<forall>p \<in> set (dc_Permissions doc). tok (ip_Resource p) \<and> tok (ip_Action p)) \<and>
     (\<forall>r \<in> set (dc_Roles doc). tok (iacRolePrefix @ ir_Key r))"

locale import_invariant =
  fixes P :: "db \<Rightarrow> bool" and app :: int64 and ok :: "int64 \<Rightarrow> bool" and tok :: "string \<Rightarrow> bool"
  assumes tok_nil: "tok []"
    and keeps_delete_policy: "Store_DeleteDataPolicy app i db = Inr db' \<Longrightarrow> P db \<Longrightarrow> P db'"
    and keeps_delete_role: "delete_roles app [i] db = Inr (k, db') \<Longrightarrow> ok i \<Longrightarrow> P db \<Longrightarrow> P db'"
    and keeps_permission: "UpsertPermissionWithSource pg app cd res act ty n d s db = Inr (i, db') \<Longrightarrow>
      tok res \<Longrightarrow> tok act \<Longrightarrow> P db \<Longrightarrow> P db'"
    and keeps_insert_role: "insert_role_row pg app cd n s db = Inr (i, db') \<Longrightarrow> tok cd \<Longrightarrow> P db \<Longrightarrow> P db'"
    and keeps_meta: "P db \<Longrightarrow> P (UpdateRoleMeta app i n d db)"
    and keeps_adopt_role: "P db \<Longrightarrow> P (AdoptRoleSource app i db)"
    and keeps_adopt_policy: "P db \<Longrightarrow> P (AdoptDataPolicySource app i db)"
    and keeps_revoke: "P db \<Longrightarrow> P (DeleteRolePermission app r p db)"
    and keeps_allow: "InsertRolePermission app r p EffectAllow db = Inr db' \<Longrightarrow> P db \<Longrightarrow> P db'"
    and keeps_policy: "UpsertDataPolicyWithSource pg app p' s v db = Inr (i, c, db') \<Longrightarrow> P db \<Longrightarrow> P db'"
    and keeps_delete_permission: "DeletePermission app cd db = Inr db' \<Longrightarrow> P db \<Longrightarrow> P db'"
begin

definition Q :: "import_state \<Rightarrow> bool" where
  "Q st \<longleftrightarrow> P (snd (snd st))"

lemma Q_fold:
  assumes "foldM f xs st = Inr st'" "\<And>x st st'. x \<in> set xs \<Longrightarrow> f x st = Inr st' \<Longrightarrow> Q st \<Longrightarrow> Q st'" "Q st"
  shows "Q st'"
  by (rule foldM_invariant [OF assms(1), where P = Q]) (use assms(2,3) in auto)

lemma Q_drop: "drop_policy app r st = Inr st' \<Longrightarrow> Q st \<Longrightarrow> Q st'"
  by (auto simp: drop_policy_def Q_def split: prod.splits sum.splits dest: keeps_delete_policy)

lemma Q_drops: "foldM (drop_policy app) rs st = Inr st' \<Longrightarrow> Q st \<Longrightarrow> Q st'"
  by (erule Q_fold) (rule Q_drop)

lemma Q_add: "add_policy pg app p st = Inr st' \<Longrightarrow> Q st \<Longrightarrow> Q st'"
  by (auto simp: add_policy_def Q_def split: prod.splits sum.splits dest: keeps_policy)

lemma Q_adds: "foldM (\<lambda>x. add_policy pg app (g x)) xs st = Inr st' \<Longrightarrow> Q st \<Longrightarrow> Q st'"
  by (erule Q_fold) (rule Q_add)

lemma Q_delete_role:
  assumes "delete_role_item app refs dps it st = Inr st'" "Q st"
    and "\<And>rr. pi_EntityType it = ERole \<Longrightarrow> pi_Kind it = Delete \<Longrightarrow> refs (pi_Identity it) = Some rr \<Longrightarrow> ok (rr_roleID rr)"
  shows "Q st'"
proof (cases "pi_EntityType it \<noteq> ERole \<or> pi_Kind it \<noteq> Delete")
  case True
  with assms show ?thesis by (simp add: delete_role_item_def)
next
  case False
  then obtain rr changes v db1 n db2 where 1: "refs (pi_Identity it) = Some rr" "ok (rr_roleID rr)"
      "foldM (drop_policy app) (role_policies dps (rr_code rr)) st = Inr (changes, v, db1)"
      "delete_roles app [rr_roleID rr] db1 = Inr (n, db2)" "st' = (changes, v, db2)"
    using assms by (auto simp: delete_role_item_def Store_DeleteRole_def split: option.splits sum.splits prod.splits)
  have "Q (changes, v, db1)" by (rule Q_drops [OF 1(3) assms(2)])
  with 1 show ?thesis by (auto simp: Q_def dest: keeps_delete_role)
qed

lemma Q_delete_policy: "delete_policy_item app dps it st = Inr st' \<Longrightarrow> Q st \<Longrightarrow> Q st'"
  by (auto simp: delete_policy_item_def split: if_splits option.splits dest: Q_drop)

lemma doc_ok_permission: "doc_ok tok doc \<Longrightarrow> tok (ip_Resource (desiredPermByCode doc cd)) \<and> tok (ip_Action (desiredPermByCode doc cd))"
  using last_of_Some [of ip_Code "dc_Permissions doc" cd]
  by (auto simp: desiredPermByCode_def or_zero_def zero_permission_def tok_nil doc_ok_def split: option.splits)

lemma Q_permission:
  assumes "permission_item pg app doc it st = Inr st'" "Q st" "doc_ok tok doc"
  shows "Q st'"
  using assms(1,2) doc_ok_permission [OF assms(3)]
  by (auto simp: permission_item_def Q_def Let_def split: if_splits prod.splits sum.splits dest: keeps_permission)

lemma keeps_reset:
  assumes "resetRolePermissions app r codes db = Inr db'" "P db"
  shows "P db'"
proof -
  let ?ids = "PermissionIDsByCode db app (RolePermissionCodes db app r @ codes)"
  obtain db1 where 1: "foldM (revoke_code app r ?ids) (RolePermissionCodes db app r) db = Inr db1"
      "foldM (allow_code app r ?ids) codes db1 = Inr db'"
    using assms(1) by (auto simp: resetRolePermissions_def Let_def split: sum.splits)
  have "P db1"
    by (rule foldM_invariant [OF 1(1), where P = P])
      (use assms(2) in \<open>auto simp: revoke_code_def split: option.splits intro: keeps_revoke\<close>)
  then show ?thesis
    by (intro foldM_invariant [OF 1(2), where P = P])
      (auto simp: allow_code_def split: option.splits dest: keeps_allow)
qed

lemma keeps_locate:
  assumes "locate_role pg app refs dr it db = Inr (rr, db')" "P db" "pi_Kind it = Create \<Longrightarrow> tok (iacRolePrefix @ pi_Identity it)"
  shows "P db'"
  using assms by (auto simp: locate_role_def InsertRoleWithSource_def split: plan_kind.splits sum.splits option.splits
      intro: keeps_adopt_role dest: keeps_insert_role)

lemma Q_role:
  assumes "role_item pg app refs dps doc it st = Inr st'" "Q st"
    and "pi_EntityType it = ERole \<Longrightarrow> pi_Kind it = Create \<Longrightarrow> tok (iacRolePrefix @ pi_Identity it)"
  shows "Q st'"
proof (cases "pi_EntityType it \<noteq> ERole \<or> pi_Kind it = Delete \<or> pi_Kind it = Conflict")
  case True
  with assms(1,2) show ?thesis by (auto simp: role_item_def)
next
  case False
  let ?dr = "desiredRoleByKey doc (pi_Identity it)"
  obtain changes v db where st: "st = (changes, v, db)" by (cases st)
  with False assms(1) obtain rr db1 db2 st3 where 1: "locate_role pg app refs ?dr it db = Inr (rr, db1)"
      "resetRolePermissions app (rr_roleID rr) (ir_PermissionCodes ?dr)
         (UpdateRoleMeta app (rr_roleID rr) (ir_Name ?dr) (ir_Description ?dr) db1) = Inr db2"
      "foldM (drop_policy app) (role_policies dps (rr_code rr)) (changes, v, db2) = Inr st3"
      "foldM (\<lambda>ds. add_policy pg app (scope_policy (rr_code rr) ds)) (ir_DataScopes ?dr) st3 = Inr st'"
    by (auto simp: role_item_def Let_def split: sum.splits prod.splits)
  have "P db1" using keeps_locate [OF 1(1)] assms(2,3) False st by (simp add: Q_def)
  then have "Q (changes, v, db2)" using keeps_reset [OF 1(2)] keeps_meta by (simp add: Q_def)
  then have "Q st3" by (rule Q_drops [OF 1(3)])
  then show ?thesis by (rule Q_adds [OF 1(4)])
qed

lemma Q_policy:
  assumes "policy_item pg app dps doc it st = Inr st'" "Q st"
  shows "Q st'"
proof (cases "pi_EntityType it \<noteq> EDataPolicy \<or> pi_Kind it = Delete \<or> pi_Kind it = Conflict")
  case True
  with assms show ?thesis by (auto simp: policy_item_def)
next
  case False
  obtain changes v0 db where st: "st = (changes, v0, db)" by (cases st)
  have "P db" "\<And>v. Q (changes, v, db)" using assms(2) st by (simp_all add: Q_def)
  with False assms(1) keeps_adopt_policy [of db] st show ?thesis
    by (cases "pi_Kind it = Create")
      (auto simp: policy_item_def Let_def Q_def [of "(_, _, _)"] split: sum.splits option.splits if_splits
        dest: keeps_policy Q_add)
qed

lemma Q_delete_permission: "delete_permission_item app it st = Inr st' \<Longrightarrow> Q st \<Longrightarrow> Q st'"
  by (auto simp: delete_permission_item_def Q_def split: if_splits prod.splits sum.splits dest: keeps_delete_permission)

lemma plan_keeps:
  assumes "applyImportPlan pg app doc items db = Inr (cs, db')" "P db" "doc_ok tok doc"
    and "\<And>it refs rr. it \<in> set items \<Longrightarrow> pi_EntityType it = ERole \<Longrightarrow> pi_Kind it = Delete \<Longrightarrow>
      roleByKey (ListAppRolesWithSource db app) = Inr refs \<Longrightarrow> refs (pi_Identity it) = Some rr \<Longrightarrow> ok (rr_roleID rr)"
    and "\<And>it. it \<in> set items \<Longrightarrow> pi_EntityType it = ERole \<Longrightarrow> pi_Kind it = Create \<Longrightarrow> tok (iacRolePrefix @ pi_Identity it)"
  shows "P db'"
proof -
  let ?dps = "ListAppDataPoliciesWithSource db app"
  obtain refs st1 st2 st3 st4 st5 v where refs: "roleByKey (ListAppRolesWithSource db app) = Inr refs"
    and st: "foldM (delete_role_item app refs ?dps) items ([], 0, db) = Inr st1"
      "foldM (delete_policy_item app ?dps) items st1 = Inr st2"
      "foldM (permission_item pg app doc) items st2 = Inr st3"
      "foldM (role_item pg app refs ?dps doc) items st3 = Inr st4"
      "foldM (policy_item pg app ?dps doc) items st4 = Inr st5"
      "foldM (delete_permission_item app) items st5 = Inr (cs, v, db')"
    using assms(1) by (auto simp: applyImportPlan_def Let_def bindR_def split: sum.splits)
  have "Q ([], 0, db)" using assms(2) by (simp add: Q_def)
  then have "Q st1" by (rule Q_fold [OF st(1), rotated]) (blast intro: Q_delete_role assms(4) [OF _ _ _ refs])
  then have "Q st2" by (rule Q_fold [OF st(2), rotated]) (rule Q_delete_policy)
  then have "Q st3" by (rule Q_fold [OF st(3), rotated]) (rule Q_permission [OF _ _ assms(3)])
  then have "Q st4" by (rule Q_fold [OF st(4), rotated]) (blast intro: Q_role assms(5))
  then have "Q st5" by (rule Q_fold [OF st(5), rotated]) (rule Q_policy)
  then have "Q (cs, v, db')" by (rule Q_fold [OF st(6), rotated]) (rule Q_delete_permission)
  then show ?thesis by (simp add: Q_def)
qed

lemma mutate_keeps:
  assumes "import_mutate pg renorm app doc db = Inr (cs, plan, db')" "P db" "doc_ok tok doc"
    and "\<And>r. r \<in> set (ListAppRolesWithSource db app) \<Longrightarrow> \<not> RoleHasUserBindings db app (rl_id r) \<Longrightarrow> ok (rl_id r)"
  shows "P db'"
proof -
  obtain cur where cur: "snapshotCurrent renorm db app = Inr cur" "plan = iac_Diff renorm doc cur"
      "applyImportPlan pg app doc plan db = Inr (cs, db')"
    using assms(1) by (auto simp: import_mutate_def Let_def split: sum.splits if_splits)
  have legit: "legit_item doc cur it" if "it \<in> set plan" for it using that cur(2) by (simp add: iac_Diff_legit)
  show ?thesis
  proof (rule plan_keeps [OF cur(3) assms(2,3)])
    fix it refs rr
    assume it: "it \<in> set plan" "pi_EntityType it = ERole" "pi_Kind it = Delete"
      and refs: "roleByKey (ListAppRolesWithSource db app) = Inr refs" "refs (pi_Identity it) = Some rr"
    obtain cr where "cr \<in> set (cr_Roles cur)" "cu_Key cr = pi_Identity it" "\<not> cu_HasUserBindings cr"
      using legit [OF it(1)] it by (auto simp: legit_item_def)
    with snapshot_roles [OF cur(1)] obtain r where "r \<in> set (ListAppRolesWithSource db app)" "expressible r"
        "iacRoleKey (rl_code r) = pi_Identity it" "\<not> RoleHasUserBindings db app (rl_id r)" by metis
    with roleByKey_Ok [OF refs] have "ok (rl_id r)" "rr_roleID rr = rl_id r" using assms(4) by auto
    then show "ok (rr_roleID rr)" by simp
  next
    fix it assume "it \<in> set plan" "pi_EntityType it = ERole" "pi_Kind it = Create"
    with legit [of it] assms(3) show "tok (iacRolePrefix @ pi_Identity it)"
      by (auto simp: legit_item_def legit_def doc_ok_def)
  qed
qed

end

subsection \<open>The statements of an import, one by one\<close>

lemma with_source_statement:
  assumes "UpsertDataPolicyWithSource pg app p s v db = Inr (i, c, db')"
  shows "db' = db\<lparr>data_policies := data_policies db'\<rparr>"
    "map (\<lambda>r. dp_ID (dr_policy r)) (data_policies db') = map (\<lambda>r. dp_ID (dr_policy r)) (data_policies db) @ (if c then [i] else [])"
    "c \<Longrightarrow> i \<notin> (\<lambda>r. dp_ID (dr_policy r)) ` set (data_policies db)"
    "a \<noteq> app \<Longrightarrow> filter (\<lambda>r. dr_app r = a) (data_policies db') = filter (\<lambda>r. dr_app r = a) (data_policies db)"
  using assms
  by (auto simp: UpsertDataPolicyWithSource_def upsert_data_policy_row_def Let_def
      split: if_splits option.splits sum.splits intro!: filter_other_map)

lemma policy_frame:
  assumes "UpsertDataPolicyWithSource pg app p s v db = Inr (i, c, db')"
  shows "frame app db db'"
  using with_source_statement(4) [OF assms] by (subst with_source_statement(1) [OF assms]) (simp add: frame_simps)

lemma row_updates:
  "map rl_id (roles (UpdateRoleMeta app i n d db)) = map rl_id (roles db)"
  "map (\<lambda>r. (rl_app r, rl_code r)) (roles (UpdateRoleMeta app i n d db)) = map (\<lambda>r. (rl_app r, rl_code r)) (roles db)"
  "map rl_id (roles (AdoptRoleSource app i db)) = map rl_id (roles db)"
  "map (\<lambda>r. (rl_app r, rl_code r)) (roles (AdoptRoleSource app i db)) = map (\<lambda>r. (rl_app r, rl_code r)) (roles db)"
  "map (\<lambda>r. dp_ID (dr_policy r)) (data_policies (AdoptDataPolicySource app i db)) = map (\<lambda>r. dp_ID (dr_policy r)) (data_policies db)"
  by (simp_all add: UpdateRoleMeta_def AdoptRoleSource_def AdoptDataPolicySource_def)

lemma frame_updates:
  "frame app db (UpdateRoleMeta app i n d db)"
  "frame app db (AdoptRoleSource app i db)"
  "frame app db (AdoptDataPolicySource app i db)"
  by (auto simp: UpdateRoleMeta_def AdoptRoleSource_def AdoptDataPolicySource_def frame_simps intro!: filter_other_map)

lemma frame_permission_with_source:
  "UpsertPermissionWithSource pg app cd res act ty n d s db = Inr (i, db') \<Longrightarrow> frame app db db'"
  by (auto simp: UpsertPermissionWithSource_def new_permission_def split: sum.splits option.splits
      elim!: frame_upsert_permission)

lemma frame_delete_permission: "DeletePermission app cd db = Inr db' \<Longrightarrow> frame app db db'"
  by (auto simp: DeletePermission_def frame_simps Let_def intro!: filter_other simp del: filter_filter split: if_splits)

interpretation import_frame: import_invariant "frame app db0" app "\<lambda>_. True" "\<lambda>_. True" for app db0
  by unfold_locales
    (auto intro: frame_trans frame_updates frame_data_policies(2) frame_delete_roles frame_permission_with_source frame_insert_role
      frame_deletes(1) frame_inserts(1) policy_frame frame_delete_permission)

text \<open>No statement touches a binding, except the deletion of a role that has one.\<close>

lemma bindings_simps:
  "user_role_bindings (UpdateRoleMeta app i n d db) = user_role_bindings db"
  "user_role_bindings (AdoptRoleSource app i db) = user_role_bindings db"
  "user_role_bindings (AdoptDataPolicySource app i db) = user_role_bindings db"
  "user_role_bindings (DeleteRolePermission app r p db) = user_role_bindings db"
  by (simp_all add: UpdateRoleMeta_def AdoptRoleSource_def AdoptDataPolicySource_def DeleteRolePermission_def)

lemma bindings_statements:
  "Store_DeleteDataPolicy app i db = Inr db' \<Longrightarrow> user_role_bindings db' = user_role_bindings db"
  "UpsertPermissionWithSource pg app cd res act ty n d s db = Inr (i, db') \<Longrightarrow> user_role_bindings db' = user_role_bindings db"
  "insert_role_row pg app cd n s db = Inr (i, db') \<Longrightarrow> user_role_bindings db' = user_role_bindings db"
  "InsertRolePermission app r p e db = Inr db' \<Longrightarrow> user_role_bindings db' = user_role_bindings db"
  "DeletePermission app cd db = Inr db' \<Longrightarrow> user_role_bindings db' = user_role_bindings db"
  by (auto simp: Store_DeleteDataPolicy_def UpsertPermissionWithSource_def upsert_permission_row_def insert_role_row_def
      InsertRolePermission_def DeletePermission_def Let_def split: if_splits sum.splits option.splits list.splits)

lemma bindings_policy:
  "UpsertDataPolicyWithSource pg app p s v db = Inr (i, c, db') \<Longrightarrow> user_role_bindings db' = user_role_bindings db"
  by (metis db.select_convs(6) db.surjective db.update_convs(7) with_source_statement(1))

lemma bindings_delete_role:
  "delete_roles app [i] db = Inr (k, db') \<Longrightarrow> \<not> RoleHasUserBindings db app i \<Longrightarrow> user_role_bindings db' = user_role_bindings db"
  by (auto simp: delete_roles_def RoleHasUserBindings_def Let_def filter_id_conv split: if_splits)

interpretation import_bindings: import_invariant "\<lambda>db. user_role_bindings db = user_role_bindings db0" app
    "\<lambda>i. \<not> RoleHasUserBindings db0 app i" "\<lambda>_. True" for app db0
proof unfold_locales
  fix i db k db'
  assume "delete_roles app [i] db = Inr (k, db')" "\<not> RoleHasUserBindings db0 app i" "user_role_bindings db = user_role_bindings db0"
  then show "user_role_bindings db' = user_role_bindings db0"
    using bindings_delete_role [of app i db k db'] by (simp add: RoleHasUserBindings_def)
qed (auto simp: bindings_simps bindings_statements bindings_policy)

lemma schema_relabel:
  assumes "schema_ok db" "map rl_id rs = map rl_id (roles db)"
    and keys: "map (\<lambda>r. (rl_app r, rl_code r)) rs = map (\<lambda>r. (rl_app r, rl_code r)) (roles db)"
  shows "schema_ok (db\<lparr>roles := rs\<rparr>)"
proof -
  have apps: "map rl_app rs = map rl_app (roles db)" using arg_cong [OF keys, of "map fst"] by (simp add: comp_def)
  have "length rs = length (roles db)" using map_eq_imp_length_eq [OF assms(2)] .
  then have "zip (map rl_app rs) (map rl_id rs) = map (\<lambda>r. (rl_app r, rl_id r)) rs" for rs
    by (induction rs) auto
  then have "map (\<lambda>r. (rl_app r, rl_id r)) rs = map (\<lambda>r. (rl_app r, rl_id r)) (roles db)"
    using apps assms(2) by metis
  moreover have "has_role_id d = (\<lambda>a i. (a, i) \<in> set (map (\<lambda>r. (rl_app r, rl_id r)) (roles d)))" for d
    by (auto simp: fun_eq_iff has_role_id_def)
  ultimately have "has_role_id (db\<lparr>roles := rs\<rparr>) = has_role_id db" by (simp del: set_map)
  with assms show ?thesis by (simp add: schema_ok_def)
qed

lemma schema_delete_permission:
  assumes "DeletePermission app cd db = Inr db'" "schema_ok db"
  shows "schema_ok db'"
proof -
  let ?goes = "\<lambda>p. pm_app p = app \<and> pm_code p = cd \<and> \<not> permission_granted db p"
  have db': "db' = db\<lparr>permissions := filter (\<lambda>p. \<not> ?goes p) (permissions db)\<rparr>"
    using assms(1) by (auto simp: DeletePermission_def Let_def split: if_splits)
  have "has_permission_id db' (rp_app g) (rp_permission g)" if "g \<in> set (role_permissions db)" for g
    using assms(2) that by (fastforce simp: schema_ok_def db' has_permission_id_def permission_granted_def)
  with assms(2) show ?thesis by (auto simp: schema_ok_def db' distinct_map_filter_key)
qed

interpretation import_schema: import_invariant schema_ok app "\<lambda>_. True" "\<lambda>_. True" for app
proof unfold_locales
  fix i n d db assume "schema_ok db"
  then show "schema_ok (UpdateRoleMeta app i n d db)" "schema_ok (AdoptRoleSource app i db)"
    using row_updates(1,2) [of app i n d db] row_updates(3,4) [of app i db] unfolding UpdateRoleMeta_def AdoptRoleSource_def
    by (auto intro!: schema_relabel simp del: map_map)
next
  fix i db assume "schema_ok db"
  then show "schema_ok (AdoptDataPolicySource app i db)"
    using row_updates(5) [of app i db] by (simp add: schema_ok_def AdoptDataPolicySource_def del: map_map)
next
  fix pg p s v db i c db' assume "UpsertDataPolicyWithSource pg app p s v db = Inr (i, c, db')" "schema_ok db"
  note w = with_source_statement [OF this(1)] and \<open>schema_ok db\<close>
  then have "distinct (map (\<lambda>r. dp_ID (dr_policy r)) (data_policies db'))" by (cases c) (auto simp: schema_ok_def)
  then show "schema_ok db'" using \<open>schema_ok db\<close> by (subst w(1)) (simp add: schema_ok_def)
qed (auto intro: schema_data_policies(2) schema_delete_roles schema_insert_role schema_deletes(1) schema_inserts(1)
    schema_delete_permission simp: UpsertPermissionWithSource_def split: sum.splits option.splits elim!: schema_upsert_permission)

lemma inheritance_statements:
  "UpsertPermissionWithSource pg app cd res act ty n d s db = Inr (i, db') \<Longrightarrow> role_inheritances db' = role_inheritances db"
  "DeletePermission app cd db = Inr db' \<Longrightarrow> role_inheritances db' = role_inheritances db"
  by (auto simp: UpsertPermissionWithSource_def upsert_permission_row_def DeletePermission_def Let_def
      split: if_splits sum.splits option.splits list.splits)

lemma policy_other_tables:
  assumes "UpsertDataPolicyWithSource pg app p s v db = Inr (i, c, db')"
  shows "role_inheritances db' = role_inheritances db" "roles db' = roles db" "permissions db' = permissions db"
    "role_permissions db' = role_permissions db" "user_role_bindings db' = user_role_bindings db"
    "applications db' = applications db"
  by (subst with_source_statement(1) [OF assms], simp)+

interpretation import_hierarchy: import_invariant acyclic_roles app "\<lambda>_. True" "\<lambda>_. True" for app
proof unfold_locales
  fix i k db db' assume "delete_roles app [i] db = Inr (k, db')" "acyclic_roles db"
  then show "acyclic_roles db'" by (rule hierarchy.keeps_delete_roles)
qed (auto elim!: acyclic_roles_subset [rotated] dest: same_inheritances inheritance_statements policy_other_tables(1)
    simp: UpdateRoleMeta_def AdoptRoleSource_def AdoptDataPolicySource_def DeleteRolePermission_def)

interpretation import_texts: import_invariant texts_ok app "\<lambda>_. True" text_ok for app
proof unfold_locales
  fix pg cd res act ty n d s db i db'
  assume "UpsertPermissionWithSource pg app cd res act ty n d s db = Inr (i, db')" "text_ok res" "text_ok act" "texts_ok db"
  then show "texts_ok db'"
    by (auto simp: UpsertPermissionWithSource_def new_permission_def split: sum.splits option.splits
        elim!: texts_upsert_permission)
next
  fix pg p s v db i c db'
  assume "UpsertDataPolicyWithSource pg app p s v db = Inr (i, c, db')" "texts_ok db"
  then show "texts_ok db'" using policy_other_tables [of pg app p s v db i c db'] by (simp add: texts_ok_def)
next
  fix i k db db' assume "delete_roles app [i] db = Inr (k, db')" "texts_ok db"
  then show "texts_ok db'" by (rule texts.keeps_delete_roles)
next
  fix r p db db' assume "InsertRolePermission app r p EffectAllow db = Inr db'" "texts_ok db"
  then show "texts_ok db'" using texts.keeps_grant texts.eok_allow by blast
next
  fix i db db' assume "Store_DeleteDataPolicy app i db = Inr db'" "texts_ok db"
  then show "texts_ok db'" by (rule texts.keeps_data_delete)
next
  fix pg cd n s db i db' assume "insert_role_row pg app cd n s db = Inr (i, db')" "text_ok cd" "texts_ok db"
  then show "texts_ok db'" by (rule texts.keeps_insert_role)
next
  fix r p db assume "texts_ok db"
  then show "texts_ok (DeleteRolePermission app r p db)" by (rule texts.keeps_deletes(1))
qed (auto simp: texts_ok_def text_ok_def UpdateRoleMeta_def AdoptRoleSource_def AdoptDataPolicySource_def DeletePermission_def Let_def
    split: if_splits)

section \<open>The import as a write\<close>

interpretation import_write: business_write app "import_mutate pg renorm app doc" for app pg renorm doc
  by unfold_locales (erule import_frame.mutate_keeps, simp_all add: doc_ok_def)

definition import_outcome :: "import_result \<Rightarrow> (policy_error, delta option) res" where
  "import_outcome r = (case im_error r of Some e \<Rightarrow> Inl e | None \<Rightarrow> Inr (im_delta r))"

text \<open>An import that reaches the versioned write has its outcome.\<close>

lemma import_cases:
  assumes "ImportAppPolicy pg E parse renorm app content dryRun db0 db = (r, db')"
  obtains (unchanged_db) "db' = db" "im_delta r = None"
  | (written_db) doc where "parse content = Some doc" "\<not> dryRun" "Validate doc = None"
      "outcome (runVersionedWrite (E\<lparr>operator := ''iac-import''\<rparr>) app (import_op pg renorm app doc) db) = (import_outcome r, db')"
proof (cases "\<exists>doc cur. parse content = Some doc \<and> Validate doc = None \<and> \<not> dryRun \<and>
    snapshotCurrent renorm db0 app = Inr cur \<and> Count Conflict (iac_Diff renorm doc cur) = 0")
  case False
  then have "db' = db \<and> im_delta r = None"
    using assms by (auto simp: ImportAppPolicy_def import_failed_def Let_def split: option.splits if_splits sum.splits)
  with unchanged_db show thesis by simp
next
  case True
  then obtain doc cur where d: "parse content = Some doc" "Validate doc = None" "\<not> dryRun"
      "snapshotCurrent renorm db0 app = Inr cur" "Count Conflict (iac_Diff renorm doc cur) = 0" by blast
  let ?E = "E\<lparr>operator := ''iac-import''\<rparr>"
  obtain out where run: "runVersionedWrite ?E app (import_op pg renorm app doc) db = (out, db')"
    using assms d by (auto simp: ImportAppPolicy_def Let_def split: prod.splits sum.splits option.splits)
  have contract: "write_contract ?E app db (outcome (out, db'))"
    using import_write.versioned_write_contract [where app = app and pg = pg and renorm = renorm and doc = doc and op = "import_op pg renorm app doc" and E = ?E and db = db] run
    by (simp add: import_op_def)
  have "LockAppVersion db app = Inr v \<Longrightarrow> out = Inr (None, plan) \<Longrightarrow> LockAppVersion db' app = Inr v" for v plan
    using contract by (simp add: write_contract_def outcome_def LockAppVersion_def)
  moreover have "\<exists>v. LockAppVersion db app = Inr v" if "out = Inr x" for x
    using run that by (auto simp: runVersionedWrite_def split: if_splits sum.splits)
  ultimately have "outcome (out, db') = (import_outcome r, db')"
    using assms d run
    by (auto simp: ImportAppPolicy_def import_failed_def import_outcome_def outcome_def Let_def
        split: prod.splits sum.splits option.splits)
  with written_db [OF d(1,3,2)] run show thesis by simp
qed

lemma import_contract:
  "write_contract (E\<lparr>operator := ''iac-import''\<rparr>) app db
     (import_outcome (fst (ImportAppPolicy pg E parse renorm app content dryRun db0 db)),
      snd (ImportAppPolicy pg E parse renorm app content dryRun db0 db))"
proof (cases "ImportAppPolicy pg E parse renorm app content dryRun db0 db")
  case (Pair r db')
  show ?thesis
  proof (rule import_cases [OF Pair])
    assume "db' = db" "im_delta r = None"
    then show ?thesis by (simp add: Pair write_contract_def import_outcome_def split: option.splits)
  next
    fix doc
    assume "outcome (runVersionedWrite (E\<lparr>operator := ''iac-import''\<rparr>) app (import_op pg renorm app doc) db) = (import_outcome r, db')"
    then show ?thesis
      using import_write.versioned_write_contract [where app = app and pg = pg and renorm = renorm and doc = doc and
          op = "import_op pg renorm app doc" and E = "E\<lparr>operator := ''iac-import''\<rparr>" and db = db]
      by (simp add: Pair import_op_def)
  qed
qed

text \<open>What the mutation keeps, the import keeps.\<close>

lemma import_keeps:
  assumes "\<And>doc cs plan db1. parse content = Some doc \<Longrightarrow> import_mutate pg renorm app doc db = Inr (cs, plan, db1) \<Longrightarrow> P db1"
    and "P db" "\<And>db1 db2. same_business db1 db2 \<Longrightarrow> P db1 \<Longrightarrow> P db2"
  shows "P (snd (ImportAppPolicy pg E parse renorm app content dryRun db0 db))"
proof (cases "ImportAppPolicy pg E parse renorm app content dryRun db0 db")
  case (Pair r db')
  show ?thesis
  proof (rule import_cases [OF Pair])
    assume "db' = db"
    with assms(2) Pair show ?thesis by simp
  next
    fix doc
    assume d: "parse content = Some doc"
      and out: "outcome (runVersionedWrite (E\<lparr>operator := ''iac-import''\<rparr>) app (import_op pg renorm app doc) db) = (import_outcome r, db')"
    show ?thesis
    proof (cases "import_outcome r")
      case (Inl e)
      with import_contract [of E app db pg parse renorm content dryRun db0] assms(2) show ?thesis
        by (simp add: Pair write_contract_def)
    next
      case (Inr x)
      obtain cs plan db1 where "import_mutate pg renorm app doc db = Inr (cs, plan, db1)" "same_business db1 db'"
        using runVersionedWrite_business [OF out [unfolded Inr]] by (auto simp: import_op_def)
      with assms(1) [OF d] assms(3) show ?thesis by (simp add: Pair)
    qed
  qed
qed

text \<open>
  C35. An import is one versioned write under the operator \<^verbatim>\<open>iac-import\<close>, whatever the document holds and
  whatever other writes ran between its first look at the database and its lock: it meets the
  contract of a write (all or nothing, the rules change by exactly the delta, one audit row and one
  outbox row under the next version, no other application is touched), and a dry run changes nothing.
\<close>

theorem import_meets_contract:
  "write_contract (E\<lparr>operator := ''iac-import''\<rparr>) app db
     (import_outcome (fst (ImportAppPolicy pg E parse renorm app content dryRun db0 db)),
      snd (ImportAppPolicy pg E parse renorm app content dryRun db0 db)) \<and>
   snd (ImportAppPolicy pg E parse renorm app content True db0 db) = db"
  using import_contract
  by (auto simp: ImportAppPolicy_def Let_def split: option.splits sum.splits)

text \<open>
  No import ever removes or adds a binding of a user to a role, not even when a user was bound to a
  role after the import's first look at the database: the plan is made again under the lock, and a
  role with a binding is a conflict there.
\<close>

theorem import_keeps_user_bindings:
  "user_role_bindings (snd (ImportAppPolicy pg E parse renorm app content dryRun db0 db)) = user_role_bindings db"
  by (rule import_keeps) (auto simp: same_business_def doc_ok_def elim: import_bindings.mutate_keeps)

lemma import_isolated: "isolated app db (snd (ImportAppPolicy pg E parse renorm app content dryRun db0 db))"
  using import_contract [of E app db pg parse renorm content dryRun db0]
  by (auto simp: write_contract_def split: sum.splits option.splits)

lemma import_consistent_own:
  assumes "governed db" "\<And>doc. parse content = Some doc \<Longrightarrow> doc_ok text_ok doc"
  shows "consistent (snd (ImportAppPolicy pg E parse renorm app content dryRun db0 db)) app"
proof (cases "ImportAppPolicy pg E parse renorm app content dryRun db0 db")
  case (Pair r db')
  show ?thesis
  proof (rule import_cases [OF Pair])
    assume "db' = db"
    with assms(1) Pair show ?thesis by (simp add: governed_def)
  next
    fix doc
    assume d: "parse content = Some doc"
      and out: "outcome (runVersionedWrite (E\<lparr>operator := ''iac-import''\<rparr>) app (import_op pg renorm app doc) db) = (import_outcome r, db')"
    show ?thesis
    proof (cases "import_outcome r")
      case (Inl e)
      with import_contract [of E app db pg parse renorm content dryRun db0] assms(1) show ?thesis
        by (simp add: Pair write_contract_def governed_def)
    next
      case (Inr x)
      obtain cs plan db1 where m: "import_mutate pg renorm app doc db = Inr (cs, plan, db1)"
          and clean: "rows_clean db1 app \<longrightarrow> consistent db' app"
        using runVersionedWrite_business [OF out [unfolded Inr]] by (auto simp: import_op_def)
      have texts: "texts_ok db" "texts_ok db1"
        using assms(1) import_texts.mutate_keeps [OF m _ assms(2) [OF d]] by (simp_all add: governed_def)
      have "rules_of db1 app = set (ProjectApp db app)"
        using assms(1) frame_version [OF import_write.business [OF m]] by (simp add: governed_def consistent_def)
      then have "rows_clean db1 app" using texts projected_sep_free by (auto simp: rows_clean_def)
      with clean Pair show ?thesis by simp
    qed
  qed
qed

lemma consistent_elsewhere:
  assumes "isolated app db db'" "governed db" "schema_ok db'" "a \<noteq> app"
  shows "consistent db' a"
proof -
  have "set (ProjectApp db' a) = set (ProjectApp db a)"
    by (rule project_elsewhere [OF assms(1)]) (use assms in \<open>simp_all add: governed_def\<close>)
  moreover have "rules_of db' a = rules_of db a"
    using assms(1,4) by (simp add: rules_of_def ReadAppRules_def isolated_def)
  ultimately show ?thesis using assms(2) by (simp add: governed_def consistent_def)
qed


definition import_db :: db where
  "import_db = run_writes demo_pg demo_writes shop_db"

lemma import_db_governed: "governed import_db"
  unfolding import_db_def
  by (rule run_writes_invariant [of governed])
    (use shop_db_start(3) in \<open>auto intro!: exec_governed simp: demo_writes_def text_ok_def label_ok_def key_sep_def\<close>)


section \<open>The grants of an imported role\<close>

definition role_grants :: "db \<Rightarrow> int64 \<Rightarrow> int64 \<Rightarrow> (string \<times> string) set" where
  "role_grants db app roleID = {(pm_code p, rp_eft g) | g p. g \<in> set (role_permissions db) \<and> p \<in> set (permissions db) \<and>
     rp_app g = app \<and> rp_role g = roleID \<and> pm_id p = rp_permission g}"

text \<open>The same by permission identifiers.\<close>

definition grants_of :: "db \<Rightarrow> int64 \<Rightarrow> int64 \<Rightarrow> (int64 \<times> string) set" where
  "grants_of db app r = (\<lambda>g. (rp_permission g, rp_eft g)) ` {g \<in> set (role_permissions db). rp_app g = app \<and> rp_role g = r}"

lemma role_grants_alt: "role_grants db app r = {(pm_code p, e) | p e. p \<in> set (permissions db) \<and> (pm_id p, e) \<in> grants_of db app r}"
proof -
  have "(pm_id p, e) \<in> grants_of db app r \<longleftrightarrow>
      (\<exists>g. g \<in> set (role_permissions db) \<and> rp_app g = app \<and> rp_role g = r \<and> pm_id p = rp_permission g \<and> e = rp_eft g)" for p e
    unfolding grants_of_def by blast
  then show ?thesis unfolding role_grants_def by blast
qed

lemma grants_of_delete: "grants_of (DeleteRolePermission app r i db) app r = {x \<in> grants_of db app r. fst x \<noteq> i}"
proof -
  have "{g \<in> set (role_permissions (DeleteRolePermission app r i db)). rp_app g = app \<and> rp_role g = r} =
      {g \<in> {g \<in> set (role_permissions db). rp_app g = app \<and> rp_role g = r}. fst (rp_permission g, rp_eft g) \<noteq> i}"
    by (simp add: DeleteRolePermission_def set_eq_iff) blast
  moreover have image: "f ` {x \<in> A. P (f x)} = {y \<in> f ` A. P y}" for f :: "grant_row \<Rightarrow> int64 \<times> string" and A P by blast
  ultimately show ?thesis
    unfolding grants_of_def using image [of "\<lambda>g. (rp_permission g, rp_eft g)" _ "\<lambda>x. fst x \<noteq> i"] by (simp only:)
qed

lemma grants_of_insert:
  assumes "InsertRolePermission app r i e db = Inr db'" "\<forall>x \<in> grants_of db app r. snd x = e"
  shows "grants_of db' app r = insert (i, e) (grants_of db app r)"
proof (cases "\<exists>g \<in> set (role_permissions db). rp_app g = app \<and> rp_role g = r \<and> rp_permission g = i")
  case True
  then have "db' = db" using assms(1) by (simp add: InsertRolePermission_def)
  moreover obtain g where "g \<in> set (role_permissions db)" "rp_app g = app" "rp_role g = r" "rp_permission g = i" using True by blast
  then have "(i, rp_eft g) \<in> grants_of db app r" unfolding grants_of_def by blast
  with assms(2) have "(i, e) \<in> grants_of db app r" by fastforce
  ultimately show ?thesis by (simp add: insert_absorb)
next
  case False
  with assms(1) have "role_permissions db' = role_permissions db @ [\<lparr>rp_app = app, rp_role = r, rp_permission = i, rp_eft = e\<rparr>]"
    by (auto simp: InsertRolePermission_def split: if_splits)
  then have "{g \<in> set (role_permissions db'). rp_app g = app \<and> rp_role g = r} =
      insert \<lparr>rp_app = app, rp_role = r, rp_permission = i, rp_eft = e\<rparr> {g \<in> set (role_permissions db). rp_app g = app \<and> rp_role g = r}"
    by auto
  then show ?thesis by (simp add: grants_of_def)
qed

lemma revoke_fold:
  assumes "foldM (revoke_code app r ids) cs db = Inr db1"
  shows "permissions db1 = permissions db \<and> (\<forall>c \<in> set cs. ids c \<noteq> None) \<and>
    grants_of db1 app r = {x \<in> grants_of db app r. Some (fst x) \<notin> ids ` set cs}"
  using assms
proof (induction cs arbitrary: db)
  case (Cons c cs)
  then obtain i where i: "ids c = Some i" "foldM (revoke_code app r ids) cs (DeleteRolePermission app r i db) = Inr db1"
    by (cases "ids c") (simp_all add: revoke_code_def [of app r ids c db])
  have "grants_of (DeleteRolePermission app r i db) app r = {x \<in> grants_of db app r. fst x \<noteq> i}"
    by (rule grants_of_delete)
  moreover have "permissions (DeleteRolePermission app r i db) = permissions db" by (simp add: DeleteRolePermission_def)
  ultimately show ?case using Cons.IH [OF i(2)] i(1) by auto
qed simp

lemma allow_fold:
  assumes "foldM (allow_code app r ids) cs db = Inr db1" "\<forall>x \<in> grants_of db app r. snd x = EffectAllow"
  shows "permissions db1 = permissions db \<and> (\<forall>c \<in> set cs. ids c \<noteq> None) \<and>
    grants_of db1 app r = grants_of db app r \<union> (\<lambda>c. (the (ids c), EffectAllow)) ` set cs"
  using assms
proof (induction cs arbitrary: db)
  case (Cons c cs)
  then obtain i db2 where i: "ids c = Some i" "InsertRolePermission app r i EffectAllow db = Inr db2"
      "foldM (allow_code app r ids) cs db2 = Inr db1"
    by (cases "ids c") (auto simp: allow_code_def [of app r ids c db] split: sum.splits)
  have "permissions db2 = permissions db" using i(2) by (auto simp: InsertRolePermission_def split: if_splits)
  moreover have "grants_of db2 app r = insert (i, EffectAllow) (grants_of db app r)"
    by (rule grants_of_insert [OF i(2) Cons.prems(2)])
  ultimately show ?case using Cons.IH [OF i(3)] Cons.prems(2) i(1) by auto
qed simp

text \<open>Under the keys of the schema, a code names one permission, and a grant has one.\<close>

lemma ids_by_code:
  assumes "schema_ok db" "PermissionIDsByCode db app cs c = Some i"
  shows "\<exists>p \<in> set (permissions db). pm_app p = app \<and> pm_code p = c \<and> pm_id p = i"
  using assms(2) by (auto simp: PermissionIDsByCode_def dest!: map_of_SomeD)

lemma ids_of_permission:
  assumes "schema_ok db" "p \<in> set (permissions db)" "pm_app p = app" "pm_code p \<in> set cs"
  shows "PermissionIDsByCode db app cs (pm_code p) = Some (pm_id p)"
proof (cases "PermissionIDsByCode db app cs (pm_code p)")
  case None
  then have "pm_code p \<notin> pm_code ` {q \<in> set (permissions db). pm_app q = app \<and> pm_code q \<in> set cs}"
    by (force simp: PermissionIDsByCode_def map_of_eq_None_iff)
  with assms show ?thesis by blast
next
  case (Some i)
  then obtain q where q: "q \<in> set (permissions db)" "pm_app q = app" "pm_code q = pm_code p" "pm_id q = i"
    using ids_by_code [OF assms(1)] by blast
  have "inj_on (\<lambda>p. (pm_app p, pm_code p)) (set (permissions db))" using assms(1) by (simp add: schema_ok_def distinct_map)
  then have "q = p" by (rule inj_onD) (use assms(2,3) q(1-3) in simp_all)
  with q(4) Some show ?thesis by simp
qed

lemma reset_grants:
  assumes "schema_ok db" "resetRolePermissions app r codes db = Inr db'"
  shows "role_grants db' app r = (\<lambda>c. (c, EffectAllow)) ` set codes"
proof -
  let ?cur = "RolePermissionCodes db app r"
  let ?ids = "PermissionIDsByCode db app (?cur @ codes)"
  obtain db1 where 1: "foldM (revoke_code app r ?ids) ?cur db = Inr db1" "foldM (allow_code app r ?ids) codes db1 = Inr db'"
    using assms(2) by (auto simp: resetRolePermissions_def Let_def split: sum.splits)
  have "Some i \<in> ?ids ` set ?cur" if ie: "(i, e) \<in> grants_of db app r" for i e
  proof -
    obtain g where g: "g \<in> set (role_permissions db)" "rp_app g = app" "rp_role g = r" "rp_permission g = i"
      using ie by (auto simp: grants_of_def)
    with assms(1) obtain p where p: "p \<in> set (permissions db)" "pm_app p = app" "pm_id p = i"
      by (auto simp: schema_ok_def has_permission_id_def)
    with g have "pm_code p \<in> set ?cur" by (auto simp: RolePermissionCodes_def)
    with ids_of_permission [OF assms(1) p(1,2), of "?cur @ codes"] p(3) show ?thesis by (metis Un_iff image_eqI set_append)
  qed
  then have none: "grants_of db1 app r = {}" and p1: "permissions db1 = permissions db"
    using revoke_fold [OF 1(1)] by auto
  have all: "permissions db' = permissions db" "\<forall>c \<in> set codes. ?ids c \<noteq> None"
      "grants_of db' app r = (\<lambda>c. (the (?ids c), EffectAllow)) ` set codes"
    using allow_fold [OF 1(2)] none p1 by simp_all
  have "\<exists>p \<in> set (permissions db). pm_id p = the (?ids c) \<and> pm_code p = c" if "c \<in> set codes" for c
    using ids_by_code [OF assms(1)] all(2) that by (metis option.collapse)
  moreover have "pm_code p = c" if "c \<in> set codes" "p \<in> set (permissions db)" "pm_id p = the (?ids c)" for p c
  proof -
    have "inj_on pm_id (set (permissions db))" using assms(1) by (simp add: schema_ok_def distinct_map)
    with that calculation [OF that(1)] show ?thesis by (metis inj_onD)
  qed
  ultimately show ?thesis unfolding role_grants_alt all(1,3) by blast
qed

text \<open>
  When an import has reset a role, the permissions of the role are exactly the codes the document
  lists for it, each of them allowed: nothing of the earlier grants remains, not even their effect.
\<close>

theorem reset_role_grants_exactly:
  assumes "schema_ok db" and "resetRolePermissions app r codes db = Inr db'"
  shows "role_grants db' app r = (\<lambda>c. (c, EffectAllow)) ` set codes"
  by (rule reset_grants [OF assms])

text \<open>A role whose grant denies, made by hand.\<close>

definition deny_db :: db where
  "deny_db = run_writes demo_pg
     [(demo_env, 1, WCreateRole ''guest'' ''Guest''), (demo_env, 1, WUpsertPermission ''del'' ''order'' ''delete'' ''api'' ''Delete''),
      (demo_env, 1, WGrant 1 1 ''deny'')] shop_db"

theorem reset_role_grants_exactly_witness:
  "role_grants (case resetRolePermissions 1 1 [''del''] deny_db of Inr db \<Rightarrow> db | Inl _ \<Rightarrow> deny_db) 1 1 = {(''del'', ''allow'')} \<and>
   role_permissions deny_db = [\<lparr>rp_app = 1, rp_role = 1, rp_permission = 1, rp_eft = ''deny''\<rparr>]"
proof -
  have "schema_ok deny_db"
    unfolding deny_db_def by (rule run_writes_invariant [of schema_ok, OF shop_db_start(1) schema.exec_keeps]) auto
  moreover have "role_permissions deny_db = [\<lparr>rp_app = 1, rp_role = 1, rp_permission = 1, rp_eft = ''deny''\<rparr>]" by code_simp
  moreover have "isl (resetRolePermissions 1 1 [''del''] deny_db) = False" by code_simp
  then obtain db' where "resetRolePermissions 1 1 [''del''] deny_db = Inr db'" by (cases "resetRolePermissions 1 1 [''del''] deny_db") simp_all
  ultimately show ?thesis using reset_role_grants_exactly [of deny_db 1 1 "[''del'']"] by (simp add: EffectAllow_def)
qed

text \<open>
  Exporting an application and importing the same document again turns its denials into grants: the
  export lists the codes of a role without their effect, the import adopts the hand-made role and
  allows every code it lists.
\<close>

definition reimported :: "db \<Rightarrow> db" where
  "reimported db = (case ExportAppPolicy Some db 1 of
     Inl _ \<Rightarrow> db
   | Inr doc \<Rightarrow> snd (ImportAppPolicy demo_pg demo_env (\<lambda>_. Some doc) Some 1 [] False db db))"

theorem reimport_turns_deny_into_allow:
  "ReadAppRules deny_db 1 = [p_row ''guest'' ''shop'' ''order'' ''delete'' ''deny''] \<and>
   ReadAppRules (reimported deny_db) 1 = [p_row ''guest'' ''shop'' ''order'' ''delete'' ''allow'']"
  by (rule conjI; code_simp)
end
