(* ===== verification/Mgmt_Server.thy ===== *)
theory Mgmt_Server
  imports Policy_As_Code Admin_Ops
begin

text \<open>
  The handlers of the management service over the policy manager (\<^verbatim>\<open>mgmt/server.go\<close>, \<^verbatim>\<open>business_role.go\<close>,
  \<^verbatim>\<open>errorsanitize.go\<close>): the mapping of the manager's errors to status codes, the limits of a batch, the checks in
  front of a data policy, and the boundary that hides internal errors. The lemmas show that the answer tells
  whether and under which version the application changed, and that no detail of an internal error leaves the
  service. Texts of messages are shortened.
\<close>

section \<open>Answers\<close>

definition mapWriteErr :: "string \<Rightarrow> policy_error \<Rightarrow> admin_status" where
  "mapWriteErr what e =
     (case e of
        ErrInvalidInput \<Rightarrow> (InvalidArgument, what)
      | ErrConflict \<Rightarrow> (AlreadyExists, what)
      | ErrNotFound \<Rightarrow> (NotFound, what)
      | ErrPrecondition \<Rightarrow> (FailedPrecondition, what)
      | _ \<Rightarrow> (Internal, what))"

definition delta_resp :: "delta option \<Rightarrow> write_response" where
  "delta_resp d = (case d of None \<Rightarrow> \<lparr>wr_Version = 0, wr_Changed = False\<rparr> | Some d \<Rightarrow> \<lparr>wr_Version = d_Version d, wr_Changed = True\<rparr>)"

definition writeResp :: "'a written \<Rightarrow> (admin_status, write_response) res \<times> db" where
  "writeResp w = (case w of (Inl e, db) \<Rightarrow> (Inl (mapWriteErr ''write'' e), db) | (Inr (d, _), db) \<Rightarrow> (Inr (delta_resp d), db))"

text \<open>Creations answer with the identifier too.\<close>

definition idResp :: "string \<Rightarrow> int64 written \<Rightarrow> (admin_status, int64 \<times> write_response) res \<times> db" where
  "idResp what w = (case w of (Inl e, db) \<Rightarrow> (Inl (mapWriteErr what e), db) | (Inr (d, i), db) \<Rightarrow> (Inr (i, delta_resp d), db))"

record batch_response =
  br_Requested :: "32 word"
  br_Applied :: "32 word"
  br_write :: write_response

definition batchResp :: "nat \<Rightarrow> nat written \<Rightarrow> (admin_status, batch_response) res \<times> db" where
  "batchResp requested w =
     (case w of
        (Inl e, db) \<Rightarrow> (Inl (mapWriteErr ''batch write'' e), db)
      | (Inr (d, applied), db) \<Rightarrow> (Inr \<lparr>br_Requested = of_nat requested, br_Applied = of_nat applied, br_write = delta_resp d\<rparr>, db))"

section \<open>Handlers\<close>

definition Admin_CreateRole :: "pg \<Rightarrow> env \<Rightarrow> int64 \<Rightarrow> string \<Rightarrow> string \<Rightarrow> db \<Rightarrow> (admin_status, int64 \<times> write_response) res \<times> db" where
  "Admin_CreateRole pg E app cd name db = idResp ''create role'' (CreateRole pg E app cd name db)"

definition Admin_CreateBusinessRole ::
    "pg \<Rightarrow> env \<Rightarrow> string \<Rightarrow> int64 \<Rightarrow> string \<Rightarrow> int64 list \<Rightarrow> db \<Rightarrow> (admin_status, int64 \<times> write_response) res \<times> db" where
  "Admin_CreateBusinessRole pg E cd app name permIDs db =
     (if name = [] then (Inl (InvalidArgument, ''name required''), db)
      else idResp ''create business role'' (CreateBusinessRole pg E cd app name permIDs db))"

definition Admin_DeleteRole :: "env \<Rightarrow> int64 \<Rightarrow> int64 \<Rightarrow> db \<Rightarrow> (admin_status, write_response) res \<times> db" where
  "Admin_DeleteRole E app roleID db = writeResp (Manager_DeleteRole E app roleID db)"

definition Admin_UpsertPermission ::
    "pg \<Rightarrow> env \<Rightarrow> int64 \<Rightarrow> string \<Rightarrow> string \<Rightarrow> string \<Rightarrow> string \<Rightarrow> string \<Rightarrow> db \<Rightarrow> (admin_status, int64 \<times> write_response) res \<times> db" where
  "Admin_UpsertPermission pg E app cd resource act ptype name db =
     idResp ''upsert permission'' (Manager_UpsertPermission pg E app cd resource act ptype name db)"

definition Admin_GrantPermission :: "env \<Rightarrow> int64 \<Rightarrow> int64 \<Rightarrow> int64 \<Rightarrow> string \<Rightarrow> db \<Rightarrow> (admin_status, write_response) res \<times> db" where
  "Admin_GrantPermission E app roleID permID eft db = writeResp (GrantPermission E app roleID permID eft db)"

definition Admin_RevokePermission :: "env \<Rightarrow> int64 \<Rightarrow> int64 \<Rightarrow> int64 \<Rightarrow> db \<Rightarrow> (admin_status, write_response) res \<times> db" where
  "Admin_RevokePermission E app roleID permID db = writeResp (RevokePermission E app roleID permID db)"

definition Admin_AddRoleInheritance :: "env \<Rightarrow> int64 \<Rightarrow> int64 \<Rightarrow> int64 \<Rightarrow> db \<Rightarrow> (admin_status, write_response) res \<times> db" where
  "Admin_AddRoleInheritance E app childID parentID db = writeResp (AddRoleInheritance E app childID parentID db)"

definition Admin_RemoveRoleInheritance :: "env \<Rightarrow> int64 \<Rightarrow> int64 \<Rightarrow> int64 \<Rightarrow> db \<Rightarrow> (admin_status, write_response) res \<times> db" where
  "Admin_RemoveRoleInheritance E app childID parentID db = writeResp (RemoveRoleInheritance E app childID parentID db)"

definition Admin_BindUserRole :: "env \<Rightarrow> int64 \<Rightarrow> string \<Rightarrow> int64 \<Rightarrow> db \<Rightarrow> (admin_status, write_response) res \<times> db" where
  "Admin_BindUserRole E app userID roleID db = writeResp (BindUserRole E app userID roleID db)"

definition Admin_UnbindUserRole :: "env \<Rightarrow> int64 \<Rightarrow> string \<Rightarrow> int64 \<Rightarrow> db \<Rightarrow> (admin_status, write_response) res \<times> db" where
  "Admin_UnbindUserRole E app userID roleID db = writeResp (UnbindUserRole E app userID roleID db)"

text \<open>\<^const>\<open>None\<close> if the validation of the condition panics, which ends the process.\<close>

definition Admin_UpsertDataPolicy ::
    "pg \<Rightarrow> env \<Rightarrow> int64 \<Rightarrow> data_policy \<Rightarrow> db \<Rightarrow> ((admin_status, int64 \<times> write_response) res \<times> db) option" where
  "Admin_UpsertDataPolicy pg E app p db =
     (let eff = (if dp_Effect p = [] then EffectAllow else dp_Effect p)
      in if eff \<noteq> EffectAllow \<and> eff \<noteq> EffectDeny then Some (Inl (InvalidArgument, ''invalid effect''), db)
         else case ValidateCondition (dp_Condition p) of
           Some NilDereference \<Rightarrow> None
         | Some IndexOutOfRange \<Rightarrow> None
         | Some _ \<Rightarrow> Some (Inl (InvalidArgument, ''invalid condition''), db)
         | None \<Rightarrow>
             Some (case Manager_UpsertDataPolicy pg E app (p\<lparr>dp_Effect := eff\<rparr>) db of
                     (Inl e, db') \<Rightarrow> (Inl (mapWriteErr ''upsert data policy'' e), db')
                   | (Inr (d, _), db') \<Rightarrow>
                       (Inr (case d of
                          None \<Rightarrow> (0, delta_resp None)
                        | Some d' \<Rightarrow> (case d_DataChanges d' of [] \<Rightarrow> (0, delta_resp None) | c # _ \<Rightarrow> (dp_ID (dc_Policy c), delta_resp d))), db')))"

definition Admin_DeleteDataPolicy :: "env \<Rightarrow> int64 \<Rightarrow> int64 \<Rightarrow> db \<Rightarrow> (admin_status, write_response) res \<times> db" where
  "Admin_DeleteDataPolicy E app i db = writeResp (Manager_DeleteDataPolicy E app i db)"

definition maxBatchItems :: nat where
  "maxBatchItems = 1000"

definition batch_guard :: "'i list \<Rightarrow> (admin_status, batch_response) res \<times> db \<Rightarrow> db \<Rightarrow> (admin_status, batch_response) res \<times> db" where
  "batch_guard items out db =
     (if items = [] \<or> length items > maxBatchItems then (Inl (InvalidArgument, ''number of items''), db) else out)"

definition Admin_BatchUnbindUserRole :: "env \<Rightarrow> int64 \<Rightarrow> (string \<times> int64) list \<Rightarrow> db \<Rightarrow> (admin_status, batch_response) res \<times> db" where
  "Admin_BatchUnbindUserRole E app items db = batch_guard items (batchResp (length items) (BatchUnbindUserRole E app items db)) db"

definition Admin_BatchRevokePermission :: "env \<Rightarrow> int64 \<Rightarrow> (int64 \<times> int64) list \<Rightarrow> db \<Rightarrow> (admin_status, batch_response) res \<times> db" where
  "Admin_BatchRevokePermission E app items db = batch_guard items (batchResp (length items) (BatchRevokePermission E app items db)) db"

definition Admin_BatchRemoveRoleInheritance :: "env \<Rightarrow> int64 \<Rightarrow> (int64 \<times> int64) list \<Rightarrow> db \<Rightarrow> (admin_status, batch_response) res \<times> db" where
  "Admin_BatchRemoveRoleInheritance E app items db =
     batch_guard items (batchResp (length items) (BatchRemoveRoleInheritance E app items db)) db"

definition Admin_BatchDeleteRole :: "env \<Rightarrow> int64 \<Rightarrow> int64 list \<Rightarrow> db \<Rightarrow> (admin_status, batch_response) res \<times> db" where
  "Admin_BatchDeleteRole E app ids db = batch_guard ids (batchResp (length ids) (BatchDeleteRole E app ids db)) db"

definition Admin_BatchDeleteDataPolicy :: "env \<Rightarrow> int64 \<Rightarrow> int64 list \<Rightarrow> db \<Rightarrow> (admin_status, batch_response) res \<times> db" where
  "Admin_BatchDeleteDataPolicy E app ids db = batch_guard ids (batchResp (length ids) (BatchDeleteDataPolicy E app ids db)) db"

record import_response =
  ir_Applied :: bool
  ir_Version :: uint64
  ir_Diff :: "plan_item list"
  ir_Counts :: "nat list"

definition Admin_ImportAppPolicy ::
    "pg \<Rightarrow> env \<Rightarrow> (string \<Rightarrow> document option) \<Rightarrow> (string \<Rightarrow> string option) \<Rightarrow> int64 \<Rightarrow> string \<Rightarrow> bool \<Rightarrow> db \<Rightarrow> db \<Rightarrow>
     (admin_status, import_response) res \<times> db" where
  "Admin_ImportAppPolicy pg E parse renorm app content dryRun db0 db =
     (case ImportAppPolicy pg E parse renorm app content dryRun db0 db of
        (r, db') \<Rightarrow>
          (case im_error r of
             Some (Unclassified ImportConflict) \<Rightarrow> (Inl (FailedPrecondition, ''import policy''), db')
           | Some ErrImportInvalid \<Rightarrow> (Inl (InvalidArgument, ''import policy''), db')
           | Some _ \<Rightarrow> (Inl (Internal, ''import policy''), db')
           | None \<Rightarrow> (Inr \<lparr>ir_Applied = (\<not> dryRun), ir_Version = im_version r, ir_Diff = im_plan r,
               ir_Counts = map (\<lambda>k. Count k (im_plan r)) [Create, Adopt, Update, Delete, Conflict]\<rparr>, db')))"

section \<open>The boundary\<close>

definition SanitizeError :: "(admin_status, 'r) res \<Rightarrow> (admin_status, 'r) res" where
  "SanitizeError out = (case out of Inl (c, msg) \<Rightarrow> if c = Internal then Inl (c, ''internal error'') else Inl (c, msg) | Inr r \<Rightarrow> Inr r)"

section \<open>What the answers tell\<close>

text \<open>An error has changed nothing; a success tells whether the version of the application moved, and to what.\<close>

definition tells_version :: "int64 \<Rightarrow> db \<Rightarrow> (admin_status, write_response) res \<times> db \<Rightarrow> bool" where
  "tells_version app db out \<longleftrightarrow>
     (case out of
        (Inl _, db') \<Rightarrow> db' = db
      | (Inr w, db') \<Rightarrow>
          (if wr_Changed w then version_of db app = Some (wr_Version w - 1) \<and> version_of db' app = Some (wr_Version w)
           else version_of db' app = version_of db app \<and> wr_Version w = 0))"

text \<open>The handlers, for statements about any of them; identifiers and counts of an answer are left out.\<close>

definition no_id :: "('e, 'i \<times> 'w) res \<times> 'd \<Rightarrow> ('e, 'w) res \<times> 'd" where
  "no_id out = (case out of (Inl e, d) \<Rightarrow> (Inl e, d) | (Inr (_, w), d) \<Rightarrow> (Inr w, d))"

definition no_counts :: "('e, batch_response) res \<times> 'd \<Rightarrow> ('e, write_response) res \<times> 'd" where
  "no_counts out = (case out of (Inl e, d) \<Rightarrow> (Inl e, d) | (Inr b, d) \<Rightarrow> (Inr (br_write b), d))"

datatype rpc =
    RpcCreateRole string string
  | RpcCreateBusinessRole string string "int64 list"
  | RpcDeleteRole int64
  | RpcUpsertPermission string string string string string
  | RpcGrantPermission int64 int64 string
  | RpcRevokePermission int64 int64
  | RpcAddRoleInheritance int64 int64
  | RpcRemoveRoleInheritance int64 int64
  | RpcBindUserRole string int64
  | RpcUnbindUserRole string int64
  | RpcUpsertDataPolicy data_policy
  | RpcDeleteDataPolicy int64
  | RpcBatchUnbindUserRole "(string \<times> int64) list"
  | RpcBatchRevokePermission "(int64 \<times> int64) list"
  | RpcBatchRemoveRoleInheritance "(int64 \<times> int64) list"
  | RpcBatchDeleteRole "int64 list"
  | RpcBatchDeleteDataPolicy "int64 list"

fun serve :: "pg \<Rightarrow> env \<Rightarrow> int64 \<Rightarrow> rpc \<Rightarrow> db \<Rightarrow> ((admin_status, write_response) res \<times> db) option" where
  "serve pg E app (RpcCreateRole cd n) db = Some (no_id (Admin_CreateRole pg E app cd n db))"
| "serve pg E app (RpcCreateBusinessRole cd n ps) db = Some (no_id (Admin_CreateBusinessRole pg E cd app n ps db))"
| "serve pg E app (RpcDeleteRole r) db = Some (Admin_DeleteRole E app r db)"
| "serve pg E app (RpcUpsertPermission cd res act ty n) db = Some (no_id (Admin_UpsertPermission pg E app cd res act ty n db))"
| "serve pg E app (RpcGrantPermission r p eft) db = Some (Admin_GrantPermission E app r p eft db)"
| "serve pg E app (RpcRevokePermission r p) db = Some (Admin_RevokePermission E app r p db)"
| "serve pg E app (RpcAddRoleInheritance c p) db = Some (Admin_AddRoleInheritance E app c p db)"
| "serve pg E app (RpcRemoveRoleInheritance c p) db = Some (Admin_RemoveRoleInheritance E app c p db)"
| "serve pg E app (RpcBindUserRole u r) db = Some (Admin_BindUserRole E app u r db)"
| "serve pg E app (RpcUnbindUserRole u r) db = Some (Admin_UnbindUserRole E app u r db)"
| "serve pg E app (RpcUpsertDataPolicy p) db = map_option no_id (Admin_UpsertDataPolicy pg E app p db)"
| "serve pg E app (RpcDeleteDataPolicy i) db = Some (Admin_DeleteDataPolicy E app i db)"
| "serve pg E app (RpcBatchUnbindUserRole ps) db = Some (no_counts (Admin_BatchUnbindUserRole E app ps db))"
| "serve pg E app (RpcBatchRevokePermission ps) db = Some (no_counts (Admin_BatchRevokePermission E app ps db))"
| "serve pg E app (RpcBatchRemoveRoleInheritance ps) db = Some (no_counts (Admin_BatchRemoveRoleInheritance E app ps db))"
| "serve pg E app (RpcBatchDeleteRole ids) db = Some (no_counts (Admin_BatchDeleteRole E app ids db))"
| "serve pg E app (RpcBatchDeleteDataPolicy ids) db = Some (no_counts (Admin_BatchDeleteDataPolicy E app ids db))"

text \<open>Each form of answer tells the version if the write behind it meets its contract.\<close>

lemma contract_tells:
  assumes "write_contract E app db (outcome w)"
  shows "tells_version app db (writeResp w)"
  using assms
  by (auto simp: tells_version_def writeResp_def outcome_def write_contract_def delta_resp_def version_of_def
      split: prod.splits sum.splits option.splits)

lemma idResp_tells: "tells_version app db (writeResp w) \<Longrightarrow> tells_version app db (no_id (idResp what w))"
  by (auto simp: tells_version_def no_id_def idResp_def writeResp_def split: prod.splits sum.splits)

lemma batchResp_tells:
  "tells_version app db (writeResp w) \<Longrightarrow> tells_version app db (no_counts (batch_guard items (batchResp n w) db))"
  by (auto simp: tells_version_def no_counts_def batch_guard_def batchResp_def writeResp_def split: prod.splits sum.splits)

lemma exec_tells: "exec pg E app c db = outcome w \<Longrightarrow> tells_version app db (writeResp w)"
  using contract_tells exec_contract by metis

lemma upsert_data_policy_changes:
  "Manager_UpsertDataPolicy pg E app p db = (Inr (Some d, x), db') \<Longrightarrow> d_DataChanges d \<noteq> []"
  by (auto simp: Manager_UpsertDataPolicy_def runVersionedWriteData_def Let_def split: if_splits sum.splits prod.splits)

lemma upsert_data_policy_tells:
  assumes "Admin_UpsertDataPolicy pg E app p db = Some out"
  shows "tells_version app db (no_id out)"
proof -
  let ?w = "Manager_UpsertDataPolicy pg E app (p\<lparr>dp_Effect := if dp_Effect p = [] then EffectAllow else dp_Effect p\<rparr>) db"
  have "tells_version app db (writeResp ?w)" by (rule exec_tells [where c = "WUpsertDataPolicy _"]) simp
  moreover have "d_DataChanges d \<noteq> []" if "?w = (Inr (Some d, x), db')" for d x db'
    using upsert_data_policy_changes [OF that] .
  ultimately show ?thesis using assms
    by (auto simp: Admin_UpsertDataPolicy_def Let_def tells_version_def no_id_def writeResp_def delta_resp_def
        split: if_splits option.splits cond_error.splits sum.splits prod.splits list.splits) (metis surj_pair)+
qed

lemma serve_tells_version: "serve pg E app c db = Some out \<Longrightarrow> tells_version app db out"
proof (induction pg E app c db rule: serve.induct)
  case (2 pg E app cd n ps db)
  then show ?case
    by (auto simp: Admin_CreateBusinessRole_def no_id_def [of "(Inl _, _)"] tells_version_def [of _ _ "(Inl _, _)"]
        intro!: idResp_tells exec_tells [where pg = pg and E = E and c = "WCreateBusinessRole cd n ps"])
next
  case (11 pg E app p db)
  then show ?case using upsert_data_policy_tells by auto
qed (auto simp: Admin_CreateRole_def Admin_DeleteRole_def Admin_UpsertPermission_def Admin_GrantPermission_def
    Admin_RevokePermission_def Admin_AddRoleInheritance_def Admin_RemoveRoleInheritance_def Admin_BindUserRole_def
    Admin_UnbindUserRole_def Admin_DeleteDataPolicy_def Admin_BatchUnbindUserRole_def Admin_BatchRevokePermission_def
    Admin_BatchRemoveRoleInheritance_def Admin_BatchDeleteRole_def Admin_BatchDeleteDataPolicy_def
    intro!: idResp_tells batchResp_tells intro: exec_tells exec.simps [THEN exec_tells])

text \<open>Nothing of an internal error but its code leaves the service; every other answer passes unchanged.\<close>

lemma sanitized: "SanitizeError (Inl (Internal, msg)) = SanitizeError (Inl (Internal, msg'))"
    "SanitizeError out = (Inl (Internal, msg) :: (admin_status, 'r) res) \<Longrightarrow> msg = ''internal error''"
    "(\<And>msg. out \<noteq> Inl (Internal, msg)) \<Longrightarrow> SanitizeError out = out"
  by (auto simp: SanitizeError_def split: sum.splits prod.splits if_splits)

end
