(* ===== verification/Templates.thy ===== *)
theory Templates
  imports Mgmt_Server
begin

text \<open>
  Templates: the official packages that ship with the program and their check at start-up (\<^verbatim>\<open>presets/presets.go\<close>),
  the capture of an application as a template of its tenant (\<^verbatim>\<open>tenanttemplate/bundle.go\<close>), the table that keeps such
  templates (\<^verbatim>\<open>store/tenant_template.go\<close>), and the handlers that save, delete and apply them
  (\<^verbatim>\<open>mgmt/templates.go\<close>, \<^verbatim>\<open>mgmt/tenant_templates.go\<close>). The lemmas show that the search for a fresh key ends, that
  a captured template is well formed and that a template never leaves its tenant; and what a capture loses. The
  paged listing and the previews are left out, and so are the widths of text columns.
\<close>

section \<open>Bundles\<close>

record bundle_permission =
  bp_Code :: string
  bp_Resource :: string
  bp_Action :: string
  bp_Type :: string
  bp_Name :: string
  bp_Description :: string

record bundle_scope =
  bs_Resource :: string
  bs_Effect :: string
  bs_Condition :: string

record bundle_role =
  bn_Key :: string
  bn_Name :: string
  bn_Description :: string
  bn_PermissionCodes :: "string list"
  bn_DataScopes :: "bundle_scope list"

record policy_bundle =
  bu_Permissions :: "bundle_permission list"
  bu_Roles :: "bundle_role list"

definition maxBundleRoleKey :: nat where
  "maxBundleRoleKey = 30"

text \<open>The search for a key that is not taken; \<^const>\<open>None\<close> if it does not end.\<close>

partial_function (option) fresh_key :: "string list \<Rightarrow> string \<Rightarrow> int64 \<Rightarrow> string \<Rightarrow> string option" where
  "fresh_key seen base n k =
     (if k \<in> set seen then fresh_key seen base (n + 1) (base @ ''_'' @ show_id n) else Some k)"

declare fresh_key.simps [code]

definition SafeKey :: "string \<Rightarrow> string list \<Rightarrow> (string \<times> string list) option" where
  "SafeKey cd seen =
     (let k = map (\<lambda>c. if c = CHR '':'' then CHR ''_'' else c) cd;
          k = (if k = [] then ''role'' else k);
          k = (if length k > maxBundleRoleKey then take maxBundleRoleKey k else k)
      in map_option (\<lambda>k. (k, k # seen)) (fresh_key seen k 2 k))"

text \<open>
  The capture runs its queries one by one outside a transaction: the \<open>i\<close>-th of them sees the state \<open>reads i\<close>, or
  fails. First the permissions, then the data policies, the roles, and for each role its grants.
\<close>

definition capture_permission :: "permission_row \<Rightarrow> bundle_permission" where
  "capture_permission p =
     \<lparr>bp_Code = pm_code p, bp_Resource = pm_resource p, bp_Action = pm_action p, bp_Type = pm_type p,
      bp_Name = pm_name p, bp_Description = pm_description p\<rparr>"

definition scopesByRole :: "data_policy list \<Rightarrow> string \<Rightarrow> bundle_scope list" where
  "scopesByRole dps cd =
     map (\<lambda>dp. \<lparr>bs_Resource = dp_Resource dp, bs_Effect = dp_Effect dp, bs_Condition = dp_Condition dp\<rparr>)
       (filter (\<lambda>dp. dp_SubjectType dp = ''role'' \<and> dp_SubjectID dp = cd) dps)"

fun capture_roles ::
    "(nat \<Rightarrow> db option) \<Rightarrow> int64 \<Rightarrow> data_policy list \<Rightarrow> nat \<Rightarrow> role_row list \<Rightarrow> string list \<Rightarrow> (unit, bundle_role list) res option" where
  "capture_roles reads app dps i [] seen = Some (Inr [])"
| "capture_roles reads app dps i (r # rs) seen =
     (case reads i of
        None \<Rightarrow> Some (Inl ())
      | Some db \<Rightarrow>
          (case SafeKey (rl_code r) seen of
             None \<Rightarrow> None
           | Some (key, seen') \<Rightarrow>
               map_option (map_sum id ((#) \<lparr>bn_Key = key, bn_Name = rl_name r, bn_Description = rl_description r,
                   bn_PermissionCodes = RolePermissionCodes db app (rl_id r), bn_DataScopes = scopesByRole dps (rl_code r)\<rparr>))
                 (capture_roles reads app dps (Suc i) rs seen')))"

definition Capture :: "(nat \<Rightarrow> db option) \<Rightarrow> int64 \<Rightarrow> (unit, policy_bundle) res option" where
  "Capture reads app =
     (case (reads 0, reads 1, reads 2) of
        (Some db0, Some db1, Some db2) \<Rightarrow>
          map_option (map_sum id (\<lambda>rs. \<lparr>bu_Permissions = map capture_permission (ListAppPermissionsWithSource db0 app), bu_Roles = rs\<rparr>))
            (capture_roles reads app (ReadAppDataPolicies db1 app) 3 (ListAppRolesWithSource db2 app) [])
      | _ \<Rightarrow> Some (Inl ()))"

section \<open>Templates of a tenant\<close>

text \<open>
  A template is stored as JSON: every byte that is no UTF-8 becomes U+FFFD (\<^verbatim>\<open>json.Marshal\<close>), and a condition must be
  JSON and comes back in the form of the database.
\<close>

function utf8_text :: "string \<Rightarrow> string" where
  "utf8_text s =
     (if s = [] then []
      else if utf8_size s = 0 then rune_error @ utf8_text (tl s)
      else take (utf8_size s) s @ utf8_text (drop (utf8_size s) s))"
  by auto
termination by (relation "measure length") auto

declare utf8_text.simps [simp del]

definition stored_permission :: "bundle_permission \<Rightarrow> bundle_permission" where
  "stored_permission p =
     \<lparr>bp_Code = utf8_text (bp_Code p), bp_Resource = utf8_text (bp_Resource p), bp_Action = utf8_text (bp_Action p),
      bp_Type = utf8_text (bp_Type p), bp_Name = utf8_text (bp_Name p), bp_Description = utf8_text (bp_Description p)\<rparr>"

definition stored_scope :: "pg \<Rightarrow> bundle_scope \<Rightarrow> (unit, bundle_scope) res" where
  "stored_scope pg s =
     (case pg_jsonb pg (bs_Condition s) of
        None \<Rightarrow> Inl ()
      | Some c \<Rightarrow> Inr \<lparr>bs_Resource = utf8_text (bs_Resource s), bs_Effect = utf8_text (bs_Effect s), bs_Condition = c\<rparr>)"

definition stored_role :: "pg \<Rightarrow> bundle_role \<Rightarrow> (unit, bundle_role) res" where
  "stored_role pg r =
     rbind (mapM (stored_scope pg) (bn_DataScopes r)) (\<lambda>ss.
       Inr \<lparr>bn_Key = utf8_text (bn_Key r), bn_Name = utf8_text (bn_Name r), bn_Description = utf8_text (bn_Description r),
         bn_PermissionCodes = map utf8_text (bn_PermissionCodes r), bn_DataScopes = ss\<rparr>)"

definition stored_bundle :: "pg \<Rightarrow> policy_bundle \<Rightarrow> (unit, policy_bundle) res" where
  "stored_bundle pg b =
     rbind (mapM (stored_role pg) (bu_Roles b)) (\<lambda>rs.
       Inr \<lparr>bu_Permissions = map stored_permission (bu_Permissions b), bu_Roles = rs\<rparr>)"

record tenant_template =
  tt_ID :: int64
  tt_TenantID :: int64
  tt_Name :: string
  tt_Description :: string
  tt_Bundle :: policy_bundle
  tt_SourceAppID :: int64

definition InsertTenantTemplate ::
    "int64 \<Rightarrow> int64 \<Rightarrow> string \<Rightarrow> string \<Rightarrow> policy_bundle \<Rightarrow> int64 \<Rightarrow> tenant_template list \<Rightarrow> (db_error, int64 \<times> tenant_template list) res" where
  "InsertTenantTemplate new tenantID name desc b app tts =
     (if \<exists>t \<in> set tts. tt_ID t = new \<or> tt_TenantID t = tenantID \<and> tt_Name t = name then Inl UniqueViolation
      else Inr (new, tts @ [\<lparr>tt_ID = new, tt_TenantID = tenantID, tt_Name = name, tt_Description = desc, tt_Bundle = b, tt_SourceAppID = app\<rparr>]))"

definition GetTenantTemplate :: "tenant_template list \<Rightarrow> int64 \<Rightarrow> int64 \<Rightarrow> (db_error, tenant_template) res" where
  "GetTenantTemplate tts tenantID i =
     (case filter (\<lambda>t. tt_TenantID t = tenantID \<and> tt_ID t = i) tts of t # _ \<Rightarrow> Inr t | [] \<Rightarrow> Inl StoreNotFound)"

definition DeleteTenantTemplate :: "int64 \<Rightarrow> int64 \<Rightarrow> tenant_template list \<Rightarrow> (db_error, tenant_template list) res" where
  "DeleteTenantTemplate tenantID i tts =
     (let own = (\<lambda>t. tt_TenantID t = tenantID \<and> tt_ID t = i)
      in if filter own tts = [] then Inl StoreNotFound else Inr (filter (\<lambda>t. \<not> own t) tts))"

text \<open>The handlers; the tenant is the one of the application, whatever the request says.\<close>

definition Admin_SaveAppAsTemplate ::
    "pg \<Rightarrow> (nat \<Rightarrow> db option) \<Rightarrow> admin_db \<Rightarrow> int64 \<Rightarrow> int64 \<Rightarrow> string \<Rightarrow> string \<Rightarrow> tenant_template list \<Rightarrow>
     ((admin_status, int64 \<times> string) res \<times> tenant_template list) option" where
  "Admin_SaveAppAsTemplate pg reads adb new app name desc tts =
     (if name = [] then Some (Inl (InvalidArgument, ''name required''), tts)
      else case app_of adb app of
        None \<Rightarrow> Some (Inl (Internal, ''resolve tenant''), tts)
      | Some a \<Rightarrow>
          (case Capture reads app of
             None \<Rightarrow> None
           | Some (Inl _) \<Rightarrow> Some (Inl (Internal, ''capture''), tts)
           | Some (Inr b) \<Rightarrow>
               Some (case stored_bundle pg b of
                       Inl _ \<Rightarrow> (Inl (Internal, ''marshal bundle''), tts)
                     | Inr b' \<Rightarrow>
                         (case InsertTenantTemplate new (aw_tenant a) name desc b' app tts of
                            Inl e \<Rightarrow> (Inl (AlreadyExists, ''template name already exists''), tts)
                          | Inr (i, tts') \<Rightarrow> (Inr (i, name), tts')))))"

definition Admin_DeleteTenantTemplate ::
    "int64 \<Rightarrow> int64 \<Rightarrow> tenant_template list \<Rightarrow> (admin_status, write_response) res \<times> tenant_template list" where
  "Admin_DeleteTenantTemplate tenantID i tts =
     (case DeleteTenantTemplate tenantID i tts of
        Inl _ \<Rightarrow> (Inl (NotFound, ''template not found''), tts)
      | Inr tts' \<Rightarrow> (Inr \<lparr>wr_Version = 0, wr_Changed = False\<rparr>, tts'))"

definition Admin_GetTenantTemplate :: "tenant_template list \<Rightarrow> int64 \<Rightarrow> int64 \<Rightarrow> (admin_status, tenant_template) res" where
  "Admin_GetTenantTemplate tts tenantID i =
     (case GetTenantTemplate tts tenantID i of Inl _ \<Rightarrow> Inl (NotFound, ''template not found'') | Inr t \<Rightarrow> Inr t)"

definition bundleToApplyInputs :: "policy_bundle \<Rightarrow> point list \<times> template_role list" where
  "bundleToApplyInputs b =
     (map (\<lambda>p. \<lparr>pt_Code = bp_Code p, pt_Resource = bp_Resource p, pt_Action = bp_Action p, pt_Type = bp_Type p,
                pt_Name = bp_Name p, pt_Description = bp_Description p\<rparr>) (bu_Permissions b),
      map (\<lambda>r. \<lparr>tr_Key = bn_Key r, tr_Name = bn_Name r, tr_PermissionCodes = bn_PermissionCodes r,
                tr_DataScopes = map (\<lambda>s. \<lparr>ts_Resource = bs_Resource s, ts_Effect = bs_Effect s, ts_Condition = bs_Condition s\<rparr>)
                  (bn_DataScopes r)\<rparr>) (bu_Roles b))"

record apply_response =
  PermissionsUpserted :: "32 word"
  PermissionsSkipped :: "32 word"
  RolesCreatedR :: "32 word"
  RolesSkippedR :: "32 word"
  DataScopesCreatedR :: "32 word"

definition apply_resp :: "string \<Rightarrow> template_result written \<Rightarrow> (admin_status, apply_response) res \<times> db" where
  "apply_resp what w =
     (case w of
        (Inl e, db) \<Rightarrow> (Inl (mapWriteErr what e), db)
      | (Inr (_, r), db) \<Rightarrow>
          (Inr \<lparr>PermissionsUpserted = of_nat (PermsUpserted r), PermissionsSkipped = of_nat (PermsSkipped r),
             RolesCreatedR = of_nat (RolesCreated r), RolesSkippedR = of_nat (RolesSkipped r),
             DataScopesCreatedR = of_nat (DataScopesCreated r)\<rparr>, db))"

definition Admin_ApplyTenantTemplate ::
    "pg \<Rightarrow> env \<Rightarrow> admin_db \<Rightarrow> tenant_template list \<Rightarrow> int64 \<Rightarrow> int64 \<Rightarrow> db \<Rightarrow> (admin_status, apply_response) res \<times> db" where
  "Admin_ApplyTenantTemplate pg E adb tts app i db =
     (case app_of adb app of
        None \<Rightarrow> (Inl (Internal, ''resolve tenant''), db)
      | Some a \<Rightarrow>
          (case GetTenantTemplate tts (aw_tenant a) i of
             Inl _ \<Rightarrow> (Inl (NotFound, ''template not found''), db)
           | Inr t \<Rightarrow>
               (case bundleToApplyInputs (tt_Bundle t) of
                  (perms, trs) \<Rightarrow> apply_resp ''apply tenant template'' (ApplyTemplate pg E app (''tt-'' @ show_id (tt_ID t)) perms trs db))))"

section \<open>Official packages\<close>

text \<open>The texts that guide a first user are left out of a package; neither the check nor the application uses them.\<close>

record preset_scope =
  ds_Resource :: string
  ds_Effect :: string
  ds_Condition :: "string option"

record preset_role =
  pr_Key :: string
  pr_Name :: string
  pr_Description :: string
  pr_PermissionCodes :: "string list"
  pr_DataScopes :: "preset_scope list"

record preset =
  ps_ID :: string
  ps_Name :: string
  ps_Description :: string
  ps_Version :: "32 word"
  ps_Permissions :: "bundle_permission list"
  ps_Roles :: "preset_role list"

definition maxRoleCodeLen :: nat where
  "maxRoleCodeLen = 64"

definition templateRoleCode :: "string \<Rightarrow> string \<Rightarrow> string" where
  "templateRoleCode templateID key = ''tpl:'' @ templateID @ '':'' @ key"

text \<open>
  The checks of a package, in the order of the loops. A condition is the raw text of a member of the file, so it is
  JSON whenever it is there (\<^const>\<open>Some\<close>); the check has to refuse an absent one and \<^verbatim>\<open>null\<close>.
\<close>

datatype preset_error =
    UnreadableFile | EmptyId | DuplicateId | EmptyCode | DuplicateCode | EmptyKey | DuplicateKey | CodeTooLong
  | UnknownCode | EmptyResource | BadCondition | BadEffect

fun check_codes :: "string list \<Rightarrow> bundle_permission list \<Rightarrow> (preset_error, string list) res" where
  "check_codes codes [] = Inr codes"
| "check_codes codes (p # ps) =
     (if bp_Code p = [] then Inl EmptyCode
      else if bp_Code p \<in> set codes then Inl DuplicateCode
      else check_codes (bp_Code p # codes) ps)"

definition check_scope :: "preset_scope \<Rightarrow> (preset_error, preset_scope) res" where
  "check_scope ds =
     (if ds_Resource ds = [] then Inl EmptyResource
      else if ds_Condition ds = None \<or> ds_Condition ds = Some [] \<or> ds_Condition ds = Some ''null'' then Inl BadCondition
      else if ds_Effect ds \<noteq> [] \<and> ds_Effect ds \<noteq> ''allow'' \<and> ds_Effect ds \<noteq> ''deny'' then Inl BadEffect
      else Inr ds)"

fun check_roles :: "string \<Rightarrow> string list \<Rightarrow> string list \<Rightarrow> preset_role list \<Rightarrow> (preset_error, string list) res" where
  "check_roles tid codes seen [] = Inr seen"
| "check_roles tid codes seen (r # rs) =
     (if pr_Key r = [] then Inl EmptyKey
      else if pr_Key r \<in> set seen then Inl DuplicateKey
      else if length (templateRoleCode tid (pr_Key r)) > maxRoleCodeLen then Inl CodeTooLong
      else if \<not> set (pr_PermissionCodes r) \<subseteq> set codes then Inl UnknownCode
      else case mapM check_scope (pr_DataScopes r) of
             Inl e \<Rightarrow> Inl e
           | Inr _ \<Rightarrow> check_roles tid codes (pr_Key r # seen) rs)"

text \<open>The files of the package directory, each with the package it decodes to, if it does.\<close>

fun load_files :: "string list \<Rightarrow> preset option list \<Rightarrow> (preset_error, preset list) res" where
  "load_files seenID [] = Inr []"
| "load_files seenID (None # fs) = Inl UnreadableFile"
| "load_files seenID (Some t # fs) =
     (if ps_ID t = [] then Inl EmptyId
      else if ps_ID t \<in> set seenID then Inl DuplicateId
      else rbind (check_codes [] (ps_Permissions t)) (\<lambda>codes.
        rbind (check_roles (ps_ID t) codes [] (ps_Roles t)) (\<lambda>_.
          map_sum id ((#) t) (load_files (ps_ID t # seenID) fs))))"

definition load :: "preset option list \<Rightarrow> (preset_error, preset list) res" where
  "load fs = map_sum id (sort_key ps_ID) (load_files [] fs)"

definition presets_Get :: "preset list \<Rightarrow> string \<Rightarrow> preset option" where
  "presets_Get loaded i = map_of (map (\<lambda>t. (ps_ID t, t)) loaded) i"

definition preset_inputs :: "preset \<Rightarrow> point list \<times> template_role list" where
  "preset_inputs t =
     (map (\<lambda>p. \<lparr>pt_Code = bp_Code p, pt_Resource = bp_Resource p, pt_Action = bp_Action p, pt_Type = bp_Type p,
                pt_Name = bp_Name p, pt_Description = bp_Description p\<rparr>) (ps_Permissions t),
      map (\<lambda>r. \<lparr>tr_Key = pr_Key r, tr_Name = pr_Name r, tr_PermissionCodes = pr_PermissionCodes r,
                tr_DataScopes = map (\<lambda>s. \<lparr>ts_Resource = ds_Resource s, ts_Effect = ds_Effect s,
                  ts_Condition = (case ds_Condition s of None \<Rightarrow> [] | Some c \<Rightarrow> c)\<rparr>) (pr_DataScopes r)\<rparr>) (ps_Roles t))"

definition Admin_ApplyTemplate ::
    "pg \<Rightarrow> env \<Rightarrow> preset list \<Rightarrow> int64 \<Rightarrow> string \<Rightarrow> db \<Rightarrow> (admin_status, apply_response) res \<times> db" where
  "Admin_ApplyTemplate pg E loaded app tid db =
     (case presets_Get loaded tid of
        None \<Rightarrow> (Inl (InvalidArgument, ''unknown template''), db)
      | Some t \<Rightarrow>
          (case preset_inputs t of
             (perms, trs) \<Rightarrow> apply_resp ''apply template'' (ApplyTemplate pg E app (ps_ID t) perms trs db)))"

section \<open>Fresh keys\<close>

lemma length_nat_digits: "n < 10 ^ Suc d \<Longrightarrow> length (nat_digits n) \<le> Suc d"
proof (induction d arbitrary: n)
  case 0
  then show ?case by (simp add: nat_digits.simps [of n])
next
  case (Suc d)
  then show ?case by (subst nat_digits.simps) auto
qed

lemma fresh_key_steps:
  assumes "base @ ''_'' @ show_id (n + of_nat i) \<notin> set seen"
  shows "\<exists>k'. fresh_key seen base n k = Some k' \<and> k' \<notin> set seen \<and>
    (k' = k \<or> (\<exists>j \<le> i. k' = base @ ''_'' @ show_id (n + of_nat j)))"
  using assms
proof (induction i arbitrary: n k)
  case 0
  then show ?case
    by (subst fresh_key.simps) (subst fresh_key.simps, auto)
next
  case (Suc i)
  show ?case
  proof (cases "k \<in> set seen")
    case True
    from Suc.prems have "base @ ''_'' @ show_id (n + 1 + of_nat i) \<notin> set seen" by (simp add: add.assoc)
    from Suc.IH [OF this, of "base @ ''_'' @ show_id n"] obtain k' where k': "fresh_key seen base (n + 1) (base @ ''_'' @ show_id n) = Some k'"
        "k' \<notin> set seen" "k' = base @ ''_'' @ show_id n \<or> (\<exists>j \<le> i. k' = base @ ''_'' @ show_id (n + 1 + of_nat j))"
      by blast
    have "\<exists>j \<le> Suc i. k' = base @ ''_'' @ show_id (n + of_nat j)" using k'(3)
    proof (elim disjE exE conjE)
      fix j assume "j \<le> i" "k' = base @ ''_'' @ show_id (n + 1 + of_nat j)"
      then show ?thesis by (intro exI [of _ "Suc j"]) (simp add: add.assoc)
    qed (auto intro: exI [of _ 0])
    with True k' show ?thesis by (subst fresh_key.simps) auto
  next
    case False
    then show ?thesis by (subst fresh_key.simps) auto
  qed
qed

text \<open>Of one candidate more than there are taken keys, one is free.\<close>

lemma some_free:
  assumes "length seen < 2 ^ 62"
  shows "\<exists>i \<le> length seen. base @ ''_'' @ show_id (2 + of_nat i) \<notin> set seen"
proof (rule ccontr)
  let ?f = "\<lambda>i. base @ ''_'' @ show_id (2 + of_nat i)"
  assume "\<not> ?thesis"
  then have "?f ` {..length seen} \<subseteq> set seen" by auto
  then have "card (?f ` {..length seen}) \<le> card (set seen)" by (intro card_mono) auto
  moreover have "inj_on ?f {..length seen}"
  proof (rule inj_onI)
    fix i j assume ij: "i \<in> {..length seen}" "j \<in> {..length seen}" "?f i = ?f j"
    then have "(of_nat i :: int64) = of_nat j" by (simp add: show_id_inj)
    then show "i = j" using ij(1,2) assms by (simp add: word_of_nat_eq_iff take_bit_nat_eq_self)
  qed
  ultimately show False using card_length [of seen] by (simp add: card_image)
qed

lemma digits_not_colon: "CHR '':'' \<notin> set (nat_digits n)"
  using nat_digits_digits [of n] by (auto simp: list_all_iff is_digit_def within_def)

lemma show_small:
  assumes "j < 999998"
  shows "length (show_id (2 + of_nat j)) \<le> 6" "CHR '':'' \<notin> set (show_id (2 + of_nat j))"
proof -
  have "sint (2 + of_nat j :: int64) = 2 + int j"
    using assms signed_take_bit_int_eq_self [of 63 "2 + int j"] sint_sbintrunc' [of "2 + int j", where 'a = 64] by simp
  then show "length (show_id (2 + of_nat j)) \<le> 6" "CHR '':'' \<notin> set (show_id (2 + of_nat j))"
    using assms length_nat_digits [of "2 + j" 5] digits_not_colon by (simp_all add: show_id_def nat_add_distrib)
qed

lemma SafeKey_ok:
  assumes "length seen < 999998"
  shows "\<exists>k. SafeKey cd seen = Some (k, k # seen) \<and> k \<notin> set seen \<and> k \<noteq> [] \<and> CHR '':'' \<notin> set k \<and> length k \<le> 37"
proof -
  define b where "b = take maxBundleRoleKey (let k = map (\<lambda>c. if c = CHR '':'' then CHR ''_'' else c) cd in if k = [] then ''role'' else k)"
  have b: "b \<noteq> []" "CHR '':'' \<notin> set b" "length b \<le> 30"
    by (auto simp: b_def maxBundleRoleKey_def Let_def dest!: in_set_takeD)
  obtain i where i: "i \<le> length seen" "b @ ''_'' @ show_id (2 + of_nat i) \<notin> set seen"
    using some_free [of seen b] assms by auto
  from fresh_key_steps [OF i(2), of b] obtain k where k: "fresh_key seen b 2 b = Some k" "k \<notin> set seen"
      "k = b \<or> (\<exists>j \<le> i. k = b @ ''_'' @ show_id (2 + of_nat j))" by blast
  from k(3) have "k \<noteq> [] \<and> CHR '':'' \<notin> set k \<and> length k \<le> 37"
  proof (elim disjE exE conjE)
    fix j assume "j \<le> i" "k = b @ ''_'' @ show_id (2 + of_nat j)"
    with b show_small [of j] i(1) assms show ?thesis by auto
  qed (use b in auto)
  moreover have "SafeKey cd seen = Some (k, k # seen)"
    using k(1) by (auto simp: SafeKey_def b_def Let_def split: if_splits)
  ultimately show ?thesis using k(2) by blast
qed

section \<open>A captured template is well formed\<close>

lemma capture_roles_ok:
  assumes "length seen + length rs < 999998"
  shows "\<exists>bs. capture_roles (\<lambda>_. Some db) app dps i rs seen = Some (Inr bs) \<and>
    distinct (map bn_Key bs) \<and> set (map bn_Key bs) \<inter> set seen = {} \<and>
    list_all2 (\<lambda>r b. bn_Key b \<noteq> [] \<and> CHR '':'' \<notin> set (bn_Key b) \<and> length (bn_Key b) \<le> 37 \<and> bn_Name b = rl_name r \<and>
      bn_PermissionCodes b = RolePermissionCodes db app (rl_id r) \<and> bn_DataScopes b = scopesByRole dps (rl_code r)) rs bs"
  using assms
proof (induction rs arbitrary: i seen)
  case (Cons r rs)
  obtain k where k: "SafeKey (rl_code r) seen = Some (k, k # seen)" "k \<notin> set seen" "k \<noteq> []" "CHR '':'' \<notin> set k" "length k \<le> 37"
    using SafeKey_ok [of seen "rl_code r"] Cons.prems by auto
  from Cons.IH [of "k # seen" "Suc i"] Cons.prems obtain bs where
    bs: "capture_roles (\<lambda>_. Some db) app dps (Suc i) rs (k # seen) = Some (Inr bs)" "distinct (map bn_Key bs)"
      "set (map bn_Key bs) \<inter> set (k # seen) = {}"
      "list_all2 (\<lambda>r b. bn_Key b \<noteq> [] \<and> CHR '':'' \<notin> set (bn_Key b) \<and> length (bn_Key b) \<le> 37 \<and> bn_Name b = rl_name r \<and>
        bn_PermissionCodes b = RolePermissionCodes db app (rl_id r) \<and> bn_DataScopes b = scopesByRole dps (rl_code r)) rs bs"
    by auto
  show ?case using k bs by auto
qed simp

lemma list_all2_right: "list_all2 P xs ys \<Longrightarrow> y \<in> set ys \<Longrightarrow> \<exists>x. P x y"
  by (induction rule: list_all2_induct) auto

lemma role_codes_declared:
  assumes "schema_ok db"
  shows "set (RolePermissionCodes db app roleID) \<subseteq> pm_code ` set (ListAppPermissionsWithSource db app)"
proof
  fix c assume "c \<in> set (RolePermissionCodes db app roleID)"
  then obtain g p where gp: "g \<in> set (role_permissions db)" "rp_app g = app" "p \<in> set (permissions db)" "pm_id p = rp_permission g" "c = pm_code p"
    by (auto simp: RolePermissionCodes_def)
  then obtain p' where "p' \<in> set (permissions db)" "pm_app p' = app" "pm_id p' = rp_permission g"
    using assms by (auto simp: schema_ok_def has_permission_id_def)
  moreover have "p' = p" using assms gp calculation by (metis (no_types, lifting) distinct_map inj_onD schema_ok_def)
  ultimately show "c \<in> pm_code ` set (ListAppPermissionsWithSource db app)"
    using gp by (auto simp: ListAppPermissionsWithSource_def)
qed

text \<open>
  C18. A capture of an application whose rows do not change meanwhile always returns, and returns a well-formed
  template with one role for each role of the application, with its name, its permission codes and its data
  policies: the search for a free key ends, keys are not empty, have
  no colon, differ from each other and fit into the column for role codes next to any template number, and each role
  uses only permission codes that the template declares. The bound on the number of roles is what the column leaves
  for the suffix of a repeated key.
\<close>

theorem capture_well_formed:
  assumes "schema_ok db" and "length (filter (\<lambda>r. rl_app r = app) (roles db)) < 999998" and "0 \<le> sint tid"
  shows "\<exists>b. Capture (\<lambda>_. Some db) app = Some (Inr b) \<and>
    map (\<lambda>r. (bn_Name r, bn_PermissionCodes r, bn_DataScopes r)) (bu_Roles b) =
      map (\<lambda>r. (rl_name r, RolePermissionCodes db app (rl_id r), scopesByRole (ReadAppDataPolicies db app) (rl_code r)))
        (ListAppRolesWithSource db app) \<and>
    distinct (map bn_Key (bu_Roles b)) \<and>
    (\<forall>r \<in> set (bu_Roles b). bn_Key r \<noteq> [] \<and> CHR '':'' \<notin> set (bn_Key r) \<and>
       length (template_role_code (''tt-'' @ show_id tid) (bn_Key r)) \<le> 64 \<and>
       set (bn_PermissionCodes r) \<subseteq> bp_Code ` set (bu_Permissions b))"
proof -
  let ?rs = "ListAppRolesWithSource db app"
  let ?P = "\<lambda>r b. bn_Key b \<noteq> [] \<and> CHR '':'' \<notin> set (bn_Key b) \<and> length (bn_Key b) \<le> 37 \<and> bn_Name b = rl_name r \<and>
        bn_PermissionCodes b = RolePermissionCodes db app (rl_id r) \<and>
        bn_DataScopes b = scopesByRole (ReadAppDataPolicies db app) (rl_code r)"
  have "length ?rs < 999998" using assms(2) by (simp add: ListAppRolesWithSource_def)
  from capture_roles_ok [of "[]" ?rs db app "ReadAppDataPolicies db app" 3] this obtain bs where
    bs: "capture_roles (\<lambda>_. Some db) app (ReadAppDataPolicies db app) 3 ?rs [] = Some (Inr bs)" "distinct (map bn_Key bs)" "list_all2 ?P ?rs bs"
    by auto
  have names: "map (\<lambda>r. (bn_Name r, bn_PermissionCodes r, bn_DataScopes r)) bs =
      map (\<lambda>r. (rl_name r, RolePermissionCodes db app (rl_id r), scopesByRole (ReadAppDataPolicies db app) (rl_code r))) ?rs" using bs(3) by (induction rule: list_all2_induct) auto
  have "\<exists>r :: role_row. ?P r b" if "b \<in> set bs" for b by (rule list_all2_right [OF bs(3) that])
  moreover have "length (show_id tid) \<le> 19"
    using assms(3) sint_range(2) [of tid] length_nat_digits [of "nat (sint tid)" 18] by (simp add: show_id_def)
  ultimately have "\<forall>b \<in> set bs. bn_Key b \<noteq> [] \<and> CHR '':'' \<notin> set (bn_Key b) \<and>
      length (template_role_code (''tt-'' @ show_id tid) (bn_Key b)) \<le> 64 \<and>
      set (bn_PermissionCodes b) \<subseteq> pm_code ` set (ListAppPermissionsWithSource db app)"
    using role_codes_declared [OF assms(1), of app] by (fastforce simp: template_role_code_def)
  then show ?thesis
    using bs(1,2) names by (simp add: Capture_def capture_permission_def image_image)
qed

text \<open>An application with three roles, two of which come to the same key.\<close>

definition office_role :: "int64 \<Rightarrow> string \<Rightarrow> role_row" where
  "office_role i cd = \<lparr>rl_id = i, rl_app = 1, rl_code = cd, rl_name = cd, rl_description = [], rl_source = ''manual''\<rparr>"

definition office_db :: db where
  "office_db = shop_db\<lparr>roles := [office_role 1 ''a:b'', office_role 2 ''a_b'', office_role 3 ''c''],
     permissions := [\<lparr>pm_id = 1, pm_app = 1, pm_code = ''pay'', pm_resource = ''order'', pm_action = ''pay'', pm_type = ''api'',
       pm_name = ''Pay'', pm_description = [], pm_source = ''manual''\<rparr>],
     role_permissions := [\<lparr>rp_app = 1, rp_role = 1, rp_permission = 1, rp_eft = ''deny''\<rparr>]\<rparr>"

definition office_bundle :: policy_bundle where
  "office_bundle = (case Capture (\<lambda>_. Some office_db) 1 of Some (Inr b) \<Rightarrow> b)"

theorem capture_well_formed_witness:
  "map bn_Key (bu_Roles office_bundle) = [''a_b'', ''a_b_2'', ''c''] \<and> distinct (map bn_Key (bu_Roles office_bundle)) \<and>
   list_all (\<lambda>r. set (bn_PermissionCodes r) \<subseteq> bp_Code ` set (bu_Permissions office_bundle)) (bu_Roles office_bundle)"
proof -
  have keys: "map bn_Key (bu_Roles office_bundle) = [''a_b'', ''a_b_2'', ''c'']" by code_simp
  have "schema_ok office_db" by code_simp
  moreover have "length (filter (\<lambda>r. rl_app r = 1) (roles office_db)) < 999998" by (simp add: office_db_def)
  ultimately show ?thesis
    using capture_well_formed [of office_db 1 7] keys by (auto simp: office_bundle_def list_all_iff)
qed

section \<open>What a template may touch\<close>

text \<open>
  A template of another tenant is not found, whatever its number, and nothing changes; and what is saved goes to
  the tenant of the application alone.
\<close>

lemma foreign_template_not_found:
  assumes "app_of adb app = Some a" and "\<forall>t \<in> set tts. tt_ID t = i \<longrightarrow> tt_TenantID t \<noteq> aw_tenant a"
  shows "Admin_ApplyTenantTemplate pg E adb tts app i db = (Inl (NotFound, ''template not found''), db)"
proof -
  have none: "filter (\<lambda>t. tt_TenantID t = aw_tenant a \<and> tt_ID t = i) tts = []"
    using assms(2) by (auto simp: filter_empty_conv)
  show ?thesis by (simp add: Admin_ApplyTenantTemplate_def GetTenantTemplate_def assms(1) none)
qed

lemma saved_template_stays_in_tenant:
  assumes "Admin_SaveAppAsTemplate pg reads adb new app name desc tts = Some (out, tts')" and "app_of adb app = Some a"
    and "tn \<noteq> aw_tenant a"
  shows "GetTenantTemplate tts' tn i = GetTenantTemplate tts tn i"
  using assms
  by (auto simp: Admin_SaveAppAsTemplate_def InsertTenantTemplate_def GetTenantTemplate_def
      split: if_splits option.splits sum.splits prod.splits)

lemma deleted_template_is_gone:
  assumes "Admin_DeleteTenantTemplate tn i tts = (out, tts')"
  shows "GetTenantTemplate tts' tn i = Inl StoreNotFound"
    and "(tn', j) \<noteq> (tn, i) \<Longrightarrow> GetTenantTemplate tts' tn' j = GetTenantTemplate tts tn' j"
proof -
  have tts': "tts' = filter (\<lambda>t. \<not> (tt_TenantID t = tn \<and> tt_ID t = i)) tts"
    using assms by (auto simp: Admin_DeleteTenantTemplate_def DeleteTenantTemplate_def Let_def filter_empty_conv filter_id_conv
        split: if_splits)
  have "filter (\<lambda>t. tt_TenantID t = tn \<and> tt_ID t = i) tts' = []" by (auto simp: tts' filter_empty_conv)
  then show "GetTenantTemplate tts' tn i = Inl StoreNotFound" by (simp add: GetTenantTemplate_def)
  assume "(tn', j) \<noteq> (tn, i)"
  then have "filter (\<lambda>t. tt_TenantID t = tn' \<and> tt_ID t = j) tts' = filter (\<lambda>t. tt_TenantID t = tn' \<and> tt_ID t = j) tts"
    unfolding tts' filter_filter by (intro filter_cong) auto
  then show "GetTenantTemplate tts' tn' j = GetTenantTemplate tts tn' j" by (simp add: GetTenantTemplate_def)
qed

text \<open>Every package that passes the check at start-up declares the permission codes of its roles.\<close>

lemma map_sum_eq_Ok: "map_sum id f r = Inr y \<longleftrightarrow> (\<exists>x. r = Inr x \<and> y = f x)"
  by (cases r) auto

lemma check_codes_set: "check_codes cs ps = Inr cs' \<Longrightarrow> set cs' = set cs \<union> bp_Code ` set ps"
  by (induction cs ps rule: check_codes.induct) (auto split: if_splits)

lemma check_roles_declared:
  "check_roles tid codes seen rs = Inr seen' \<Longrightarrow>
    \<forall>r \<in> set rs. set (pr_PermissionCodes r) \<subseteq> set codes \<and> length (templateRoleCode tid (pr_Key r)) \<le> maxRoleCodeLen"
  by (induction tid codes seen rs rule: check_roles.induct) (auto split: if_splits sum.splits)

lemma load_files_ok:
  "load_files seen fs = Inr ts \<Longrightarrow> distinct (map ps_ID ts) \<and> set (map ps_ID ts) \<inter> set seen = {} \<and>
    (\<forall>t \<in> set ts. \<forall>r \<in> set (ps_Roles t). set (pr_PermissionCodes r) \<subseteq> bp_Code ` set (ps_Permissions t) \<and>
       length (templateRoleCode (ps_ID t) (pr_Key r)) \<le> maxRoleCodeLen)"
proof (induction seen fs arbitrary: ts rule: load_files.induct)
  case (3 seen t fs)
  then obtain codes keys ts' where *: "ps_ID t \<noteq> []" "ps_ID t \<notin> set seen" "check_codes [] (ps_Permissions t) = Inr codes"
      "check_roles (ps_ID t) codes [] (ps_Roles t) = Inr keys" "load_files (ps_ID t # seen) fs = Inr ts'" "ts = t # ts'"
    by (auto simp: rbind_eq_Ok map_sum_eq_Ok split: if_splits)
  have IH: "distinct (map ps_ID ts') \<and> set (map ps_ID ts') \<inter> set (ps_ID t # seen) = {} \<and>
    (\<forall>t \<in> set ts'. \<forall>r \<in> set (ps_Roles t). set (pr_PermissionCodes r) \<subseteq> bp_Code ` set (ps_Permissions t) \<and>
       length (templateRoleCode (ps_ID t) (pr_Key r)) \<le> maxRoleCodeLen)"
    using "3.IH" [OF *(1,2,5)] .
  then show ?case using * check_codes_set [OF *(3)] check_roles_declared [OF *(4)] by auto
qed auto

section \<open>What a template loses\<close>

definition office_template :: tenant_template where
  "office_template = \<lparr>tt_ID = 7, tt_TenantID = 1, tt_Name = ''office'', tt_Description = [],
     tt_Bundle = (case stored_bundle demo_pg office_bundle of Inr b \<Rightarrow> b), tt_SourceAppID = 1\<rparr>"

definition apply_office :: "tenant_template \<Rightarrow> db" where
  "apply_office t = (case bundleToApplyInputs (tt_Bundle t) of
     (perms, trs) \<Rightarrow> snd (ApplyTemplate demo_pg demo_env 2 (''tt-'' @ show_id (tt_ID t)) perms trs office_db))"

text \<open>
  A capture does not record the effect of a grant, and applying a template grants with the effect allow: what a role
  was denied in the captured application it is allowed in the other one.
\<close>

theorem template_turns_deny_into_allow:
  "map (\<lambda>g. (rp_app g, rp_eft g)) (role_permissions office_db) = [(1, ''deny'')] \<and>
   map (\<lambda>g. (rp_app g, rp_eft g)) (role_permissions (apply_office office_template)) = [(1, ''deny''), (2, ''allow'')]"
  by code_simp

text \<open>
  A key is cut after thirty bytes, which may be inside a character. The broken bytes differ when keys are compared,
  but are stored as the same replacement characters: two roles come back under one key, and applying the template
  creates the first of them only.
\<close>

definition cut_code :: "char list \<Rightarrow> string" where
  "cut_code bytes = ''headquarters-finance-office-'' @ bytes"

definition cut_db :: db where
  "cut_db = office_db\<lparr>roles := [office_role 1 (cut_code [CHR 0xE4, CHR 0xBA, CHR 0x91]),
     office_role 2 (cut_code [CHR 0xE5, CHR 0xAE, CHR 0x89])], role_permissions := []\<rparr>"

definition cut_template :: tenant_template where
  "cut_template = office_template\<lparr>tt_Bundle := (case Capture (\<lambda>_. Some cut_db) 1 of
     Some (Inr b) \<Rightarrow> (case stored_bundle demo_pg b of Inr b' \<Rightarrow> b'))\<rparr>"

lemma rune_error_bytes [code]: "rune_error = [CHR 0xEF, CHR 0xBF, CHR 0xBD]"
  by (simp add: rune_error_def utf8_encode_def char_of_def bit_0)

theorem cut_keys_collide:
  "length (filter (\<lambda>r. rl_app r = 1) (roles cut_db)) = 2 \<and>
   map bn_Key (bu_Roles (tt_Bundle cut_template)) = replicate 2 (cut_code (rune_error @ rune_error)) \<and>
   length (filter (\<lambda>r. rl_app r = 2) (roles (apply_office cut_template))) = 1"
  by code_simp

end
