(* ===== verification/Role_Graph.thy ===== *)
theory Role_Graph
  imports Mgmt_Server
begin

text \<open>
  The picture of one role (\<^verbatim>\<open>mgmt/role_graph.go\<close>): the users bound to it, its parents, what it may do itself or by
  inheritance, and its data policies. The ancestors come from a recursive query, which follows the edges of the
  hierarchy level by level and would never end on a cycle. The lemmas show that it ends on the hierarchies the
  manager keeps, and that the capabilities are exactly those granted to the role or to one of its ancestors. Among
  rows that a query orders equally, the model takes one order.
\<close>

record role_parent =
  rg_Id :: int64
  rg_Code :: string
  rg_Name :: string

record capability =
  ca_Resource :: string
  ca_Action :: string
  ca_Name :: string
  ca_Source :: string

record graph_scope =
  gs_Resource :: string
  gs_Effect :: string
  gs_Condition :: string

record role_graph =
  gr_RoleId :: int64
  gr_RoleCode :: string
  gr_RoleName :: string
  gr_BoundUsers :: "string list"
  gr_Parents :: "role_parent list"
  gr_Capabilities :: "capability list"
  gr_DataScopes :: "graph_scope list"

section \<open>The queries\<close>

definition bound_users :: "db \<Rightarrow> int64 \<Rightarrow> int64 \<Rightarrow> string list" where
  "bound_users db app roleID = sort (map ub_user (filter (\<lambda>b. ub_role b = roleID \<and> ub_app b = app) (user_role_bindings db)))"

definition parent_ids :: "db \<Rightarrow> int64 \<Rightarrow> int64 \<Rightarrow> int64 list" where
  "parent_ids db app roleID = map ri_parent (filter (\<lambda>e. ri_child e = roleID \<and> ri_app e = app) (role_inheritances db))"

definition role_parents :: "db \<Rightarrow> int64 \<Rightarrow> int64 \<Rightarrow> role_parent list" where
  "role_parents db app roleID =
     sort_key rg_Code (concat (map (\<lambda>i. map (\<lambda>r. \<lparr>rg_Id = rl_id r, rg_Code = rl_code r, rg_Name = rl_name r\<rparr>)
       (filter (\<lambda>r. rl_id r = i) (roles db))) (parent_ids db app roleID)))"

text \<open>
  The recursive part of the query: the rows of one level give those of the next, until a level is empty.
\<close>

partial_function (option) anc :: "db \<Rightarrow> int64 \<Rightarrow> int64 list \<Rightarrow> nat \<Rightarrow> (int64 \<times> nat) list option" where
  "anc db app level depth =
     (if level = [] then Some []
      else Option.bind (anc db app (remdups (concat (map (parent_ids db app) level))) (depth + 1))
             (\<lambda>rest. Some (map (\<lambda>i. (i, depth)) level @ rest)))"

declare anc.simps [code]

text \<open>The ancestors with their least depth, nearest first and then by name.\<close>

definition roleAncestors :: "db \<Rightarrow> int64 \<Rightarrow> int64 \<Rightarrow> (int64 \<times> string) list option" where
  "roleAncestors db app roleID =
     map_option (\<lambda>rows.
       let depth_of = (\<lambda>i. Min (set (map snd (filter (\<lambda>x. fst x = i) rows))));
           found = filter (\<lambda>r. rl_id r \<in> fst ` set rows) (roles db)
       in map (\<lambda>r. (rl_id r, rl_name r)) (sort_key (\<lambda>r. depth_of (rl_id r)) (sort_key rl_name found)))
       (anc db app (remdups (parent_ids db app roleID)) 1)"

definition cap_rows :: "db \<Rightarrow> int64 \<Rightarrow> int64 \<Rightarrow> permission_row list" where
  "cap_rows db app roleID =
     sort_key pm_resource (sort_key pm_action (concat (map (\<lambda>g. filter (\<lambda>p. pm_id p = rp_permission g) (permissions db))
       (filter (\<lambda>g. rp_role g = roleID \<and> rp_app g = app \<and> rp_eft g = ''allow'') (role_permissions db)))))"

text \<open>One call of \<^verbatim>\<open>addCaps\<close>: what an earlier role has contributed is skipped.\<close>

fun addCaps :: "permission_row list \<Rightarrow> string \<Rightarrow> capability list \<Rightarrow> capability list" where
  "addCaps [] source out = out"
| "addCaps (p # ps) source out =
     (if \<exists>c \<in> set out. ca_Resource c = pm_resource p \<and> ca_Action c = pm_action p then addCaps ps source out
      else addCaps ps source (out @ [\<lparr>ca_Resource = pm_resource p, ca_Action = pm_action p, ca_Name = pm_name p, ca_Source = source\<rparr>]))"

fun inherited_caps :: "(nat \<Rightarrow> db) \<Rightarrow> int64 \<Rightarrow> nat \<Rightarrow> (int64 \<times> string) list \<Rightarrow> capability list \<Rightarrow> capability list" where
  "inherited_caps reads app i [] out = out"
| "inherited_caps reads app i ((a, name) # as) out = inherited_caps reads app (Suc i) as (addCaps (cap_rows (reads i) app a) name out)"

definition graph_scopes :: "db \<Rightarrow> int64 \<Rightarrow> string \<Rightarrow> graph_scope list" where
  "graph_scopes db app cd =
     sort_key gs_Resource (map (\<lambda>p. \<lparr>gs_Resource = dp_Resource p, gs_Effect = dp_Effect p, gs_Condition = dp_Condition p\<rparr>)
       (filter (\<lambda>p. dp_SubjectType p = ''role'' \<and> dp_SubjectID p = cd) (ReadAppDataPolicies db app)))"

text \<open>
  The queries run one after the other outside a transaction; the \<open>i\<close>-th sees the state \<open>reads i\<close>. \<^const>\<open>None\<close> if the
  recursive one does not end.
\<close>

definition GetRoleGraph :: "(nat \<Rightarrow> db) \<Rightarrow> int64 \<Rightarrow> int64 \<Rightarrow> (admin_status, role_graph) res option" where
  "GetRoleGraph reads app roleID =
     (case filter (\<lambda>r. rl_id r = roleID \<and> rl_app r = app) (roles (reads 0)) of
        [] \<Rightarrow> Some (Inl (NotFound, ''role not found''))
      | r # _ \<Rightarrow>
          (let direct = addCaps (cap_rows (reads 3) app roleID) ''direct'' []
           in case roleAncestors (reads 4) app roleID of
                None \<Rightarrow> None
              | Some as \<Rightarrow>
                  Some (Inr \<lparr>gr_RoleId = roleID, gr_RoleCode = rl_code r, gr_RoleName = rl_name r,
                    gr_BoundUsers = bound_users (reads 1) app roleID, gr_Parents = role_parents (reads 2) app roleID,
                    gr_Capabilities = inherited_caps reads app 5 as direct,
                    gr_DataScopes = graph_scopes (reads (5 + length as)) app (rl_code r)\<rparr>)))"

section \<open>The recursive query ends\<close>

abbreviation hierarchy :: "db \<Rightarrow> int64 \<Rightarrow> (int64 \<times> int64) set" where
  "hierarchy db app \<equiv> set (inheritance_edges db app)"

lemma set_parent_ids: "set (parent_ids db app i) = hierarchy db app `` {i}"
  by (auto simp: parent_ids_def inheritance_edges_def)

lemma no_longer_path:
  fixes R :: "('a \<times> 'a) set"
  assumes "\<forall>p. (r, p) \<notin> R ^^ n" "n \<le> m"
  shows "(r, p) \<notin> R ^^ m"
  using assms relpow_add [of n "m - n" R] by auto

text \<open>In a finite acyclic relation the paths from a point are bounded.\<close>

lemma paths_bounded:
  assumes "finite R" "acyclic R"
  shows "\<exists>n. \<forall>p. (r, p) \<notin> R ^^ n"
proof (induction r rule: wf_induct_rule [OF finite_acyclic_wf_converse [OF assms]])
  case (1 r)
  then have "\<forall>s \<in> R `` {r}. \<exists>n. \<forall>p. (s, p) \<notin> R ^^ n" by auto
  then obtain N where N: "\<forall>s \<in> R `` {r}. \<forall>p. (s, p) \<notin> R ^^ N s" by metis
  define m where "m = Max (insert 0 (N ` (R `` {r})))"
  have "N s \<le> m" if "s \<in> R `` {r}" for s using that assms(1) by (auto simp: m_def intro!: Max_ge)
  then have "(s, p) \<notin> R ^^ m" if "(r, s) \<in> R" for s p
    using that N by (intro no_longer_path [where r = s and n = "N s"]) auto
  then have "(r, p) \<notin> R ^^ Suc m" for p by (metis relpow_Suc_D2)
  then show ?case by blast
qed

lemma anc_returns:
  assumes "\<forall>i \<in> set level. \<forall>p. (i, p) \<notin> hierarchy db app ^^ n"
  shows "\<exists>rows. anc db app level d = Some rows \<and> fst ` set rows = (hierarchy db app)\<^sup>* `` set level"
  using assms
proof (induction n arbitrary: level d)
  case 0
  then have "level = []" by (cases level) auto
  then show ?case by (simp add: anc.simps)
next
  case (Suc n)
  let ?next = "remdups (concat (map (parent_ids db app) level))"
  have next_level: "set ?next = hierarchy db app `` set level" by (auto simp: set_parent_ids)
  have "\<forall>i \<in> set ?next. \<forall>p. (i, p) \<notin> hierarchy db app ^^ n"
    unfolding next_level using Suc.prems relpow_Suc_I2 by (metis ImageE)
  from Suc.IH [OF this] obtain rows where
    rows: "anc db app ?next (d + 1) = Some rows" "fst ` set rows = (hierarchy db app)\<^sup>* `` set ?next" by blast
  have star: "(hierarchy db app)\<^sup>* `` set level = set level \<union> (hierarchy db app)\<^sup>* `` (hierarchy db app `` set level)"
    by (auto elim: converse_rtranclE intro: converse_rtrancl_into_rtrancl)
  show ?case
    using rows unfolding star next_level by (subst (1) anc.simps) (auto simp: image_Un image_image)
qed

lemma roleAncestors_ok:
  assumes "acyclic_roles db" "schema_ok db"
  shows "\<exists>as. roleAncestors db app roleID = Some as \<and> fst ` set as = (hierarchy db app)\<^sup>+ `` {roleID}"
proof -
  let ?E = "hierarchy db app" and ?level = "remdups (parent_ids db app roleID)"
  have "acyclic ?E" using assms(1) by (simp add: acyclic_roles_def)
  then obtain n where "\<forall>p. (roleID, p) \<notin> ?E ^^ n" using paths_bounded [of ?E roleID] by auto
  then have "\<forall>i \<in> set ?level. \<forall>p. (i, p) \<notin> ?E ^^ n"
    using no_longer_path [where r = roleID and R = ?E and n = n and m = "Suc n"] by (auto simp: set_parent_ids dest: relpow_Suc_I2)
  from anc_returns [OF this, of 1] obtain rows where
    rows: "anc db app ?level 1 = Some rows" "fst ` set rows = ?E\<^sup>* `` set ?level" by blast
  have plus: "fst ` set rows = ?E\<^sup>+ `` {roleID}"
    unfolding rows(2)
    by (auto simp: set_parent_ids dest: rtrancl_into_trancl2 tranclD)
  have "i \<in> rl_id ` set (roles db)" if "(roleID, i) \<in> ?E\<^sup>+" for i
  proof -
    from that obtain j where "(j, i) \<in> ?E" by (auto elim: tranclE)
    then obtain e where "e \<in> set (role_inheritances db)" "ri_parent e = i" by (auto simp: inheritance_edges_def)
    then have "has_role_id db (ri_app e) i" using assms(2) unfolding schema_ok_def by blast
    then show ?thesis by (auto simp: has_role_id_def)
  qed
  then have "rl_id ` {r \<in> set (roles db). rl_id r \<in> fst ` set rows} = ?E\<^sup>+ `` {roleID}" unfolding plus by auto
  with rows(1) show ?thesis by (auto simp: roleAncestors_def Let_def image_image)
qed

section \<open>The capabilities are exact\<close>

abbreviation cap_key :: "capability \<Rightarrow> string \<times> string" where
  "cap_key c \<equiv> (ca_Resource c, ca_Action c)"

abbreviation perm_pair :: "permission_row \<Rightarrow> string \<times> string" where
  "perm_pair p \<equiv> (pm_resource p, pm_action p)"

lemma cap_rows_pairs:
  "perm_pair ` set (cap_rows db app a) =
    {perm_pair p | p gr. p \<in> set (permissions db) \<and> gr \<in> set (role_permissions db) \<and> rp_permission gr = pm_id p \<and>
       rp_app gr = app \<and> rp_eft gr = ''allow'' \<and> rp_role gr = a}"
  by (force simp: cap_rows_def)

lemma addCaps_keys:
  "cap_key ` set (addCaps ps source out) = cap_key ` set out \<union> perm_pair ` set ps"
  "distinct (map cap_key out) \<Longrightarrow> distinct (map cap_key (addCaps ps source out))"
proof (induction ps source out rule: addCaps.induct)
  case (2 p ps source out)
  {
    case 1
    show ?case
    proof (cases "perm_pair p \<in> cap_key ` set out")
      case True
      then have "\<exists>c \<in> set out. ca_Resource c = pm_resource p \<and> ca_Action c = pm_action p" by force
      with 2(1) True show ?thesis by (simp add: insert_absorb)
    next
      case False
      then have "\<not> (\<exists>c \<in> set out. ca_Resource c = pm_resource p \<and> ca_Action c = pm_action p)" by force
      with 2(3) show ?thesis by auto
    qed
  next
    case 2
    have "perm_pair p \<notin> cap_key ` set out" if "\<not> (\<exists>c \<in> set out. ca_Resource c = pm_resource p \<and> ca_Action c = pm_action p)"
      using that by force
    with 2 "2.IH"(2,4) show ?case by simp
  }
qed simp_all

lemma inherited_caps_keys:
  "cap_key ` set (inherited_caps (\<lambda>_. db) app i as out) =
    cap_key ` set out \<union> (\<Union>a \<in> fst ` set as. perm_pair ` set (cap_rows db app a))"
  "distinct (map cap_key out) \<Longrightarrow> distinct (map cap_key (inherited_caps (\<lambda>_. db) app i as out))"
proof (induction as arbitrary: i out)
  case (Cons a as)
  {
    case 1
    show ?case using Cons(1) by (cases a) (simp add: addCaps_keys Un_assoc)
  next
    case 2
    then show ?case using Cons(2) by (cases a) (simp add: addCaps_keys)
  }
qed simp_all

text \<open>
  On a store in good order the picture of a role is always returned, and its capabilities are, each once, the
  permissions granted with effect allow to the role or to a role it inherits from at any distance.
\<close>

theorem role_graph_exact:
  assumes "acyclic_roles db" "schema_ok db" "has_role_id db app roleID"
  shows "\<exists>g. GetRoleGraph (\<lambda>_. db) app roleID = Some (Inr g) \<and> distinct (map cap_key (gr_Capabilities g)) \<and>
    cap_key ` set (gr_Capabilities g) =
      {perm_pair p | p gr. p \<in> set (permissions db) \<and> gr \<in> set (role_permissions db) \<and> rp_permission gr = pm_id p \<and>
         rp_app gr = app \<and> rp_eft gr = ''allow'' \<and> (roleID, rp_role gr) \<in> (hierarchy db app)\<^sup>*}"
proof -
  obtain as where as: "roleAncestors db app roleID = Some as" "fst ` set as = (hierarchy db app)\<^sup>+ `` {roleID}"
    using roleAncestors_ok [OF assms(1,2)] by blast
  obtain r rs where r: "filter (\<lambda>r. rl_id r = roleID \<and> rl_app r = app) (roles db) = r # rs"
    using assms(3) by (cases "filter (\<lambda>r. rl_id r = roleID \<and> rl_app r = app) (roles db)")
      (auto simp: has_role_id_def filter_empty_conv)
  let ?caps = "inherited_caps (\<lambda>_. db) app 5 as (addCaps (cap_rows db app roleID) ''direct'' [])"
  have roles: "insert roleID (fst ` set as) = (hierarchy db app)\<^sup>* `` {roleID}"
    unfolding as(2) by (auto simp: rtrancl_eq_or_trancl)
  have "cap_key ` set ?caps = (\<Union>a \<in> insert roleID (fst ` set as). perm_pair ` set (cap_rows db app a))"
    by (simp add: inherited_caps_keys addCaps_keys)
  also have "\<dots> = {perm_pair p | p gr. p \<in> set (permissions db) \<and> gr \<in> set (role_permissions db) \<and> rp_permission gr = pm_id p \<and>
         rp_app gr = app \<and> rp_eft gr = ''allow'' \<and> (roleID, rp_role gr) \<in> (hierarchy db app)\<^sup>*}"
    unfolding roles cap_rows_pairs by blast
  finally show ?thesis
    using as(1) r by (simp add: GetRoleGraph_def Let_def inherited_caps_keys addCaps_keys)
qed

end
