(* ===== verification/Console.thy ===== *)
theory Console
  imports Sso
begin

text \<open>
  The sessions of the web console and its login (\<^verbatim>\<open>console/session.go\<close>, \<^verbatim>\<open>auth.go\<close>, \<^verbatim>\<open>oidcstate.go\<close>,
  \<^verbatim>\<open>oidc.go\<close>) and the pipeline of every write (\<^verbatim>\<open>handler.go\<close>). Sessions and the state between the two halves of
  a single sign-on are entries of a store with an expiry; they are encoded as JSON there, which is left out, as are
  the pages. The theorems say what a session opened by single sign-on rests on, that a write needs the session,
  its token and an authorization, and two defects.
\<close>

section \<open>State\<close>

record session =
  se_Principal :: string
  se_CSRF :: string
  se_CreatedAt :: int
  se_Flash :: string

record oidc_state =
  os_Nonce :: string
  os_Verifier :: string
  os_TenantID :: int64
  os_ReturnTo :: string

record console =
  co_db :: sso_db
  co_sessions :: "string \<rightharpoonup> session \<times> int"
  co_states :: "string \<rightharpoonup> oidc_state \<times> int"

text \<open>
  What a request finds outside: the time in nanoseconds, whether the session store answers, the random tokens it
  draws in order, the database, and what the provider answers.
\<close>

record console_env =
  cv_now :: int
  cv_redis :: bool
  cv_rand :: "nat \<Rightarrow> string option"
  cv_ttl :: int
  cv_tx :: tx_env
  cv_pg :: admin_pg
  cv_unseal :: "string \<Rightarrow> string \<Rightarrow> string \<Rightarrow> string option"
  cv_sso :: bool
  cv_baseURL :: string
  cv_config :: "string \<Rightarrow> provider_config option"
  cv_token :: "string \<Rightarrow> string \<times> string \<Rightarrow> (string \<times> string) list \<Rightarrow> string option"
  cv_keys :: "nat \<Rightarrow> string \<Rightarrow> string option"
  cv_crypto :: oidc_crypto

definition randToken :: "console_env \<Rightarrow> nat \<Rightarrow> string option" where
  "randToken E i = map_option RawURL_EncodeToString (cv_rand E i)"

definition entry :: "console_env \<Rightarrow> (string \<rightharpoonup> 'v \<times> int) \<Rightarrow> string \<Rightarrow> 'v option" where
  "entry E store key = (case store key of None \<Rightarrow> None | Some (v, expiry) \<Rightarrow> if cv_now E < expiry then Some v else None)"

section \<open>Sessions\<close>

text \<open>The tokens \<open>i\<close> and \<open>i + 1\<close> of the request are the identifier and the token against forged requests.\<close>

definition session_Create :: "console_env \<Rightarrow> nat \<Rightarrow> string \<Rightarrow> console \<Rightarrow> (string \<times> string) option \<times> console" where
  "session_Create E i who st =
     (case (randToken E i, randToken E (i + 1)) of
        (Some sid, Some csrf) \<Rightarrow>
          if cv_redis E
          then (Some (sid, csrf), st\<lparr>co_sessions := (co_sessions st)(sid \<mapsto>
                 (\<lparr>se_Principal = who, se_CSRF = csrf, se_CreatedAt = cv_now E div 10 ^ 9, se_Flash = []\<rparr>, cv_now E + cv_ttl E))\<rparr>)
          else (None, st)
      | _ \<Rightarrow> (None, st))"

definition session_Get :: "console_env \<Rightarrow> string \<Rightarrow> console \<Rightarrow> session option \<times> console" where
  "session_Get E sid st =
     (if sid = [] \<or> \<not> cv_redis E then (None, st)
      else case entry E (co_sessions st) sid of
        None \<Rightarrow> (None, st)
      | Some sess \<Rightarrow> (Some sess, st\<lparr>co_sessions := (co_sessions st)(sid \<mapsto> (sess, cv_now E + cv_ttl E))\<rparr>))"

definition session_Delete :: "console_env \<Rightarrow> string \<Rightarrow> console \<Rightarrow> console" where
  "session_Delete E sid st = (if sid = [] \<or> \<not> cv_redis E then st else st\<lparr>co_sessions := (co_sessions st)(sid := None)\<rparr>)"

definition SetFlash :: "console_env \<Rightarrow> string \<Rightarrow> string \<Rightarrow> console \<Rightarrow> console" where
  "SetFlash E sid msg st =
     (case session_Get E sid st of
        (None, st') \<Rightarrow> st'
      | (Some sess, st') \<Rightarrow> st'\<lparr>co_sessions := (co_sessions st')(sid \<mapsto> (sess\<lparr>se_Flash := msg\<rparr>, cv_now E + cv_ttl E))\<rparr>)"

definition TakeFlash :: "console_env \<Rightarrow> string \<Rightarrow> console \<Rightarrow> string \<times> console" where
  "TakeFlash E sid st =
     (case session_Get E sid st of
        (None, st') \<Rightarrow> ([], st')
      | (Some sess, st') \<Rightarrow>
          if se_Flash sess = [] then ([], st')
          else (se_Flash sess, st'\<lparr>co_sessions := (co_sessions st')(sid \<mapsto> (sess\<lparr>se_Flash := []\<rparr>, cv_now E + cv_ttl E))\<rparr>))"

definition PutOIDCState :: "console_env \<Rightarrow> string \<Rightarrow> oidc_state \<Rightarrow> int \<Rightarrow> console \<Rightarrow> bool \<times> console" where
  "PutOIDCState E state v ttl st =
     (if cv_redis E then (True, st\<lparr>co_states := (co_states st)(state \<mapsto> (v, cv_now E + ttl))\<rparr>) else (False, st))"

definition TakeOIDCState :: "console_env \<Rightarrow> string \<Rightarrow> console \<Rightarrow> oidc_state option \<times> console" where
  "TakeOIDCState E state st =
     (if state = [] \<or> \<not> cv_redis E then (None, st)
      else (entry E (co_states st) state, st\<lparr>co_states := (co_states st)(state := None)\<rparr>))"

section \<open>Answers\<close>

text \<open>A page with its status, or a redirect that may set the session cookie.\<close>

datatype answer = Page nat | Redirect string "string option"

definition httpStatusForCode :: "grpc_code \<Rightarrow> nat" where
  "httpStatusForCode c =
     (case c of
        InvalidArgument \<Rightarrow> 400
      | Unauthenticated \<Rightarrow> 401
      | PermissionDenied \<Rightarrow> 403
      | NotFound \<Rightarrow> 404
      | AlreadyExists \<Rightarrow> 409
      | FailedPrecondition \<Rightarrow> 409
      | ResourceExhausted \<Rightarrow> 429
      | Unavailable \<Rightarrow> 503
      | _ \<Rightarrow> 500)"

text \<open>Rendering a page shows and clears the pending message of the session; \<open>cookie\<close> is the session cookie of the request.\<close>

definition renderPage :: "console_env \<Rightarrow> string option \<Rightarrow> nat \<Rightarrow> console \<Rightarrow> answer \<times> console" where
  "renderPage E cookie statusCode st =
     (case cookie of
        None \<Rightarrow> (Page statusCode, st)
      | Some sid \<Rightarrow> if sid = [] then (Page statusCode, st) else (Page statusCode, snd (TakeFlash E sid st)))"

definition renderError :: "console_env \<Rightarrow> string option \<Rightarrow> grpc_code \<Rightarrow> console \<Rightarrow> answer \<times> console" where
  "renderError E cookie c st = renderPage E cookie (httpStatusForCode c) st"

definition renderGRPCError :: "console_env \<Rightarrow> string option \<Rightarrow> admin_status \<Rightarrow> console \<Rightarrow> answer \<times> console" where
  "renderGRPCError E cookie e st =
     (if httpStatusForCode (fst e) = 401 then (Redirect ''/login'' None, st) else renderError E cookie (fst e) st)"

section \<open>Login with the secret\<close>

definition operator_rows :: "admin_db \<Rightarrow> string \<Rightarrow> (string \<times> int) option" where
  "operator_rows db who =
     (case filter (\<lambda>r. op_principal r = who) (ad_operators db) of r # _ \<Rightarrow> Some (op_secret r, op_status r) | [] \<Rightarrow> None)"

definition handleLoginPost :: "console_env \<Rightarrow> string option \<Rightarrow> string \<Rightarrow> string \<Rightarrow> console \<Rightarrow> answer \<times> console" where
  "handleLoginPost E cookie who secret st =
     (case OperatorResolver_ResolveSecret (cv_unseal E) (te_masterKey (cv_tx E)) (operator_rows (ix_admin (co_db st))) who of
        None \<Rightarrow> renderPage E cookie 401 st
      | Some stored \<Rightarrow>
          if secret \<noteq> stored then renderPage E cookie 401 st
          else (case session_Create E 0 who st of
                  (None, st') \<Rightarrow> renderError E cookie Internal st'
                | (Some (sid, _), st') \<Rightarrow> (Redirect ''/'' (Some sid), st')))"

definition handleLogout :: "console_env \<Rightarrow> string option \<Rightarrow> console \<Rightarrow> answer \<times> console" where
  "handleLogout E cookie st =
     (Redirect ''/login'' (Some []), case cookie of None \<Rightarrow> st | Some sid \<Rightarrow> session_Delete E sid st)"

definition lookupSession :: "console_env \<Rightarrow> string option \<Rightarrow> console \<Rightarrow> session option \<times> console" where
  "lookupSession E cookie st = (case cookie of None \<Rightarrow> (None, st) | Some sid \<Rightarrow> session_Get E sid st)"

definition checkCSRF :: "string \<Rightarrow> session \<Rightarrow> bool" where
  "checkCSRF csrf_token sess \<longleftrightarrow> csrf_token = se_CSRF sess"

section \<open>Single sign-on\<close>

definition oidcCallbackPath :: string where
  "oidcCallbackPath = ''/auth/oidc/callback''"

definition ssoFail :: "console_env \<Rightarrow> string option \<Rightarrow> console \<Rightarrow> answer \<times> console" where
  "ssoFail E cookie st = renderPage E cookie 401 st"

text \<open>\<^verbatim>\<open>strings.LastIndex(email, "@")\<close> splits an address; \<^const>\<open>None\<close> if one of the parts is missing.\<close>

definition mail_domain :: "string \<Rightarrow> string option" where
  "mail_domain email =
     (let domain = rev (takeWhile (\<lambda>c. c \<noteq> CHR ''@'') (rev email))
      in if CHR ''@'' \<in> set email \<and> length domain + 1 < length email \<and> domain \<noteq> [] then Some domain else None)"

definition handleSSOStart :: "console_env \<Rightarrow> string option \<Rightarrow> string \<Rightarrow> console \<Rightarrow> answer \<times> console" where
  "handleSSOStart E cookie form_email st =
     (case mail_domain (ToLower (te_lower (cv_tx E)) (TrimSpace form_email)) of
        None \<Rightarrow> ssoFail E cookie st
      | Some domain \<Rightarrow>
          if cv_baseURL E = [] \<or> \<not> cv_sso E then ssoFail E cookie st
          else case ResolveIdPByDomain (cv_unseal E) (te_masterKey (cv_tx E)) (co_db st) domain of
            Inr (Some idp) \<Rightarrow>
              if \<not> il_Enabled idp then ssoFail E cookie st
              else (case Discover (cv_config E) (il_Issuer idp) of
                      None \<Rightarrow> ssoFail E cookie st
                    | Some pc \<Rightarrow>
                        (case (randToken E 0, randToken E 1, randToken E 2) of
                           (Some state, Some nonce, Some verifier) \<Rightarrow>
                             (case PutOIDCState E state
                                     \<lparr>os_Nonce = nonce, os_Verifier = verifier, os_TenantID = il_TenantID idp, os_ReturnTo = ''/''\<rparr>
                                     (600 * 10 ^ 9) st of
                                (False, st') \<Rightarrow> ssoFail E cookie st'
                              | (True, st') \<Rightarrow>
                                  (Redirect (AuthCodeURL pc (il_ClientID idp) (cv_baseURL E @ oidcCallbackPath) state nonce
                                     (PKCEChallenge (cv_crypto E) verifier)) None, st'))
                         | _ \<Rightarrow> ssoFail E cookie st))
          | _ \<Rightarrow> ssoFail E cookie st)"

definition isSafeReturnTo :: "string \<Rightarrow> bool" where
  "isSafeReturnTo p \<longleftrightarrow> hasPrefix p ''/'' \<and> \<not> hasPrefix p ''//'' \<and> CHR 0x5C \<notin> set p"

text \<open>The keys are fetched a second time if the token names one that is not among them.\<close>

definition verified_claims :: "console_env \<Rightarrow> idp_login \<Rightarrow> oidc_state \<Rightarrow> string \<Rightarrow> id_claims option" where
  "verified_claims E idp os cd =
     (case Discover (cv_config E) (il_Issuer idp) of
        None \<Rightarrow> None
      | Some pc \<Rightarrow>
          (case Exchange (cv_token E) pc (il_ClientID idp) (il_ClientSecret idp) (cv_baseURL E @ oidcCallbackPath) cd (os_Verifier os) of
             None \<Rightarrow> None
           | Some raw \<Rightarrow>
               (let vp = \<lparr>vp_Issuer = il_Issuer idp, vp_ClientID = il_ClientID idp, vp_Nonce = os_Nonce os\<rparr>;
                    now = cv_now E div 10 ^ 9
                in case FetchJWKS (cv_keys E 0) (pc_JWKSURI pc) of
                     None \<Rightarrow> None
                   | Some jwks \<Rightarrow>
                       (case VerifyIDToken (cv_crypto E) raw jwks vp now of
                          Inr claims \<Rightarrow> Some claims
                        | Inl e \<Rightarrow>
                            if e \<noteq> ErrUnknownKID then None
                            else (case FetchJWKS (cv_keys E 1) (pc_JWKSURI pc) of
                                    None \<Rightarrow> None
                                  | Some jwks2 \<Rightarrow>
                                      (case VerifyIDToken (cv_crypto E) raw jwks2 vp now of Inr claims \<Rightarrow> Some claims | Inl _ \<Rightarrow> None))))))"

definition operator_for :: "console_env \<Rightarrow> idp_login \<Rightarrow> int64 \<Rightarrow> string \<Rightarrow> console \<Rightarrow> string option \<times> console" where
  "operator_for E idp tenantID email st =
     (case OperatorEmailMatch (ix_admin (co_db st)) tenantID email of
        Some who \<Rightarrow> (Some who, st)
      | None \<Rightarrow>
          if \<not> il_JITEnabled idp then (None, st)
          else (case ProvisionOperatorForLogin (cv_pg E) (cv_tx E) tenantID email (ix_admin (co_db st)) of
                  (out, db') \<Rightarrow> (case out of Inr p \<Rightarrow> p | Inl _ \<Rightarrow> None, st\<lparr>co_db := (co_db st)\<lparr>ix_admin := db'\<rparr>\<rparr>)))"

definition handleOIDCCallback ::
    "console_env \<Rightarrow> string option \<Rightarrow> string \<Rightarrow> string \<Rightarrow> string \<Rightarrow> console \<Rightarrow> answer \<times> console" where
  "handleOIDCCallback E cookie q_error q_state q_code st =
     (if q_error \<noteq> [] then ssoFail E cookie st
      else case TakeOIDCState E q_state st of
        (None, st1) \<Rightarrow> ssoFail E cookie st1
      | (Some os, st1) \<Rightarrow>
          if cv_baseURL E = [] \<or> \<not> cv_sso E then ssoFail E cookie st1
          else case ResolveIdPByTenant (cv_unseal E) (te_masterKey (cv_tx E)) (co_db st1) (os_TenantID os) of
            Inr (Some idp) \<Rightarrow>
              if \<not> il_Enabled idp then ssoFail E cookie st1
              else (case verified_claims E idp os q_code of
                      None \<Rightarrow> ssoFail E cookie st1
                    | Some claims \<Rightarrow>
                        if \<not> cl_EmailVerified claims then ssoFail E cookie st1
                        else (case operator_for E idp (os_TenantID os) (ToLower (te_lower (cv_tx E)) (cl_Email claims)) st1 of
                                (None, st2) \<Rightarrow> ssoFail E cookie st2
                              | (Some who, st2) \<Rightarrow>
                                  (case session_Create E 0 who st2 of
                                     (None, st3) \<Rightarrow> renderError E cookie Internal st3
                                   | (Some (sid, _), st3) \<Rightarrow>
                                       (Redirect (if isSafeReturnTo (os_ReturnTo os) then os_ReturnTo os else ''/'') (Some sid), st3))))
          | _ \<Rightarrow> ssoFail E cookie st1)"

section \<open>Writes\<close>

text \<open>
  \<open>msg\<close> is the decoded form, \<open>invoke\<close> the call of the management service with the operator. The message that a
  success leaves in the session is named by the method.
\<close>

definition doWrite ::
    "console_env \<Rightarrow> 'ce admin_engine \<Rightarrow> string option \<Rightarrow> string \<Rightarrow> string \<Rightarrow> (admin_status, admin_request) res \<Rightarrow>
     (string \<Rightarrow> sso_db \<Rightarrow> (admin_status, 'r) res \<times> sso_db) \<Rightarrow> string \<Rightarrow> console \<Rightarrow> 'ce admin_enforcer \<Rightarrow> answer \<times> console \<times> 'ce admin_enforcer" where
  "doWrite E A cookie csrf_token fullMethod msg invoke redirectTo st en =
     (case lookupSession E cookie st of
        (None, st1) \<Rightarrow> (Redirect ''/login'' None, st1, en)
      | (Some sess, st1) \<Rightarrow>
          if \<not> checkCSRF csrf_token sess then (case renderError E cookie PermissionDenied st1 of (a, st2) \<Rightarrow> (a, st2, en))
          else case msg of
            Inl e \<Rightarrow> (case renderGRPCError E cookie e st1 of (a, st2) \<Rightarrow> (a, st2, en))
          | Inr req \<Rightarrow>
              (case AuthorizeRule A (ix_admin (co_db st1)) (ix_admin (co_db st1)) fullMethod (se_Principal sess) req en of
                 (Inl e, en') \<Rightarrow> (case renderGRPCError E cookie e st1 of (a, st2) \<Rightarrow> (a, st2, en'))
               | (Inr who, en') \<Rightarrow>
                   (case CheckStatusWrite (ix_admin (co_db st1)) fullMethod req of
                      Some e \<Rightarrow> (case renderGRPCError E cookie e st1 of (a, st2) \<Rightarrow> (a, st2, en'))
                    | None \<Rightarrow>
                        (case invoke who (co_db st1) of
                           (Inl e, db') \<Rightarrow> (case renderGRPCError E cookie e (st1\<lparr>co_db := db'\<rparr>) of (a, st2) \<Rightarrow> (a, st2, en'))
                         | (Inr _, db') \<Rightarrow>
                             (Redirect redirectTo None, SetFlash E (case cookie of None \<Rightarrow> [] | Some sid \<Rightarrow> sid) fullMethod (st1\<lparr>co_db := db'\<rparr>), en')))))"

section \<open>What a session rests on\<close>

lemma renderPage_page: "fst (renderPage E cookie n st) = Page n" "co_db (snd (renderPage E cookie n st)) = co_db st"
  by (auto simp: renderPage_def TakeFlash_def session_Get_def split: option.splits prod.splits)

lemma ssoFail_no_redirect: "ssoFail E cookie st \<noteq> (Redirect loc c, st')"
  using renderPage_page(1) [of E cookie 401 st] by (metis answer.distinct(1) fst_conv ssoFail_def)

lemma renderError_no_redirect: "renderError E cookie c st \<noteq> (Redirect loc k, st')"
  using renderPage_page(1) [of E cookie "httpStatusForCode c" st] by (metis answer.distinct(1) fst_conv renderError_def)

lemma verified_claims_Some:
  assumes "verified_claims E idp os cd = Some claims"
  obtains pc raw i keys where "Discover (cv_config E) (il_Issuer idp) = Some pc"
    "FetchJWKS (cv_keys E i) (pc_JWKSURI pc) = Some keys"
    "VerifyIDToken (cv_crypto E) raw keys \<lparr>vp_Issuer = il_Issuer idp, vp_ClientID = il_ClientID idp, vp_Nonce = os_Nonce os\<rparr>
       (cv_now E div 10 ^ 9) = Inr claims"
  using assms by (auto simp: verified_claims_def Let_def split: option.splits sum.splits if_splits)

lemma operator_for_Some:
  assumes "operator_for E idp t email st = (Some who, st')"
  shows "(OperatorEmailMatch (ix_admin (co_db st)) t email = Some who \<or>
      il_JITEnabled idp \<and> who = email \<and> (\<forall>r \<in> set (ad_operators (ix_admin (co_db st))). op_email r \<noteq> Some email \<and> op_principal r \<noteq> email)) \<and>
    co_states st' = co_states st \<and> co_sessions st' = co_sessions st"
  using assms provisioned_member [of "cv_pg E" "cv_tx E" t email "ix_admin (co_db st)" who]
  by (auto simp: operator_for_def split: option.splits if_splits prod.splits sum.splits)

text \<open>
  C5. A session opened by single sign-on rests on a state that this console issued for the tenant and that can not be
  used again, on a token that a key of the tenant's enabled provider signed, made for this client and this login and
  not expired, and on an address that the provider vouches for: it is that of an active member of the tenant, or, if
  the tenant lets members be provisioned, one that no operator has. The redirect stays on the console.
\<close>

theorem sso_session_is_earned:
  assumes "handleOIDCCallback E cookie q_error q_state q_code st = (Redirect loc (Some sid), st')"
  shows "\<exists>os row claims pc i keys p0 p1 p2 sess expiry. let email = ToLower (te_lower (cv_tx E)) (cl_Email claims) in
    entry E (co_states st) q_state = Some os \<and> co_states st' q_state = None \<and>
    IdPLoginByTenant (co_db st) (os_TenantID os) = Some row \<and> ir_Enabled row \<and>
    Discover (cv_config E) (ir_Issuer row) = Some pc \<and> FetchJWKS (cv_keys E i) (pc_JWKSURI pc) = Some keys \<and>
    signed_by (cv_crypto E) keys p0 p1 p2 \<and>
    (\<exists>payload. RawURL_DecodeString p1 = Some payload \<and> decode_struct claim_members zero_claims payload = Some claims) \<and>
    cl_Iss claims = ir_Issuer row \<and> ir_ClientID row \<in> set (cl_Aud claims) \<and> cl_Nonce claims = os_Nonce os \<and>
    cv_now E div 10 ^ 9 \<le> wrap64 (cl_Exp claims + leewaySeconds) \<and> cl_EmailVerified claims \<and>
    co_sessions st' sid = Some (sess, expiry) \<and>
    (OperatorEmailMatch (ix_admin (co_db st)) (os_TenantID os) email = Some (se_Principal sess) \<or>
     ir_JITEnabled row \<and> se_Principal sess = email \<and>
       (\<forall>r \<in> set (ad_operators (ix_admin (co_db st))). op_email r \<noteq> Some email \<and> op_principal r \<noteq> email)) \<and>
    isSafeReturnTo loc"
proof -
  obtain os st1 idp claims who st2 csrf where
    st: "TakeOIDCState E q_state st = (Some os, st1)"
      "ResolveIdPByTenant (cv_unseal E) (te_masterKey (cv_tx E)) (co_db st1) (os_TenantID os) = Inr (Some idp)" "il_Enabled idp"
      "verified_claims E idp os q_code = Some claims" "cl_EmailVerified claims"
      "operator_for E idp (os_TenantID os) (ToLower (te_lower (cv_tx E)) (cl_Email claims)) st1 = (Some who, st2)"
      "session_Create E 0 who st2 = (Some (sid, csrf), st')" "loc = (if isSafeReturnTo (os_ReturnTo os) then os_ReturnTo os else ''/'')"
    using assms
    by (auto simp: handleOIDCCallback_def ssoFail_no_redirect renderError_no_redirect
        split: if_split_asm prod.split_asm option.split_asm sum.split_asm)
  have 1: "entry E (co_states st) q_state = Some os" "co_states st1 q_state = None" "co_db st1 = co_db st"
    using st(1) by (auto simp: TakeOIDCState_def split: if_splits)
  obtain row where row: "IdPLoginByTenant (co_db st) (os_TenantID os) = Some row" "ir_Enabled row = il_Enabled idp"
      "ir_Issuer row = il_Issuer idp" "ir_ClientID row = il_ClientID idp" "ir_JITEnabled row = il_JITEnabled idp"
    using st(2) 1(3) by (auto simp: ResolveIdPByTenant_def resolve_row_def decrypt_login_def split: option.splits sum.splits)
  obtain pc raw i keys where tok: "Discover (cv_config E) (il_Issuer idp) = Some pc" "FetchJWKS (cv_keys E i) (pc_JWKSURI pc) = Some keys"
      "VerifyIDToken (cv_crypto E) raw keys \<lparr>vp_Issuer = il_Issuer idp, vp_ClientID = il_ClientID idp, vp_Nonce = os_Nonce os\<rparr>
        (cv_now E div 10 ^ 9) = Inr claims"
    using verified_claims_Some [OF st(4)] by metis
  obtain p0 p1 p2 payload where sig: "signed_by (cv_crypto E) keys p0 p1 p2" "RawURL_DecodeString p1 = Some payload"
      "decode_struct claim_members zero_claims payload = Some claims"
      "claims_error \<lparr>vp_Issuer = il_Issuer idp, vp_ClientID = il_ClientID idp, vp_Nonce = os_Nonce os\<rparr> (cv_now E div 10 ^ 9) claims = None"
    using tok(3) [unfolded VerifyIDToken_iff] by blast
  obtain sess expiry where sess: "co_sessions st' sid = Some (sess, expiry)" "se_Principal sess = who" "co_states st' = co_states st2"
    using st(7) by (auto simp: session_Create_def split: option.splits if_splits)
  note op = operator_for_Some [OF st(6)]
  have safe: "isSafeReturnTo loc" using st(8) by (simp add: isSafeReturnTo_def hasPrefix_def)
  show ?thesis
    unfolding Let_def using 1 row tok(1,2) sig st(3,5) sess op safe
    by (intro exI [of _ os] exI [of _ row] exI [of _ claims] exI [of _ pc] exI [of _ i] exI [of _ keys] exI [of _ p0]
        exI [of _ p1] exI [of _ p2] exI [of _ sess] exI [of _ expiry])
      (simp add: claims_error_None)
qed

section \<open>Writes of the console\<close>

lemma console_write_is_authorized:
  assumes "doWrite E A cookie csrf fullMethod msg invoke to st en = (a, st', en')" "co_db st' \<noteq> co_db st"
  shows "\<exists>sid sess req who. cookie = Some sid \<and> entry E (co_sessions st) sid = Some sess \<and> csrf = se_CSRF sess \<and> msg = Inr req \<and>
    fst (AuthorizeRule A (ix_admin (co_db st)) (ix_admin (co_db st)) fullMethod (se_Principal sess) req en) = Inr who \<and>
    CheckStatusWrite (ix_admin (co_db st)) fullMethod req = None \<and> co_db st' = snd (invoke who (co_db st))"
proof -
  have get: "session_Get E sid st = (Some sess, st1) \<Longrightarrow> entry E (co_sessions st) sid = Some sess \<and> co_db st1 = co_db st" for sid sess st1
    by (auto simp: session_Get_def split: if_splits option.splits)
  have look: "lookupSession E cookie st = (r, st1) \<Longrightarrow> co_db st1 = co_db st" for r st1
    by (auto simp: lookupSession_def session_Get_def split: option.splits if_splits)
  have page: "renderError E cookie c s = (x, y) \<Longrightarrow> co_db y = co_db s" for c s x y
    using renderPage_page(2) [of E cookie "httpStatusForCode c" s] by (simp add: renderError_def)
  then have gpage: "renderGRPCError E cookie e s = (x, y) \<Longrightarrow> co_db y = co_db s" for e s x y
    by (auto simp: renderGRPCError_def split: if_splits)
  have getdb: "session_Get E sid s = (x, y) \<Longrightarrow> co_db y = co_db s" for sid s x y
    by (auto simp: session_Get_def split: option.splits if_splits)
  have flash: "co_db (SetFlash E sid m s) = co_db s" for sid m s
    by (cases "session_Get E sid s") (auto simp: SetFlash_def dest: getdb split: option.splits)
  obtain sess st1 where s1: "lookupSession E cookie st = (Some sess, st1)"
  proof (cases "lookupSession E cookie st")
    case (Pair r st1)
    with look have "co_db st1 = co_db st" by blast
    with Pair assms that show thesis by (cases r) (auto simp: doWrite_def)
  qed
  then obtain sid where sid: "cookie = Some sid" "entry E (co_sessions st) sid = Some sess" "co_db st1 = co_db st"
    using get by (auto simp: lookupSession_def split: option.splits)
  have csrf: "checkCSRF csrf sess"
    using assms s1 sid(3) page by (auto simp: doWrite_def split: prod.splits if_splits)
  obtain req where req: "msg = Inr req"
    using assms s1 sid(3) csrf gpage by (cases msg) (auto simp: doWrite_def split: prod.splits)
  obtain who en1 where auth: "AuthorizeRule A (ix_admin (co_db st)) (ix_admin (co_db st)) fullMethod (se_Principal sess) req en = (Inr who, en1)"
    using assms s1 sid(3) csrf req gpage
    by (cases "AuthorizeRule A (ix_admin (co_db st)) (ix_admin (co_db st)) fullMethod (se_Principal sess) req en")
      (auto simp: doWrite_def split: prod.splits sum.splits)
  have status: "CheckStatusWrite (ix_admin (co_db st)) fullMethod req = None"
    using assms s1 sid(3) csrf req auth gpage by (auto simp: doWrite_def split: prod.splits option.splits)
  have "co_db st' = snd (invoke who (co_db st))"
    using assms(1) s1 sid(3) csrf req auth status flash gpage
    by (cases "invoke who (co_db st)") (auto simp: doWrite_def split: prod.splits sum.splits)
  with sid csrf req auth status show ?thesis by (auto simp: checkCSRF_def)
qed

section \<open>Two defects\<close>

text \<open>
  Disabling an operator raises the version but leaves the rows of the enforcer as they are, and a session does not
  look at the operator: who is logged in keeps every authorization until the session expires.
\<close>

lemma SetOperatorStatus_rows:
  assumes "SetOperatorStatus X root i st db = (Inr r, db')"
  shows "LoadPolicyRows db' = LoadPolicyRows db" "LoadGroupingRows db' = LoadGroupingRows db" "ad_apps db' = ad_apps db"
    and "\<exists>v. ad_version db = Some v \<and> ad_version db' = Some (v + 1)"
proof -
  let ?up = "update_operator (\<lambda>r. op_id r = i) (\<lambda>r. r\<lparr>op_status := int16_of st\<rparr>) db"
  obtain db1 ver where st: "BumpPolicyVersion ?up = Inr db1" "db' = InsertAdminAudit None root ''set_status'' ''operator'' (show_id i) (Some ver) db1"
    using assms by (auto simp: SetOperatorStatus_def bump_audit_def bindE_Ok dest!: tx_run_done split: option.splits)
  have grp: "LoadGroupingRows ?up = LoadGroupingRows db" unfolding update_operator_def by (rule grouping_map) simp
  obtain v where v: "ad_version db = Some v" "db1 = ?up\<lparr>ad_version := Some (v + 1)\<rparr>"
    using st(1) by (auto simp: BumpPolicyVersion_def update_operator_def split: option.splits)
  show "LoadGroupingRows db' = LoadGroupingRows db"
    using grp by (simp add: st(2) v(2) InsertAdminAudit_def LoadGroupingRows_def)
  show "LoadPolicyRows db' = LoadPolicyRows db" "ad_apps db' = ad_apps db" "\<exists>v. ad_version db = Some v \<and> ad_version db' = Some (v + 1)"
    using v by (simp_all add: st(2) InsertAdminAudit_def LoadPolicyRows_def update_operator_def)
qed

theorem disabled_operator_still_authorized:
  assumes "admin_casbin A holds lvl"
    and "ad_version db = Some (en_loadedV en)" "holds (en_e en) = (set (LoadPolicyRows db), set (LoadGroupingRows db))"
    and "fst (AuthorizeRule A db db m who req en) = Inr who'"
    and "SetOperatorStatus X root i st db = (Inr r, db')"
  shows "fst (AuthorizeRule A db' db' m who req en) = Inr who'"
proof -
  note rows = SetOperatorStatus_rows [OF assms(5)]
  obtain rule where rule: "ruleTable m = Some rule" using assms(4) by (auto simp: AuthorizeRule_def split: option.splits)
  show ?thesis
  proof (cases "ru_scope rule = ScopeSelf")
    case True
    with rule assms(4) show ?thesis by (simp add: AuthorizeRule_def)
  next
    case False
    have "TenantDomainOf db' = TenantDomainOf db" by (rule ext) (simp add: TenantDomainOf_def app_of_def rows(3))
    then have dom: "domains_of db' (ru_scope rule) req = domains_of db (ru_scope rule) req" by (simp only: domains_of_def)
    obtain dm tdom where d: "domains_of db (ru_scope rule) req = Inr (dm, tdom)"
      using assms(4) rule False by (auto simp: AuthorizeRule_def split: sum.splits)
    have sync: "admin_casbin.synced holds db en" using assms(3) by (simp add: admin_casbin.synced_def [OF assms(1)])
    have sync': "admin_casbin.synced holds db' en"
      using assms(2) rows(4) by (auto simp: admin_casbin.synced_def [OF assms(1)])
    show ?thesis
      using assms(4) rows dom d
        admin_casbin.Authorize_iff [OF assms(1) sync rule False d, of who who']
        admin_casbin.Authorize_iff [OF assms(1) sync' rule False, of req dm tdom who who'] by auto
  qed
qed

section \<open>An example\<close>

text \<open>Tenant 3 has configured a provider of its own, which vouches for the name of the built-in role.\<close>

definition evil_keys :: string where
  "evil_keys = ''{\"keys\":[{\"kty\":\"RSA\",\"kid\":\"k\",\"n\":\"AQ\",\"e\":\"AQ\"}]}''"

definition evil_header :: string where
  "evil_header = ''{\"alg\":\"RS256\",\"kid\":\"k\"}''"

definition evil_payload :: string where
  "evil_payload = ''{\"iss\":\"i\",\"aud\":\"c\",\"nonce\":\"N\",\"email\":\"super-admin\",\"email_verified\":true}''"

definition evil_token :: string where
  "evil_token = RawURL_EncodeToString evil_header @ ''.'' @ RawURL_EncodeToString evil_payload @ ''.'' @ RawURL_EncodeToString ''x''"

definition evil_env :: console_env where
  "evil_env = \<lparr>cv_now = 0, cv_redis = True, cv_rand = (\<lambda>i. Some [char_of (97 + i)]), cv_ttl = 1000, cv_tx = demo_tx, cv_pg = demo_apg,
     cv_unseal = (\<lambda>k n c. Some ''s''), cv_sso = True, cv_baseURL = ''b'',
     cv_config = (\<lambda>u. Some \<lparr>pc_Issuer = ''i'', pc_AuthorizationEndpoint = ''a'', pc_TokenEndpoint = ''t'', pc_JWKSURI = ''j''\<rparr>),
     cv_token = (\<lambda>u c f. Some evil_token), cv_keys = (\<lambda>n u. Some evil_keys),
     cv_crypto = \<lparr>oc_sha256 = (\<lambda>s. s), oc_rsa = (\<lambda>n e d s. s = ''x''), oc_ecdsa = (\<lambda>x y d r s. False)\<rparr>\<rparr>"

definition evil_console :: console where
  "evil_console = \<lparr>co_db = \<lparr>ix_admin = alice_db,
       ix_idps = [\<lparr>ir_TenantID = 3, ir_Issuer = ''i'', ir_ClientID = ''c'', ir_ClientSecretEnc = replicate 28 CHR ''e'', ir_Enabled = True, ir_JITEnabled = True\<rparr>],
       ix_domains = [\<lparr>im_tenant = 3, im_domain = ''acme.com''\<rparr>]\<rparr>,
     co_sessions = Map.empty, co_states = [''S'' \<mapsto> (\<lparr>os_Nonce = ''N'', os_Verifier = ''v'', os_TenantID = 3, os_ReturnTo = ''/''\<rparr>, 10)]\<rparr>"

lemma evil_keys_read: "ParseJWKS evil_keys = Some [''k'' \<mapsto> RSAKey 1 1]"
proof -
  have "decode_struct jwks_members ([], 0) evil_keys =
      Some ([\<lparr>jk_kty = ''RSA'', jk_kid = ''k'', jk_crv = [], jk_n = ''AQ'', jk_e = ''AQ'', jk_x = [], jk_y = []\<rparr>], 1)"
    "RawURL_DecodeString ''AQ'' = Some [CHR 0x01]" by code_simp+
  then show ?thesis by (simp add: ParseJWKS_def SetBytes_def wrap64_def)
qed

lemma evil_claims:
  "decode_struct header_members \<lparr>th_alg = [], th_kid = []\<rparr> evil_header = Some \<lparr>th_alg = ''RS256'', th_kid = ''k''\<rparr>"
  "decode_struct claim_members zero_claims evil_payload = Some \<lparr>cl_Iss = ''i'', cl_Sub = [], cl_Email = ''super-admin'',
     cl_EmailVerified = True, cl_Exp = 0, cl_Iat = 0, cl_Aud = [''c''], cl_Nonce = ''N''\<rparr>"
  by code_simp+

definition evil_found :: id_claims where
  "evil_found = \<lparr>cl_Iss = ''i'', cl_Sub = [], cl_Email = ''super-admin'',
     cl_EmailVerified = True, cl_Exp = 0, cl_Iat = 0, cl_Aud = [''c''], cl_Nonce = ''N''\<rparr>"

definition evil_idp :: idp_login where
  "evil_idp = \<lparr>il_TenantID = 3, il_Issuer = ''i'', il_ClientID = ''c'', il_ClientSecret = ''s'', il_Enabled = True, il_JITEnabled = True\<rparr>"

definition evil_state :: oidc_state where
  "evil_state = \<lparr>os_Nonce = ''N'', os_Verifier = ''v'', os_TenantID = 3, os_ReturnTo = ''/''\<rparr>"

lemma evil_verified: "VerifyIDToken (cv_crypto evil_env) evil_token [''k'' \<mapsto> RSAKey 1 1]
    \<lparr>vp_Issuer = ''i'', vp_ClientID = ''c'', vp_Nonce = ''N''\<rparr> 0 = Inr evil_found"
proof -
  have "split_dots evil_token = [RawURL_EncodeToString evil_header, RawURL_EncodeToString evil_payload, RawURL_EncodeToString ''x'']"
    unfolding split_dots_three evil_token_def by (simp add: RawURL_no_dot)
  moreover have "claims_error \<lparr>vp_Issuer = ''i'', vp_ClientID = ''c'', vp_Nonce = ''N''\<rparr> 0 evil_found = None"
    by (simp add: claims_error_None evil_found_def leewaySeconds_def wrap64_def)
  ultimately show ?thesis
    by (simp add: VerifyIDToken_def RawURL_roundtrip evil_claims signature_error_def evil_env_def flip: evil_found_def)
qed

lemma evil_verified_claims: "verified_claims evil_env evil_idp evil_state ''code'' = Some evil_found"
proof -
  have "Discover (cv_config evil_env) ''i'' = Some \<lparr>pc_Issuer = ''i'', pc_AuthorizationEndpoint = ''a'', pc_TokenEndpoint = ''t'', pc_JWKSURI = ''j''\<rparr>"
    by (simp add: Discover_def evil_env_def)
  moreover have "Exchange (cv_token evil_env) p a b c d e = Some evil_token" for p a b c d e
    by (simp add: Exchange_def evil_env_def evil_token_def)
  moreover have "FetchJWKS (cv_keys evil_env n) u = Some [''k'' \<mapsto> RSAKey 1 1]" for n u
    using evil_keys_read by (simp add: FetchJWKS_def evil_env_def)
  moreover have "cv_now evil_env = 0" by (simp add: evil_env_def)
  ultimately show ?thesis using evil_verified by (simp add: verified_claims_def evil_idp_def evil_state_def)
qed

definition evil_db :: admin_db where
  "evil_db = snd (ProvisionOperatorForLogin demo_apg demo_tx 3 ''super-admin'' alice_db)"

definition evil_end :: console where
  "evil_end = evil_console\<lparr>co_db := (co_db evil_console)\<lparr>ix_admin := evil_db\<rparr>,
     co_sessions := [''YQ'' \<mapsto> (\<lparr>se_Principal = ''super-admin'', se_CSRF = ''Yg'', se_CreatedAt = 0, se_Flash = []\<rparr>, 1000)], co_states := Map.empty\<rparr>"

lemma evil_run: "handleOIDCCallback evil_env None [] ''S'' ''code'' evil_console = (Redirect ''/'' (Some ''YQ''), evil_end)"
proof -
  have take: "TakeOIDCState evil_env ''S'' evil_console = (Some evil_state, evil_console\<lparr>co_states := Map.empty\<rparr>)"
    by (simp add: TakeOIDCState_def entry_def evil_env_def evil_console_def evil_state_def)
  have idp: "ResolveIdPByTenant (cv_unseal evil_env) (te_masterKey (cv_tx evil_env)) (co_db evil_console) 3 = Inr (Some evil_idp)"
    by (simp add: ResolveIdPByTenant_def resolve_row_def decrypt_login_def IdPLoginByTenant_def Decrypt_def KeySize_def NonceSize_def
        Overhead_def evil_env_def evil_console_def evil_idp_def demo_tx_def)
  have "ToLower (te_lower demo_tx) ''super-admin'' = ''super-admin''" by code_simp
  then have email: "ToLower (te_lower (cv_tx evil_env)) ''super-admin'' = ''super-admin''" by (simp add: evil_env_def)
  have "OperatorEmailMatch alice_db 3 ''super-admin'' = None" by code_simp
  moreover have "fst (ProvisionOperatorForLogin demo_apg demo_tx 3 ''super-admin'' alice_db) = Inr (Some ''super-admin'')" by code_simp
  then have "ProvisionOperatorForLogin demo_apg demo_tx 3 ''super-admin'' alice_db = (Inr (Some ''super-admin''), evil_db)"
    unfolding evil_db_def by (metis prod.collapse)
  ultimately have op: "operator_for evil_env evil_idp 3 ''super-admin'' (evil_console\<lparr>co_states := Map.empty\<rparr>) =
      (Some ''super-admin'', evil_console\<lparr>co_states := Map.empty, co_db := (co_db evil_console)\<lparr>ix_admin := evil_db\<rparr>\<rparr>)"
    by (simp add: operator_for_def evil_console_def evil_idp_def evil_env_def)
  have "RawURL_EncodeToString [char_of (97 :: nat)] = ''YQ''" "RawURL_EncodeToString [char_of (98 :: nat)] = ''Yg''" by code_simp+
  then have rnd: "randToken evil_env 0 = Some ''YQ''" "randToken evil_env 1 = Some ''Yg''" by (simp_all add: randToken_def evil_env_def)
  then have new: "session_Create evil_env 0 ''super-admin'' (evil_console\<lparr>co_states := Map.empty, co_db := (co_db evil_console)\<lparr>ix_admin := evil_db\<rparr>\<rparr>) =
      (Some (''YQ'', ''Yg''), evil_end)"
    by (simp add: session_Create_def evil_env_def evil_console_def evil_end_def)
  have env: "cv_baseURL evil_env = ''b''" "cv_sso evil_env" by (simp_all add: evil_env_def)
  have found: "cl_EmailVerified evil_found" "cl_Email evil_found = ''super-admin''" "il_Enabled evil_idp"
    "os_TenantID evil_state = 3" "os_ReturnTo evil_state = ''/''" "isSafeReturnTo ''/''"
    by (simp_all add: evil_found_def evil_idp_def evil_state_def isSafeReturnTo_def hasPrefix_def)
  show ?thesis
    using idp by (simp add: handleOIDCCallback_def take env found evil_verified_claims email op new)
qed

theorem sso_session_is_earned_witness:
  "handleOIDCCallback evil_env None [] ''S'' ''code'' evil_console = (Redirect ''/'' (Some ''YQ''), evil_end) \<and>
   (\<exists>os row (claims :: id_claims) sess expiry. entry evil_env (co_states evil_console) ''S'' = Some os \<and> co_states evil_end ''S'' = None \<and>
      IdPLoginByTenant (co_db evil_console) (os_TenantID os) = Some row \<and> cl_Iss claims = ir_Issuer row \<and> cl_Nonce claims = os_Nonce os \<and>
      cl_EmailVerified claims \<and> co_sessions evil_end ''YQ'' = Some (sess, expiry) \<and> isSafeReturnTo ''/'')"
proof -
  obtain os row and claims :: id_claims and sess expiry where "entry evil_env (co_states evil_console) ''S'' = Some os" "co_states evil_end ''S'' = None"
      "IdPLoginByTenant (co_db evil_console) (os_TenantID os) = Some row" "cl_Iss claims = ir_Issuer row" "cl_Nonce claims = os_Nonce os"
      "cl_EmailVerified claims" "co_sessions evil_end ''YQ'' = Some (sess, expiry)" "isSafeReturnTo ''/''"
    using sso_session_is_earned [OF evil_run, unfolded Let_def] by (elim exE conjE) (rule that, assumption+)
  then show ?thesis using evil_run by (intro conjI exI)
qed

text \<open>
  The address that a provider vouches for is not compared with the domains of the tenant. A tenant that provisions
  members can have its provider vouch for the name of the built-in role, which becomes the principal of a new operator;
  as the model's \<^verbatim>\<open>g\<close> holds between a name and itself, the login is authorized for every call of the platform.
\<close>
theorem jit_login_may_be_super_admin:
  "handleOIDCCallback evil_env None [] ''S'' ''code'' evil_console = (Redirect ''/'' (Some ''YQ''), evil_end) \<and>
   map_option (se_Principal \<circ> fst) (co_sessions evil_end ''YQ'') = Some ''super-admin'' \<and>
   fst (AuthorizeRule ref_engine evil_db evil_db (service @ ''CreateOperator'') ''super-admin'' \<lparr>rq_app = None, rq_tenant = None\<rparr> seed_en) = Inr ''super-admin''"
proof -
  have "fst (AuthorizeRule ref_engine evil_db evil_db (service @ ''CreateOperator'') ''super-admin'' \<lparr>rq_app = None, rq_tenant = None\<rparr> seed_en) = Inr ''super-admin''"
    by code_simp
  then show ?thesis using evil_run by (simp add: evil_end_def)
qed

end
