(* ===== verification/Audit_Query.thy ===== *)
theory Audit_Query
  imports Admin_Ops
begin

text \<open>
  Reading the audit logs page by page (\<^verbatim>\<open>store/audit.go\<close>, the query of \<^verbatim>\<open>adminauthz/audit.go\<close>, \<^verbatim>\<open>mgmt/audit.go\<close>): the
  limits of a page, the filters, and the cursor, which is the number of the last row of a page. The lemmas show that
  following the cursors ends and yields every row that matches exactly once, newest first, also while the log grows.
  The JSON text of a change and the text form of a time are left out.
\<close>

section \<open>Pages\<close>

text \<open>A row of a log with its number and its time.\<close>

record 'r logged =
  lg_ID :: int64
  lg_CreatedAt :: int
  lg_Row :: 'r

definition auditMaxLimit :: nat where
  "auditMaxLimit = 200"

definition auditDefaultLimit :: nat where
  "auditDefaultLimit = 50"

definition clampLimit :: "32 word \<Rightarrow> nat" where
  "clampLimit n =
     (if n = 0 then auditDefaultLimit
      else if unat n > auditMaxLimit then auditMaxLimit
      else unat n)"

text \<open>\<^verbatim>\<open>ORDER BY id DESC\<close>.\<close>

definition newest_first :: "'r logged list \<Rightarrow> 'r logged list" where
  "newest_first rows = rev (sort_key (\<lambda>r. sint (lg_ID r)) rows)"

text \<open>One row more than the limit is read; if it is there, the number of the last row of the page is the next cursor.\<close>

definition trim_page :: "nat \<Rightarrow> 'r logged list \<Rightarrow> 'r logged list \<times> uint64" where
  "trim_page limit out = (if length out > limit then (take limit out, lg_ID (out ! (limit - 1))) else (out, 0))"

definition before_cursor :: "uint64 \<Rightarrow> 'r logged \<Rightarrow> bool" where
  "before_cursor cursor r \<longleftrightarrow> cursor = 0 \<or> sint (lg_ID r) < sint cursor"

text \<open>A condition of the filter that is left empty does not restrict. Times are counted from the zero time.\<close>

definition unless_empty :: "string \<Rightarrow> string \<Rightarrow> bool" where
  "unless_empty wanted have \<longleftrightarrow> wanted = [] \<or> have = wanted"

definition in_period :: "int \<Rightarrow> int \<Rightarrow> int \<Rightarrow> bool" where
  "in_period since until t \<longleftrightarrow> (since = 0 \<or> since \<le> t) \<and> (until = 0 \<or> t \<le> until)"

section \<open>The log of an application\<close>

record audit_filter =
  af_EntityType :: string
  af_EntityID :: string
  af_Action :: string
  af_Operator :: string
  af_Since :: int
  af_Until :: int

definition app_audit_matches :: "int64 \<Rightarrow> audit_filter \<Rightarrow> audit_row logged \<Rightarrow> bool" where
  "app_audit_matches app f r \<longleftrightarrow>
     au_app (lg_Row r) = app \<and>
     unless_empty (af_EntityType f) (au_entityType (lg_Row r)) \<and>
     unless_empty (af_EntityID f) (au_entityID (lg_Row r)) \<and>
     unless_empty (af_Action f) (au_action (lg_Row r)) \<and>
     unless_empty (af_Operator f) (au_operator (lg_Row r)) \<and>
     in_period (af_Since f) (af_Until f) (lg_CreatedAt r)"

definition QueryAppAudit ::
    "audit_row logged list \<Rightarrow> int64 \<Rightarrow> audit_filter \<Rightarrow> uint64 \<Rightarrow> nat \<Rightarrow> audit_row logged list \<times> uint64" where
  "QueryAppAudit rows app f cursor limit =
     trim_page limit (take (limit + 1) (newest_first (filter (\<lambda>r. app_audit_matches app f r \<and> before_cursor cursor r) rows)))"

section \<open>The log of the control plane\<close>

text \<open>Without a tenant every row is read, also those that belong to none.\<close>

definition admin_audit_matches :: "int64 option \<Rightarrow> audit_filter \<Rightarrow> admin_audit_row logged \<Rightarrow> bool" where
  "admin_audit_matches tenant f r \<longleftrightarrow>
     (tenant = None \<or> aa_tenant (lg_Row r) = tenant) \<and>
     unless_empty (af_EntityType f) (aa_entityType (lg_Row r)) \<and>
     (af_EntityID f = [] \<or> aa_entityID (lg_Row r) = Some (af_EntityID f)) \<and>
     unless_empty (af_Action f) (aa_action (lg_Row r)) \<and>
     unless_empty (af_Operator f) (aa_operator (lg_Row r)) \<and>
     in_period (af_Since f) (af_Until f) (lg_CreatedAt r)"

definition QueryAdminAudit ::
    "admin_audit_row logged list \<Rightarrow> int64 option \<Rightarrow> audit_filter \<Rightarrow> uint64 \<Rightarrow> nat \<Rightarrow> admin_audit_row logged list \<times> uint64" where
  "QueryAdminAudit rows tenant f cursor limit =
     trim_page limit (take (limit + 1) (newest_first (filter (\<lambda>r. admin_audit_matches tenant f r \<and> before_cursor cursor r) rows)))"

section \<open>The handlers\<close>

text \<open>\<open>parse\<close> is \<^verbatim>\<open>time.Parse\<close> for RFC 3339; the empty text stands for the zero time.\<close>

definition parseTS :: "(string \<Rightarrow> int option) \<Rightarrow> string \<Rightarrow> (admin_status, int) res" where
  "parseTS parse s =
     (if s = [] then Inr 0
      else case parse s of None \<Rightarrow> Inl (InvalidArgument, ''invalid timestamp'') | Some t \<Rightarrow> Inr t)"

record audit_request =
  ar_EntityType :: string
  ar_EntityID :: string
  ar_Action :: string
  ar_Operator :: string
  ar_Since :: string
  ar_Until :: string
  ar_Cursor :: uint64
  ar_Limit :: "32 word"

definition request_filter :: "audit_request \<Rightarrow> int \<Rightarrow> int \<Rightarrow> audit_filter" where
  "request_filter q since until =
     \<lparr>af_EntityType = ar_EntityType q, af_EntityID = ar_EntityID q, af_Action = ar_Action q, af_Operator = ar_Operator q,
      af_Since = since, af_Until = until\<rparr>"

definition Admin_QueryAuditLog ::
    "(string \<Rightarrow> int option) \<Rightarrow> audit_row logged list \<Rightarrow> uint64 \<Rightarrow> audit_request \<Rightarrow>
     (admin_status, audit_row logged list \<times> uint64) res" where
  "Admin_QueryAuditLog parse rows app q =
     rbind (parseTS parse (ar_Since q)) (\<lambda>since.
     rbind (parseTS parse (ar_Until q)) (\<lambda>until.
     Inr (QueryAppAudit rows app (request_filter q since until) (ar_Cursor q) (clampLimit (ar_Limit q)))))"

definition Admin_QueryAdminAuditLog ::
    "(string \<Rightarrow> int option) \<Rightarrow> admin_audit_row logged list \<Rightarrow> uint64 \<Rightarrow> audit_request \<Rightarrow>
     (admin_status, admin_audit_row logged list \<times> uint64) res" where
  "Admin_QueryAdminAuditLog parse rows tenantID q =
     rbind (parseTS parse (ar_Since q)) (\<lambda>since.
     rbind (parseTS parse (ar_Until q)) (\<lambda>until.
     Inr (QueryAdminAudit rows (if tenantID = 0 then None else Some tenantID) (request_filter q since until)
            (ar_Cursor q) (clampLimit (ar_Limit q)))))"

section \<open>Following the cursors\<close>

lemma clampLimit_bounds: "1 \<le> clampLimit n" "clampLimit n \<le> auditMaxLimit"
  by (auto simp: clampLimit_def auditDefaultLimit_def auditMaxLimit_def unat_gt_0 Suc_le_eq)

text \<open>
  A reader that asks for the first page and then with the cursor of each answer; \<^const>\<open>None\<close> if it never ends. The
  \<open>i\<close>-th query is \<open>q i\<close>.
\<close>

partial_function (option) follow :: "(nat \<Rightarrow> uint64 \<Rightarrow> 'r list \<times> uint64) \<Rightarrow> nat \<Rightarrow> uint64 \<Rightarrow> 'r list option" where
  "follow q i cursor =
     (case q i cursor of (out, next) \<Rightarrow>
        if next = 0 then Some out else Option.bind (follow q (Suc i) next) (\<lambda>rest. Some (out @ rest)))"

declare follow.simps [code]

text \<open>
  The log as the successive queries see it. Rows that match get ascending positive numbers: writers of one
  application take their numbers under the lock of that application, and so in the order in which they commit.
\<close>

definition grows :: "('r logged \<Rightarrow> bool) \<Rightarrow> (nat \<Rightarrow> 'r logged list) \<Rightarrow> bool" where
  "grows sel log \<longleftrightarrow>
     (\<forall>i. distinct (map lg_ID (filter sel (log i))) \<and> (\<forall>r \<in> set (filter sel (log i)). 0 < sint (lg_ID r)) \<and>
        (\<exists>new. log (Suc i) = log i @ new \<and>
           (\<forall>r \<in> set (filter sel (log i)). \<forall>r' \<in> set (filter sel new). sint (lg_ID r) < sint (lg_ID r'))))"

lemma set_newest_first [simp]: "set (newest_first rows) = set rows"
  by (simp add: newest_first_def)

lemma newest_first_filter: "newest_first (filter P rows) = filter P (newest_first rows)"
  by (simp add: newest_first_def filter_sort flip: rev_filter)

lemma newest_first_desc:
  assumes "distinct (map lg_ID rows)"
  shows "sorted_wrt (\<lambda>a b. sint (lg_ID b) < sint (lg_ID a)) (newest_first rows)"
proof -
  have "distinct (map (\<lambda>r. sint (lg_ID r)) (sort_key (\<lambda>r. sint (lg_ID r)) rows))"
    using assms by (auto simp: distinct_map inj_on_def dest: signed_word_eqI)
  then have "sorted_wrt (<) (map (\<lambda>r. sint (lg_ID r)) (sort_key (\<lambda>r. sint (lg_ID r)) rows))"
    using sorted_sort_key strict_sorted_iff by blast
  then show ?thesis by (simp add: newest_first_def sorted_wrt_rev sorted_wrt_map)
qed

text \<open>In a strictly descending list the rows below the \<open>n\<close>-th are those after it.\<close>

lemma desc_after:
  assumes "sorted_wrt (\<lambda>a b. f b < f a) xs" "0 < n" "n \<le> length xs"
  shows "filter (\<lambda>x. f x < (f (xs ! (n - 1)) :: 'b :: linorder)) xs = drop n xs"
proof -
  have "filter (\<lambda>x. f x < f (xs ! (n - 1))) (take n xs) = []"
  proof -
    have "f (xs ! (n - 1)) \<le> f x" if "x \<in> set (take n xs)" for x
    proof -
      from that obtain j where "j < n" "x = xs ! j" using assms(3) by (auto simp: in_set_conv_nth)
      then show ?thesis using sorted_wrt_nth_less [OF assms(1), of j "n - 1"] assms(2,3)
        by (cases "j = n - 1") (auto intro: less_imp_le)
    qed
    then show ?thesis by (auto simp: filter_empty_conv not_less)
  qed
  moreover have "filter (\<lambda>x. f x < f (xs ! (n - 1))) (drop n xs) = drop n xs"
  proof (rule filter_True, rule ballI)
    fix x assume "x \<in> set (drop n xs)"
    then obtain j where "j < length xs - n" "x = xs ! (n + j)" by (auto simp: in_set_conv_nth)
    then show "f x < f (xs ! (n - 1))" using sorted_wrt_nth_less [OF assms(1), of "n - 1" "n + j"] assms(2,3) by auto
  qed
  ultimately show ?thesis using filter_append [of _ "take n xs" "drop n xs"] by simp
qed

lemma trim_take: "trim_page n (take (n + 1) xs) = (take n xs, if length xs > n then lg_ID (xs ! (n - 1)) else 0)" if "0 < n"
  using that by (auto simp: trim_page_def min_def)

text \<open>Below a row of the first log, the later logs have the same rows.\<close>

lemma grows_below:
  assumes "grows sel log" "r0 \<in> set (filter sel (log 0))" "cursor = lg_ID r0"
  shows "filter (before_cursor cursor) (newest_first (filter sel (log i))) =
    filter (before_cursor cursor) (newest_first (filter sel (log 0))) \<and> r0 \<in> set (filter sel (log i))"
proof (induction i)
  case (Suc i)
  obtain new where new: "log (Suc i) = log i @ new"
      "\<forall>r \<in> set (filter sel (log i)). \<forall>r' \<in> set (filter sel new). sint (lg_ID r) < sint (lg_ID r')"
    using assms(1) unfolding grows_def by blast
  have "0 < sint (lg_ID r0)" using assms(1,2) by (auto simp: grows_def)
  then have "filter (before_cursor cursor) (filter sel new) = []"
    using Suc new(2) assms(3) by (force simp: before_cursor_def filter_empty_conv)
  with Suc new(1) show ?case by (simp flip: newest_first_filter)
qed (use assms in simp)

lemma follow_all:
  assumes "grows sel log" "0 < limit"
    and q: "\<And>i c. q i c = trim_page limit (take (limit + 1) (newest_first (filter (\<lambda>r. sel r \<and> before_cursor c r) (log i))))"
    and "c = 0 \<and> i = 0 \<or> c \<in> lg_ID ` set (filter sel (log 0))"
  shows "follow q i c = Some (filter (before_cursor c) (newest_first (filter sel (log 0))))"
  using assms(4)
proof (induction "length (filter (before_cursor c) (newest_first (filter sel (log 0))))" arbitrary: i c rule: less_induct)
  case less
  define L where "L = newest_first (filter sel (log 0))"
  define F where "F = filter (before_cursor c) L"
  have desc: "sorted_wrt (\<lambda>a b. sint (lg_ID b) < sint (lg_ID a)) L"
    using assms(1) newest_first_desc unfolding L_def grows_def by blast
  have same: "filter (before_cursor c) (newest_first (filter sel (log i))) = F"
    using less.prems grows_below [OF assms(1), of _ c i] by (auto simp: F_def L_def)
  have qi: "q i c = (take limit F, if length F > limit then lg_ID (F ! (limit - 1)) else 0)"
    using trim_take [OF assms(2), of F] q [of i c]
    by (simp add: same [symmetric] conj_commute flip: newest_first_filter)
  show ?case
  proof (cases "length F > limit")
    case False
    with qi show ?thesis by (subst follow.simps) (simp add: F_def L_def)
  next
    case True
    let ?c = "lg_ID (F ! (limit - 1))"
    have mem: "F ! (limit - 1) \<in> set F" using True assms(2) by (intro nth_mem) simp
    then have in_log: "F ! (limit - 1) \<in> set (filter sel (log 0))" by (simp add: F_def L_def)
    then have pos: "0 < sint ?c" using assms(1) by (auto simp: grows_def)
    have below: "filter (before_cursor ?c) L = drop limit F"
    proof -
      have "filter (before_cursor ?c) L = filter (\<lambda>r. sint (lg_ID r) < sint ?c) F"
        using mem pos by (auto simp: F_def before_cursor_def intro!: filter_cong)
      also have "\<dots> = drop limit F"
        using desc_after [OF sorted_wrt_filter [OF desc, of "before_cursor c", folded F_def], of limit] True assms(2) by simp
      finally show ?thesis .
    qed
    have "follow q (Suc i) ?c = Some (drop limit F)"
      using less.hyps [of ?c "Suc i"] in_log below True assms(2) by (auto simp: L_def F_def)
    moreover have "?c \<noteq> 0" using pos by auto
    ultimately show ?thesis using qi True by (subst follow.simps) (simp add: F_def [symmetric] L_def [symmetric])
  qed
qed

text \<open>
  C36. Whoever reads the audit log of an application page by page, with any filter and any requested size, and goes on
  with the cursor of each answer comes to an end, and has then seen every row that matched at the first query exactly
  once, newest first, even if rows were appended meanwhile.
\<close>

theorem cursors_visit_every_row:
  assumes "grows (app_audit_matches app f) log"
  shows "follow (\<lambda>i cursor. QueryAppAudit (log i) app f cursor (clampLimit n)) 0 0 =
      Some (newest_first (filter (app_audit_matches app f) (log 0))) \<and>
    distinct (newest_first (filter (app_audit_matches app f) (log 0)))"
proof
  show "follow (\<lambda>i cursor. QueryAppAudit (log i) app f cursor (clampLimit n)) 0 0 =
      Some (newest_first (filter (app_audit_matches app f) (log 0)))"
    using follow_all [OF assms, of "clampLimit n" "\<lambda>i cursor. QueryAppAudit (log i) app f cursor (clampLimit n)" 0 0]
      clampLimit_bounds(1) [of n] by (simp add: QueryAppAudit_def before_cursor_def)
  show "distinct (newest_first (filter (app_audit_matches app f) (log 0)))"
    using assms by (simp add: grows_def newest_first_def distinct_map)
qed

text \<open>The same holds for the log of the control plane, for a tenant or for all.\<close>

lemma admin_cursors_visit_every_row:
  assumes "grows (admin_audit_matches tenant f) log"
  shows "follow (\<lambda>i cursor. QueryAdminAudit (log i) tenant f cursor (clampLimit n)) 0 0 =
    Some (newest_first (filter (admin_audit_matches tenant f) (log 0)))"
  using follow_all [OF assms, of "clampLimit n" "\<lambda>i cursor. QueryAdminAudit (log i) tenant f cursor (clampLimit n)" 0 0]
    clampLimit_bounds(1) [of n] by (simp add: QueryAdminAudit_def before_cursor_def)

text \<open>A tenant sees no row of another tenant.\<close>

lemma tenant_audit_is_own:
  assumes "Admin_QueryAdminAuditLog parse rows tenantID q = Inr (out, next)" "tenantID \<noteq> 0" "r \<in> set out"
  shows "aa_tenant (lg_Row r) = Some tenantID"
  using assms
  by (auto simp: Admin_QueryAdminAuditLog_def rbind_eq_Ok QueryAdminAudit_def trim_page_def admin_audit_matches_def
      split: if_splits dest!: in_set_takeD)

text \<open>Three rows of one application, read two and two, while a fourth is written.\<close>

definition demo_row :: "int64 \<Rightarrow> int64 \<Rightarrow> audit_row logged" where
  "demo_row i app = \<lparr>lg_ID = i, lg_CreatedAt = sint i,
     lg_Row = \<lparr>au_app = app, au_operator = ''root'', au_action = ''bind'', au_entityType = ''user'', au_entityID = ''eve'', au_adds = [],
       au_removes = [], au_data = [], au_version = i\<rparr>\<rparr>"

definition demo_log :: "nat \<Rightarrow> audit_row logged list" where
  "demo_log i = [demo_row 1 1, demo_row 2 2, demo_row 3 1, demo_row 4 1] @ (if i = 0 then [] else [demo_row 5 1])"

definition no_filter :: audit_filter where
  "no_filter = \<lparr>af_EntityType = [], af_EntityID = [], af_Action = [], af_Operator = [], af_Since = 0, af_Until = 0\<rparr>"

lemma demo_matches: "filter (app_audit_matches 1 no_filter) (demo_log i) = [demo_row 1 1, demo_row 3 1, demo_row 4 1] @ (if i = 0 then [] else [demo_row 5 1])"
  by (simp add: demo_log_def demo_row_def no_filter_def app_audit_matches_def unless_empty_def in_period_def)

theorem cursors_visit_every_row_witness:
  "grows (app_audit_matches 1 no_filter) demo_log \<and>
   follow (\<lambda>i cursor. QueryAppAudit (demo_log i) 1 no_filter cursor (clampLimit 2)) 0 0 = Some [demo_row 4 1, demo_row 3 1, demo_row 1 1]"
proof -
  have "grows (app_audit_matches 1 no_filter) demo_log"
    unfolding grows_def
  proof (intro allI conjI)
    fix i
    show "distinct (map lg_ID (filter (app_audit_matches 1 no_filter) (demo_log i)))"
      "\<forall>r \<in> set (filter (app_audit_matches 1 no_filter) (demo_log i)). 0 < sint (lg_ID r)"
      by (simp_all only: demo_matches) (simp_all add: demo_row_def)
    show "\<exists>new. demo_log (Suc i) = demo_log i @ new \<and>
        (\<forall>r \<in> set (filter (app_audit_matches 1 no_filter) (demo_log i)).
          \<forall>r' \<in> set (filter (app_audit_matches 1 no_filter) new). sint (lg_ID r) < sint (lg_ID r'))"
      by (intro exI [of _ "if i = 0 then [demo_row 5 1] else []"])
        (simp only: demo_matches, simp add: demo_log_def demo_row_def)
  qed
  moreover from this have "follow (\<lambda>i cursor. QueryAppAudit (demo_log i) 1 no_filter cursor (clampLimit 2)) 0 0 =
      Some (newest_first (filter (app_audit_matches 1 no_filter) (demo_log 0)))"
    using cursors_visit_every_row by blast
  moreover have "newest_first (filter (app_audit_matches 1 no_filter) (demo_log 0)) = [demo_row 4 1, demo_row 3 1, demo_row 1 1]"
    unfolding demo_matches by (simp add: newest_first_def demo_row_def)
  ultimately show ?thesis by simp
qed

end
