(* ===== verification/Listing.thy ===== *)
theory Listing
  imports Audit_Query
begin

text \<open>
  The listings of the management service (\<^verbatim>\<open>mgmt/listpage.go\<close>, \<^verbatim>\<open>mgmt/admin_reads.go\<close> and the listings of
  \<^verbatim>\<open>mgmt/admin_ops.go\<close>, \<^verbatim>\<open>mgmt/accounts.go\<close> and \<^verbatim>\<open>store/tenant_template.go\<close>): each handler builds two SQL statements, one that counts and one that
  reads a page, and hands them to the database with their arguments. The statements are modelled as text; what the
  database answers is copied to the response and not modelled. The lemmas show that no text of a request enters a
  statement, and that the page is bounded.
\<close>

section \<open>Requests and statements\<close>

datatype sql_arg = ArgInt int | ArgText string

record sql_statement =
  sq_Text :: string
  sq_Args :: "sql_arg list"

record list_page =
  lp_Limit :: "32 word"
  lp_Offset :: "32 word"
  lp_Sort :: string
  lp_Order :: string
  lp_Q :: string

text \<open>The getters of a missing page give the zero values.\<close>

definition page_or_zero :: "list_page option \<Rightarrow> list_page" where
  "page_or_zero p = (case p of None \<Rightarrow> \<lparr>lp_Limit = 0, lp_Offset = 0, lp_Sort = [], lp_Order = [], lp_Q = []\<rparr> | Some p \<Rightarrow> p)"

text \<open>\<^verbatim>\<open>strings.EqualFold(order, "desc")\<close>; besides ASCII the long s folds to s.\<close>

definition folds_to_desc :: "string \<Rightarrow> bool" where
  "folds_to_desc order \<longleftrightarrow> map ascii_lower order \<in> {''desc'', ''de'' @ [CHR 0xC5, CHR 0xBF] @ ''c''}"

definition resolveOrder :: "string \<Rightarrow> string \<Rightarrow> (string \<times> string) list \<Rightarrow> string \<Rightarrow> string" where
  "resolveOrder srt order allowed defaultCol =
     (case map_of allowed srt of None \<Rightarrow> defaultCol | Some col \<Rightarrow> col) @ '' '' @ (if folds_to_desc order then ''DESC'' else ''ASC'')"

definition pageOf :: "list_page option \<Rightarrow> nat \<times> nat" where
  "pageOf p = (case p of None \<Rightarrow> (clampLimit 0, 0) | Some p \<Rightarrow> (clampLimit (lp_Limit p), unat (lp_Offset p)))"

definition searchClause :: "string \<Rightarrow> string list \<Rightarrow> nat \<Rightarrow> (string \<times> sql_arg) option" where
  "searchClause q cols argPos =
     (if q = [] \<or> cols = [] then None
      else Some (''('' @ joinStrings '' OR '' (map (\<lambda>c. c @ '' ILIKE $'' @ nat_digits argPos) cols) @ '')'', ArgText (''%'' @ q @ ''%'')))"

text \<open>The growing list of conditions with their arguments (the closure \<^verbatim>\<open>add\<close> of the handlers).\<close>

type_synonym conds = "string list \<times> sql_arg list"

definition add_cond :: "string \<Rightarrow> sql_arg \<Rightarrow> conds \<Rightarrow> conds" where
  "add_cond cond val ca = (case ca of (conds, args) \<Rightarrow> (conds @ [cond @ '' $'' @ nat_digits (length args + 1)], args @ [val]))"

definition add_text :: "string \<Rightarrow> string \<Rightarrow> conds \<Rightarrow> conds" where
  "add_text cond v ca = (if v = [] then ca else add_cond cond (ArgText v) ca)"

definition add_int :: "string \<Rightarrow> int \<Rightarrow> conds \<Rightarrow> conds" where
  "add_int cond v ca = (if v = 0 then ca else add_cond cond (ArgInt v) ca)"

definition add_search :: "string \<Rightarrow> string list \<Rightarrow> conds \<Rightarrow> conds" where
  "add_search q cols ca =
     (case ca of (conds, args) \<Rightarrow>
        (case searchClause q cols (length args + 1) of None \<Rightarrow> ca | Some (sc, arg) \<Rightarrow> (conds @ [sc], args @ [arg])))"

definition whereSQL :: "string list \<Rightarrow> string" where
  "whereSQL conds = (if conds = [] then [] else '' WHERE '' @ joinStrings '' AND '' conds)"

text \<open>The two statements of a listing from its table, its columns, its conditions and its order.\<close>

definition two_statements ::
    "string \<Rightarrow> string \<Rightarrow> conds \<Rightarrow> (string \<times> string) list \<Rightarrow> string \<Rightarrow> list_page option \<Rightarrow> sql_statement \<times> sql_statement" where
  "two_statements columns source ca allowed defaultCol page =
     (case (ca, pageOf page) of ((conds, args), (limit, offset)) \<Rightarrow>
        let order = resolveOrder (lp_Sort (page_or_zero page)) (lp_Order (page_or_zero page)) allowed defaultCol;
            args' = args @ [ArgInt (int limit), ArgInt (int offset)]
        in (\<lparr>sq_Text = ''SELECT count(*) FROM '' @ source @ whereSQL conds, sq_Args = args\<rparr>,
            \<lparr>sq_Text = ''SELECT '' @ columns @ '' FROM '' @ source @ whereSQL conds @ '' ORDER BY '' @ order @
               '' LIMIT $'' @ nat_digits (length args' - 1) @ '' OFFSET $'' @ nat_digits (length args'),
             sq_Args = args'\<rparr>))"

section \<open>The handlers\<close>

text \<open>The quote of an empty SQL string.\<close>

definition quote :: char where
  "quote = CHR 0x27"

definition ListRoles :: "int64 \<Rightarrow> list_page option \<Rightarrow> sql_statement \<times> sql_statement" where
  "ListRoles app page =
     two_statements (''id, code, name, COALESCE(description,'' @ [quote, quote] @ '')'')
       ''role''
       (add_search (lp_Q (page_or_zero page)) [''code'', ''name''] ([''app_id = $1''], [ArgInt (sint app)]))
       [(''id'', ''id''), (''code'', ''code''), (''name'', ''name'')] ''id'' page"

definition ListPermissions :: "int64 \<Rightarrow> string \<Rightarrow> list_page option \<Rightarrow> sql_statement \<times> sql_statement" where
  "ListPermissions app src page =
     two_statements ''id, code, resource, action, type, name, source''
       ''permission''
       (add_search (lp_Q (page_or_zero page)) [''code'', ''name'', ''resource'', ''action''] (add_text ''source ='' src ([''app_id = $1''], [ArgInt (sint app)])))
       [(''id'', ''id''), (''code'', ''code''), (''resource'', ''resource''), (''action'', ''action''), (''source'', ''source'')] ''id'' page"

definition ListGrants :: "int64 \<Rightarrow> int64 \<Rightarrow> list_page option \<Rightarrow> sql_statement \<times> sql_statement" where
  "ListGrants app roleID page =
     two_statements ''id, role_id, permission_id, eft''
       ''role_permission''
       (add_int ''role_id ='' (sint roleID) ([''app_id = $1''], [ArgInt (sint app)]))
       [(''id'', ''id''), (''role_id'', ''role_id'')] ''id'' page"

definition ListRoleInheritances :: "int64 \<Rightarrow> list_page option \<Rightarrow> sql_statement \<times> sql_statement" where
  "ListRoleInheritances app page =
     two_statements ''id, parent_role_id, child_role_id''
       ''role_inheritance''
       ([''app_id = $1''], [ArgInt (sint app)])
       [(''id'', ''id'')] ''id'' page"

definition ListUserBindings :: "int64 \<Rightarrow> string \<Rightarrow> list_page option \<Rightarrow> sql_statement \<times> sql_statement" where
  "ListUserBindings app userID page =
     two_statements ''id, user_id, role_id''
       ''user_role_binding''
       (add_search (lp_Q (page_or_zero page)) [''user_id''] (add_text ''user_id ='' userID ([''app_id = $1''], [ArgInt (sint app)])))
       [(''id'', ''id''), (''user_id'', ''user_id'')] ''id'' page"

definition ListDataPolicies :: "int64 \<Rightarrow> string \<Rightarrow> string \<Rightarrow> list_page option \<Rightarrow> sql_statement \<times> sql_statement" where
  "ListDataPolicies app resource eff page =
     two_statements (''id, subject_type, subject_id, resource, condition::text, effect, COALESCE(description,'' @ [quote, quote] @ ''), version'')
       ''data_policy''
       (add_search (lp_Q (page_or_zero page)) [''resource'', ''subject_id'', ''description''] (add_text ''effect ='' eff (add_text ''resource ='' resource ([''app_id = $1''], [ArgInt (sint app)]))))
       [(''id'', ''id''), (''resource'', ''resource''), (''effect'', ''effect'')] ''id'' page"

definition ListOperators :: "32 word \<Rightarrow> list_page option \<Rightarrow> sql_statement \<times> sql_statement" where
  "ListOperators st page =
     two_statements ''id, principal, status''
       ''admin_operator''
       (add_search (lp_Q (page_or_zero page)) [''principal''] (if st = 0 then ([], []) else add_cond ''status ='' (ArgInt (int16_of st)) ([], [])))
       [(''id'', ''id''), (''principal'', ''principal''), (''status'', ''status'')] ''id'' page"

definition ListAdminRoles :: "list_page option \<Rightarrow> sql_statement \<times> sql_statement" where
  "ListAdminRoles page =
     two_statements ''id, code, name''
       ''admin_role''
       (add_search (lp_Q (page_or_zero page)) [''code'', ''name''] ([], []))
       [(''id'', ''id''), (''code'', ''code'')] ''id'' page"

definition ListApplications :: "int64 \<Rightarrow> 32 word \<Rightarrow> list_page option \<Rightarrow> sql_statement \<times> sql_statement" where
  "ListApplications tenantID st page =
     two_statements ''id, domain, name, app_key, status, current_version''
       ''application''
       (add_search (lp_Q (page_or_zero page)) [''name'', ''domain'', ''app_key''] (let ca = add_int ''tenant_id ='' (sint tenantID) ([], []) in if st = 0 then ca else add_cond ''status ='' (ArgInt (int16_of st)) ca))
       [(''id'', ''id''), (''name'', ''name''), (''domain'', ''domain''), (''status'', ''status'')] ''id'' page"

definition ListMembers :: "int64 \<Rightarrow> 32 word \<Rightarrow> list_page option \<Rightarrow> sql_statement \<times> sql_statement" where
  "ListMembers tenantID tier page =
     two_statements (''o.id, o.principal, m.tier, o.status'' @ [CHR 0x0A, CHR 0x09, CHR 0x09])
       ''tenant_membership m JOIN admin_operator o ON o.id = m.operator_id''
       (add_search (lp_Q (page_or_zero page)) [''o.principal''] (let ca = ([''m.tenant_id = $1''], [ArgInt (sint tenantID)]) in if tier = 0 then ca else add_cond ''m.tier ='' (ArgInt (int16_of tier)) ca))
       [(''operator_id'', ''o.id''), (''principal'', ''o.principal''), (''tier'', ''m.tier'')] ''o.id'' page"

definition ListTenantTemplates :: "int64 \<Rightarrow> list_page option \<Rightarrow> sql_statement \<times> sql_statement" where
  "ListTenantTemplates tenantID page =
     two_statements (''id, tenant_id, name, COALESCE(description,'' @ [quote, quote] @ ''), source_app_id'')
       ''tenant_template''
       (add_search (lp_Q (page_or_zero page)) [''name'', ''description''] ([''tenant_id = $1''], [ArgInt (sint tenantID)]))
       [(''id'', ''id''), (''name'', ''name'')] ''id'' page"

section \<open>No text of a request enters a statement\<close>

text \<open>Every listing, for statements about any of them.\<close>

datatype listing =
    LRoles int64
  | LPermissions int64 string
  | LGrants int64 int64
  | LRoleInheritances int64
  | LUserBindings int64 string
  | LDataPolicies int64 string string
  | LOperators "32 word"
  | LAdminRoles
  | LApplications int64 "32 word"
  | LMembers int64 "32 word"
  | LTenantTemplates int64

fun listing_sql :: "listing \<Rightarrow> list_page option \<Rightarrow> sql_statement \<times> sql_statement" where
  "listing_sql (LRoles app) = ListRoles app"
| "listing_sql (LPermissions app src) = ListPermissions app src"
| "listing_sql (LGrants app roleID) = ListGrants app roleID"
| "listing_sql (LRoleInheritances app) = ListRoleInheritances app"
| "listing_sql (LUserBindings app userID) = ListUserBindings app userID"
| "listing_sql (LDataPolicies app res eff) = ListDataPolicies app res eff"
| "listing_sql (LOperators st) = ListOperators st"
| "listing_sql LAdminRoles = ListAdminRoles"
| "listing_sql (LApplications tid st) = ListApplications tid st"
| "listing_sql (LMembers tid tier) = ListMembers tid tier"
| "listing_sql (LTenantTemplates tid) = ListTenantTemplates tid"

text \<open>
  A request with every text replaced by a fixed one and every number by zero or one; what is kept is which of them are
  empty, the direction, and a column to sort by if it is one of the program's own words.
\<close>

definition sort_columns :: "string list" where
  "sort_columns = [''id'', ''code'', ''name'', ''resource'', ''action'', ''source'', ''role_id'', ''user_id'', ''effect'', ''principal'',
     ''status'', ''domain'', ''operator_id'', ''tier'']"

definition blank_text :: "string \<Rightarrow> string" where
  "blank_text s = (if s = [] then [] else ''x'')"

definition blank_id :: "'w :: len word \<Rightarrow> 'w word" where
  "blank_id i = (if i = 0 then 0 else 1)"

definition blank_page :: "list_page option \<Rightarrow> list_page option" where
  "blank_page = map_option (\<lambda>p. \<lparr>lp_Limit = 0, lp_Offset = 0,
     lp_Sort = (if lp_Sort p \<in> set sort_columns then lp_Sort p else []),
     lp_Order = (if folds_to_desc (lp_Order p) then ''desc'' else []), lp_Q = blank_text (lp_Q p)\<rparr>)"

fun blank_listing :: "listing \<Rightarrow> listing" where
  "blank_listing (LRoles app) = LRoles 0"
| "blank_listing (LPermissions app src) = LPermissions 0 (blank_text src)"
| "blank_listing (LGrants app roleID) = LGrants 0 (blank_id roleID)"
| "blank_listing (LRoleInheritances app) = LRoleInheritances 0"
| "blank_listing (LUserBindings app userID) = LUserBindings 0 (blank_text userID)"
| "blank_listing (LDataPolicies app res eff) = LDataPolicies 0 (blank_text res) (blank_text eff)"
| "blank_listing (LOperators st) = LOperators (blank_id st)"
| "blank_listing LAdminRoles = LAdminRoles"
| "blank_listing (LApplications tid st) = LApplications (blank_id tid) (blank_id st)"
| "blank_listing (LMembers tid tier) = LMembers 0 (blank_id tier)"
| "blank_listing (LTenantTemplates tid) = LTenantTemplates 0"

definition same_shape :: "conds \<Rightarrow> conds \<Rightarrow> bool" where
  "same_shape ca ca' \<longleftrightarrow> fst ca = fst ca' \<and> length (snd ca) = length (snd ca')"

lemma same_shape_base: "length as = length as' \<Longrightarrow> same_shape (cs, as) (cs, as')"
  by (simp add: same_shape_def)

lemma same_shape_add:
  "same_shape ca ca' \<Longrightarrow> same_shape (add_cond cond v ca) (add_cond cond v' ca')"
  "same_shape ca ca' \<Longrightarrow> same_shape (add_text cond s ca) (add_text cond (blank_text s) ca')"
  "same_shape ca ca' \<Longrightarrow> same_shape (add_int cond (sint i) ca) (add_int cond (sint (blank_id i)) ca')"
  "same_shape ca ca' \<Longrightarrow> same_shape (add_search s cols ca) (add_search (blank_text s) cols ca')"
  by (auto simp: same_shape_def add_cond_def add_text_def add_int_def add_search_def searchClause_def blank_text_def blank_id_def signed_eq_0_iff
      split: prod.splits)

lemma same_shape_choice:
  "same_shape ca ca' \<Longrightarrow> same_shape (if i = 0 then ca else add_cond cond v ca) (if blank_id i = 0 then ca' else add_cond cond v' ca')"
  using same_shape_add(1) by (auto simp: blank_id_def)

lemmas same_shapes = same_shape_base same_shape_add same_shape_choice

lemma blank_page_q: "lp_Q (page_or_zero (blank_page page)) = blank_text (lp_Q (page_or_zero page))"
  by (cases page) (simp_all add: blank_page_def page_or_zero_def blank_text_def)

lemma resolveOrder_blank:
  assumes "fst ` set allowed \<subseteq> set sort_columns"
  shows "resolveOrder (lp_Sort (page_or_zero (blank_page page))) (lp_Order (page_or_zero (blank_page page))) allowed de =
    resolveOrder (lp_Sort (page_or_zero page)) (lp_Order (page_or_zero page)) allowed de"
proof (cases page)
  case (Some p)
  have "map_of allowed s = None" if "s \<notin> set sort_columns" for s
    using assms that by (auto simp: map_of_eq_None_iff)
  moreover have "[] \<notin> set sort_columns" by (simp add: sort_columns_def)
  moreover have "folds_to_desc ''desc''" "\<not> folds_to_desc []" by code_simp+
  ultimately show ?thesis using Some by (auto simp: blank_page_def page_or_zero_def resolveOrder_def)
qed (simp add: blank_page_def)

lemma two_statements_text:
  assumes "same_shape ca ca'" "fst ` set allowed \<subseteq> set sort_columns"
  shows "map sq_Text [fst (two_statements columns src ca allowed de page), snd (two_statements columns src ca allowed de page)] =
    map sq_Text [fst (two_statements columns src ca' allowed de (blank_page page)),
      snd (two_statements columns src ca' allowed de (blank_page page))]"
  using assms resolveOrder_blank [OF assms(2), of page de]
  by (auto simp: two_statements_def Let_def same_shape_def split: prod.splits)

text \<open>
  The statements of every listing are among finitely many fixed texts: blanking the request does not change them.
  What the operator wrote reaches the database as an argument only.
\<close>

theorem listing_text_is_fixed:
  "sq_Text (fst (listing_sql l page)) = sq_Text (fst (listing_sql (blank_listing l) (blank_page page))) \<and>
   sq_Text (snd (listing_sql l page)) = sq_Text (snd (listing_sql (blank_listing l) (blank_page page)))"
proof -
  have "map sq_Text [fst (listing_sql l page), snd (listing_sql l page)] =
      map sq_Text [fst (listing_sql (blank_listing l) (blank_page page)), snd (listing_sql (blank_listing l) (blank_page page))]"
    by (cases l)
      (simp_all only: listing_sql.simps blank_listing.simps ListRoles_def ListPermissions_def ListGrants_def
        ListRoleInheritances_def ListUserBindings_def ListDataPolicies_def ListOperators_def ListAdminRoles_def
        ListApplications_def ListMembers_def ListTenantTemplates_def Let_def blank_page_q,
       (rule two_statements_text, (intro same_shapes; simp), simp add: sort_columns_def)+)
  then show ?thesis by simp
qed

text \<open>A page has at most two hundred rows, and its limit and offset are the last two arguments.\<close>

lemma page_is_bounded:
  "\<exists>as limit offset. sq_Args (snd (two_statements columns src ca allowed de page)) = as @ [ArgInt limit, ArgInt offset] \<and>
    as = snd ca \<and> 1 \<le> limit \<and> limit \<le> 200 \<and> 0 \<le> offset"
  using clampLimit_bounds
  by (cases ca; cases page) (force simp: two_statements_def pageOf_def Let_def auditMaxLimit_def)+

end
