(* ===== verification/Rest_Gateway.thy ===== *)
theory Rest_Gateway
  imports Listing
begin

text \<open>
  The REST gateway of the management service (\<^verbatim>\<open>restgw\<close>): the table of routes with the numbers each takes from path and
  query, the decoding of a request, the mapping of errors, and the pipeline every route passes: body, authentication,
  decoding, authorization, status check, handler, answer. Of a decoded message the model keeps the application and the
  tenant, on which the call is authorized; the other fields, the handler and the JSON codecs of protobuf are
  parameters. The lemmas show that no route goes around the guards of the gRPC service, and that a call on an application is
  authorized on the application of its path, whatever the body says.
\<close>

section \<open>Numbers in path and query\<close>

record rest_request =
  rs_http :: http_request
  rs_path :: "string \<Rightarrow> string"
  rs_query :: "string \<Rightarrow> string"
  rs_body :: "string option"

definition ParseUint :: "string \<Rightarrow> uint64 option" where
  "ParseUint s = (if s = [] \<or> \<not> list_all Auth.is_digit s \<or> digits_value s \<ge> 2 ^ 64 then None else Some (of_nat (digits_value s)))"

definition ParseBool :: "string \<Rightarrow> bool option" where
  "ParseBool s =
     (if s \<in> {''1'', ''t'', ''T'', ''TRUE'', ''true'', ''True''} then Some True
      else if s \<in> {''0'', ''f'', ''F'', ''FALSE'', ''false'', ''False''} then Some False
      else None)"

datatype number = PathUint64 | PathInt64 | QueryInt64 | QueryUint64 | QueryUint32 | QueryBool

definition invalid :: "string \<Rightarrow> string \<Rightarrow> 'a option \<Rightarrow> (admin_status, 'a) res" where
  "invalid part key v = (case v of None \<Rightarrow> Inl (InvalidArgument, ''invalid '' @ part @ '' '' @ key) | Some x \<Rightarrow> Inr x)"

definition pathUint64 :: "rest_request \<Rightarrow> string \<Rightarrow> (admin_status, uint64) res" where
  "pathUint64 r key = invalid ''path'' key (ParseUint (rs_path r key))"

definition pathInt64 :: "rest_request \<Rightarrow> string \<Rightarrow> (admin_status, int64) res" where
  "pathInt64 r key = invalid ''path'' key (ParseInt (rs_path r key))"

definition queryInt64 :: "rest_request \<Rightarrow> string \<Rightarrow> (admin_status, int64) res" where
  "queryInt64 r key = (if rs_query r key = [] then Inr 0 else invalid ''query'' key (ParseInt (rs_query r key)))"

definition queryUint64 :: "rest_request \<Rightarrow> string \<Rightarrow> (admin_status, uint64) res" where
  "queryUint64 r key = (if rs_query r key = [] then Inr 0 else invalid ''query'' key (ParseUint (rs_query r key)))"

definition queryUint32 :: "rest_request \<Rightarrow> string \<Rightarrow> (admin_status, 32 word) res" where
  "queryUint32 r key = rbind (queryUint64 r key) (\<lambda>v. Inr (ucast v))"

definition queryBool :: "rest_request \<Rightarrow> string \<Rightarrow> (admin_status, bool) res" where
  "queryBool r key = (if rs_query r key = [] then Inr False else invalid ''query'' key (ParseBool (rs_query r key)))"

definition parseListPage :: "rest_request \<Rightarrow> (admin_status, list_page) res" where
  "parseListPage r =
     rbind (queryUint32 r ''limit'') (\<lambda>limit.
     rbind (queryUint32 r ''offset'') (\<lambda>offset.
     Inr \<lparr>lp_Limit = limit, lp_Offset = offset, lp_Sort = rs_query r ''sort'', lp_Order = rs_query r ''order'', lp_Q = rs_query r ''q''\<rparr>))"

text \<open>One number of a route, as the 64 bits that go into the message.\<close>

fun number_value :: "rest_request \<Rightarrow> number \<times> string \<Rightarrow> (admin_status, string \<times> uint64) res" where
  "number_value r (PathUint64, key) = rbind (pathUint64 r key) (\<lambda>v. Inr (key, v))"
| "number_value r (PathInt64, key) = rbind (pathInt64 r key) (\<lambda>v. Inr (key, v))"
| "number_value r (QueryInt64, key) = rbind (queryInt64 r key) (\<lambda>v. Inr (key, v))"
| "number_value r (QueryUint64, key) = rbind (queryUint64 r key) (\<lambda>v. Inr (key, v))"
| "number_value r (QueryUint32, key) = rbind (queryUint32 r key) (\<lambda>v. Inr (key, ucast v))"
| "number_value r (QueryBool, key) = rbind (queryBool r key) (\<lambda>v. Inr (key, if v then 1 else 0))"

section \<open>The routes\<close>

datatype id_source = FromNumber | FromBody | Absent

record route =
  ro_method :: string
  ro_pattern :: string
  ro_call :: string
  ro_numbers :: "(number \<times> string) list"
  ro_paged :: bool
  ro_body :: bool
  ro_app :: id_source
  ro_tenant :: id_source

definition rt ::
    "string \<Rightarrow> string \<Rightarrow> string \<Rightarrow> (number \<times> string) list \<Rightarrow> bool \<Rightarrow> bool \<Rightarrow> id_source \<Rightarrow> id_source \<Rightarrow> route" where
  "rt verb pattern call numbers paged body app tenant =
     \<lparr>ro_method = verb, ro_pattern = pattern, ro_call = call, ro_numbers = numbers, ro_paged = paged, ro_body = body,
      ro_app = app, ro_tenant = tenant\<rparr>"

definition appRoutes :: "route list" where
  "appRoutes =
     [rt ''GET'' ''/v1/apps/{app_id}/roles'' ''ListRoles'' [(PathUint64, ''app_id'')] True False FromNumber Absent,
      rt ''POST'' ''/v1/apps/{app_id}/roles'' ''CreateRole'' [(PathUint64, ''app_id'')] False True FromNumber Absent,
      rt ''POST'' ''/v1/apps/{app_id}/business-roles'' ''CreateBusinessRole'' [(PathUint64, ''app_id'')] False True FromNumber Absent,
      rt ''DELETE'' ''/v1/apps/{app_id}/roles/{role_id}'' ''DeleteRole'' [(PathUint64, ''app_id''), (PathInt64, ''role_id'')] False False FromNumber Absent,
      rt ''GET'' ''/v1/apps/{app_id}/permissions'' ''ListPermissions'' [(PathUint64, ''app_id'')] True False FromNumber Absent,
      rt ''PUT'' ''/v1/apps/{app_id}/permissions/{code}'' ''UpsertPermission'' [(PathUint64, ''app_id'')] False True FromNumber Absent,
      rt ''GET'' ''/v1/apps/{app_id}/grants'' ''ListGrants'' [(PathUint64, ''app_id''), (QueryInt64, ''role_id'')] True False FromNumber Absent,
      rt ''POST'' ''/v1/apps/{app_id}/roles/{role_id}/grants'' ''GrantPermission'' [(PathUint64, ''app_id''), (PathInt64, ''role_id'')] False True FromNumber Absent,
      rt ''DELETE'' ''/v1/apps/{app_id}/roles/{role_id}/grants/{permission_id}'' ''RevokePermission'' [(PathUint64, ''app_id''), (PathInt64, ''role_id''), (PathInt64, ''permission_id'')] False False FromNumber Absent,
      rt ''GET'' ''/v1/apps/{app_id}/role-inheritances'' ''ListRoleInheritances'' [(PathUint64, ''app_id'')] True False FromNumber Absent,
      rt ''POST'' ''/v1/apps/{app_id}/roles/{child_role_id}/parents'' ''AddRoleInheritance'' [(PathUint64, ''app_id''), (PathInt64, ''child_role_id'')] False True FromNumber Absent,
      rt ''DELETE'' ''/v1/apps/{app_id}/roles/{child_role_id}/parents/{parent_role_id}'' ''RemoveRoleInheritance'' [(PathUint64, ''app_id''), (PathInt64, ''child_role_id''), (PathInt64, ''parent_role_id'')] False False FromNumber Absent,
      rt ''GET'' ''/v1/apps/{app_id}/user-bindings'' ''ListUserBindings'' [(PathUint64, ''app_id'')] True False FromNumber Absent,
      rt ''GET'' ''/v1/apps/{app_id}/effective-permissions'' ''GetEffectivePermissions'' [(PathUint64, ''app_id'')] False False FromNumber Absent,
      rt ''GET'' ''/v1/apps/{app_id}/audit'' ''QueryAuditLog'' [(PathUint64, ''app_id''), (QueryUint64, ''cursor''), (QueryUint32, ''limit'')] False False FromNumber Absent,
      rt ''POST'' ''/v1/apps/{app_id}/users/{user_id}/roles'' ''BindUserRole'' [(PathUint64, ''app_id'')] False True FromNumber Absent,
      rt ''DELETE'' ''/v1/apps/{app_id}/users/{user_id}/roles/{role_id}'' ''UnbindUserRole'' [(PathUint64, ''app_id''), (PathInt64, ''role_id'')] False False FromNumber Absent,
      rt ''GET'' ''/v1/apps/{app_id}/data-policies'' ''ListDataPolicies'' [(PathUint64, ''app_id'')] True False FromNumber Absent,
      rt ''POST'' ''/v1/apps/{app_id}/data-policies'' ''UpsertDataPolicy'' [(PathUint64, ''app_id'')] False True FromNumber Absent,
      rt ''PUT'' ''/v1/apps/{app_id}/data-policies/{id}'' ''UpsertDataPolicy'' [(PathUint64, ''app_id''), (PathInt64, ''id'')] False True FromNumber Absent,
      rt ''DELETE'' ''/v1/apps/{app_id}/data-policies/{id}'' ''DeleteDataPolicy'' [(PathUint64, ''app_id''), (PathInt64, ''id'')] False False FromNumber Absent,
      rt ''GET'' ''/v1/apps/{app_id}/decision'' ''ExplainDecision'' [(PathUint64, ''app_id'')] False False FromNumber Absent,
      rt ''GET'' ''/v1/apps/{app_id}/templates'' ''ListTemplates'' [(PathUint64, ''app_id'')] False False FromNumber Absent,
      rt ''POST'' ''/v1/apps/{app_id}/templates/{template_id}/apply'' ''ApplyTemplate'' [(PathUint64, ''app_id'')] False False FromNumber Absent,
      rt ''GET'' ''/v1/apps/{app_id}/policy/export'' ''ExportAppPolicy'' [(PathUint64, ''app_id'')] False False FromNumber Absent,
      rt ''POST'' ''/v1/apps/{app_id}/policy/import'' ''ImportAppPolicy'' [(PathUint64, ''app_id''), (QueryBool, ''dry_run'')] False False FromNumber Absent,
      rt ''POST'' ''/v1/apps/{app_id}/user-bindings/batch-delete'' ''BatchUnbindUserRole'' [(PathUint64, ''app_id'')] False True FromNumber Absent,
      rt ''POST'' ''/v1/apps/{app_id}/grants/batch-delete'' ''BatchRevokePermission'' [(PathUint64, ''app_id'')] False True FromNumber Absent,
      rt ''POST'' ''/v1/apps/{app_id}/role-inheritances/batch-delete'' ''BatchRemoveRoleInheritance'' [(PathUint64, ''app_id'')] False True FromNumber Absent,
      rt ''POST'' ''/v1/apps/{app_id}/roles/batch-delete'' ''BatchDeleteRole'' [(PathUint64, ''app_id'')] False True FromNumber Absent,
      rt ''POST'' ''/v1/apps/{app_id}/data-policies/batch-delete'' ''BatchDeleteDataPolicy'' [(PathUint64, ''app_id'')] False True FromNumber Absent,
      rt ''POST'' ''/v1/apps/{app_id}/data-filter/preview'' ''PreviewDataFilter'' [(PathUint64, ''app_id'')] False True FromNumber Absent]"

definition applicationRoutes :: "route list" where
  "applicationRoutes =
     [rt ''GET'' ''/v1/applications'' ''ListApplications'' [(QueryInt64, ''tenant_id''), (QueryInt64, ''status'')] True False Absent FromNumber,
      rt ''POST'' ''/v1/applications'' ''CreateApplication'' [] False True Absent FromBody,
      rt ''PUT'' ''/v1/applications/{app_id}/status'' ''SetApplicationStatus'' [(PathUint64, ''app_id'')] False True FromNumber Absent,
      rt ''POST'' ''/v1/applications/{app_id}/secret'' ''RotateApplicationSecret'' [(PathUint64, ''app_id'')] False False FromNumber Absent,
      rt ''GET'' ''/v1/applications/{app_id}'' ''GetApplication'' [(PathUint64, ''app_id'')] False False FromNumber Absent,
      rt ''GET'' ''/v1/tenant-usage'' ''GetTenantUsage'' [(QueryInt64, ''tenant_id'')] False False Absent FromNumber]"

definition systemRoutes :: "route list" where
  "systemRoutes =
     [rt ''GET'' ''/v1/operators'' ''ListOperators'' [(QueryInt64, ''status'')] True False Absent Absent,
      rt ''POST'' ''/v1/operators'' ''CreateOperator'' [] False True Absent Absent,
      rt ''PUT'' ''/v1/operators/{operator_id}/status'' ''SetOperatorStatus'' [(PathInt64, ''operator_id'')] False True Absent Absent,
      rt ''PUT'' ''/v1/operators/{principal}/email'' ''SetOperatorEmail'' [] False True Absent Absent,
      rt ''POST'' ''/v1/operators/{operator_id}/roles'' ''BindOperatorRole'' [(PathInt64, ''operator_id'')] False True Absent Absent,
      rt ''GET'' ''/v1/admin-roles'' ''ListAdminRoles'' [] True False Absent Absent,
      rt ''POST'' ''/v1/admin-roles'' ''CreateAdminRole'' [] False True Absent Absent,
      rt ''POST'' ''/v1/admin-roles/{role_id}/grants'' ''GrantAdminRole'' [(PathInt64, ''role_id'')] False True Absent Absent,
      rt ''DELETE'' ''/v1/admin-roles/{role_id}/grants'' ''RevokeAdminGrant'' [(PathInt64, ''role_id'')] False False Absent Absent,
      rt ''DELETE'' ''/v1/operators/{operator_id}/roles/{role_id}'' ''UnbindOperatorRole'' [(PathInt64, ''operator_id''), (PathInt64, ''role_id'')] False False Absent Absent,
      rt ''POST'' ''/v1/operators/{operator_id}/secret'' ''ResetOperatorSecret'' [(PathInt64, ''operator_id'')] False False Absent Absent,
      rt ''GET'' ''/v1/admin/audit'' ''QueryAdminAuditLog'' [(QueryUint64, ''tenant_id''), (QueryUint64, ''cursor''), (QueryUint32, ''limit'')] False False Absent FromNumber]"

definition accountRoutes :: "route list" where
  "accountRoutes =
     [rt ''POST'' ''/v1/tenants'' ''RegisterTenant'' [] False True Absent Absent,
      rt ''POST'' ''/v1/tenants/{tenant_id}/plan'' ''ChangeTenantPlan'' [(PathUint64, ''tenant_id'')] False True Absent FromNumber,
      rt ''GET'' ''/v1/me/tenants'' ''ListMyTenants'' [] True False Absent Absent,
      rt ''POST'' ''/v1/tenants/{tenant_id}/members'' ''InviteMember'' [(PathUint64, ''tenant_id'')] False True Absent FromNumber,
      rt ''GET'' ''/v1/tenants/{tenant_id}/members'' ''ListMembers'' [(PathUint64, ''tenant_id''), (QueryInt64, ''tier'')] True False Absent FromNumber,
      rt ''PUT'' ''/v1/tenants/{tenant_id}/idp'' ''ConfigureTenantIdp'' [(PathUint64, ''tenant_id'')] False True Absent FromNumber,
      rt ''GET'' ''/v1/tenants/{tenant_id}/idp'' ''GetTenantIdp'' [(PathUint64, ''tenant_id'')] False False Absent FromNumber,
      rt ''DELETE'' ''/v1/tenants/{tenant_id}/idp'' ''DeleteTenantIdp'' [(PathUint64, ''tenant_id'')] False False Absent FromNumber]"

definition tenantTemplateRoutes :: "route list" where
  "tenantTemplateRoutes =
     [rt ''POST'' ''/v1/apps/{app_id}/template-captures'' ''SaveAppAsTemplate'' [(PathUint64, ''app_id'')] False True FromNumber Absent,
      rt ''GET'' ''/v1/tenants/{tenant_id}/templates'' ''ListTenantTemplates'' [(PathUint64, ''tenant_id'')] True False Absent FromNumber,
      rt ''GET'' ''/v1/tenants/{tenant_id}/templates/{template_id}'' ''GetTenantTemplate'' [(PathUint64, ''tenant_id''), (PathUint64, ''template_id'')] False False Absent FromNumber,
      rt ''POST'' ''/v1/apps/{app_id}/tenant-templates/{template_id}/apply'' ''ApplyTenantTemplate'' [(PathUint64, ''app_id''), (PathUint64, ''template_id'')] False False FromNumber Absent,
      rt ''DELETE'' ''/v1/tenants/{tenant_id}/templates/{template_id}'' ''DeleteTenantTemplate'' [(PathUint64, ''tenant_id''), (PathUint64, ''template_id'')] False False Absent FromNumber]"

definition roleGraphRoutes :: "route list" where
  "roleGraphRoutes =
     [rt ''GET'' ''/v1/apps/{app_id}/roles/{role_id}/graph'' ''GetRoleGraph'' [(PathUint64, ''app_id''), (PathInt64, ''role_id'')] False False FromNumber Absent,
      rt ''GET'' ''/v1/apps/{app_id}/roles/{role_id}/simulation'' ''SimulateRoleChange'' [(PathUint64, ''app_id''), (PathInt64, ''role_id'')] False False FromNumber Absent]"

definition allRoutes :: "route list" where
  "allRoutes = appRoutes @ applicationRoutes @ systemRoutes @ accountRoutes @ tenantTemplateRoutes @ roleGraphRoutes"

definition fullMethod :: "route \<Rightarrow> string" where
  "fullMethod r = service @ ro_call r"

section \<open>Decoding\<close>

text \<open>
  \<open>parse\<close> is the JSON decoding of the body into the message of the route, of which the application and the tenant are kept;
  an empty body leaves the zero message. Numbers of path and query are set after the body has been decoded.
\<close>

definition decodeBody :: "(string \<Rightarrow> (uint64 \<times> uint64) option) \<Rightarrow> string \<Rightarrow> (admin_status, uint64 \<times> uint64) res" where
  "decodeBody parse body =
     (if body = [] then Inr (0, 0)
      else case parse body of None \<Rightarrow> Inl (InvalidArgument, ''invalid json body'') | Some ids \<Rightarrow> Inr ids)"

definition message_id :: "id_source \<Rightarrow> string \<Rightarrow> (string \<times> uint64) list \<Rightarrow> uint64 \<Rightarrow> uint64 option" where
  "message_id src key numbers inBody =
     (case src of FromNumber \<Rightarrow> map_of numbers key | FromBody \<Rightarrow> Some inBody | Absent \<Rightarrow> None)"

definition decode :: "(string \<Rightarrow> (uint64 \<times> uint64) option) \<Rightarrow> route \<Rightarrow> rest_request \<Rightarrow> string \<Rightarrow> (admin_status, admin_request) res" where
  "decode parse ro r body =
     rbind (if ro_body ro then decodeBody parse body else Inr (0, 0)) (\<lambda>(app, tenant).
     rbind (mapM (number_value r) (ro_numbers ro)) (\<lambda>numbers.
     rbind (if ro_paged ro then rbind (parseListPage r) (\<lambda>_. Inr ()) else Inr ()) (\<lambda>_.
     Inr \<lparr>rq_app = message_id (ro_app ro) ''app_id'' numbers app, rq_tenant = message_id (ro_tenant ro) ''tenant_id'' numbers tenant\<rparr>)))"

section \<open>Answers\<close>

definition rest_httpStatusForCode :: "grpc_code \<Rightarrow> nat" where
  "rest_httpStatusForCode c =
     (case c of
        InvalidArgument \<Rightarrow> 400
      | Unauthenticated \<Rightarrow> 401
      | PermissionDenied \<Rightarrow> 403
      | NotFound \<Rightarrow> 404
      | AlreadyExists \<Rightarrow> 409
      | FailedPrecondition \<Rightarrow> 409
      | ResourceExhausted \<Rightarrow> 429
      | Unavailable \<Rightarrow> 503
      | _ \<Rightarrow> 500)"

definition codeName :: "grpc_code \<Rightarrow> string" where
  "codeName c =
     (case c of
        InvalidArgument \<Rightarrow> ''invalid_argument''
      | Unauthenticated \<Rightarrow> ''unauthenticated''
      | PermissionDenied \<Rightarrow> ''permission_denied''
      | NotFound \<Rightarrow> ''not_found''
      | AlreadyExists \<Rightarrow> ''already_exists''
      | FailedPrecondition \<Rightarrow> ''failed_precondition''
      | ResourceExhausted \<Rightarrow> ''resource_exhausted''
      | Unavailable \<Rightarrow> ''unavailable''
      | _ \<Rightarrow> ''internal'')"

datatype rest_answer = RestError nat string string | RestOk string

definition writeError :: "admin_status \<Rightarrow> rest_answer" where
  "writeError e = (case e of (c, msg) \<Rightarrow>
     RestError (rest_httpStatusForCode c) (codeName c) (if rest_httpStatusForCode c = 500 then ''internal error'' else msg))"

definition writeJSON :: "('r \<Rightarrow> string option) \<Rightarrow> 'r \<Rightarrow> rest_answer" where
  "writeJSON marshal resp =
     (case marshal resp of None \<Rightarrow> writeError (Internal, ''marshal response'') | Some out \<Rightarrow> RestOk out)"

section \<open>The pipeline\<close>

text \<open>What a route needs from outside: the primitives of the signature, the secrets, the clock, the codecs and the engine.\<close>

record ('ce, 'r) rest_env =
  re_hmac :: mac
  re_sha256 :: "string \<Rightarrow> string"
  re_secrets :: secret_resolver
  re_now :: int
  re_parse :: "string \<Rightarrow> (uint64 \<times> uint64) option"
  re_marshal :: "'r \<Rightarrow> string option"
  re_engine :: "'ce admin_engine"

definition answered :: "('r \<Rightarrow> string option) \<Rightarrow> (admin_status, 'r) res \<Rightarrow> rest_answer" where
  "answered marshal out = (case out of Inl e \<Rightarrow> writeError e | Inr resp \<Rightarrow> writeJSON marshal resp)"

definition rest_serve ::
    "('ce, 'r) rest_env \<Rightarrow> admin_db \<Rightarrow> admin_db \<Rightarrow> route \<Rightarrow> (string option \<Rightarrow> admin_request \<Rightarrow> (admin_status, 'r) res) \<Rightarrow> rest_request \<Rightarrow>
     'ce admin_enforcer \<Rightarrow> rest_answer \<times> 'ce admin_enforcer" where
  "rest_serve R db1 db2 ro invoke r en =
     (case rs_body r of
        None \<Rightarrow> (writeError (InvalidArgument, ''request body too large''), en)
      | Some body \<Rightarrow>
          if fullMethod ro \<in> UnauthenticatedMethods then
            (case decode (re_parse R) ro r body of
               Inl e \<Rightarrow> (writeError e, en)
             | Inr req \<Rightarrow> (answered (re_marshal R) (invoke None req), en))
          else case authenticateHTTP (re_hmac R) (re_sha256 R) (re_secrets R) (rs_http r) body (re_now R) of
            Inl e \<Rightarrow> (writeError e, en)
          | Inr who \<Rightarrow>
              (case decode (re_parse R) ro r body of
                 Inl e \<Rightarrow> (writeError e, en)
               | Inr req \<Rightarrow>
                   (case AuthorizeRule (re_engine R) db1 db2 (fullMethod ro) who req en of
                      (Inl e, en') \<Rightarrow> (writeError e, en')
                    | (Inr op, en') \<Rightarrow>
                        (case CheckStatusWrite db2 (fullMethod ro) req of
                           Some e \<Rightarrow> (writeError e, en')
                         | None \<Rightarrow> (answered (re_marshal R) (invoke (Some op) req), en')))))"

section \<open>The pipeline is the guarded service\<close>

lemma invalid_Ok [simp]: "invalid part key v = Inr x \<longleftrightarrow> v = Some x"
  by (auto simp: invalid_def split: option.splits)

text \<open>The rule of a method, looked up by the name that follows the service's prefix.\<close>

definition call_rule :: "string \<Rightarrow> (string \<times> string \<times> bool \<times> rule_scope) option" where
  "call_rule call = map_of rule_rows call"

lemma ruleTable_call: "ruleTable (service @ call) = map_option (\<lambda>(r, a, w, s). \<lparr>ru_resource = r, ru_action = a, ru_isWrite = w, ru_scope = s\<rparr>) (call_rule call)"
proof -
  have "map_of (map (\<lambda>(m, r, a, w, s). (service @ m, \<lparr>ru_resource = r, ru_action = a, ru_isWrite = w, ru_scope = s\<rparr>)) xs) (service @ call) =
      map_option (\<lambda>(r, a, w, s). \<lparr>ru_resource = r, ru_action = a, ru_isWrite = w, ru_scope = s\<rparr>) (map_of xs call)" for xs
    by (induction xs) auto
  then show ?thesis by (simp add: ruleTable_def call_rule_def)
qed

lemma app_routes_take_path:
  "list_all (\<lambda>ro. case call_rule (ro_call ro) of
       None \<Rightarrow> ro_call ro = ''RegisterTenant''
     | Some (_, _, _, scope) \<Rightarrow> ro_call ro \<noteq> ''RegisterTenant'' \<and>
         (scope \<noteq> ScopeApp \<or> ro_app ro = FromNumber \<and> ro_numbers ro \<noteq> [] \<and> hd (ro_numbers ro) = (PathUint64, ''app_id'')) \<and>
         (scope \<noteq> ScopeTenant \<or> ro_tenant ro \<noteq> Absent)) allRoutes"
  by code_simp

lemma app_route:
  assumes "ro \<in> set allRoutes" "ruleTable (fullMethod ro) = Some rule" "ru_scope rule = ScopeApp"
  shows "fullMethod ro \<notin> UnauthenticatedMethods \<and> ro_app ro = FromNumber \<and> (\<exists>rest. ro_numbers ro = (PathUint64, ''app_id'') # rest)"
proof -
  obtain r a w where "call_rule (ro_call ro) = Some (r, a, w, ScopeApp)"
    using assms(2,3) by (auto simp: fullMethod_def ruleTable_call)
  then show ?thesis using app_routes_take_path assms(1)
    by (cases "ro_numbers ro") (auto simp: list_all_iff fullMethod_def UnauthenticatedMethods_def dest: bspec)
qed

lemma decode_app:
  assumes "decode parse ro r body = Inr req" "ro_app ro = FromNumber" "ro_numbers ro = (PathUint64, ''app_id'') # rest"
  shows "\<exists>a. ParseUint (rs_path r ''app_id'') = Some a \<and> rq_app req = Some a"
  using assms by (auto simp: decode_def rbind_eq_Ok message_id_def pathUint64_def split: sum.splits)

text \<open>
  Behind its own authentication and decoding a route answers as the interceptors of the gRPC service would: the answer is
  theirs, with the error mapped to a status.
\<close>

lemma rest_serve_is_admin_chain:
  assumes "fullMethod ro \<notin> UnauthenticatedMethods" "rs_body r = Some body"
    and "authenticateHTTP (re_hmac R) (re_sha256 R) (re_secrets R) (rs_http r) body (re_now R) = Inr who" "decode (re_parse R) ro r body = Inr req"
  shows "rest_serve R db1 db2 ro invoke r en =
    map_prod (answered (re_marshal R)) id (admin_chain (re_engine R) db1 db2 (fullMethod ro) (Some who) req (\<lambda>op. invoke op req) en)"
  using assms by (auto simp: rest_serve_def admin_chain_def answered_def split: prod.splits sum.splits option.splits)

lemma answered_Ok: "answered marshal out = RestOk text \<longleftrightarrow> (\<exists>resp. out = Inr resp \<and> marshal resp = Some text)"
  by (auto simp: answered_def writeJSON_def writeError_def split: sum.splits option.splits prod.splits)

lemma writeError_not_Ok [simp]: "writeError e \<noteq> RestOk out"
  by (simp add: writeError_def split: prod.splits)

lemma rest_serve_Ok:
  assumes "rest_serve R db1 db2 ro invoke r en = (RestOk out, en')" "fullMethod ro \<notin> UnauthenticatedMethods"
  shows "\<exists>body who req op resp. rs_body r = Some body \<and>
    authenticateHTTP (re_hmac R) (re_sha256 R) (re_secrets R) (rs_http r) body (re_now R) = Inr who \<and>
    decode (re_parse R) ro r body = Inr req \<and> fst (AuthorizeRule (re_engine R) db1 db2 (fullMethod ro) who req en) = Inr op \<and>
    CheckStatusWrite db2 (fullMethod ro) req = None \<and> invoke (Some op) req = Inr resp \<and> re_marshal R resp = Some out"
  using assms by (auto simp: rest_serve_def answered_Ok split: option.splits sum.splits prod.splits if_splits)

text \<open>An answer with status 500 tells its caller nothing of the error behind it.\<close>

theorem internal_errors_stay_inside:
  "fst (rest_serve R db1 db2 ro invoke r en) = RestError 500 name msg \<Longrightarrow> name = ''internal'' \<and> msg = ''internal error''"
proof -
  have "writeError e = RestError 500 name msg \<Longrightarrow> name = ''internal'' \<and> msg = ''internal error''" for e
    by (cases e) (auto simp: writeError_def rest_httpStatusForCode_def codeName_def split: grpc_code.splits)
  then show "fst (rest_serve R db1 db2 ro invoke r en) = RestError 500 name msg \<Longrightarrow> name = ''internal'' \<and> msg = ''internal error''"
    by (auto simp: rest_serve_def answered_def writeJSON_def split: option.splits sum.splits prod.splits if_splits)
qed

lemma CheckStatusWrite_None:
  assumes "CheckStatusWrite db m req = None" "ruleTable m = Some rule" "rq_app req = Some a" "app_of db a = Some app"
  shows "\<not> ru_isWrite rule \<or> aw_status app = 1"
  using assms by (auto simp: CheckStatusWrite_def split: if_splits)


definition rest_http :: http_request where
  "rest_http = \<lparr>hr_Principal = ''alice'', hr_Timestamp = show_id 1700000000,
     hr_Signature = SignREST toy_mac ''s3cret'' ''alice'' 1700000000 ''POST'' ''/v1/apps/5/roles'' (EncodeToString ''{}''),
     hr_Method = ''POST'', hr_RequestURI = ''/v1/apps/5/roles''\<rparr>"

definition rest_demo :: rest_request where
  "rest_demo = \<lparr>rs_http = rest_http, rs_path = (\<lambda>key. if key = ''app_id'' then ''5'' else []), rs_query = (\<lambda>_. []), rs_body = Some ''{}''\<rparr>"

text \<open>The codec of the demonstration claims that the body names application 9.\<close>

definition rest_demo_env :: "(string list list \<times> string list list, admin_request) rest_env" where
  "rest_demo_env = \<lparr>re_hmac = toy_mac, re_sha256 = (\<lambda>b. b), re_secrets = [''alice'' \<mapsto> ''s3cret''], re_now = 1700000010 * 10 ^ 9,
     re_parse = (\<lambda>_. Some (9, 0)), re_marshal = (\<lambda>req. map_option show_id (rq_app req)), re_engine = ref_engine\<rparr>"

definition rest_demo_route :: route where
  "rest_demo_route = rt ''POST'' ''/v1/apps/{app_id}/roles'' ''CreateRole'' [(PathUint64, ''app_id'')] False True FromNumber Absent"

lemma rest_demo_auth:
  "authenticateHTTP toy_mac (\<lambda>b. b) [''alice'' \<mapsto> ''s3cret''] rest_http ''{}'' (1700000010 * 10 ^ 9) = Inr ''alice''"
proof -
  have "\<not> out_of_window (1700000010 * 10 ^ 9) 1700000000"
    using window_Unix [of "1700000000 * 10 ^ 9" "1700000010 * 10 ^ 9"] by (simp add: MaxClockSkew_def)
  then show ?thesis unfolding authenticateHTTP_Ok
    by (simp add: rest_http_def ParseInt_show_id ValidPrincipal_def)
      (simp add: SignREST_def toy_mac_def EncodeToString_simps signingStringREST_def EncodeToString_def)
qed

lemma rest_demo_serve:
  "fst (rest_serve rest_demo_env alice_db alice_db rest_demo_route (\<lambda>op req. Inr req) rest_demo seed_en) = RestOk ''5''"
proof -
  let ?req = "\<lparr>rq_app = Some 5, rq_tenant = None\<rparr> :: admin_request"
  have full: "fullMethod rest_demo_route = service @ ''CreateRole''" by (simp add: fullMethod_def rest_demo_route_def rt_def)
  have "decode (\<lambda>_. Some (9, 0)) rest_demo_route rest_demo ''{}'' = Inr ?req"
    by (simp add: decode_def decodeBody_def rest_demo_route_def rt_def rest_demo_def pathUint64_def invalid_def ParseUint_def
        digits_value_def Auth.is_digit_def message_id_def)
  moreover have "fst (admin_chain ref_engine alice_db alice_db (service @ ''CreateRole'') (Some ''alice'') ?req (\<lambda>op. Inr ?req) seed_en) = Inr ?req"
    using alice_may_create(1,2) by (auto simp: admin_chain_def UnauthenticatedMethods_def split: prod.splits)
  moreover have "show_id 5 = ''5''" by code_simp
  ultimately show ?thesis
    using rest_demo_auth
    by (subst rest_serve_is_admin_chain [where body = "''{}''" and who = "''alice''" and req = ?req])
      (simp_all add: rest_demo_env_def rest_demo_def full UnauthenticatedMethods_def answered_def writeJSON_def)
qed


end
