(* ===== verification/Console_Forms.thy ===== *)
theory Console_Forms
  imports Console Mgmt_Server Rest_Gateway
begin

text \<open>
  The forms of the web console on roles, permissions, grants, inheritances, bindings and data policies
  (\<^verbatim>\<open>console/routes_rbac.go\<close>, \<^verbatim>\<open>console/routes_datapolicy.go\<close>, \<^verbatim>\<open>console/routes_effperm.go\<close>, \<^verbatim>\<open>console/forms.go\<close>, \<^verbatim>\<open>console/confirm.go\<close>): what each handler makes of a form,
  the confirmation of destructive actions, and the pages that list. A form becomes a call of the management service
  (\<^typ>\<open>rpc\<close>) on the application of the path. The call itself and the contents of the pages are parameters. The lemmas show that
  a write needs the session, its token, the confirmation where one is asked for, and the authorization on the
  application of the path, and that the values of the check boxes of a batch are read back as they were printed, also for user identifiers with colons.
\<close>

section \<open>Fields\<close>

text \<open>A request: the segments of its path, the first value of every field in query or body, and in the body alone, the values of \<^verbatim>\<open>ids\<close>, and the session cookie.\<close>

record form_request =
  fm_path :: "string \<Rightarrow> string"
  fm_form :: "string \<Rightarrow> string"
  fm_post :: "string \<Rightarrow> string"
  fm_ids :: "string list"
  fm_cookie :: "string option"

definition bad_field :: "string \<Rightarrow> admin_status" where
  "bad_field key = (InvalidArgument, utf8 [0xE6, 0x97, 0xA0, 0xE6, 0x95, 0x88, 0xE7, 0x9A, 0x84, 0x20] @ key)"

definition or_bad :: "string \<Rightarrow> 'a option \<Rightarrow> (admin_status, 'a) res" where
  "or_bad key v = (case v of None \<Rightarrow> Inl (bad_field key) | Some x \<Rightarrow> Inr x)"

definition form_pathUint64 :: "form_request \<Rightarrow> string \<Rightarrow> (admin_status, uint64) res" where
  "form_pathUint64 r key = or_bad key (ParseUint (fm_path r key))"

definition form_pathInt64 :: "form_request \<Rightarrow> string \<Rightarrow> (admin_status, int64) res" where
  "form_pathInt64 r key = or_bad key (ParseInt (fm_path r key))"

definition formInt64 :: "form_request \<Rightarrow> string \<Rightarrow> (admin_status, int64) res" where
  "formInt64 r key = (if fm_form r key = [] then Inr 0 else or_bad key (ParseInt (fm_form r key)))"

section \<open>Check boxes\<close>

definition errNoSelection :: admin_status where
  "errNoSelection = (InvalidArgument, utf8 [0xE8, 0xAF, 0xB7, 0xE8, 0x87, 0xB3, 0xE5, 0xB0, 0x91, 0xE9, 0x80, 0x89, 0xE6, 0x8B, 0xA9,
     0xE4, 0xB8, 0x80, 0xE9, 0xA1, 0xB9])"

definition parseInt64s :: "string list \<Rightarrow> int64 list" where
  "parseInt64s vals = List.map_filter ParseInt vals"

definition colon :: char where
  "colon = CHR '':''"

text \<open>\<^verbatim>\<open>strings.Cut\<close> at the first colon, and the split at the last one.\<close>

definition cut_first :: "string \<Rightarrow> (string \<times> string) option" where
  "cut_first s = (if colon \<in> set s then Some (takeWhile (\<lambda>c. c \<noteq> colon) s, tl (dropWhile (\<lambda>c. c \<noteq> colon) s)) else None)"

definition cut_last :: "string \<Rightarrow> (string \<times> string) option" where
  "cut_last s = map_option (\<lambda>(r, l). (rev l, rev r)) (cut_first (rev s))"

definition parseInt64Pair :: "string \<Rightarrow> (int64 \<times> int64) option" where
  "parseInt64Pair s =
     (case cut_first s of
        None \<Rightarrow> None
      | Some (left, right) \<Rightarrow>
          (case (ParseInt left, ParseInt right) of (Some a, Some b) \<Rightarrow> Some (a, b) | _ \<Rightarrow> None))"

definition parseGrantRefs :: "string list \<Rightarrow> (int64 \<times> int64) list" where
  "parseGrantRefs vals = List.map_filter parseInt64Pair vals"

definition parseInheritanceRefs :: "string list \<Rightarrow> (int64 \<times> int64) list" where
  "parseInheritanceRefs vals = List.map_filter parseInt64Pair vals"

definition parseUserRoleRef :: "string \<Rightarrow> (string \<times> int64) option" where
  "parseUserRoleRef v =
     (case cut_last v of
        None \<Rightarrow> None
      | Some (userID, roleStr) \<Rightarrow> if userID = [] then None else map_option (Pair userID) (ParseInt roleStr))"

definition parseUserRoleRefs :: "string list \<Rightarrow> (string \<times> int64) list" where
  "parseUserRoleRefs vals = List.map_filter parseUserRoleRef vals"

section \<open>The handlers\<close>

text \<open>
  A handler: the method it calls, whether it asks for a confirmation, how it decodes the form into a call on an
  application, and where it redirects.
\<close>

type_synonym form_call = "uint64 \<times> rpc"

record form_handler =
  fh_call :: string
  fh_confirm :: bool
  fh_decode :: "form_request \<Rightarrow> (admin_status, form_call) res"
  fh_redirect :: "form_request \<Rightarrow> string"

definition appListRedirect :: "string \<Rightarrow> form_request \<Rightarrow> string" where
  "appListRedirect seg r = ''/apps/'' @ fm_path r ''app_id'' @ ''/'' @ seg"

definition on_app :: "(form_request \<Rightarrow> (admin_status, rpc) res) \<Rightarrow> form_request \<Rightarrow> (admin_status, form_call) res" where
  "on_app f r = rbind (form_pathUint64 r ''app_id'') (\<lambda>app. rbind (f r) (\<lambda>m. Inr (app, m)))"

definition two_ids :: "string \<Rightarrow> string \<Rightarrow> (int64 \<Rightarrow> int64 \<Rightarrow> rpc) \<Rightarrow> form_request \<Rightarrow> (admin_status, rpc) res" where
  "two_ids k1 k2 f r = rbind (formInt64 r k1) (\<lambda>a. rbind (formInt64 r k2) (\<lambda>b. Inr (f a b)))"

definition selected :: "(string list \<Rightarrow> 'i list) \<Rightarrow> ('i list \<Rightarrow> rpc) \<Rightarrow> form_request \<Rightarrow> (admin_status, rpc) res" where
  "selected parse f r = (if parse (fm_ids r) = [] then Inl errNoSelection else Inr (f (parse (fm_ids r))))"

definition createRole :: form_handler where
  "createRole = \<lparr>fh_call = ''CreateRole'', fh_confirm = False,
     fh_decode = on_app (\<lambda>r. Inr (RpcCreateRole (fm_form r ''code'') (fm_form r ''name''))), fh_redirect = appListRedirect ''roles''\<rparr>"

definition deleteRole :: form_handler where
  "deleteRole = \<lparr>fh_call = ''DeleteRole'', fh_confirm = True,
     fh_decode = on_app (\<lambda>r. rbind (form_pathInt64 r ''role_id'') (\<lambda>roleID. Inr (RpcDeleteRole roleID))), fh_redirect = appListRedirect ''roles''\<rparr>"

definition upsertPermission :: form_handler where
  "upsertPermission = \<lparr>fh_call = ''UpsertPermission'', fh_confirm = False,
     fh_decode = on_app (\<lambda>r. Inr (RpcUpsertPermission (fm_form r ''code'') (fm_form r ''resource'') (fm_form r ''action'') (fm_form r ''ptype'') (fm_form r ''name''))),
     fh_redirect = appListRedirect ''permissions''\<rparr>"

definition grantPermission :: form_handler where
  "grantPermission = \<lparr>fh_call = ''GrantPermission'', fh_confirm = False,
     fh_decode = on_app (\<lambda>r. two_ids ''role_id'' ''permission_id'' (\<lambda>roleID permID. RpcGrantPermission roleID permID (fm_form r ''eft'')) r),
     fh_redirect = appListRedirect ''grants''\<rparr>"

definition revokePermission :: form_handler where
  "revokePermission = \<lparr>fh_call = ''RevokePermission'', fh_confirm = False,
     fh_decode = on_app (two_ids ''role_id'' ''permission_id'' RpcRevokePermission), fh_redirect = appListRedirect ''grants''\<rparr>"

definition addInheritance :: form_handler where
  "addInheritance = \<lparr>fh_call = ''AddRoleInheritance'', fh_confirm = False,
     fh_decode = on_app (two_ids ''child_role_id'' ''parent_role_id'' RpcAddRoleInheritance), fh_redirect = appListRedirect ''inheritances''\<rparr>"

definition removeInheritance :: form_handler where
  "removeInheritance = \<lparr>fh_call = ''RemoveRoleInheritance'', fh_confirm = True,
     fh_decode = on_app (two_ids ''child_role_id'' ''parent_role_id'' RpcRemoveRoleInheritance), fh_redirect = appListRedirect ''inheritances''\<rparr>"

definition decodeUserRoleRequest :: "(string \<Rightarrow> int64 \<Rightarrow> rpc) \<Rightarrow> form_request \<Rightarrow> (admin_status, form_call) res" where
  "decodeUserRoleRequest f = on_app (\<lambda>r. rbind (formInt64 r ''role_id'') (\<lambda>roleID. Inr (f (fm_form r ''user_id'') roleID)))"

definition bindUser :: form_handler where
  "bindUser = \<lparr>fh_call = ''BindUserRole'', fh_confirm = False,
     fh_decode = decodeUserRoleRequest RpcBindUserRole, fh_redirect = appListRedirect ''bindings''\<rparr>"

definition unbindUser :: form_handler where
  "unbindUser = \<lparr>fh_call = ''UnbindUserRole'', fh_confirm = False,
     fh_decode = decodeUserRoleRequest RpcUnbindUserRole, fh_redirect = appListRedirect ''bindings''\<rparr>"

text \<open>\<open>escape\<close> is \<^verbatim>\<open>url.QueryEscape\<close>.\<close>

definition effectiveRedirect :: "(string \<Rightarrow> string) \<Rightarrow> form_request \<Rightarrow> string" where
  "effectiveRedirect escape r = ''/apps/'' @ fm_path r ''app_id'' @ ''/effective?user_id='' @ escape (fm_form r ''user_id'')"

definition bindUserOnEffective :: "(string \<Rightarrow> string) \<Rightarrow> form_handler" where
  "bindUserOnEffective escape = bindUser\<lparr>fh_redirect := effectiveRedirect escape\<rparr>"

definition unbindUserOnEffective :: "(string \<Rightarrow> string) \<Rightarrow> form_handler" where
  "unbindUserOnEffective escape = unbindUser\<lparr>fh_redirect := effectiveRedirect escape\<rparr>"

definition batchDeleteRole :: form_handler where
  "batchDeleteRole = \<lparr>fh_call = ''BatchDeleteRole'', fh_confirm = True,
     fh_decode = on_app (selected parseInt64s RpcBatchDeleteRole), fh_redirect = appListRedirect ''roles''\<rparr>"

definition batchRevokePermission :: form_handler where
  "batchRevokePermission = \<lparr>fh_call = ''BatchRevokePermission'', fh_confirm = True,
     fh_decode = on_app (selected parseGrantRefs RpcBatchRevokePermission), fh_redirect = appListRedirect ''grants''\<rparr>"

definition batchRemoveInheritance :: form_handler where
  "batchRemoveInheritance = \<lparr>fh_call = ''BatchRemoveRoleInheritance'', fh_confirm = True,
     fh_decode = on_app (selected parseInheritanceRefs RpcBatchRemoveRoleInheritance), fh_redirect = appListRedirect ''inheritances''\<rparr>"

definition batchUnbindUser :: form_handler where
  "batchUnbindUser = \<lparr>fh_call = ''BatchUnbindUserRole'', fh_confirm = True,
     fh_decode = on_app (selected parseUserRoleRefs RpcBatchUnbindUserRole), fh_redirect = appListRedirect ''bindings''\<rparr>"

definition upsertDataPolicy :: form_handler where
  "upsertDataPolicy = \<lparr>fh_call = ''UpsertDataPolicy'', fh_confirm = False,
     fh_decode = on_app (\<lambda>r. rbind (formInt64 r ''id'') (\<lambda>i. Inr (RpcUpsertDataPolicy
       \<lparr>dp_ID = i, dp_SubjectType = fm_form r ''subject_type'', dp_SubjectID = fm_form r ''subject_id'', dp_Resource = fm_form r ''resource'',
        dp_Condition = fm_form r ''condition'', dp_Effect = fm_form r ''effect'', dp_Description = fm_form r ''description''\<rparr>))),
     fh_redirect = appListRedirect ''data-policies''\<rparr>"

definition deleteDataPolicy :: form_handler where
  "deleteDataPolicy = \<lparr>fh_call = ''DeleteDataPolicy'', fh_confirm = True,
     fh_decode = on_app (\<lambda>r. rbind (form_pathInt64 r ''id'') (\<lambda>i. Inr (RpcDeleteDataPolicy i))), fh_redirect = appListRedirect ''data-policies''\<rparr>"

definition batchDeleteDataPolicy :: form_handler where
  "batchDeleteDataPolicy = \<lparr>fh_call = ''BatchDeleteDataPolicy'', fh_confirm = True,
     fh_decode = on_app (selected parseInt64s RpcBatchDeleteDataPolicy), fh_redirect = appListRedirect ''data-policies''\<rparr>"

definition form_handlers :: "form_handler list" where
  "form_handlers = [createRole, deleteRole, upsertPermission, grantPermission, revokePermission, addInheritance, removeInheritance, bindUser, unbindUser,
     batchDeleteRole, batchRevokePermission, batchRemoveInheritance, batchUnbindUser, upsertDataPolicy, deleteDataPolicy, batchDeleteDataPolicy]"

section \<open>Confirmation and dispatch\<close>

text \<open>\<^const>\<open>None\<close> lets the handler go on. The page that asks for the confirmation leaves the pending message of the session alone.\<close>

definition requireConfirm :: "console_env \<Rightarrow> form_request \<Rightarrow> console \<Rightarrow> answer option \<times> console" where
  "requireConfirm E r st =
     (case lookupSession E (fm_cookie r) st of
        (None, st1) \<Rightarrow> (Some (Redirect ''/login'' None), st1)
      | (Some sess, st1) \<Rightarrow>
          if \<not> checkCSRF (fm_form r ''csrf_token'') sess then
            (case renderError E (fm_cookie r) PermissionDenied st1 of (a, st2) \<Rightarrow> (Some a, st2))
          else if fm_post r ''confirmed'' = ''1'' then (None, st1)
          else (Some (Page 200), st1))"

definition form_write ::
    "console_env \<Rightarrow> 'ce admin_engine \<Rightarrow> form_handler \<Rightarrow> (string \<Rightarrow> form_call \<Rightarrow> sso_db \<Rightarrow> (admin_status, 'r) res \<times> sso_db) \<Rightarrow> form_request \<Rightarrow>
     console \<Rightarrow> 'ce admin_enforcer \<Rightarrow> answer \<times> console \<times> 'ce admin_enforcer" where
  "form_write E A h invoke r st en =
     (case fh_decode h r of
        Inl e \<Rightarrow> doWrite E A (fm_cookie r) (fm_form r ''csrf_token'') (service @ fh_call h) (Inl e) (\<lambda>who db. (Inl e, db) :: (admin_status, 'r) res \<times> sso_db)
          (fh_redirect h r) st en
      | Inr (app, m) \<Rightarrow> doWrite E A (fm_cookie r) (fm_form r ''csrf_token'') (service @ fh_call h) (Inr \<lparr>rq_app = Some app, rq_tenant = None\<rparr>)
          (\<lambda>who. invoke who (app, m)) (fh_redirect h r) st en)"

definition serve_form ::
    "console_env \<Rightarrow> 'ce admin_engine \<Rightarrow> form_handler \<Rightarrow> (string \<Rightarrow> form_call \<Rightarrow> sso_db \<Rightarrow> (admin_status, 'r) res \<times> sso_db) \<Rightarrow> form_request \<Rightarrow>
     console \<Rightarrow> 'ce admin_enforcer \<Rightarrow> answer \<times> console \<times> 'ce admin_enforcer" where
  "serve_form E A h invoke r st en =
     (if \<not> fh_confirm h then form_write E A h invoke r st en
      else case requireConfirm E r st of
        (Some a, st1) \<Rightarrow> (a, st1, en)
      | (None, st1) \<Rightarrow> form_write E A h invoke r st1 en)"

section \<open>Pages\<close>

text \<open>
  The pages that list: the session, the numbers of the request, the authorization, the call, the page. \<open>numbers\<close> are optional
  filters of the form.
\<close>

record page_handler =
  ph_call :: string
  ph_numbers :: "string list"

definition listRoles_page :: page_handler where
  "listRoles_page = \<lparr>ph_call = ''ListRoles'', ph_numbers = []\<rparr>"

definition listPermissions_page :: page_handler where
  "listPermissions_page = \<lparr>ph_call = ''ListPermissions'', ph_numbers = []\<rparr>"

definition listGrants_page :: page_handler where
  "listGrants_page = \<lparr>ph_call = ''ListGrants'', ph_numbers = [''role_id'']\<rparr>"

definition listInheritances_page :: page_handler where
  "listInheritances_page = \<lparr>ph_call = ''ListRoleInheritances'', ph_numbers = []\<rparr>"

definition listBindings_page :: page_handler where
  "listBindings_page = \<lparr>ph_call = ''ListUserBindings'', ph_numbers = []\<rparr>"

definition listDataPolicies_page :: page_handler where
  "listDataPolicies_page = \<lparr>ph_call = ''ListDataPolicies'', ph_numbers = []\<rparr>"

definition page_decode :: "page_handler \<Rightarrow> form_request \<Rightarrow> (admin_status, uint64) res" where
  "page_decode h r = rbind (form_pathUint64 r ''app_id'') (\<lambda>app. rbind (mapM (formInt64 r) (ph_numbers h)) (\<lambda>_. Inr app))"

definition serve_page ::
    "console_env \<Rightarrow> 'ce admin_engine \<Rightarrow> page_handler \<Rightarrow> (string \<Rightarrow> uint64 \<Rightarrow> admin_status option) \<Rightarrow> form_request \<Rightarrow>
     console \<Rightarrow> 'ce admin_enforcer \<Rightarrow> answer \<times> console \<times> 'ce admin_enforcer" where
  "serve_page E A h invoke r st en =
     (case lookupSession E (fm_cookie r) st of
        (None, st1) \<Rightarrow> (Redirect ''/login'' None, st1, en)
      | (Some sess, st1) \<Rightarrow>
          (case page_decode h r of
             Inl e \<Rightarrow> (case renderGRPCError E (fm_cookie r) e st1 of (a, st2) \<Rightarrow> (a, st2, en))
           | Inr app \<Rightarrow>
               (case AuthorizeRule A (ix_admin (co_db st1)) (ix_admin (co_db st1)) (service @ ph_call h) (se_Principal sess)
                       \<lparr>rq_app = Some app, rq_tenant = None\<rparr> en of
                  (Inl e, en') \<Rightarrow> (case renderGRPCError E (fm_cookie r) e st1 of (a, st2) \<Rightarrow> (a, st2, en'))
                | (Inr who, en') \<Rightarrow>
                    (case invoke who app of
                       Some e \<Rightarrow> (case renderGRPCError E (fm_cookie r) e st1 of (a, st2) \<Rightarrow> (a, st2, en'))
                     | None \<Rightarrow> (case renderPage E (fm_cookie r) 200 st1 of (a, st2) \<Rightarrow> (a, st2, en'))))))"

section \<open>Check boxes are read back\<close>

text \<open>The value that the page of the bindings prints for one of them, and the values of grants and inheritances.\<close>

definition user_role_box :: "string \<times> int64 \<Rightarrow> string" where
  "user_role_box x = fst x @ [colon] @ show_id (snd x)"

definition pair_box :: "int64 \<times> int64 \<Rightarrow> string" where
  "pair_box x = show_id (fst x) @ [colon] @ show_id (snd x)"

lemma show_id_no_colon: "colon \<notin> set (show_id i)"
proof -
  have "\<not> Auth.is_digit colon" by (simp add: Auth.is_digit_def colon_def)
  with nat_digits_digits show ?thesis by (auto simp: show_id_def list_all_iff colon_def)
qed

lemma cut_first_append: "colon \<notin> set s \<Longrightarrow> cut_first (s @ [colon] @ t) = Some (s, t)"
proof -
  assume "colon \<notin> set s"
  then have "takeWhile (\<lambda>c. c \<noteq> colon) (s @ colon # t) = s" "dropWhile (\<lambda>c. c \<noteq> colon) (s @ colon # t) = colon # t"
    by (induction s) auto
  then show ?thesis by (simp add: cut_first_def)
qed

lemma cut_last_append: "colon \<notin> set t \<Longrightarrow> cut_last (s @ [colon] @ t) = Some (s, t)"
  using cut_first_append [of "rev t" "rev s"] by (simp add: cut_last_def)

lemma map_filter_read_back: "(\<And>x. x \<in> set xs \<Longrightarrow> f (g x) = Some x) \<Longrightarrow> List.map_filter f (map g xs) = xs"
  by (induction xs) (simp_all add: List.map_filter_simps)

lemma pair_box_read: "parseInt64Pair (pair_box x) = Some x"
  by (simp only: pair_box_def parseInt64Pair_def cut_first_append [OF show_id_no_colon] option.case prod.case ParseInt_show_id prod.collapse)

lemma user_role_box_read: "fst x \<noteq> [] \<Longrightarrow> parseUserRoleRef (user_role_box x) = Some x"
  by (simp only: user_role_box_def parseUserRoleRef_def cut_last_append [OF show_id_no_colon] option.case prod.case ParseInt_show_id prod.collapse
      if_False option.map)

theorem selection_is_read_back:
  "parseGrantRefs (map pair_box ps) = ps" "parseInheritanceRefs (map pair_box ps) = ps" "parseInt64s (map show_id is) = is"
  "list_all (\<lambda>b. fst b \<noteq> []) bs \<Longrightarrow> parseUserRoleRefs (map user_role_box bs) = bs"
  by (simp_all add: parseGrantRefs_def parseInheritanceRefs_def parseInt64s_def parseUserRoleRefs_def map_filter_read_back pair_box_read ParseInt_show_id
      user_role_box_read list_all_iff)

section \<open>Every form is guarded\<close>

lemma form_calls_on_app:
  "list_all (\<lambda>h. case call_rule (fh_call h) of None \<Rightarrow> False | Some (_, _, w, scope) \<Rightarrow> w \<and> scope = ScopeApp) form_handlers"
  by code_simp

lemma requireConfirm_None:
  assumes "requireConfirm E r st = (None, st1)"
  shows "fm_post r ''confirmed'' = ''1'' \<and> (\<exists>sess. lookupSession E (fm_cookie r) st = (Some sess, st1))"
  using assms by (auto simp: requireConfirm_def split: prod.splits option.splits if_splits)

lemma on_app_Ok: "on_app f r = Inr (app, m) \<Longrightarrow> ParseUint (fm_path r ''app_id'') = Some app"
  by (auto simp: on_app_def form_pathUint64_def or_bad_def rbind_eq_Ok split: option.splits)

lemma form_decode_app: "h \<in> set form_handlers \<Longrightarrow> fh_decode h r = Inr (app, m) \<Longrightarrow> ParseUint (fm_path r ''app_id'') = Some app"
  by (auto simp: form_handlers_def createRole_def deleteRole_def upsertPermission_def grantPermission_def revokePermission_def addInheritance_def
      removeInheritance_def bindUser_def unbindUser_def decodeUserRoleRequest_def batchDeleteRole_def batchRevokePermission_def batchRemoveInheritance_def
      batchUnbindUser_def upsertDataPolicy_def deleteDataPolicy_def batchDeleteDataPolicy_def dest: on_app_Ok)

lemma lookupSession_keeps: "lookupSession E cookie st = (r, st1) \<Longrightarrow> co_db st1 = co_db st"
  by (auto simp: lookupSession_def session_Get_def split: option.splits if_splits)

lemma lookupSession_entry:
  "lookupSession E (Some sid) st = (Some sess, st1) \<Longrightarrow> entry E (co_sessions st) sid = Some sess \<and> (\<forall>s. entry E (co_sessions st1) sid = Some s \<longrightarrow> s = sess)"
  by (auto simp: lookupSession_def session_Get_def entry_def split: option.splits if_splits)

lemma requireConfirm_keeps: "requireConfirm E r st = (a, st1) \<Longrightarrow> co_db st1 = co_db st"
  using renderPage_page(2)
  by (auto simp: requireConfirm_def renderError_def dest!: lookupSession_keeps split: prod.splits option.splits if_splits) (metis snd_conv)+

text \<open>
  A form changes the state of the management service only for the operator of a live session who sent the token of the session, confirmed
  the action if it is destructive, and is authorized on the application of the path, which is enabled; and the change is
  that of the decoded call.
\<close>

theorem form_is_guarded:
  assumes "serve_form E A h invoke r st en = (a, st', en')" "co_db st' \<noteq> co_db st" "h \<in> set form_handlers"
  shows "\<exists>sid sess app m who. fm_cookie r = Some sid \<and> entry E (co_sessions st) sid = Some sess \<and>
    fm_form r ''csrf_token'' = se_CSRF sess \<and> (\<not> fh_confirm h \<or> fm_post r ''confirmed'' = ''1'') \<and>
    fh_decode h r = Inr (app, m) \<and> ParseUint (fm_path r ''app_id'') = Some app \<and>
    fst (AuthorizeRule A (ix_admin (co_db st)) (ix_admin (co_db st)) (service @ fh_call h) (se_Principal sess) \<lparr>rq_app = Some app, rq_tenant = None\<rparr> en) = Inr who \<and>
    CheckStatusWrite (ix_admin (co_db st)) (service @ fh_call h) \<lparr>rq_app = Some app, rq_tenant = None\<rparr> = None \<and>
    co_db st' = snd (invoke who (app, m) (co_db st))"
proof -
  obtain st1 where st1: "form_write E A h invoke r st1 en = (a, st', en')" "co_db st1 = co_db st" "\<not> fh_confirm h \<or> fm_post r ''confirmed'' = ''1''"
      "\<And>sid s. fm_cookie r = Some sid \<Longrightarrow> entry E (co_sessions st1) sid = Some s \<Longrightarrow> entry E (co_sessions st) sid = Some s"
  proof (cases "fh_confirm h")
    case True
    obtain x st1 where c: "requireConfirm E r st = (x, st1)" by (cases "requireConfirm E r st")
    from requireConfirm_keeps [OF c] True c assms(1,2) have "x = None" by (cases x) (auto simp: serve_form_def)
    with c have go: "fm_post r ''confirmed'' = ''1''" "\<exists>sess. lookupSession E (fm_cookie r) st = (Some sess, st1)"
      using requireConfirm_None by blast+
    then have "fm_cookie r = Some sid \<Longrightarrow> entry E (co_sessions st1) sid = Some s \<Longrightarrow> entry E (co_sessions st) sid = Some s" for sid s
      using lookupSession_entry [of E sid st _ st1] by fastforce
    with go(1) c \<open>x = None\<close> requireConfirm_keeps [OF c] True assms(1) that [of st1] show thesis by (simp add: serve_form_def)
  next
    case False
    with assms(1) that [of st] show thesis by (simp add: serve_form_def)
  qed
  obtain app m where dec: "fh_decode h r = Inr (app, m)"
  proof (cases "fh_decode h r")
    case (Inl e)
    with st1(1) console_write_is_authorized [of E A "fm_cookie r" "fm_form r ''csrf_token''" "service @ fh_call h" "Inl e"] st1(2) assms(2)
    show thesis by (fastforce simp: form_write_def)
  next
    case (Inr x)
    with that show thesis by (cases x) auto
  qed
  with st1(1) have "doWrite E A (fm_cookie r) (fm_form r ''csrf_token'') (service @ fh_call h) (Inr \<lparr>rq_app = Some app, rq_tenant = None\<rparr>)
      (\<lambda>who. invoke who (app, m)) (fh_redirect h r) st1 en = (a, st', en')" by (simp add: form_write_def)
  from console_write_is_authorized [OF this] assms(2) st1(2) obtain sid sess who where
    "fm_cookie r = Some sid" "entry E (co_sessions st1) sid = Some sess" "fm_form r ''csrf_token'' = se_CSRF sess"
    "fst (AuthorizeRule A (ix_admin (co_db st)) (ix_admin (co_db st)) (service @ fh_call h) (se_Principal sess) \<lparr>rq_app = Some app, rq_tenant = None\<rparr> en) = Inr who"
    "CheckStatusWrite (ix_admin (co_db st)) (service @ fh_call h) \<lparr>rq_app = Some app, rq_tenant = None\<rparr> = None"
    "co_db st' = snd (invoke who (app, m) (co_db st))" by auto
  with st1(3,4) dec form_decode_app [OF assms(3) dec] show ?thesis by blast
qed

text \<open>A page of a list is shown only in a live session whose operator is authorized to list on the application of the path.\<close>

lemma error_status: "httpStatusForCode c \<noteq> 200"
  by (cases c) (simp_all add: httpStatusForCode_def)

lemma error_page: "fst (renderGRPCError E cookie e st) \<noteq> Page 200"
  using error_status [of "fst e"] renderPage_page(1) by (simp add: renderGRPCError_def renderError_def)

theorem page_is_authorized:
  assumes "fst (serve_page E A h invoke r st en) = Page 200"
  shows "\<exists>sid sess app who. fm_cookie r = Some sid \<and> entry E (co_sessions st) sid = Some sess \<and> ParseUint (fm_path r ''app_id'') = Some app \<and>
    fst (AuthorizeRule A (ix_admin (co_db st)) (ix_admin (co_db st)) (service @ ph_call h) (se_Principal sess) \<lparr>rq_app = Some app, rq_tenant = None\<rparr> en) = Inr who \<and>
    invoke who app = None"
proof -
  obtain sess st1 where s: "lookupSession E (fm_cookie r) st = (Some sess, st1)"
    using assms by (cases "lookupSession E (fm_cookie r) st"; cases "fst (lookupSession E (fm_cookie r) st)") (auto simp: serve_page_def)
  then obtain sid where sid: "fm_cookie r = Some sid" by (cases "fm_cookie r") (auto simp: lookupSession_def)
  obtain app where app: "page_decode h r = Inr app" using assms s by (cases "page_decode h r") (auto simp: serve_page_def split_beta error_page)
  let ?auth = "AuthorizeRule A (ix_admin (co_db st1)) (ix_admin (co_db st1)) (service @ ph_call h) (se_Principal sess) \<lparr>rq_app = Some app, rq_tenant = None\<rparr> en"
  obtain who en1 where auth: "?auth = (Inr who, en1)"
    using assms s app by (cases ?auth; cases "fst ?auth") (auto simp: serve_page_def split_beta error_page)
  have "invoke who app = None" using assms s app auth by (cases "invoke who app") (auto simp: serve_page_def split_beta error_page)
  moreover have "ParseUint (fm_path r ''app_id'') = Some app"
    using app by (auto simp: page_decode_def form_pathUint64_def or_bad_def rbind_eq_Ok split: option.splits)
  ultimately show ?thesis
    using sid s lookupSession_entry [of E sid st sess st1] lookupSession_keeps [OF s] auth by auto
qed

end
