(* ===== verification/Sdk.thy ===== *)
theory Sdk
  imports Authorizer Auth
begin

text \<open>
  The client library of an application (\<^verbatim>\<open>sdk/go\<close>): the calls to the sidecar (\<^verbatim>\<open>sydom\<close>), the rewriting of a row filter into
  the dialect of a database and its conjunction with the application's own condition (\<^verbatim>\<open>sydomsql\<close>, \<^verbatim>\<open>sydomgorm\<close>), and the HTTP
  middleware (\<^verbatim>\<open>sydomhttp\<close>). The connection is given by what its calls return, GORM by its operations, values by a type. The lemmas
  show that a filter of the sidecar reaches the database with every placeholder bound to its own argument, and
  that the middleware serves a request only if the sidecar allowed it, the route is public or the caller chose to fail open.
\<close>

section \<open>The client\<close>

datatype sdk_error =
    ErrUnavailable
  | StatusErr grpc_code
  | ErrEncodeAttrs
  | ErrBatchLength nat nat
  | ErrPlaceholders nat nat
  | ErrSkipAuth
  | ErrResolver string

definition mapErr :: "grpc_code \<Rightarrow> sdk_error" where
  "mapErr c = (if c = Unavailable then ErrUnavailable else StatusErr c)"

record 'v filter_result =
  fr_SQL :: string
  fr_Args :: "'v list"

text \<open>Every operation gets what the call of the connection returned.\<close>

definition Client_Check :: "(grpc_code, bool) res \<Rightarrow> bool \<times> sdk_error option" where
  "Client_Check resp = (case resp of Inl c \<Rightarrow> (False, Some (mapErr c)) | Inr allowed \<Rightarrow> (allowed, None))"

definition Client_BatchCheck :: "(check_req list \<Rightarrow> (grpc_code, bool list) res) \<Rightarrow> check_req list \<Rightarrow> (sdk_error, bool list) res" where
  "Client_BatchCheck cli reqs =
     (case cli reqs of
        Inl c \<Rightarrow> Inl (mapErr c)
      | Inr got \<Rightarrow> if length got \<noteq> length reqs then Inl (ErrBatchLength (length got) (length reqs)) else Inr got)"

definition Client_FilterSQL ::
    "('a \<Rightarrow> 's option) \<Rightarrow> ('s \<Rightarrow> (grpc_code, string \<times> 'pb list) res) \<Rightarrow> ('pb \<Rightarrow> 'v) \<Rightarrow> 'a \<Rightarrow> (sdk_error, 'v filter_result) res" where
  "Client_FilterSQL newStruct cli asInterface attrs =
     (case newStruct attrs of
        None \<Rightarrow> Inl ErrEncodeAttrs
      | Some s \<Rightarrow>
          (case cli s of
             Inl c \<Rightarrow> Inl (mapErr c)
           | Inr (sql, args) \<Rightarrow> Inr \<lparr>fr_SQL = sql, fr_Args = map asInterface args\<rparr>))"

record report_result =
  rr_Upserted :: nat
  rr_Skipped :: nat

definition Client_ReportPermissions ::
    "(permission_point list \<Rightarrow> (grpc_code, 32 word \<times> 32 word) res) \<Rightarrow> permission_point list \<Rightarrow> (sdk_error, report_result) res" where
  "Client_ReportPermissions cli perms =
     (case cli perms of
        Inl c \<Rightarrow> Inl (mapErr c)
      | Inr (up, sk) \<Rightarrow> Inr \<lparr>rr_Upserted = unat up, rr_Skipped = unat sk\<rparr>)"

text \<open>The registry is the list of the points registered so far.\<close>

definition Register :: "permission_point \<Rightarrow> permission_point list \<Rightarrow> permission_point list" where
  "Register p perms = perms @ [p]"

definition Report :: "(permission_point list \<Rightarrow> (sdk_error, report_result) res) \<Rightarrow> permission_point list \<Rightarrow> (sdk_error, report_result) res" where
  "Report reporter perms = (if perms = [] then Inr \<lparr>rr_Upserted = 0, rr_Skipped = 0\<rparr> else reporter perms)"

section \<open>Row filters in SQL\<close>

datatype dialect = Postgres | Question

datatype clause_kind = KindMatchAll | KindMatchNone | KindConditional

record 'v clause =
  cl_Kind :: clause_kind
  cl_SQL :: string
  cl_Args :: "'v list"

definition denyAllSQL :: string where
  "denyAllSQL = ''1=0''"

fun toDollar :: "string \<Rightarrow> int64 \<Rightarrow> string" where
  "toDollar [] idx = []"
| "toDollar (c # s) idx =
     (if c = CHR ''?'' then CHR ''$'' # show_id (idx + 1) @ toDollar s (idx + 1) else c # toDollar s idx)"

definition Build :: "'v filter_result \<Rightarrow> dialect \<Rightarrow> int64 \<Rightarrow> (sdk_error, 'v clause) res" where
  "Build fr d startIndex =
     (if fr_SQL fr = [] then Inr \<lparr>cl_Kind = KindMatchAll, cl_SQL = [], cl_Args = []\<rparr>
      else if fr_SQL fr = denyAllSQL then Inr \<lparr>cl_Kind = KindMatchNone, cl_SQL = denyAllSQL, cl_Args = []\<rparr>
      else if count_list (fr_SQL fr) CHR ''?'' \<noteq> length (fr_Args fr) then
        Inl (ErrPlaceholders (count_list (fr_SQL fr) CHR ''?'') (length (fr_Args fr)))
      else Inr \<lparr>cl_Kind = KindConditional, cl_SQL = (if d = Postgres then toDollar (fr_SQL fr) startIndex else fr_SQL fr),
                cl_Args = fr_Args fr\<rparr>)"

definition AndWhere :: "string \<Rightarrow> 'v list \<Rightarrow> 'v filter_result \<Rightarrow> dialect \<Rightarrow> (sdk_error, string \<times> 'v list) res" where
  "AndWhere base baseArgs fr d =
     (case Build fr d (of_nat (length baseArgs)) of
        Inl e \<Rightarrow> Inl e
      | Inr cl \<Rightarrow>
          (case cl_Kind cl of
             KindMatchAll \<Rightarrow> Inr (base, baseArgs)
           | KindMatchNone \<Rightarrow>
               if base = [] then Inr (denyAllSQL, baseArgs)
               else Inr (''('' @ base @ '') AND ('' @ denyAllSQL @ '')'', baseArgs)
           | KindConditional \<Rightarrow>
               if base = [] then Inr (cl_SQL cl, baseArgs @ cl_Args cl)
               else Inr (''('' @ base @ '') AND ('' @ cl_SQL cl @ '')'', baseArgs @ cl_Args cl)))"

definition Apply :: "(sdk_error, 'v filter_result) res \<Rightarrow> dialect \<Rightarrow> int64 \<Rightarrow> (sdk_error, 'v clause) res" where
  "Apply filtered d startIndex = (case filtered of Inl e \<Rightarrow> Inl e | Inr fr \<Rightarrow> Build fr d startIndex)"

text \<open>\<open>addWhere\<close> and \<open>addError\<close> are the operations \<^verbatim>\<open>Where\<close> and \<^verbatim>\<open>AddError\<close> of GORM.\<close>

definition Scope :: "(string \<Rightarrow> 'v list \<Rightarrow> 'db \<Rightarrow> 'db) \<Rightarrow> (sdk_error \<Rightarrow> 'db \<Rightarrow> 'db) \<Rightarrow> 'v filter_result \<Rightarrow> 'db \<Rightarrow> 'db" where
  "Scope addWhere addError fr db =
     (case Build fr Question 0 of
        Inl e \<Rightarrow> addError e db
      | Inr cl \<Rightarrow>
          (case cl_Kind cl of
             KindMatchAll \<Rightarrow> db
           | KindMatchNone \<Rightarrow> addWhere (cl_SQL cl) [] db
           | KindConditional \<Rightarrow> addWhere (cl_SQL cl) (cl_Args cl) db))"

definition ScopeApply ::
    "(string \<Rightarrow> 'v list \<Rightarrow> 'db \<Rightarrow> 'db) \<Rightarrow> (sdk_error \<Rightarrow> 'db \<Rightarrow> 'db) \<Rightarrow> (sdk_error, 'v filter_result) res \<Rightarrow> 'db \<Rightarrow> 'db" where
  "ScopeApply addWhere addError filtered db =
     (case filtered of Inl e \<Rightarrow> addError e db | Inr fr \<Rightarrow> Scope addWhere addError fr db)"

section \<open>The HTTP middleware\<close>

record mw_request =
  mr_Path :: string
  mr_Method :: string

record decision =
  de_Subject :: string
  de_Object :: string
  de_Action :: string

text \<open>A handler is the one for a status code, or one the application supplied, which is not nil.\<close>

datatype 'h mw_handler = StatusHandler nat | Supplied 'h

record 'h mw_config =
  mc_failOpen :: bool
  mc_deny :: "'h mw_handler option"
  mc_unavailable :: "'h mw_handler option"
  mc_error :: "'h mw_handler option"
  mc_errorLog :: bool

datatype 'h mw_option =
    WithFailOpen
  | WithDenyHandler 'h
  | WithUnavailableHandler 'h
  | WithErrorHandler 'h
  | WithErrorLog

fun apply_option :: "'h mw_option \<Rightarrow> 'h mw_config \<Rightarrow> 'h mw_config" where
  "apply_option WithFailOpen c = c\<lparr>mc_failOpen := True\<rparr>"
| "apply_option (WithDenyHandler h) c = c\<lparr>mc_deny := Some (Supplied h)\<rparr>"
| "apply_option (WithUnavailableHandler h) c = c\<lparr>mc_unavailable := Some (Supplied h)\<rparr>"
| "apply_option (WithErrorHandler h) c = c\<lparr>mc_error := Some (Supplied h)\<rparr>"
| "apply_option WithErrorLog c = c\<lparr>mc_errorLog := True\<rparr>"

definition or_default :: "'a \<Rightarrow> 'a option \<Rightarrow> 'a option" where
  "or_default d v = (case v of None \<Rightarrow> Some d | Some x \<Rightarrow> Some x)"

definition applyDefaults :: "'h mw_config \<Rightarrow> 'h mw_config" where
  "applyDefaults c = c\<lparr>mc_deny := or_default (StatusHandler 403) (mc_deny c),
     mc_unavailable := or_default (StatusHandler 503) (mc_unavailable c), mc_error := or_default (StatusHandler 500) (mc_error c)\<rparr>"

text \<open>
  What becomes of a request: the next handler runs, with a decision in its context or without, or another handler answers
  (\<^const>\<open>None\<close> would be a call of a nil handler); and the errors handed to the log.
\<close>

datatype 'h mw_outcome = Next "decision option" | Handled "'h mw_handler option"

definition PathMethodResolver :: "(mw_request \<Rightarrow> (sdk_error, string) res) \<Rightarrow> mw_request \<Rightarrow> (sdk_error, string \<times> string \<times> string) res" where
  "PathMethodResolver subjectFn r = (case subjectFn r of Inl e \<Rightarrow> Inl e | Inr sub \<Rightarrow> Inr (sub, mr_Path r, mr_Method r))"

definition middleware ::
    "(string \<Rightarrow> string \<Rightarrow> string \<Rightarrow> bool \<times> sdk_error option) \<Rightarrow> (mw_request \<Rightarrow> (sdk_error, string \<times> string \<times> string) res) \<Rightarrow> 'h mw_config \<Rightarrow>
     mw_request \<Rightarrow> 'h mw_outcome \<times> sdk_error list" where
  "middleware check resolver cfg r =
     (let log = (\<lambda>e. if mc_errorLog cfg then [e] else [])
      in case resolver r of
        Inl err \<Rightarrow> if err = ErrSkipAuth then (Next None, []) else (Handled (mc_deny cfg), log err)
      | Inr (sub, obj, act) \<Rightarrow>
          (case check sub obj act of
             (True, None) \<Rightarrow> (Next (Some \<lparr>de_Subject = sub, de_Object = obj, de_Action = act\<rparr>), [])
           | (False, None) \<Rightarrow> (Handled (mc_deny cfg), [])
           | (_, Some err) \<Rightarrow>
               if err = ErrUnavailable then
                 (if mc_failOpen cfg then (Next None, log err) else (Handled (mc_unavailable cfg), log err))
               else (Handled (mc_error cfg), log err)))"

definition middleware_New ::
    "(string \<Rightarrow> string \<Rightarrow> string \<Rightarrow> bool \<times> sdk_error option) \<Rightarrow> (mw_request \<Rightarrow> (sdk_error, string \<times> string \<times> string) res) \<Rightarrow> 'h mw_option list \<Rightarrow>
     mw_request \<Rightarrow> 'h mw_outcome \<times> sdk_error list" where
  "middleware_New check resolver opts =
     middleware check resolver (applyDefaults (fold apply_option opts
       \<lparr>mc_failOpen = False, mc_deny = None, mc_unavailable = None, mc_error = None, mc_errorLog = False\<rparr>))"

section \<open>What a database binds\<close>

text \<open>
  The meaning of a condition to a database is its text with the placeholders replaced by arguments: in order for \<^verbatim>\<open>?\<close>, by number
  for \<^verbatim>\<open>$n\<close>.
\<close>

datatype 'v tok = Ch char | Bound 'v | Unbound

fun bind_question :: "string \<Rightarrow> 'v list \<Rightarrow> 'v tok list" where
  "bind_question [] args = []"
| "bind_question (c # s) args =
     (if c \<noteq> CHR ''?'' then Ch c # bind_question s args
      else case args of [] \<Rightarrow> Unbound # bind_question s [] | a # as \<Rightarrow> Bound a # bind_question s as)"

definition numbered :: "string \<Rightarrow> 'v list \<Rightarrow> 'v tok" where
  "numbered ds args =
     (let n = digits_value ds in if ds \<noteq> [] \<and> 1 \<le> n \<and> n \<le> length args then Bound (args ! (n - 1)) else Unbound)"

function bind_dollar :: "string \<Rightarrow> 'v list \<Rightarrow> 'v tok list" where
  "bind_dollar [] args = []"
| "bind_dollar (c # s) args =
     (if c \<noteq> CHR ''$'' then Ch c # bind_dollar s args
      else numbered (takeWhile Auth.is_digit s) args # bind_dollar (dropWhile Auth.is_digit s) args)"
  by pat_completeness auto
termination by (relation "measure (length \<circ> fst)") (auto simp: le_imp_less_Suc length_dropWhile_le)

fun bind_args :: "dialect \<Rightarrow> string \<Rightarrow> 'v list \<Rightarrow> 'v tok list" where
  "bind_args Postgres = bind_dollar"
| "bind_args Question = bind_question"

definition starts_clean :: "string \<Rightarrow> bool" where
  "starts_clean s \<longleftrightarrow> s = [] \<or> \<not> Auth.is_digit (hd s)"

text \<open>No placeholder is followed by a digit, which its number would swallow.\<close>

fun tight :: "string \<Rightarrow> bool" where
  "tight [] = True"
| "tight (c # s) = ((c \<noteq> CHR ''?'' \<or> starts_clean s) \<and> tight s)"

lemma starts_clean_simps [simp]:
  "starts_clean []" "starts_clean (c # s) \<longleftrightarrow> \<not> Auth.is_digit c" "starts_clean (s @ t) \<longleftrightarrow> (if s = [] then starts_clean t else starts_clean s)"
  by (simp_all add: starts_clean_def)

lemma not_digit [simp]:
  "\<not> Auth.is_digit CHR ''?''" "\<not> Auth.is_digit CHR ''$''" "\<not> Auth.is_digit CHR '' ''" "\<not> Auth.is_digit CHR '',''"
  "\<not> Auth.is_digit CHR ''(''" "\<not> Auth.is_digit CHR '')''"
  by (simp_all add: Auth.is_digit_def)

lemma tight_append: "tight s \<Longrightarrow> tight t \<Longrightarrow> starts_clean t \<Longrightarrow> tight (s @ t)"
  by (induction s) (auto split: if_splits)

lemma tight_plain: "CHR ''?'' \<notin> set s \<Longrightarrow> tight t \<Longrightarrow> tight (s @ t)"
  by (induction s) auto

lemma toDollar_clean: "starts_clean s \<Longrightarrow> starts_clean (toDollar s i)"
  by (cases s) simp_all

lemma takeWhile_number:
  "starts_clean t \<Longrightarrow> takeWhile Auth.is_digit (nat_digits n @ t) = nat_digits n \<and> dropWhile Auth.is_digit (nat_digits n @ t) = t"
  using nat_digits_digits [of n]
  by (cases t) (auto simp: list_all_iff starts_clean_def takeWhile_append2 dropWhile_append2)

lemma show_id_small: "n < 2 ^ 63 \<Longrightarrow> show_id (of_nat n) = nat_digits n"
  by (simp add: show_id_def signed_of_nat signed_take_bit_int_eq_self)

lemma bind_dollar_append:
  "starts_clean t \<Longrightarrow> bind_dollar (s @ t) args = bind_dollar s args @ bind_dollar t args"
proof (induction s args rule: bind_dollar.induct)
  case (2 c s args)
  have "takeWhile Auth.is_digit (s @ t) = takeWhile Auth.is_digit s \<and> dropWhile Auth.is_digit (s @ t) = dropWhile Auth.is_digit s @ t"
  proof (cases "list_all Auth.is_digit s")
    case True
    then have "takeWhile Auth.is_digit s = s" "dropWhile Auth.is_digit s = []" by (simp_all add: list_all_iff)
    moreover have "takeWhile Auth.is_digit (s @ t) = s \<and> dropWhile Auth.is_digit (s @ t) = t"
      using True \<open>starts_clean t\<close> by (cases t) (auto simp: list_all_iff starts_clean_def takeWhile_append2 dropWhile_append2)
    ultimately show ?thesis by (simp only: append_Nil simp_thms)
  next
    case False
    then show ?thesis by (auto simp: list_all_iff takeWhile_append1 dropWhile_append1)
  qed
  with 2 show ?case by simp
qed simp

lemma bind_dollar_more:
  "Unbound \<notin> set (bind_dollar s args) \<Longrightarrow> bind_dollar s (args @ bs) = bind_dollar s args"
  by (induction s args rule: bind_dollar.induct) (auto simp: numbered_def Let_def nth_append split: if_splits)

lemma bind_question_append:
  "holes s = length as \<Longrightarrow> bind_question (s @ t) (as @ bs) = bind_question s as @ bind_question t bs"
proof (induction s arbitrary: as)
  case (Cons c s)
  show ?case
  proof (cases "c = CHR ''?''")
    case True
    with Cons show ?thesis by (cases as) auto
  next
    case False
    with Cons.IH [of as] Cons.prems show ?thesis by simp
  qed
qed simp

text \<open>The rewriting into numbered placeholders binds every placeholder to the argument it had by its position.\<close>

lemma toDollar_binds:
  assumes "tight s" "CHR ''$'' \<notin> set s" "holes s = length as" "length pre + length as < 2 ^ 63"
  shows "bind_dollar (toDollar s (of_nat (length pre))) (pre @ as) = bind_question s as"
  using assms
proof (induction s arbitrary: pre as)
  case (Cons c s)
  show ?case
  proof (cases "c = CHR ''?''")
    case True
    with Cons.prems obtain a as' where as: "as = a # as'" by (cases as) auto
    have "bind_dollar (toDollar s (of_nat (length (pre @ [a])))) ((pre @ [a]) @ as') = bind_question s as'"
      using Cons.prems True as by (intro Cons.IH) auto
    moreover have "show_id (of_nat (length pre) + 1) = nat_digits (length pre + 1)"
      using show_id_small [of "length pre + 1"] Cons.prems as by (simp add: add.commute)
    moreover have "starts_clean (toDollar s (of_nat (length pre) + 1))"
      using Cons.prems True toDollar_clean by simp
    ultimately show ?thesis
      using True as takeWhile_number [of "toDollar s (of_nat (length pre) + 1)" "length pre + 1"] nat_digits_digits [of "length pre + 1"]
      by (simp add: numbered_def digits_value_nat_digits add.commute)
  qed (use Cons in auto)
qed simp

section \<open>The fragments of the sidecar\<close>

lemma tight_joined:
  assumes "\<And>x. x \<in> set xs \<Longrightarrow> tight x" "tight sep" "sep \<noteq> []" "starts_clean sep" "CHR ''?'' \<notin> set sep" "tight t" "starts_clean t"
  shows "tight (joinStrings sep xs @ t)"
proof (cases xs)
  case Nil
  with assms(6) show ?thesis by simp
next
  case (Cons x ys)
  have step: "tight (concat (map (\<lambda>y. sep @ y) zs) @ t) \<and> starts_clean (concat (map (\<lambda>y. sep @ y) zs) @ t)" if "set zs \<subseteq> set xs" for zs
    using that
  proof (induction zs)
    case (Cons z zs)
    then have "tight (sep @ z @ concat (map (\<lambda>y. sep @ y) zs) @ t)"
      using tight_plain [OF assms(5) tight_append [of z "concat (map (\<lambda>y. sep @ y) zs) @ t"]] assms(1) by auto
    with assms(3,4) show ?case by simp
  qed (use assms in auto)
  then have "tight (concat (map (\<lambda>y. sep @ y) ys) @ t)" "starts_clean (concat (map (\<lambda>y. sep @ y) ys) @ t)"
    using step [of ys] Cons by (simp_all only: set_subset_Cons)
  with tight_append [OF assms(1) [of x] this] Cons have "tight (x @ concat (map (\<lambda>y. sep @ y) ys) @ t)" by simp
  with Cons show ?thesis by (simp add: joinStrings_Cons)
qed

lemma field_plain: "fieldNameRe f \<Longrightarrow> CHR ''?'' \<notin> set f"
proof -
  have "\<not> is_letter CHR ''?''" "\<not> Json.is_digit CHR ''?''" by code_simp+
  then show "fieldNameRe f \<Longrightarrow> CHR ''?'' \<notin> set f" by (auto simp: fieldNameRe_def list_all_iff split: list.splits)
qed

lemma sql_text_tight: "renderable c \<Longrightarrow> tight (sql_text c)"
proof (induction c)
  case (Cond op cs f v)
  show ?case
  proof (cases "isLogicalOp op")
    case True
    have kids: "tight (sql_text c)" if "c \<in> set cs" for c using that True Cond by (auto simp: list_all_iff)
    from True consider "op = OpAnd" | "op = OpOr" | "op = OpNot" by (auto simp: isLogicalOp_def)
    then show ?thesis
    proof cases
      case 3
      then show ?thesis using kids by (cases cs) (auto intro!: tight_append)
    qed (use kids in \<open>auto intro!: tight_joined\<close>)
  next
    case False
    with Cond.prems have "CHR ''?'' \<notin> set f" using field_plain by auto
    moreover have "tight (joinStrings '', '' (case v of JArr arr \<Rightarrow> map (\<lambda>_. ''?'') arr | _ \<Rightarrow> []) @ '')'')"
      by (intro tight_joined) (auto split: jval.splits)
    moreover have "tight (sqlComparator op @ '' ?'')" by (simp add: sqlComparator_def)
    ultimately show ?thesis using False by (auto simp: isLogicalOp_def intro!: tight_plain)
  qed
qed simp

lemma safe_no_dollar: "safe_sql s \<Longrightarrow> CHR ''$'' \<notin> set s"
proof -
  have "\<not> sql_char CHR ''$''" by code_simp
  then show "safe_sql s \<Longrightarrow> CHR ''$'' \<notin> set s" by (auto simp: safe_sql_def list_all_iff)
qed

lemma FilterSQL_tight:
  assumes "holds_policies t ps" "FilterSQL rr t user dm res at = Inr r"
  shows "tight (SQL r) \<and> CHR ''$'' \<notin> set (SQL r) \<and> holes (SQL r) = length (Args r)"
proof -
  obtain p where p: "selectAndMerge rr t user dm res = Inr p" "safe_sql (SQL r)" "holes (SQL r) = length (Args r)"
      "SQL r = (case p of ModeNoFilter \<Rightarrow> [] | ModeDenyAll \<Rightarrow> ''1=0'' | ModeTree c \<Rightarrow> sql_text c)"
    using FilterSQL_text [OF assms] by blast
  have "renderable c" if "p = ModeTree c" for c
    using that p(1) conds_of_renderable [OF assms(1)]
    by (auto simp: selectAndMerge_Ok merged_renderable split: option.splits if_splits)
  then have "tight (SQL r)" using p(4) sql_text_tight by (cases p) auto
  with p safe_no_dollar show ?thesis by blast
qed

section \<open>From the sidecar to the database\<close>

text \<open>The application's own condition binds its own arguments, and in the positional dialect all of them.\<close>

fun well_bound :: "dialect \<Rightarrow> string \<Rightarrow> 'v list \<Rightarrow> bool" where
  "well_bound Postgres base baseArgs \<longleftrightarrow> Unbound \<notin> set (bind_dollar base baseArgs)"
| "well_bound Question base baseArgs \<longleftrightarrow> holes base = length baseArgs"

definition conjoined :: "'v tok list \<Rightarrow> 'v tok list \<Rightarrow> 'v tok list" where
  "conjoined own frag = map Ch ''('' @ own @ map Ch '') AND ('' @ frag @ map Ch '')''"

lemma AndWhere_binds:
  assumes "tight (fr_SQL fr)" "CHR ''$'' \<notin> set (fr_SQL fr)" "holes (fr_SQL fr) = length (fr_Args fr)"
    and "well_bound d base baseArgs" "length baseArgs + length (fr_Args fr) < 2 ^ 63"
  shows "\<exists>w args. AndWhere base baseArgs fr d = Inr (w, args) \<and>
    bind_args d w args =
      (if fr_SQL fr = [] then bind_args d base baseArgs
       else if base = [] then bind_question (fr_SQL fr) (fr_Args fr)
       else conjoined (bind_args d base baseArgs) (bind_question (fr_SQL fr) (fr_Args fr)))"
proof (cases d)
  case Postgres
  have frag: "bind_dollar (toDollar (fr_SQL fr) (of_nat (length baseArgs))) (baseArgs @ fr_Args fr) = bind_question (fr_SQL fr) (fr_Args fr)"
    using assms by (intro toDollar_binds) auto
  have own: "bind_dollar base (baseArgs @ bs) = bind_dollar base baseArgs" for bs
    using assms(4) Postgres by (simp add: bind_dollar_more)
  have conj: "bind_dollar (base @ '') AND ('' @ s @ '')'') as = bind_dollar base as @ map Ch '') AND ('' @ bind_dollar s as @ map Ch '')''" for s and as :: "'a list"
    by (simp add: bind_dollar_append)
  from frag own assms(3) Postgres conj conj [of "''1=0''"] show ?thesis
    by (auto simp: AndWhere_def Build_def conjoined_def denyAllSQL_def holes_def)
next
  case Question
  then have "bind_question (base @ t) (baseArgs @ bs) = bind_question base baseArgs @ bind_question t bs" for t bs
    using assms(4) by (simp add: bind_question_append)
  from this [of "'') AND (1=0)''" "[]"] this [of "'') AND ('' @ fr_SQL fr @ '')''" "fr_Args fr"]
    bind_question_append [OF assms(3), of "'')''" "[]"] assms(3,4) Question show ?thesis
    by (auto simp: AndWhere_def Build_def conjoined_def denyAllSQL_def holes_def)
qed

text \<open>
  C15. What the client library makes of a row filter. Whatever filter a sidecar over accepted policies sends, the conjunction with
  the application's own condition succeeds, and what the database binds is the application's condition with the
  application's arguments and the sidecar's fragment with each placeholder bound to its own argument, in either dialect; a filter
  without conditions adds nothing, one that denies everything adds its false condition. The transport is assumed to give back
  the values it was given.
\<close>

theorem filter_reaches_database:
  assumes "holds_policies t ps" and "e_applier (sc_engine (a_client a)) = Some t"
    and "Server_FilterSQL encode C now a subject resource at = Inr (sql, pbs)"
    and "\<And>v p. encode v = Some p \<Longrightarrow> asInterface p = v"
    and "Client_FilterSQL newStruct (\<lambda>_. Inr (sql, pbs)) asInterface attrs = Inr fr"
    and "well_bound d base baseArgs" and "length baseArgs + length pbs < 2 ^ 63"
  shows "\<exists>r w args. authz_FilterSQL C now a subject resource at = Inr r \<and> AndWhere base baseArgs fr d = Inr (w, args) \<and>
    bind_args d w args =
      (if SQL r = [] then bind_args d base baseArgs
       else if base = [] then bind_question (SQL r) (Args r)
       else conjoined (bind_args d base baseArgs) (bind_question (SQL r) (Args r)))"
proof -
  obtain r where r: "authz_FilterSQL C now a subject resource at = Inr r" "sql = SQL r"
      "mapM (\<lambda>v. case encode v of None \<Rightarrow> Inl Internal | Some p \<Rightarrow> Inr p) (Args r) = (Inr pbs :: (grpc_code, _) res)"
    using assms(3) by (auto simp: Server_FilterSQL_def split: sum.splits)
  have "list_all2 (\<lambda>v p. asInterface p = v) (Args r) pbs"
    using r(3) unfolding mapM_Ok_iff by (rule list_all2_mono) (use assms(4) in \<open>auto split: option.splits\<close>)
  then have "map asInterface pbs = Args r" "length pbs = length (Args r)" by (induction rule: list_all2_induct) auto
  with assms(5) r(2) have fr: "fr_SQL fr = SQL r" "fr_Args fr = Args r" "length pbs = length (Args r)"
    by (auto simp: Client_FilterSQL_def split: option.splits)
  have "tight (SQL r) \<and> CHR ''$'' \<notin> set (SQL r) \<and> holes (SQL r) = length (Args r)"
    using r(1) assms(2) by (intro FilterSQL_tight [OF assms(1)]) (auto simp: authz_FilterSQL_def split: option.splits sum.splits)
  with AndWhere_binds [of fr d base baseArgs] assms(6,7) fr r(1) show ?thesis by auto
qed

text \<open>
  The middleware runs the next handler with a decision exactly if the sidecar answered that it is allowed, and without one
  only for a public route, or in an unavailable state when the application chose to fail open; no option turns an error of another kind or a refusal
  into service.
\<close>

lemma options_fail_open: "mc_failOpen (applyDefaults (fold apply_option opts c)) \<longleftrightarrow> mc_failOpen c \<or> WithFailOpen \<in> set opts"
proof (induction opts arbitrary: c)
  case (Cons x xs)
  then show ?case by (cases x) (auto simp: applyDefaults_def)
qed (simp add: applyDefaults_def)

theorem middleware_serves_only_allowed:
  assumes "fst (middleware_New (\<lambda>sub obj act. Client_Check (rpc sub obj act)) resolver opts r) = Next d"
  shows "(case d of
      Some de \<Rightarrow> resolver r = Inr (de_Subject de, de_Object de, de_Action de) \<and> rpc (de_Subject de) (de_Object de) (de_Action de) = Inr True
    | None \<Rightarrow> resolver r = Inl ErrSkipAuth \<or>
        (WithFailOpen \<in> set opts \<and> (\<exists>sub obj act. resolver r = Inr (sub, obj, act) \<and> rpc sub obj act = Inl Unavailable)))"
  using assms
  by (auto simp: middleware_New_def middleware_def Client_Check_def mapErr_def Let_def options_fail_open
      split: sum.splits prod.splits bool.splits option.splits if_splits)

lemma applyDefaults_set: "mc_deny (applyDefaults c) \<noteq> None" "mc_unavailable (applyDefaults c) \<noteq> None" "mc_error (applyDefaults c) \<noteq> None"
  by (simp_all add: applyDefaults_def or_default_def split: option.splits)

lemma middleware_handler_set:
  "fst (middleware_New check resolver opts r) = Handled h \<Longrightarrow> h \<noteq> None"
  unfolding middleware_New_def middleware_def Let_def
  using applyDefaults_set by (auto simp del: not_None_eq split: sum.splits prod.splits bool.splits option.splits if_splits)

text \<open>A filter that failed reaches GORM as an error, never as a query without its condition.\<close>

lemma ScopeApply_fails_closed:
  "(\<forall>e. ScopeApply addWhere addError filtered db \<noteq> addError e db) \<Longrightarrow>
    (\<exists>fr. filtered = Inr fr \<and> (fr_SQL fr = [] \<and> ScopeApply addWhere addError filtered db = db \<or>
       fr_SQL fr \<noteq> [] \<and> (fr_SQL fr = denyAllSQL \<and> ScopeApply addWhere addError filtered db = addWhere denyAllSQL [] db \<or>
         count_list (fr_SQL fr) CHR ''?'' = length (fr_Args fr) \<and> ScopeApply addWhere addError filtered db = addWhere (fr_SQL fr) (fr_Args fr) db)))"
  by (cases filtered) (auto simp: ScopeApply_def Scope_def Build_def denyAllSQL_def split: if_splits)

text \<open>A sidecar with one policy for the witness: a user sees the orders of the department the request names.\<close>

definition own_text :: string where
  "own_text =
     ''{'' @ [CHR 0x22] @ ''op'' @ [CHR 0x22] @ '':'' @ [CHR 0x22] @ ''EQ'' @ [CHR 0x22] @ '','' @
     [CHR 0x22] @ ''field'' @ [CHR 0x22] @ '':'' @ [CHR 0x22] @ ''dept'' @ [CHR 0x22] @ '','' @
     [CHR 0x22] @ ''value'' @ [CHR 0x22] @ '':'' @ [CHR 0x22] @ ''$user.dept'' @ [CHR 0x22] @ ''}''"

definition own_policy :: kdata_policy where
  "own_policy =
     \<lparr>kdp_ID = 1, kdp_SubjectType = ''user'', kdp_SubjectID = ''eve'', kdp_Resource = ''order'',
      kdp_Condition = own_text, kdp_Effect = ''allow''\<rparr>"

definition own_table :: table where
  "own_table = [''order'' \<mapsto> [\<lparr>st_id = 1, st_subjectType = ''user'', st_subjectID = ''eve'', st_effect = ''allow'',
     st_cond = Cond ''EQ'' [] ''dept'' (JStr ''$user.dept''), st_parseErr = None\<rparr>]]"

lemma own_table_holds: "holds_policies own_table [own_policy]"
proof -
  have "parseCondition own_text = Inr (Cond ''EQ'' [] ''dept'' (JStr ''$user.dept''))" by code_simp
  then have "toStored own_policy = Some \<lparr>st_id = 1, st_subjectType = ''user'', st_subjectID = ''eve'', st_effect = ''allow'',
      st_cond = Cond ''EQ'' [] ''dept'' (JStr ''$user.dept''), st_parseErr = None\<rparr>"
    by (simp add: toStored_def own_policy_def normalizeEffect_def EffectAllow_def EffectDeny_def)
  moreover have "kdp_Resource own_policy = ''order''" by (simp add: own_policy_def)
  ultimately show ?thesis by (auto simp: holds_policies_def parses_def own_table_def policies_for_def)
qed

definition own_sidecar :: "(ref_ce, table option) authorizer" where
  "own_sidecar = authz_New \<lparr>sc_engine = (kernel_New ''shop'' \<lparr>rc_pol = [], rc_grp = []\<rparr> (Some own_table))\<lparr>e_ready := True\<rparr>,
     sc_lastSyncAt = 1, sc_connected = True, sc_applied = 0\<rparr> 0"

theorem filter_reaches_database_witness:
  "\<exists>r w args. authz_FilterSQL (ref_casbin 10) 5 own_sidecar ''eve'' ''order'' [''dept'' \<mapsto> JStr ''toys''] = Inr r \<and>
     AndWhere ''tenant = $1'' [JStr ''acme''] \<lparr>fr_SQL = ''dept = ?'', fr_Args = [JStr ''toys'']\<rparr> Postgres = Inr (w, args) \<and>
     bind_dollar w args = conjoined (map Ch ''tenant = '' @ [Bound (JStr ''acme'')]) (map Ch ''dept = '' @ [Bound (JStr ''toys'')])"
proof -
  have server: "Server_FilterSQL Some (ref_casbin 10) 5 own_sidecar ''eve'' ''order'' [''dept'' \<mapsto> JStr ''toys''] =
      Inr (''dept = ?'', [JStr ''toys''])" by code_simp
  have r: "authz_FilterSQL (ref_casbin 10) 5 own_sidecar ''eve'' ''order'' [''dept'' \<mapsto> JStr ''toys''] =
      Inr \<lparr>SQL = ''dept = ?'', Args = [JStr ''toys'']\<rparr>" by code_simp
  have table: "e_applier (sc_engine (a_client own_sidecar)) = Some own_table"
    by (simp add: own_sidecar_def authz_New_def kernel_New_def)
  have client: "Client_FilterSQL Some (\<lambda>_. Inr (''dept = ?'', [JStr ''toys''])) (\<lambda>v. v) () =
      Inr \<lparr>fr_SQL = ''dept = ?'', fr_Args = [JStr ''toys'']\<rparr>" by (simp add: Client_FilterSQL_def)
  have own: "bind_dollar ''tenant = $1'' [JStr ''acme''] = map Ch ''tenant = '' @ [Bound (JStr ''acme'')]"
    by (simp add: Auth.is_digit_def numbered_def digits_value_def)
  from filter_reaches_database [OF own_table_holds table server _ client, of Postgres "''tenant = $1''" "[JStr ''acme'']"] own r
  show ?thesis by simp
qed

end
