(* ===== verification/Leader.thy ===== *)
theory Leader
  imports Prelude
begin

text \<open>
  The election of the replica that runs the relay (\<^verbatim>\<open>controlplane/leader\<close>). Every replica repeats: take a connection, try the advisory lock of
  its session, run the elected function while a ticker pings the connection, unlock, wait. The database side is what
  PostgreSQL documents of session-level advisory locks: at most one session holds the lock, a session may take it again
  and then has to unlock as often, and the lock ends with its session. A connection that is closed goes back to the pool of its
  replica with its session, and may be handed out again. The steps of the replicas and of the network interleave in any order.
\<close>

section \<open>The cluster\<close>

type_synonym session = nat
type_synonym replica = nat

text \<open>What the elected function returned: nothing, the cancellation of its context, or another error.\<close>

datatype elected = Returned | Canceled | Fatal

text \<open>
  Where \<^verbatim>\<open>Run\<close> is: before taking a connection, with a connection, in \<^verbatim>\<open>lead\<close> with a context that is cancelled or not, before \<^verbatim>\<open>release\<close>,
  in \<^verbatim>\<open>wait\<close>, or returned.
\<close>

datatype phase =
    Campaigning
  | Connected session
  | Leading session bool
  | Releasing session elected
  | Waiting
  | Stopped "elected option"

record cluster =
  cu_phase :: "replica \<Rightarrow> phase"
  cu_alive :: "session set"
  cu_owner :: "session \<rightharpoonup> replica"
  cu_lock :: "(session \<times> nat) option"
  cu_done :: "replica set"

text \<open>The connection a replica has in hand; the others of its pool are free.\<close>

fun in_hand :: "phase \<Rightarrow> session option" where
  "in_hand (Connected s) = Some s"
| "in_hand (Leading s c) = Some s"
| "in_hand (Releasing s r) = Some s"
| "in_hand _ = None"

definition set_phase :: "replica \<Rightarrow> phase \<Rightarrow> cluster \<Rightarrow> cluster" where
  "set_phase i p c = c\<lparr>cu_phase := (cu_phase c)(i := p)\<rparr>"

section \<open>The lock of the database\<close>

text \<open>\<^verbatim>\<open>pg_try_advisory_lock\<close> and \<^verbatim>\<open>pg_advisory_unlock\<close> in session \<open>s\<close>, and the end of a session.\<close>

definition pg_try_lock :: "session \<Rightarrow> (session \<times> nat) option \<Rightarrow> bool \<times> (session \<times> nat) option" where
  "pg_try_lock s l =
     (case l of
        None \<Rightarrow> (True, Some (s, 1))
      | Some (h, n) \<Rightarrow> if h = s then (True, Some (s, n + 1)) else (False, l))"

definition pg_unlock :: "session \<Rightarrow> (session \<times> nat) option \<Rightarrow> (session \<times> nat) option" where
  "pg_unlock s l =
     (case l of
        None \<Rightarrow> None
      | Some (h, n) \<Rightarrow> if h \<noteq> s then l else if n \<le> 1 then None else Some (s, n - 1))"

definition pg_end :: "session \<Rightarrow> (session \<times> nat) option \<Rightarrow> (session \<times> nat) option" where
  "pg_end s l = (case l of None \<Rightarrow> None | Some (h, n) \<Rightarrow> if h = s then None else l)"

section \<open>Steps\<close>

text \<open>
  Where \<^verbatim>\<open>Run\<close> goes after \<^verbatim>\<open>release\<close>: it returns if its own context is done, or with an error that is not a cancellation, and
  waits otherwise.
\<close>

definition after_lead :: "bool \<Rightarrow> elected \<Rightarrow> phase" where
  "after_lead ctxDone r = (if ctxDone then Stopped None else if r = Fatal then Stopped (Some Fatal) else Waiting)"

inductive leader_step :: "cluster \<Rightarrow> cluster \<Rightarrow> bool" where
  stop: "cu_phase c i \<in> {Campaigning, Waiting} \<Longrightarrow> i \<in> cu_done c \<Longrightarrow> leader_step c (set_phase i (Stopped None) c)"
| conn_fails: "cu_phase c i = Campaigning \<Longrightarrow> leader_step c (set_phase i Waiting c)"
| conn_new: "cu_phase c i = Campaigning \<Longrightarrow> cu_owner c s = None \<Longrightarrow>
    leader_step c (set_phase i (Connected s) (c\<lparr>cu_owner := (cu_owner c)(s \<mapsto> i), cu_alive := insert s (cu_alive c)\<rparr>))"
| conn_pooled: "cu_phase c i = Campaigning \<Longrightarrow> cu_owner c s = Some i \<Longrightarrow> leader_step c (set_phase i (Connected s) c)"
| try_lock: "cu_phase c i = Connected s \<Longrightarrow> s \<in> cu_alive c \<Longrightarrow> pg_try_lock s (cu_lock c) = (got, l) \<Longrightarrow>
    leader_step c (set_phase i (if got then Leading s (i \<in> cu_done c) else Waiting) (c\<lparr>cu_lock := l\<rparr>))"
| try_fails: "cu_phase c i = Connected s \<Longrightarrow> leader_step c (set_phase i Waiting c)"
| try_lost: "cu_phase c i = Connected s \<Longrightarrow> s \<in> cu_alive c \<Longrightarrow>
    leader_step c (set_phase i Waiting (c\<lparr>cu_lock := snd (pg_try_lock s (cu_lock c))\<rparr>))"
| ping_fails: "cu_phase c i = Leading s b \<Longrightarrow> leader_step c (set_phase i (Leading s True) c)"
| elected_returns: "cu_phase c i = Leading s b \<Longrightarrow> leader_step c (set_phase i (Releasing s r) c)"
| unlock: "cu_phase c i = Releasing s r \<Longrightarrow> s \<in> cu_alive c \<Longrightarrow>
    leader_step c (set_phase i (after_lead (i \<in> cu_done c) r) (c\<lparr>cu_lock := pg_unlock s (cu_lock c)\<rparr>))"
| unlock_fails: "cu_phase c i = Releasing s r \<Longrightarrow> leader_step c (set_phase i (after_lead (i \<in> cu_done c) r) c)"
| waited: "cu_phase c i = Waiting \<Longrightarrow> leader_step c (set_phase i Campaigning c)"
| session_ends: "leader_step c (c\<lparr>cu_alive := cu_alive c - {s}, cu_lock := pg_end s (cu_lock c)\<rparr>)"
| shutdown: "leader_step c (c\<lparr>cu_done := insert i (cu_done c)\<rparr>)"

definition leader_init :: cluster where
  "leader_init = \<lparr>cu_phase = (\<lambda>_. Campaigning), cu_alive = {}, cu_owner = Map.empty, cu_lock = None, cu_done = {}\<rparr>"

definition leader_reachable :: "cluster \<Rightarrow> bool" where
  "leader_reachable c \<longleftrightarrow> leader_step\<^sup>*\<^sup>* leader_init c"

section \<open>At most one leader with a live session\<close>

text \<open>
  A connection in hand belongs to its replica, the holder of the lock is a live session, and a replica that leads over a live session, or
  is about to release it, holds the lock.
\<close>

definition leader_inv :: "cluster \<Rightarrow> bool" where
  "leader_inv c \<longleftrightarrow>
     (\<forall>i s. in_hand (cu_phase c i) = Some s \<longrightarrow> cu_owner c s = Some i) \<and>
     (\<forall>h n. cu_lock c = Some (h, n) \<longrightarrow> h \<in> cu_alive c \<and> 1 \<le> n) \<and>
     cu_alive c \<subseteq> dom (cu_owner c) \<and>
     (\<forall>i s b. cu_phase c i = Leading s b \<longrightarrow> s \<in> cu_alive c \<longrightarrow> (\<exists>n. cu_lock c = Some (s, n)))"

lemma leader_inv_init: "leader_inv leader_init"
  by (simp add: leader_inv_def leader_init_def)

lemma set_phase_simps [simp]:
  "cu_phase (set_phase i p c) = (cu_phase c)(i := p)" "cu_alive (set_phase i p c) = cu_alive c" "cu_owner (set_phase i p c) = cu_owner c"
  "cu_lock (set_phase i p c) = cu_lock c" "cu_done (set_phase i p c) = cu_done c"
  by (simp_all add: set_phase_def)

lemma in_hand_after [simp]: "in_hand (after_lead d r) = None" "after_lead d r \<noteq> Leading s b"
  by (simp_all add: after_lead_def)

lemma try_lock_other: "pg_try_lock s (Some (h, n)) = (got, l) \<Longrightarrow> h \<noteq> s \<Longrightarrow> \<not> got \<and> l = Some (h, n)"
  by (simp add: pg_try_lock_def)

lemma try_lock_holder: "pg_try_lock s l = (True, l') \<Longrightarrow> \<exists>n. l' = Some (s, n) \<and> 1 \<le> n"
  by (auto simp: pg_try_lock_def split: option.splits if_splits)

lemma try_lock_result: "snd (pg_try_lock s l) = Some (h, n) \<Longrightarrow> (h = s \<and> 1 \<le> n) \<or> l = Some (h, n)"
  by (auto simp: pg_try_lock_def split: option.splits if_splits)

lemma unlock_result: "pg_unlock s l = Some (h, n) \<Longrightarrow> \<exists>m. l = Some (h, m) \<and> (m < 1 \<or> 1 \<le> n)"
  by (auto simp: pg_unlock_def split: option.splits if_splits)

lemma lock_of_others:
  "h \<noteq> s \<Longrightarrow> pg_unlock s (Some (h, n)) = Some (h, n)" "h \<noteq> s \<Longrightarrow> pg_end s (Some (h, n)) = Some (h, n)"
  "h \<noteq> s \<Longrightarrow> snd (pg_try_lock s (Some (h, n))) = Some (h, n)"
  by (simp_all add: pg_unlock_def pg_end_def pg_try_lock_def)

text \<open>Two connections in hand are the same only in the same hand.\<close>

lemma leader_invD:
  assumes "leader_inv c"
  shows "in_hand (cu_phase c i) = Some s \<Longrightarrow> cu_owner c s = Some i"
    and "cu_lock c = Some (h, n) \<Longrightarrow> h \<in> cu_alive c \<and> 1 \<le> n"
    and "s \<in> cu_alive c \<Longrightarrow> cu_owner c s \<noteq> None"
    and "cu_phase c i = Leading s b \<Longrightarrow> s \<in> cu_alive c \<Longrightarrow> \<exists>n. cu_lock c = Some (s, n)"
  using assms unfolding leader_inv_def by blast+

lemma leader_invI:
  assumes "\<And>i s. in_hand (cu_phase c i) = Some s \<Longrightarrow> cu_owner c s = Some i"
    and "\<And>h n. cu_lock c = Some (h, n) \<Longrightarrow> h \<in> cu_alive c \<and> 1 \<le> n"
    and "\<And>s. s \<in> cu_alive c \<Longrightarrow> cu_owner c s \<noteq> None"
    and "\<And>i s b. cu_phase c i = Leading s b \<Longrightarrow> s \<in> cu_alive c \<Longrightarrow> \<exists>n. cu_lock c = Some (s, n)"
  shows "leader_inv c"
  unfolding leader_inv_def using assms by (intro conjI allI impI subsetI domIff [THEN iffD2]) blast+

lemma in_hand_unique:
  "leader_inv c \<Longrightarrow> in_hand (cu_phase c i) = Some s \<Longrightarrow> in_hand (cu_phase c j) = Some s \<Longrightarrow> i = j"
  by (metis leader_invD(1) option.inject)

text \<open>A step that changes the phase of one replica and the lock on behalf of its session.\<close>

lemma leader_inv_lock:
  assumes "leader_inv c" "in_hand (cu_phase c i) = Some s" "in_hand p \<in> {None, Some s}"
    and keep: "\<And>h n. cu_lock c = Some (h, n) \<Longrightarrow> h \<noteq> s \<Longrightarrow> l = Some (h, n)"
    and alive: "\<And>h n. l = Some (h, n) \<Longrightarrow> h \<in> cu_alive c \<and> 1 \<le> n"
    and lead: "\<And>b. p = Leading s b \<Longrightarrow> s \<in> cu_alive c \<Longrightarrow> \<exists>n. l = Some (s, n)"
  shows "leader_inv (set_phase i p (c\<lparr>cu_lock := l\<rparr>))"
proof (rule leader_invI)
  fix j s' assume "in_hand (cu_phase (set_phase i p (c\<lparr>cu_lock := l\<rparr>)) j) = Some s'"
  then show "cu_owner (set_phase i p (c\<lparr>cu_lock := l\<rparr>)) s' = Some j"
    using leader_invD(1) [OF assms(1)] assms(2,3) by (cases "j = i") auto
next
  fix j s' b assume j: "cu_phase (set_phase i p (c\<lparr>cu_lock := l\<rparr>)) j = Leading s' b" "s' \<in> cu_alive (set_phase i p (c\<lparr>cu_lock := l\<rparr>))"
  show "\<exists>n. cu_lock (set_phase i p (c\<lparr>cu_lock := l\<rparr>)) = Some (s', n)"
  proof (cases "j = i")
    case True
    with j assms(3) lead [of b] show ?thesis by auto
  next
    case False
    with j have "cu_phase c j = Leading s' b" "s' \<in> cu_alive c" by simp_all
    moreover from this have "s' \<noteq> s" using in_hand_unique [OF assms(1,2), of j] False by auto
    ultimately show ?thesis using leader_invD(4) [OF assms(1), of j s' b] keep by auto
  qed
qed (use alive leader_invD(3) [OF assms(1)] in simp_all)

lemma leader_inv_phase:
  assumes "leader_inv c" "\<And>s. in_hand p = Some s \<Longrightarrow> cu_owner c s = Some i" "\<And>s b. p = Leading s b \<Longrightarrow> \<exists>b'. cu_phase c i = Leading s b'"
  shows "leader_inv (set_phase i p c)"
proof (rule leader_invI)
  fix j s assume "in_hand (cu_phase (set_phase i p c) j) = Some s"
  then show "cu_owner (set_phase i p c) s = Some j"
    using leader_invD(1) [OF assms(1)] assms(2) by (cases "j = i") auto
next
  fix j s b assume "cu_phase (set_phase i p c) j = Leading s b" "s \<in> cu_alive (set_phase i p c)"
  then show "\<exists>n. cu_lock (set_phase i p c) = Some (s, n)"
    using leader_invD(4) [OF assms(1)] assms(3) by (cases "j = i") auto
qed (use leader_invD(2,3) [OF assms(1)] in simp_all)

lemma leader_inv_step: "leader_step c c' \<Longrightarrow> leader_inv c \<Longrightarrow> leader_inv c'"
proof (induction rule: leader_step.induct)
  case (conn_new c i s)
  note inv = leader_invD [OF conn_new(3)]
  have "leader_inv (c\<lparr>cu_owner := (cu_owner c)(s \<mapsto> i), cu_alive := insert s (cu_alive c)\<rparr>)"
  proof (rule leader_invI)
    fix j s' b assume "cu_phase (c\<lparr>cu_owner := (cu_owner c)(s \<mapsto> i), cu_alive := insert s (cu_alive c)\<rparr>) j = Leading s' b"
    then have "in_hand (cu_phase c j) = Some s'" "cu_phase c j = Leading s' b" by simp_all
    moreover from this have "s' \<noteq> s" using inv(1) [of j s'] conn_new(2) by auto
    moreover assume "s' \<in> cu_alive (c\<lparr>cu_owner := (cu_owner c)(s \<mapsto> i), cu_alive := insert s (cu_alive c)\<rparr>)"
    ultimately show "\<exists>n. cu_lock (c\<lparr>cu_owner := (cu_owner c)(s \<mapsto> i), cu_alive := insert s (cu_alive c)\<rparr>) = Some (s', n)"
      using inv(4) by simp
  qed (use inv conn_new(2) in force)+
  then show ?case by (rule leader_inv_phase) simp_all
next
  case (conn_pooled c i s)
  then show ?case by (intro leader_inv_phase) simp_all
next
  case (try_lock c i s got l)
  have "in_hand (cu_phase c i) = Some s" using try_lock(1) by simp
  then show ?case
  proof (rule leader_inv_lock [OF try_lock(4)])
    show "h \<in> cu_alive c \<and> 1 \<le> n" if "l = Some (h, n)" for h n
      using that try_lock(2,3) try_lock_result [of s "cu_lock c" h n] leader_invD(2) [OF try_lock(4)] by auto
    show "\<exists>n. l = Some (s, n)" if "(if got then Leading s (i \<in> cu_done c) else Waiting) = Leading s b" for b
      using that try_lock(3) try_lock_holder [of s "cu_lock c" l] by (auto split: if_splits)
  qed (use try_lock(3) try_lock_other in \<open>auto split: if_splits\<close>)
next
  case (try_lost c i s)
  have "in_hand (cu_phase c i) = Some s" using try_lost(1) by simp
  then show ?case
  proof (rule leader_inv_lock [OF try_lost(3)])
    show "h \<in> cu_alive c \<and> 1 \<le> n" if "snd (pg_try_lock s (cu_lock c)) = Some (h, n)" for h n
      using that try_lost(2) try_lock_result [of s "cu_lock c" h n] leader_invD(2) [OF try_lost(3)] by auto
  qed (simp_all add: lock_of_others)
next
  case (unlock c i s r)
  have "in_hand (cu_phase c i) = Some s" using unlock(1) by simp
  then show ?case
  proof (rule leader_inv_lock [OF unlock(3)])
    show "h \<in> cu_alive c \<and> 1 \<le> n" if "pg_unlock s (cu_lock c) = Some (h, n)" for h n
      using unlock_result [OF that] leader_invD(2) [OF unlock(3)] by auto
  qed (simp_all add: lock_of_others)
next
  case (session_ends c s)
  note inv = leader_invD [OF session_ends]
  have ended: "pg_end s (cu_lock c) = Some (h, n) \<Longrightarrow> cu_lock c = Some (h, n) \<and> h \<noteq> s" for h n
    by (auto simp: pg_end_def split: option.splits if_splits)
  show ?case
  proof (rule leader_invI)
    fix j s' b assume "cu_phase (c\<lparr>cu_alive := cu_alive c - {s}, cu_lock := pg_end s (cu_lock c)\<rparr>) j = Leading s' b"
      "s' \<in> cu_alive (c\<lparr>cu_alive := cu_alive c - {s}, cu_lock := pg_end s (cu_lock c)\<rparr>)"
    then show "\<exists>n. cu_lock (c\<lparr>cu_alive := cu_alive c - {s}, cu_lock := pg_end s (cu_lock c)\<rparr>) = Some (s', n)"
      using inv(4) [of j s' b] lock_of_others(2) by auto
  qed (use inv ended in force)+
next
  case (shutdown c i)
  then show ?case using leader_invD [OF shutdown] by (intro leader_invI) simp_all
next
  case (ping_fails c i s b)
  then show ?case using leader_invD(1) by (intro leader_inv_phase) auto
next
  case (elected_returns c i s b r)
  then show ?case using leader_invD(1) by (intro leader_inv_phase) auto
qed (rule leader_inv_phase; simp)+

lemma reachable_inv: "leader_reachable c \<Longrightarrow> leader_inv c"
  unfolding leader_reachable_def by (induction rule: rtranclp_induct) (auto intro: leader_inv_init leader_inv_step)

text \<open>
  C16. However the replicas, their connections and the ends of their sessions interleave, at most one replica leads over a live
  session, and it holds the lock. The elected function of another replica can run only over a session that has ended and is not
  noticed yet.
\<close>

theorem leader_is_unique:
  assumes "leader_reachable c"
    and "cu_phase c i = Leading s b" and "s \<in> cu_alive c" and "cu_phase c j = Leading s' b'" and "s' \<in> cu_alive c"
  shows "i = j \<and> s = s' \<and> (\<exists>n. cu_lock c = Some (s, n))"
proof -
  have inv: "leader_inv c" using assms(1) by (rule reachable_inv)
  then obtain n m where "cu_lock c = Some (s, n)" "cu_lock c = Some (s', m)"
    using leader_invD(4) assms(2-5) by metis
  then show ?thesis using in_hand_unique [OF inv, of i s j] assms(2,4) by simp
qed

text \<open>A replica campaigns again only after it has waited, however its term ended.\<close>

theorem no_campaign_without_wait:
  "leader_step c c' \<Longrightarrow> cu_phase c' i = Campaigning \<Longrightarrow> cu_phase c i \<in> {Campaigning, Waiting}"
  by (induction rule: leader_step.induct) (auto simp: after_lead_def split: if_splits)

text \<open>
  A session that has ended is noticed at the next ping only. Until then the former leader goes on beside its successor: two relays may run at
  once, which the relay's delivery at least once allows for.
\<close>

definition two_leaders :: cluster where
  "two_leaders = \<lparr>cu_phase = (\<lambda>_. Campaigning)(0 := Leading 0 False, 1 := Leading 1 False), cu_alive = {1},
     cu_owner = [0 \<mapsto> 0, 1 \<mapsto> 1], cu_lock = Some (1, 1), cu_done = {}\<rparr>"

lemma try_lock_free:
  "cu_phase c i = Connected s \<Longrightarrow> s \<in> cu_alive c \<Longrightarrow> cu_lock c = None \<Longrightarrow> i \<notin> cu_done c \<Longrightarrow>
     leader_step c (set_phase i (Leading s False) (c\<lparr>cu_lock := Some (s, 1)\<rparr>))"
  using leader_step.try_lock [of c i s True "Some (s, 1)"] by (simp add: pg_try_lock_def)

theorem two_leaders_reachable: "leader_reachable two_leaders"
proof -
  let ?p = "\<lambda>_ :: replica. Campaigning"
  let ?c1 = "\<lparr>cu_phase = ?p(0 := Connected 0), cu_alive = {0}, cu_owner = [0 \<mapsto> 0], cu_lock = None, cu_done = {}\<rparr>"
  let ?c2 = "\<lparr>cu_phase = ?p(0 := Leading 0 False), cu_alive = {0}, cu_owner = [0 \<mapsto> 0], cu_lock = Some (0, 1), cu_done = {}\<rparr>"
  let ?c3 = "\<lparr>cu_phase = ?p(0 := Leading 0 False), cu_alive = {}, cu_owner = [0 \<mapsto> 0], cu_lock = None, cu_done = {}\<rparr>"
  let ?c4 = "\<lparr>cu_phase = ?p(0 := Leading 0 False, 1 := Connected 1), cu_alive = {1}, cu_owner = [0 \<mapsto> 0, 1 \<mapsto> 1], cu_lock = None, cu_done = {}\<rparr>"
  have "leader_step leader_init ?c1" using conn_new [of leader_init 0 0] by (simp add: leader_init_def set_phase_def)
  moreover have "leader_step ?c1 ?c2" using try_lock_free [of ?c1 0 0] by (simp add: set_phase_def)
  moreover have "leader_step ?c2 ?c3" using session_ends [of ?c2 0] by (simp add: pg_end_def)
  moreover have "leader_step ?c3 ?c4" using conn_new [of ?c3 1 1] by (simp add: set_phase_def fun_upd_twist)
  moreover have "leader_step ?c4 two_leaders" using try_lock_free [of ?c4 1 1] by (simp add: set_phase_def two_leaders_def fun_upd_twist)
  ultimately show ?thesis unfolding leader_reachable_def by (meson rtranclp.rtrancl_into_rtrancl rtranclp.rtrancl_refl)
qed

theorem leader_is_unique_witness:
  "leader_reachable two_leaders \<and> cu_phase two_leaders 0 = Leading 0 False \<and> 0 \<notin> cu_alive two_leaders \<and>
   cu_phase two_leaders 1 = Leading 1 False \<and> (\<exists>n. cu_lock two_leaders = Some (1, n))"
proof -
  have "cu_phase two_leaders 1 = Leading 1 False" "1 \<in> cu_alive two_leaders" by (simp_all add: two_leaders_def)
  from leader_is_unique [OF two_leaders_reachable this this] two_leaders_reachable show ?thesis by (simp add: two_leaders_def)
qed

end
