(* ===== verification/Spec2Isabelle.thy ===== *)
theory Spec2Isabelle
  imports Lru_Cache System Effperm Admin_Sync Templates Role_Graph Console_Forms Sdk Leader
begin

text \<open>
  Sydom is a permission platform: a control plane keeps the roles, permissions, grants,
  inheritances, user bindings and row-level data policies of many applications in PostgreSQL, and a
  sidecar next to each application holds a replica of that application's policy in memory and
  answers its authorization requests. This development models both sides and the protocol between
  them, from the Go sources under \<^verbatim>\<open>src/internal\<close>.

  \<^bold>\<open>The parts and their theories.\<close>

  \<^item> \<open>Prelude\<close>: bytes, 64-bit integers, errors as sums, the loops that stop at the first error.
  \<^item> \<open>Rules\<close>: policy rows and deltas of the control plane, the messages of the sync protocol and the
    kernel's types (\<^verbatim>\<open>controlplane/types.go\<close>, \<^verbatim>\<open>translate\<close>, \<^verbatim>\<open>syncclient/translate.go\<close>).
  \<^item> \<open>Lru_Cache\<close>: the bounded decision cache with its linked list and index (\<^verbatim>\<open>kernel/cache.go\<close>,
    \<^verbatim>\<open>obs/cache.go\<close>).
  \<^item> \<open>Casbin\<close>: the third-party policy engine as a contract, and the embedded access-control model
    (\<^verbatim>\<open>kernel/model.go\<close>) as the executable decision \<open>model_allows\<close>.
  \<^item> \<open>Kernel\<close>: the engine with its pinned domain, version and readiness (\<^verbatim>\<open>kernel/engine.go\<close>).
  \<^item> \<open>Json\<close>, \<open>Condition\<close>, \<open>Table\<close>, \<open>Row_Filter\<close>: conditions of data policies, the table that holds
    them, and the filters made from them (\<^verbatim>\<open>dataperm\<close>).
  \<^item> \<open>Sync_Client\<close>, \<open>Authorizer\<close>: the reconnecting subscription of a sidecar and its gRPC service with
    the staleness guard (\<^verbatim>\<open>syncclient\<close>, \<^verbatim>\<open>sidecar/authz\<close>).
  \<^item> \<open>Store\<close>, \<open>Projection\<close>, \<open>Manager\<close>, \<open>Write_Invariants\<close>: the tables and statements of the control
    plane, the projection of business rows to policy rows, and the versioned writes with audit and
    outbox (\<^verbatim>\<open>controlplane/store\<close>, \<^verbatim>\<open>projection\<close>, \<^verbatim>\<open>policy\<close>).
  \<^item> \<open>Relay\<close>, \<open>Policy_Sync\<close>: the outbox relay, the broadcast envelope, the hub and the streams
    (\<^verbatim>\<open>outbox\<close>, \<^verbatim>\<open>broadcast\<close>, \<^verbatim>\<open>policysync\<close>).
  \<^item> \<open>System\<close>: writes, relay, channel, hub and one stream as one run.
  \<^item> \<open>Iac\<close>, \<open>Policy_As_Code\<close>: the declarative policy document, its plan and its import (\<^verbatim>\<open>iac\<close>,
    \<^verbatim>\<open>policy/policy_as_code.go\<close>).
  \<^item> \<open>Auth\<close>: signed requests over gRPC and REST and the encrypted secrets behind them (\<^verbatim>\<open>internal/auth\<close>,
    \<^verbatim>\<open>restgw/auth.go\<close>, \<^verbatim>\<open>crypto\<close>, \<^verbatim>\<open>secret\<close>).
  \<^item> \<open>Admin_Authz\<close>: the operators of the platform, their enforcer, the guarded calls, registration and
    invitation (\<^verbatim>\<open>adminauthz\<close>, \<^verbatim>\<open>mgmt/authz.go\<close>, \<^verbatim>\<open>mgmt/accounts.go\<close>, \<^verbatim>\<open>store/quota.go\<close>).
  \<^item> \<open>Go_Time\<close>, \<open>Admin_Ops\<close>, \<open>Admin_Sync\<close>: dates, the transactions on applications, operators, admin roles and plans,
    and these operations together with the enforcer (\<^verbatim>\<open>mgmt/admin_ops.go\<close>, \<^verbatim>\<open>mgmt/billing.go\<close>,
    \<^verbatim>\<open>mgmt/tenant_usage.go\<close>, \<^verbatim>\<open>store/subscription.go\<close>).
  \<^item> \<open>Oidc\<close>, \<open>Sso\<close>, \<open>Console\<close>, \<open>Console_Forms\<close>: the OpenID Connect client, the identity providers of the tenants, the sessions and
    logins of the web console, and its forms on the policy of an application (\<^verbatim>\<open>internal/oidc\<close>, \<^verbatim>\<open>ssologin\<close>, \<^verbatim>\<open>mgmt/sso.go\<close>, \<^verbatim>\<open>console\<close>).
  \<^item> \<open>Effperm\<close>: effective permissions, explained decisions, simulated role changes and previewed filters, computed by a
    transient kernel over the stored policy (\<^verbatim>\<open>effperm\<close> and its handlers under \<^verbatim>\<open>mgmt\<close>).
  \<^item> \<open>Mgmt_Server\<close>, \<open>Templates\<close>, \<open>Audit_Query\<close>: the handlers over the policy manager, templates of policies, and the paged
    reading of the audit logs (\<^verbatim>\<open>mgmt/server.go\<close>, \<^verbatim>\<open>presets\<close>, \<^verbatim>\<open>tenanttemplate\<close>, \<^verbatim>\<open>mgmt/audit.go\<close>, \<^verbatim>\<open>store/audit.go\<close>).
  \<^item> \<open>Listing\<close>, \<open>Role_Graph\<close>, \<open>Rest_Gateway\<close>: the statements of the paged listings, the picture of a role, and the routes and the
    pipeline of the REST gateway (\<^verbatim>\<open>mgmt/listpage.go\<close>, \<^verbatim>\<open>mgmt/admin_reads.go\<close>, \<^verbatim>\<open>mgmt/role_graph.go\<close>, \<^verbatim>\<open>restgw\<close>).
  \<^item> \<open>Leader\<close>: the election of the replica that runs the relay (\<^verbatim>\<open>controlplane/leader\<close>).
  \<^item> \<open>Sdk\<close>: the client library of an application, from the calls to the sidecar to the SQL and HTTP helpers (\<^verbatim>\<open>src/sdk/go\<close>).

  \<^bold>\<open>How the code is represented.\<close> A struct is a record, an operation that changes state returns the new
  state, an error is the left side of a sum, a panic is an error value or \<^const>\<open>None\<close>. A database
  table is a list of rows; a statement checks the keys and references of the schema and fails as the
  database does; a transaction is a function whose failure leaves the database as it was. What comes
  from outside (the answers of the network, the clock, random numbers, identity values, whether a
  transaction begins and commits) is an argument, so that a theorem holds for every outcome. The
  casbin engine, HMAC, SHA-256, AES-GCM, RSA, ECDSA, the protobuf bytes and YAML are parameters; what is relied on is
  stated as the laws of a locale (\<open>casbin_enforcer\<close>, \<open>admin_casbin\<close>) or as a hypothesis, and a
  concrete instance shows that it can hold. Concurrent operations that the code serialises by a
  lock are single steps; the others appear as interleavings (\<open>System\<close>) or as two states of the database
  seen by one operation (the snapshot, the import, the admin enforcer).

  \<^bold>\<open>What is shown.\<close>

  \<^item> The replica. A delta survives the wire (C1); the cache is least-recently-used (C2); a ready kernel
    decides exactly by the rules it accepted, and after a failed update it is as before or answers nothing (C3, C4);
    batches are answered pointwise (\<open>batch_is_pointwise\<close>). A sidecar fed with true messages, lost, repeated and out of order
    as they may be, decides as one committed version (C14), catches up with every handled event (\<open>handled_event_catches_up\<close>),
    decides \<^verbatim>\<open>Check\<close> by it (C17), and says Unavailable when it is stale (\<open>unfresh_sidecar_decides_nothing\<close>). The retry delay is
    bounded (C13).
  \<^item> Data policies. The accepted conditions are exactly those of the grammar (C6); the table holds the accepted
    policies (C8); the filter shows a row exactly if an allow policy admits it and no deny policy does (C10), fails
    closed (C11), and keeps values out of the SQL text (C12); the client library hands it to the database with every
    placeholder bound to its own argument (C15), and its middleware serves only what was allowed (\<open>middleware_serves_only_allowed\<close>).
  \<^item> Writes. Cycle check and difference are exact (\<open>cycle_check_exact\<close>, \<open>diff_exact\<close>); every write is atomic, isolated, versioned, audited
    and announced (C21); writes keep the schema, the acyclic hierarchy and the agreement of stored and projected
    rules (C22, C23).
  \<^item> Delivery. The relay is at-least-once and in order (C24) and run by one live leader (C16), envelopes round-trip (\<open>envelope_roundtrip\<close>), no event is lost silently
    and none out of order (C27, C28), heartbeats announce the current version (C29).
  \<^item> End to end. A ready sidecar decides as the business rows committed under its version (C31).
  \<^item> Policy as code. The plan touches only what it governs and is empty exactly when settled (C33, C34); an import is
    one atomic write that keeps bindings and all invariants (C35, C37, \<open>import_keeps_user_bindings\<close>).
  \<^item> Analysis. The explanation of a decision, the simulated change and the listed permissions are those of the kernel
    over the stored policy (C7, C9, C38).
  \<^item> Templates and logs. A capture ends in a well-formed template (C18); following the cursors of the audit log ends and
    visits every row once (C36); the answers of the write handlers tell the version (\<open>serve_tells_version\<close>); no text of a
    request enters the statement of a listing (\<open>listing_text_is_fixed\<close>); the graph of a role is exact (\<open>role_graph_exact\<close>).
  \<^item> Access to the control plane. Signed requests are accepted and bound to what they sign (C39, C40); a call is
    authorized only inside the tenant (C20) and by the rows stored when it begins (C19); a REST call on an application was signed, authorized on the
    application of its path, and not held up by its status (C26); a session of single sign-on rests
    on a one-time state, a verified token and a member of the tenant (C5); a form of the console needs the token of its session, the
    authorization on the application of its path and the confirmation it asks for (\<open>form_is_guarded\<close>).
  \<^item> Defects, stated as theorems about the code as it is: C25, C30, C32, and in their theories \<open>null_child_panics\<close>,
    \<open>removal_without_resource_is_lost\<close>, \<open>diff_loses_row_with_separator\<close>, \<open>undecodable_rows_starve_relay\<close>,
    \<open>reimport_turns_deny_into_allow\<close>, \<open>new_enforcer_may_miss_a_write\<close>, \<open>disabled_operator_still_authorized\<close>,
    \<open>jit_login_may_be_super_admin\<close>, \<open>template_turns_deny_into_allow\<close> and \<open>cut_keys_collide\<close>.

  \<^bold>\<open>Bounds.\<close> The loops of the code are structural recursions over the slices they walk; the search for
  cycles recurses on the roles not yet visited. Three have no bound of their own, the search for a free key of a
  template, a reader that follows cursors and the recursive query for the ancestors of a role: they are partial functions, and C18, C36 and
  \<open>role_graph_exact\<close> show that they return. Role links are followed to the depth \<open>lvl\<close> of the engine,
  ten in the concrete instance, as in casbin. Versions and identifiers are 64-bit words; where a version
  grows, the number of writes is bounded by \<open>2 ^ 63\<close> so that it does not wrap.

  \<^bold>\<open>Not modelled.\<close> The contents of the console's pages, and its other forms, which decode their fields and pass the modelled chain of a
  write or a read; the copying of the rows of a listing into messages, and the fields of a REST message beyond the
  identifiers it is authorized on; configuration, start-up, metrics and TLS: input and output around the parts above, or
  third-party logic.
\<close>



text \<open>
  C32. A data policy deleted in the control plane stays in force on every running sidecar. The
  manager's delete commits, and its delta names the identifier only; what the sidecar reads from
  the wire and applies leaves the policies of every named resource as they were.
\<close>

theorem deleted_data_policy_stays_in_force:
  assumes "exec pg E app (WDeleteDataPolicy i) db = (Inr (Some d), db')"
    and "deltaFromProto (DeltaToProto d) = Inr kd" and "res \<noteq> []"
  shows "(\<forall>r \<in> set (data_policies db'). \<not> (dr_app r = app \<and> dp_ID (dr_policy r) = i)) \<and>
    (\<exists>t'. foldl (\<lambda>ot c. Option.bind ot (Table_ApplyChange (kdc_Op c) (kdc_Policy c))) (Some t) (kd_DataChanges kd) = Some t' \<and>
       Lookup t' res = Lookup t res)"
proof -
  obtain db1 where del: "Store_DeleteDataPolicy app i db = Inr db1"
      and d: "d_DataChanges d = [\<lparr>dc_Op = ChangeRemove, dc_Policy = zero_data_policy\<lparr>dp_ID := i\<rparr>\<rparr>]"
      and db': "data_policies db' = data_policies db1"
    using assms(1)
    by (auto simp: Manager_DeleteDataPolicy_def runVersionedWriteData_def outcome_def Let_def run_sink_def sink_Persist_def
        InsertAudit_def BumpAppVersion_def split: if_splits sum.splits sink.splits option.splits)
  have "kd_DataChanges kd = [\<lparr>kdc_Op = ChangeRemove, kdc_Policy = toKernel (zero_data_policy\<lparr>dp_ID := i\<rparr>)\<rparr>]"
    using assms(2) d by (auto simp: deltaFromProto_DeltaToProto)
  moreover have "\<forall>r \<in> set (data_policies db'). \<not> (dr_app r = app \<and> dp_ID (dr_policy r) = i)"
    using del by (auto simp: db' Store_DeleteDataPolicy_def Let_def split: if_splits)
  ultimately show ?thesis
    using assms(3) by (simp add: Table_ApplyChange_def toKernel_def zero_data_policy_def removeLocked_def Lookup_def Let_def)
qed

theorem deleted_data_policy_stays_in_force_witness:
  "\<exists>d db' kd t'. exec demo_pg demo_env 1 (WDeleteDataPolicy 5) policy_db = (Inr (Some d), db') \<and>
     deltaFromProto (DeltaToProto d) = Inr kd \<and> data_policies db' = [] \<and>
     foldl (\<lambda>ot c. Option.bind ot (Table_ApplyChange (kdc_Op c) (kdc_Policy c))) (Some [''order'' \<mapsto> [the (toStored demo_policy)]])
       (kd_DataChanges kd) = Some t' \<and> Lookup t' ''order'' = ([the (toStored demo_policy)], True)"
proof -
  let ?t = "[''order'' \<mapsto> [the (toStored demo_policy)]]"
  obtain d db' where run: "exec demo_pg demo_env 1 (WDeleteDataPolicy 5) policy_db = (Inr (Some d), db')" "data_policies db' = []"
    using policy_db_delete by (auto split: prod.splits sum.splits option.splits)
  obtain kd where kd: "deltaFromProto (DeltaToProto d) = Inr kd" using deltaFromProto_DeltaToProto by blast
  from deleted_data_policy_stays_in_force [OF run(1) kd, of "''order''" ?t] run kd show ?thesis
    by (auto simp: Lookup_def)
qed

end
